(* ===== verification/Prelude.thy ===== *)
theory Prelude
  imports Main "HOL-Library.Sublist"
begin

text \<open>
  Shared vocabulary of the development: the type names every component uses, the collections of
  simplification rules the component theories extend, and the generic facts on lists, options and
  error sums that more than one component needs.

  Go values are represented as follows. A \<open>string\<close> or a byte slice is an Isabelle
  \<open>string\<close>, one \<open>char\<close> per byte. An \<open>int64\<close> identifier is an \<open>int\<close>: the code never
  computes with identifiers, it only compares, prints and parses them, and the parser's range
  check is modelled where it is made. A \<open>time.Time\<close> is an \<open>int\<close> counting nanoseconds, with
  \<open>0\<close> for the zero time. A pair \<open>(value, error)\<close> is a sum \<open>error + value\<close>.
\<close>

section \<open>Types and collections\<close>

type_synonym bytes = string
type_synonym gotime = int

named_theorems model_defs \<open>definitions a component's proofs unfold\<close>
named_theorems frame_simps \<open>what an operation leaves unchanged\<close>

definition IsZero :: "gotime \<Rightarrow> bool" where
  "IsZero t \<longleftrightarrow> t = 0"

text \<open>Sequencing of fallible computations that thread a world: the first error wins.\<close>

definition bindE :: "('e + 'a) \<times> 'w \<Rightarrow> ('a \<Rightarrow> 'w \<Rightarrow> ('e + 'b) \<times> 'w) \<Rightarrow> ('e + 'b) \<times> 'w" where
  "bindE m f = (case m of (Inl e, w) \<Rightarrow> (Inl e, w) | (Inr a, w) \<Rightarrow> f a w)"

lemma bindE_Inl [simp]: "bindE (Inl e, w) f = (Inl e, w)"
  and bindE_Inr [simp]: "bindE (Inr a, w) f = f a w"
  by (simp_all add: bindE_def)

lemma bindE_InrE:
  assumes "bindE m f = (Inr b, w')"
  obtains a w where "m = (Inr a, w)" and "f a w = (Inr b, w')"
  using assms by (auto simp: bindE_def split: prod.splits sum.splits)

text \<open>\<^verbatim>\<open>fmt.Errorf("...: %w", err)\<close>: the caller's error built from the callee's.\<close>

definition mapErr :: "('e \<Rightarrow> 'f) \<Rightarrow> ('e + 'a) \<times> 'w \<Rightarrow> ('f + 'a) \<times> 'w" where
  "mapErr f m = (case m of (Inl e, w) \<Rightarrow> (Inl (f e), w) | (Inr a, w) \<Rightarrow> (Inr a, w))"

lemma mapErr_Inl [simp]: "mapErr f (Inl e, w) = (Inl (f e), w)"
  and mapErr_Inr [simp]: "mapErr f (Inr a, w) = (Inr a, w)"
  by (simp_all add: mapErr_def)

lemma snd_mapErr [simp]: "snd (mapErr f m) = snd m"
  by (auto simp: mapErr_def split: prod.splits sum.splits)

lemma mapErr_eq_Inr [simp]: "mapErr f m = (Inr a, w) \<longleftrightarrow> m = (Inr a, w)"
  by (auto simp: mapErr_def split: prod.splits sum.splits)

text \<open>A property of the final world holds if every stage keeps it.\<close>

lemma snd_bindE:
  assumes "I (snd m)" and "\<And>a w. m = (Inr a, w) \<Longrightarrow> I w \<Longrightarrow> I (snd (f a w))"
  shows "I (snd (bindE m f))"
  using assms by (cases m; cases "fst m") (auto simp: bindE_def)

section \<open>Lists\<close>

lemma length_filter_eq_0: "length (filter P xs) = 0 \<longleftrightarrow> (\<forall>x \<in> set xs. \<not> P x)"
  by (simp add: filter_empty_conv)

lemma filter_drop_head: "filter P xs = y # ys \<Longrightarrow> P y \<and> y \<in> set xs"
  by (metis filter_eq_ConsD in_set_conv_decomp)

lemma distinct_map_filter: "distinct (map f xs) \<Longrightarrow> distinct (map f (filter P xs))"
  by (induction xs) auto

lemma distinct_map_inj:
  "distinct (map f xs) \<Longrightarrow> x \<in> set xs \<Longrightarrow> y \<in> set xs \<Longrightarrow> f x = f y \<Longrightarrow> x = y"
  by (induction xs) (auto simp: image_iff)

lemma filter_unique:
  assumes "distinct (map f xs)" and "x \<in> set xs"
  shows "filter (\<lambda>y. f y = f x) xs = [x]"
  using assms
proof (induction xs)
  case Nil
  then show ?case by simp
next
  case (Cons z zs)
  show ?case
  proof (cases "f z = f x")
    case True
    with Cons.prems have "z = x" by (meson distinct_map_inj list.set_intros(1))
    moreover have "filter (\<lambda>y. f y = f x) zs = []"
      using Cons.prems(1) True by (auto simp: filter_empty_conv image_iff)
    ultimately show ?thesis by simp
  next
    case False
    with Cons show ?thesis by auto
  qed
qed

lemma length_filter_le_set: "set (filter P xs) \<subseteq> set xs"
  by auto

end
