(* ===== verification/Go_Strings.thy ===== *)
theory Go_Strings
  imports Prelude
begin

text \<open>
  The part of Go's \<^verbatim>\<open>strings\<close>, \<^verbatim>\<open>strconv\<close> and \<^verbatim>\<open>unicode/utf8\<close> packages the program
  uses, on byte strings: decimal printing and the range-checked \<^verbatim>\<open>ParseInt\<close>, \<^verbatim>\<open>Split\<close> and
  \<^verbatim>\<open>SplitN\<close> on a one-byte separator, prefix operations, \<^verbatim>\<open>TrimSpace\<close> and rune counting.
\<close>

section \<open>Decimal printing and parsing\<close>

definition digit_char :: "nat \<Rightarrow> char" where
  "digit_char d = char_of (48 + d)"

definition digit_val :: "char \<Rightarrow> nat option" where
  "digit_val c = (if 48 \<le> (of_char c :: nat) \<and> (of_char c :: nat) \<le> 57
                  then Some (of_char c - 48) else None)"

lemma digit_val_char [simp]: "d < 10 \<Longrightarrow> digit_val (digit_char d) = Some d"
  by (simp add: digit_val_def digit_char_def)

lemma digit_val_Some_less: "digit_val c = Some d \<Longrightarrow> d < 10"
  by (auto simp: digit_val_def split: if_splits)

lemma digit_val_Some_char: "digit_val c = Some d \<Longrightarrow> digit_char d = c"
  by (auto simp: digit_val_def digit_char_def split: if_splits)

fun nat_dec :: "nat \<Rightarrow> string" where
  "nat_dec n = (if n < 10 then [digit_char n] else nat_dec (n div 10) @ [digit_char (n mod 10)])"

declare nat_dec.simps [simp del]

text \<open>\<^verbatim>\<open>fmt.Sprintf("%d", n)\<close> and \<^verbatim>\<open>strconv.FormatInt(n, 10)\<close>.\<close>

definition FormatInt :: "int \<Rightarrow> string" where
  "FormatInt n = (if n < 0 then CHR ''-'' # nat_dec (nat (- n)) else nat_dec (nat n))"

fun dec_val :: "nat \<Rightarrow> string \<Rightarrow> nat option" where
  "dec_val acc [] = Some acc"
| "dec_val acc (c # cs) = (case digit_val c of None \<Rightarrow> None | Some d \<Rightarrow> dec_val (10 * acc + d) cs)"

text \<open>
  \<^verbatim>\<open>strconv.ParseInt(s, 10, 64)\<close>: an optional sign, at least one digit, digits only, and a value
  that fits 64 bits. Every caller treats the syntax error and the range error alike, so both are
  \<open>None\<close>. \<^verbatim>\<open>strconv.Atoi\<close> is the same function on a 64-bit platform.
\<close>

definition ParseInt :: "string \<Rightarrow> int option" where
  "ParseInt s = (
     let neg = (case s of [] \<Rightarrow> False | c # _ \<Rightarrow> c = CHR ''-'');
         body = (case s of [] \<Rightarrow> [] | c # cs \<Rightarrow> if c = CHR ''-'' \<or> c = CHR ''+'' then cs else s)
     in if body = [] then None
        else case dec_val 0 body of
               None \<Rightarrow> None
             | Some n \<Rightarrow>
                 if neg then (if n \<le> 2 ^ 63 then Some (- int n) else None)
                 else (if n < 2 ^ 63 then Some (int n) else None))"

definition in_int64 :: "int \<Rightarrow> bool" where
  "in_int64 n \<longleftrightarrow> - (2 ^ 63) \<le> n \<and> n < 2 ^ 63"

lemma dec_val_append: "dec_val acc (xs @ ys) = Option.bind (dec_val acc xs) (\<lambda>a. dec_val a ys)"
  by (induction acc xs rule: dec_val.induct) (auto split: option.splits)

lemma dec_val_nat_dec: "dec_val 0 (nat_dec n) = Some n"
proof (induction n rule: nat_dec.induct)
  case (1 n)
  then show ?case
    by (cases "n < 10") (simp_all add: nat_dec.simps [of n] dec_val_append)
qed

lemma nat_dec_not_Nil [simp]: "nat_dec n \<noteq> []"
  by (simp add: nat_dec.simps [of n])

lemma nat_dec_digits: "c \<in> set (nat_dec n) \<Longrightarrow> \<exists>d. digit_val c = Some d"
proof (induction n rule: nat_dec.induct)
  case (1 n)
  then show ?case
    by (cases "n < 10") (auto simp: nat_dec.simps [of n])
qed

lemma nat_dec_no_dot: "CHR ''.'' \<notin> set (nat_dec n)"
  using nat_dec_digits [of "CHR ''.''" n] by (auto simp: digit_val_def)

lemma nat_dec_head_digit: "nat_dec n = c # cs \<Longrightarrow> \<exists>d. digit_val c = Some d"
  using nat_dec_digits [of c n] by simp

lemma FormatInt_not_Nil [simp]: "FormatInt n \<noteq> []"
  by (simp add: FormatInt_def)

lemma FormatInt_no_dot [simp]: "CHR ''.'' \<notin> set (FormatInt n)"
  by (simp add: FormatInt_def nat_dec_no_dot)

lemma ParseInt_FormatInt:
  assumes "in_int64 n"
  shows "ParseInt (FormatInt n) = Some n"
proof (cases "n < 0")
  case True
  with assms show ?thesis
    by (simp add: ParseInt_def FormatInt_def dec_val_nat_dec in_int64_def nat_le_iff)
next
  case False
  obtain c cs where cs: "nat_dec (nat n) = c # cs"
    using nat_dec_not_Nil by (cases "nat_dec (nat n)") auto
  then have "c \<noteq> CHR ''-''" "c \<noteq> CHR ''+''"
    using nat_dec_head_digit [OF cs] by (auto simp: digit_val_def)
  moreover have "dec_val 0 (c # cs) = Some (nat n)"
    using dec_val_nat_dec [of "nat n"] cs by simp
  ultimately show ?thesis
    using False assms cs
    by (simp add: ParseInt_def FormatInt_def in_int64_def Let_def nat_less_iff del: dec_val.simps)
qed

lemma ParseInt_in_int64: "ParseInt s = Some n \<Longrightarrow> in_int64 n"
  by (auto simp: ParseInt_def in_int64_def Let_def split: option.splits if_splits)

lemma nat_dec_not_minus [simp]: "nat_dec k \<noteq> CHR ''-'' # xs"
  using nat_dec_head_digit [of k "CHR ''-''" xs] by (auto simp: digit_val_def)

lemma nat_dec_inj [simp]: "nat_dec i = nat_dec j \<longleftrightarrow> i = j"
  by (metis dec_val_nat_dec option.inject)

lemma FormatInt_inj [simp]: "FormatInt m = FormatInt n \<longleftrightarrow> m = n"
  by (auto simp: FormatInt_def nat_dec_not_minus [symmetric] simp del: nat_dec_not_minus)
     (simp_all add: eq_nat_nat_iff)

section \<open>Prefixes\<close>

text \<open>\<^verbatim>\<open>strings.TrimPrefix\<close> and \<^verbatim>\<open>strings.CutPrefix\<close>.\<close>

definition HasPrefix :: "string \<Rightarrow> string \<Rightarrow> bool" where
  "HasPrefix s p \<longleftrightarrow> take (length p) s = p"

definition TrimPrefix :: "string \<Rightarrow> string \<Rightarrow> string" where
  "TrimPrefix s p = (if HasPrefix s p then drop (length p) s else s)"

definition CutPrefix :: "string \<Rightarrow> string \<Rightarrow> string \<times> bool" where
  "CutPrefix s p = (if HasPrefix s p then (drop (length p) s, True) else (s, False))"

lemma HasPrefix_append [simp]: "HasPrefix (p @ s) p"
  by (simp add: HasPrefix_def)

lemma HasPrefix_iff: "HasPrefix s p \<longleftrightarrow> (\<exists>t. s = p @ t)"
  by (metis HasPrefix_def append_eq_conv_conj append_take_drop_id)

lemma TrimPrefix_append [simp]: "TrimPrefix (p @ s) p = s"
  by (simp add: TrimPrefix_def)

section \<open>Splitting\<close>

text \<open>\<^verbatim>\<open>strings.Split(s, sep)\<close> for a one-byte separator: one more piece than separators.\<close>

fun Split :: "char \<Rightarrow> string \<Rightarrow> string list" where
  "Split sep [] = [[]]"
| "Split sep (c # cs) =
     (if c = sep then [] # Split sep cs
      else case Split sep cs of [] \<Rightarrow> [[c]] | p # ps \<Rightarrow> (c # p) # ps)"

text \<open>\<^verbatim>\<open>strings.SplitN(s, sep, n)\<close> with \<^verbatim>\<open>n > 0\<close>: at most \<open>n\<close> pieces, the last unsplit.\<close>

fun SplitN :: "char \<Rightarrow> nat \<Rightarrow> string \<Rightarrow> string list" where
  "SplitN sep 0 s = []"
| "SplitN sep (Suc 0) s = [s]"
| "SplitN sep (Suc (Suc n)) [] = [[]]"
| "SplitN sep (Suc (Suc n)) (c # cs) =
     (if c = sep then [] # SplitN sep (Suc n) cs
      else case SplitN sep (Suc (Suc n)) cs of [] \<Rightarrow> [[c]] | p # ps \<Rightarrow> (c # p) # ps)"

lemma Split_not_Nil [simp]: "Split sep s \<noteq> []"
  by (cases s) (auto split: list.splits)

lemma SplitN_not_Nil [simp]: "SplitN sep (Suc n) s \<noteq> []"
  by (cases n; cases s) (auto split: list.splits)

lemma Split_no_sep: "sep \<notin> set s \<Longrightarrow> Split sep s = [s]"
  by (induction s) auto

lemma Split_pieces_no_sep: "p \<in> set (Split sep s) \<Longrightarrow> sep \<notin> set p"
  by (induction s arbitrary: p) (auto split: list.splits if_splits)

lemma SplitN_append:
  "sep \<notin> set p \<Longrightarrow> SplitN sep (Suc (Suc n)) (p @ sep # s) = p # SplitN sep (Suc n) s"
  by (induction p) auto

lemma SplitN_no_sep: "sep \<notin> set p \<Longrightarrow> SplitN sep (Suc (Suc n)) p = [p]"
  by (induction p) auto

section \<open>White space\<close>

text \<open>
  \<^verbatim>\<open>strings.TrimSpace\<close> removes Unicode white space at both ends: the UTF-8 encodings below are
  those of the code points \<^verbatim>\<open>unicode.IsSpace\<close> accepts. No encoding is a suffix or a prefix of
  another, and UTF-8 is self-synchronising, so removing them at the byte level is what decoding the
  first or last rune and testing it does.
\<close>

definition byte_string :: "nat list \<Rightarrow> string" where
  "byte_string = map char_of"

definition space_encodings :: "string list" where
  "space_encodings = map byte_string
     ([[9], [10], [11], [12], [13], [32], [194, 133], [194, 160], [225, 154, 128],
       [226, 128, 168], [226, 128, 169], [226, 128, 175], [226, 129, 159], [227, 128, 128]]
      @ map (\<lambda>k. [226, 128, 128 + k]) [0..<11])"

definition drop_space :: "string list \<Rightarrow> string \<Rightarrow> string option" where
  "drop_space encs s = map_option (\<lambda>e. drop (length e) s) (find (HasPrefix s) encs)"

fun trim_left_fuel :: "nat \<Rightarrow> string list \<Rightarrow> string \<Rightarrow> string" where
  "trim_left_fuel 0 encs s = s"
| "trim_left_fuel (Suc n) encs s =
     (case drop_space encs s of None \<Rightarrow> s | Some t \<Rightarrow> trim_left_fuel n encs t)"

definition TrimSpace :: "string \<Rightarrow> string" where
  "TrimSpace s =
     (let t = trim_left_fuel (length s) space_encodings s
      in rev (trim_left_fuel (length t) (map rev space_encodings) (rev t)))"

lemma drop_space_SomeD: "drop_space encs s = Some t \<Longrightarrow> \<exists>e \<in> set encs. s = e @ t"
  by (auto simp: drop_space_def find_Some_iff HasPrefix_iff)

lemma drop_space_None: "drop_space encs s = None \<longleftrightarrow> (\<forall>e \<in> set encs. \<not> HasPrefix s e)"
  by (auto simp: drop_space_def find_None_iff)

lemma space_encodings_not_Nil: "e \<in> set space_encodings \<Longrightarrow> e \<noteq> []"
  by (auto simp: space_encodings_def byte_string_def)

text \<open>The length of the string is enough fuel: what is left starts with no white space.\<close>

lemma trim_left_fuel_done:
  assumes "length s \<le> n" and "\<And>e. e \<in> set encs \<Longrightarrow> e \<noteq> []"
  shows "drop_space encs (trim_left_fuel n encs s) = None"
  using assms(1)
proof (induction n arbitrary: s)
  case 0
  with assms(2) show ?case by (auto simp: drop_space_None HasPrefix_def)
next
  case (Suc n)
  show ?case
  proof (cases "drop_space encs s")
    case None
    then show ?thesis by simp
  next
    case (Some t)
    then obtain e where "e \<in> set encs" "s = e @ t" by (blast dest: drop_space_SomeD)
    moreover from this assms(2) have "1 \<le> length e" by (simp add: Suc_le_eq)
    moreover have "length s \<le> Suc n" by (rule Suc.prems)
    ultimately have "length t \<le> n" by simp
    with Some Suc.IH show ?thesis by simp
  qed
qed

lemma trim_left_fuel_suffix: "\<exists>u. s = u @ trim_left_fuel n encs s"
proof (induction n arbitrary: s)
  case (Suc n)
  show ?case
  proof (cases "drop_space encs s")
    case None
    then show ?thesis by simp
  next
    case (Some t)
    then obtain e where "s = e @ t" by (blast dest: drop_space_SomeD)
    moreover obtain u where "t = u @ trim_left_fuel n encs t" using Suc.IH by blast
    ultimately have "s = (e @ u) @ trim_left_fuel n encs t" by simp
    then show ?thesis using Some by auto
  qed
qed simp

lemma TrimSpace_infix: "\<exists>u v. s = u @ TrimSpace s @ v"
proof -
  let ?t = "trim_left_fuel (length s) space_encodings s"
  obtain u where u: "s = u @ ?t" using trim_left_fuel_suffix by blast
  obtain v where "rev ?t = v @ trim_left_fuel (length ?t) (map rev space_encodings) (rev ?t)"
    using trim_left_fuel_suffix by blast
  then have "?t = TrimSpace s @ rev v"
    unfolding TrimSpace_def Let_def by (metis rev_append rev_rev_ident)
  with u show ?thesis by metis
qed

text \<open>Text with no white space at either end is left alone.\<close>

lemma trim_left_bare:
  assumes "s \<noteq> []" and "\<And>e. e \<in> set encs \<Longrightarrow> e \<noteq> [] \<and> hd e \<noteq> hd s"
  shows "trim_left_fuel n encs s = s"
proof (cases n)
  case (Suc i)
  have "\<not> HasPrefix s e" if "e \<in> set encs" for e
    using assms(2) [OF that] assms(1) by (cases s; cases e) (auto simp: HasPrefix_iff)
  then have "drop_space encs s = None" by (simp add: drop_space_None)
  then show ?thesis by (simp add: Suc)
qed simp

lemma TrimSpace_bare:
  assumes "s \<noteq> []" and "\<forall>e \<in> set space_encodings. hd e \<noteq> hd s \<and> last e \<noteq> last s"
  shows "TrimSpace s = s"
proof -
  have l: "trim_left_fuel n space_encodings s = s" for n
    using assms space_encodings_not_Nil by (intro trim_left_bare) auto
  have r: "trim_left_fuel n (map rev space_encodings) (rev s) = rev s" for n
    using assms space_encodings_not_Nil by (intro trim_left_bare) (auto simp: hd_rev)
  show ?thesis by (simp add: TrimSpace_def l r)
qed

lemma TrimSpace_Nil: "TrimSpace [] = []"
  by (simp add: TrimSpace_def)

section \<open>Runes\<close>

definition byte_at :: "string \<Rightarrow> nat \<Rightarrow> nat" where
  "byte_at s i = (if i < length s then of_char (s ! i) else 0)"

definition is_cont :: "nat \<Rightarrow> bool" where
  "is_cont b \<longleftrightarrow> 128 \<le> b \<and> b \<le> 191"

text \<open>
  The width of the first rune as \<^verbatim>\<open>utf8.DecodeRune\<close> reports it, \<open>None\<close> for an invalid
  sequence, which Go consumes as one byte of width 1.
\<close>

definition utf8_width :: "string \<Rightarrow> nat option" where
  "utf8_width s = (
     let b0 = byte_at s 0; b1 = byte_at s 1; b2 = byte_at s 2; b3 = byte_at s 3
     in if s = [] then None
        else if b0 < 128 then Some 1
        else if 194 \<le> b0 \<and> b0 \<le> 223 then (if is_cont b1 then Some 2 else None)
        else if 224 \<le> b0 \<and> b0 \<le> 239 then
          (if (if b0 = 224 then 160 \<le> b1 \<and> b1 \<le> 191
               else if b0 = 237 then 128 \<le> b1 \<and> b1 \<le> 159 else is_cont b1) \<and> is_cont b2
           then Some 3 else None)
        else if 240 \<le> b0 \<and> b0 \<le> 244 then
          (if (if b0 = 240 then 144 \<le> b1 \<and> b1 \<le> 191
               else if b0 = 244 then 128 \<le> b1 \<and> b1 \<le> 143 else is_cont b1)
              \<and> is_cont b2 \<and> is_cont b3
           then Some 4 else None)
        else None)"

definition rune_step :: "string \<Rightarrow> nat" where
  "rune_step s = (case utf8_width s of None \<Rightarrow> 1 | Some w \<Rightarrow> w)"

lemma utf8_width_pos: "utf8_width s = Some w \<Longrightarrow> 0 < w"
  by (auto simp: utf8_width_def Let_def split: if_splits)

lemma rune_step_pos [simp]: "0 < rune_step s"
  by (auto simp: rune_step_def dest: utf8_width_pos split: option.splits)

text \<open>The byte sequences a \<^verbatim>\<open>range\<close> loop over the string visits, one per rune.\<close>

function runes :: "string \<Rightarrow> string list" where
  "runes s = (if s = [] then [] else take (rune_step s) s # runes (drop (rune_step s) s))"
  by pat_completeness auto
termination
  by (relation "measure length") auto

declare runes.simps [simp del]

lemma runes_Nil [simp]: "runes [] = []"
  by (simp add: runes.simps)

definition RuneCount :: "string \<Rightarrow> nat" where
  "RuneCount s = length (runes s)"

lemma concat_runes: "concat (runes s) = s"
proof (induction s rule: runes.induct)
  case (1 s)
  then show ?case by (cases "s = []") (simp_all add: runes.simps [of s])
qed

lemma rune_step_neq_0 [simp]: "rune_step s \<noteq> 0"
  using rune_step_pos [of s] by linarith

lemma runes_Cons_eq:
  "s \<noteq> [] \<Longrightarrow> runes s = take (rune_step s) s # runes (drop (rune_step s) s)"
  by (simp add: runes.simps [of s])

lemma runes_pieces_not_Nil: "r \<in> set (runes s) \<Longrightarrow> r \<noteq> []"
proof (induction s rule: runes.induct)
  case (1 s)
  then have "s \<noteq> []" by auto
  with "1.prems" consider "r = take (rune_step s) s" | "r \<in> set (runes (drop (rune_step s) s))"
    by (auto simp: runes_Cons_eq)
  then show ?case
  proof cases
    case 1
    with \<open>s \<noteq> []\<close> show ?thesis by simp
  next
    case 2
    with "1.IH" [OF \<open>s \<noteq> []\<close>] show ?thesis by blast
  qed
qed

lemma length_concat_ge: "(\<And>x. x \<in> set xs \<Longrightarrow> x \<noteq> []) \<Longrightarrow> length xs \<le> length (concat xs)"
  by (induction xs) (auto simp: Suc_le_eq add_strict_increasing)

lemma RuneCount_le_length: "RuneCount s \<le> length s"
  using length_concat_ge [of "runes s"] runes_pieces_not_Nil [of _ s]
  by (simp add: RuneCount_def concat_runes)

text \<open>A byte below 128 is a rune of its own.\<close>

definition is_ascii :: "char \<Rightarrow> bool" where
  "is_ascii c \<longleftrightarrow> (of_char c :: nat) < 128"

lemma runes_ascii_Cons: "is_ascii c \<Longrightarrow> runes (c # cs) = [c] # runes cs"
  by (subst runes.simps) (simp add: rune_step_def utf8_width_def byte_at_def is_ascii_def)

lemma runes_ascii: "list_all is_ascii s \<Longrightarrow> runes s = map (\<lambda>c. [c]) s"
  by (induction s) (auto simp: runes_ascii_Cons)

end
