(* ===== verification/Config_Keys.thy ===== *)
theory Config_Keys
  imports Go_Strings
begin

text \<open>
  The key layout of \<^verbatim>\<open>internal/messaging/keys.go\<close> and the validators of the two caller-supplied
  key components, \<^verbatim>\<open>validFlagKey\<close> (\<^verbatim>\<open>internal/flagsconfig/service.go\<close>) and \<^verbatim>\<open>validLocale\<close>
  (\<^verbatim>\<open>internal/localization/service.go\<close>). The lemmas show that the builders are injective and that
  a validated component contains no separator.
\<close>

section \<open>Buckets and key builders\<close>

definition BucketFlags :: string where "BucketFlags = ''FLAGS''"
definition BucketServiceSettings :: string where "BucketServiceSettings = ''SERVICESETTINGS''"
definition BucketLocalization :: string where "BucketLocalization = ''LOCALIZATION''"

lemma buckets_distinct [simp]:
  "BucketFlags \<noteq> BucketServiceSettings" "BucketServiceSettings \<noteq> BucketFlags"
  "BucketFlags \<noteq> BucketLocalization" "BucketLocalization \<noteq> BucketFlags"
  "BucketServiceSettings \<noteq> BucketLocalization" "BucketLocalization \<noteq> BucketServiceSettings"
  by (simp_all add: BucketFlags_def BucketServiceSettings_def BucketLocalization_def)

lemma buckets_not_empty [simp]:
  "BucketFlags \<noteq> []" "BucketServiceSettings \<noteq> []" "BucketLocalization \<noteq> []"
  by (simp_all add: BucketFlags_def BucketServiceSettings_def BucketLocalization_def)

definition FlagKey :: "int \<Rightarrow> string \<Rightarrow> string" where
  "FlagKey environmentID flagKey = FormatInt environmentID @ ''.'' @ flagKey"

definition ServiceSettingsKey :: "int \<Rightarrow> int \<Rightarrow> string" where
  "ServiceSettingsKey environmentID microserviceID =
     FormatInt environmentID @ ''.'' @ FormatInt microserviceID"

definition LocalizationKey :: "int \<Rightarrow> int \<Rightarrow> string \<Rightarrow> string" where
  "LocalizationKey environmentID microserviceID locale =
     FormatInt environmentID @ ''.'' @ FormatInt microserviceID @ ''.'' @ locale"

definition EnvironmentPrefix :: "int \<Rightarrow> string" where
  "EnvironmentPrefix environmentID = FormatInt environmentID @ ''.>''"

text \<open>The first separator splits a key uniquely when what precedes it has none.\<close>

lemma first_sep_unique:
  assumes "c \<notin> set p" and "c \<notin> set q" and "p @ c # s = q @ c # t"
  shows "p = q \<and> s = t"
  using assms by (induction p arbitrary: q) (auto simp: Cons_eq_append_conv append_eq_Cons_conv)

lemma FlagKey_inj [simp]: "FlagKey e k = FlagKey e' k' \<longleftrightarrow> e = e' \<and> k = k'"
  using first_sep_unique [of "CHR ''.''" "FormatInt e" "FormatInt e'" k k']
  by (auto simp: FlagKey_def)

lemma ServiceSettingsKey_inj [simp]:
  "ServiceSettingsKey e m = ServiceSettingsKey e' m' \<longleftrightarrow> e = e' \<and> m = m'"
  using first_sep_unique [of "CHR ''.''" "FormatInt e" "FormatInt e'" "FormatInt m" "FormatInt m'"]
  by (auto simp: ServiceSettingsKey_def)

lemma LocalizationKey_inj [simp]:
  "LocalizationKey e m l = LocalizationKey e' m' l' \<longleftrightarrow> e = e' \<and> m = m' \<and> l = l'"
  using first_sep_unique [of "CHR ''.''" "FormatInt e" "FormatInt e'"
      "FormatInt m @ CHR ''.'' # l" "FormatInt m' @ CHR ''.'' # l'"]
    first_sep_unique [of "CHR ''.''" "FormatInt m" "FormatInt m'" l l']
  by (auto simp: LocalizationKey_def)

section \<open>Validators\<close>

definition char_between :: "char \<Rightarrow> char \<Rightarrow> char \<Rightarrow> bool" where
  "char_between lo hi c \<longleftrightarrow> (of_char lo :: nat) \<le> of_char c \<and> (of_char c :: nat) \<le> of_char hi"

text \<open>
  The body of the validators' \<^verbatim>\<open>for _, c := range key\<close>: the rune must be one of the listed ASCII
  characters. A rune of more than one byte, and an invalid byte (which Go reads as U+FFFD), is not.
\<close>

definition plain_char :: "char \<Rightarrow> bool" where
  "plain_char c \<longleftrightarrow>
     char_between CHR ''a'' CHR ''z'' c \<or> char_between CHR ''A'' CHR ''Z'' c
     \<or> char_between CHR ''0'' CHR ''9'' c \<or> c = CHR ''-'' \<or> c = CHR ''_''"

definition plain_rune :: "string \<Rightarrow> bool" where
  "plain_rune r = (case r of [c] \<Rightarrow> plain_char c | _ \<Rightarrow> False)"

definition validFlagKey :: "string \<Rightarrow> bool" where
  "validFlagKey key = (if key = [] \<or> 128 < length key then False else list_all plain_rune (runes key))"

definition validLocale :: "string \<Rightarrow> bool" where
  "validLocale locale =
     (if locale = [] \<or> 35 < length locale then False else list_all plain_rune (runes locale))"

lemma plain_char_ascii: "plain_char c \<Longrightarrow> is_ascii c"
  by (auto simp: plain_char_def char_between_def is_ascii_def)

lemma plain_char_no_dot: "\<not> plain_char CHR ''.''"
  by (simp add: plain_char_def char_between_def)

text \<open>The rune loop decides a property of the bytes.\<close>

lemma plain_rune_bytes: "plain_rune r \<Longrightarrow> c \<in> set r \<Longrightarrow> plain_char c"
  by (auto simp: plain_rune_def split: list.splits)

lemma plain_runes_iff: "list_all plain_rune (runes s) \<longleftrightarrow> list_all plain_char s"
proof
  assume *: "list_all plain_rune (runes s)"
  have "plain_char c" if "c \<in> set (concat (runes s))" for c
    using that * plain_rune_bytes by (fastforce simp: list_all_iff)
  then show "list_all plain_char s" by (simp only: concat_runes list_all_iff) blast
next
  assume plain: "list_all plain_char s"
  then have "list_all is_ascii s" by (auto simp: list_all_iff plain_char_ascii)
  then show "list_all plain_rune (runes s)"
    using plain by (simp add: runes_ascii plain_rune_def list_all_iff)
qed

lemma validFlagKey_iff:
  "validFlagKey k \<longleftrightarrow> k \<noteq> [] \<and> length k \<le> 128 \<and> list_all plain_char k"
  by (auto simp: validFlagKey_def plain_runes_iff)

lemma validLocale_iff:
  "validLocale l \<longleftrightarrow> l \<noteq> [] \<and> length l \<le> 35 \<and> list_all plain_char l"
  by (auto simp: validLocale_def plain_runes_iff)

lemma validFlagKey_no_dot: "validFlagKey k \<Longrightarrow> CHR ''.'' \<notin> set k"
  using plain_char_no_dot by (auto simp: validFlagKey_iff list_all_iff)

lemma validLocale_no_dot: "validLocale l \<Longrightarrow> CHR ''.'' \<notin> set l"
  using plain_char_no_dot by (auto simp: validLocale_iff list_all_iff)

end
