(* ===== verification/Go_Time.thy ===== *)
theory Go_Time
  imports Go_Strings
begin

text \<open>
  The part of \<^verbatim>\<open>time\<close> the program uses on the wire: \<^verbatim>\<open>t.UTC().Format(time.RFC3339)\<close> of a time that
  counts nanoseconds from the zero time (1 January of year 1, UTC). Dates follow the proleptic
  Gregorian calendar; eras of 400 years repeat.
\<close>

definition second :: gotime where "second = 1000000000"
definition minute :: gotime where "minute = 60 * second"

text \<open>
  Days since 1 March of year 0 to a date, with the year counted from March so that the leap day
  comes last.
\<close>

definition civil_of_days :: "int \<Rightarrow> int \<times> int \<times> int" where
  "civil_of_days z0 = (
     let z = z0 + 306;
         era = z div 146097;
         doe = z mod 146097;
         yoe = (doe - doe div 1460 + doe div 36524 - doe div 146096) div 365;
         doy = doe - (365 * yoe + yoe div 4 - yoe div 100);
         mp = (5 * doy + 2) div 153;
         d = doy - (153 * mp + 2) div 5 + 1;
         m = (if mp < 10 then mp + 3 else mp - 9);
         y = yoe + era * 400 + (if m \<le> 2 then 1 else 0)
     in (y, m, d))"

definition pad :: "nat \<Rightarrow> int \<Rightarrow> string" where
  "pad w n = (let s = nat_dec (nat n) in replicate (w - length s) (CHR ''0'') @ s)"

definition FormatRFC3339 :: "gotime \<Rightarrow> string" where
  "FormatRFC3339 t = (
     let secs = t div second; days = secs div 86400; s = secs mod 86400
     in case civil_of_days days of (y, m, d) \<Rightarrow>
          pad 4 y @ ''-'' @ pad 2 m @ ''-'' @ pad 2 d @ ''T''
          @ pad 2 (s div 3600) @ '':'' @ pad 2 ((s div 60) mod 60) @ '':'' @ pad 2 (s mod 60) @ ''Z'')"

text \<open>The stamp is never empty and contains digits and separators only.\<close>

lemma FormatRFC3339_nonempty: "FormatRFC3339 t \<noteq> []"
  by (simp add: FormatRFC3339_def Let_def case_prod_beta)

lemma digit_char_ascii: "d < 10 \<Longrightarrow> is_ascii (digit_char d)"
  by (simp add: is_ascii_def digit_char_def)

lemma nat_dec_ascii: "list_all is_ascii (nat_dec n)"
proof -
  have "is_ascii c" if mem: "c \<in> set (nat_dec n)" for c
  proof -
    obtain d where d: "digit_val c = Some d" using nat_dec_digits [OF mem] by blast
    then have "digit_char d = c" "d < 10" by (auto dest: digit_val_Some_char digit_val_Some_less)
    then show ?thesis using digit_char_ascii by blast
  qed
  then show ?thesis by (simp add: list_all_iff)
qed

lemma pad_ascii: "list_all is_ascii (pad w n)"
  using nat_dec_ascii by (auto simp: pad_def Let_def list_all_iff is_ascii_def)

lemma FormatRFC3339_ascii: "list_all is_ascii (FormatRFC3339 t)"
  by (simp add: FormatRFC3339_def Let_def case_prod_beta pad_ascii is_ascii_def)

end
