(* ===== verification/Go_Json_Strings.thy ===== *)
theory Go_Json_Strings
  imports Go_Json_Laws
begin

text \<open>
  A string survives JSON: what \<open>json_string\<close> writes is scanned back as one literal, and decoding it
  gives the string with its invalid bytes replaced by U+FFFD.
\<close>

section \<open>Scanning an encoded string\<close>

definition scan_unit :: "string \<Rightarrow> bool" where
  "scan_unit u \<longleftrightarrow> (\<forall>s. scan_str (u @ s) = map_option (\<lambda>(r, t). (u @ r, t)) (scan_str s))"

lemma scan_unit_Nil [simp]: "scan_unit []"
  by (simp add: scan_unit_def case_prod_beta option.map_id)

lemma scan_unit_append: "scan_unit u \<Longrightarrow> scan_unit v \<Longrightarrow> scan_unit (u @ v)"
  by (simp add: scan_unit_def option.map_comp comp_def case_prod_beta')

lemma scan_unit_concat: "(\<And>u. u \<in> set us \<Longrightarrow> scan_unit u) \<Longrightarrow> scan_unit (concat us)"
  by (induction us) (simp_all add: scan_unit_append)

lemma scan_unit_plain:
  assumes "c \<noteq> quote" "c \<noteq> backslash" "32 \<le> (of_char c :: nat)"
  shows "scan_unit [c]"
  using assms by (simp add: scan_unit_def)

lemma scan_unit_high: "(\<And>c. c \<in> set u \<Longrightarrow> 128 \<le> (of_char c :: nat)) \<Longrightarrow> scan_unit u"
proof (induction u)
  case Nil
  show ?case by simp
next
  case (Cons c u)
  have "128 \<le> (of_char c :: nat)" using Cons.prems by simp
  then have "scan_unit [c]" by (intro scan_unit_plain) (auto simp: quote_def backslash_def)
  moreover have "scan_unit u" using Cons by simp
  ultimately show ?case using scan_unit_append [of "[c]" u] by simp
qed

lemma scan_unit_escape:
  assumes "simple_escape e \<noteq> None" and "e \<noteq> CHR ''u''"
  shows "scan_unit [backslash, e]"
  using assms by (auto simp: scan_unit_def quote_def backslash_def)

lemma scan_unit_hex:
  assumes "hex4 [a, b, c, d] \<noteq> None"
  shows "scan_unit [backslash, CHR ''u'', a, b, c, d]"
  using assms by (auto simp: scan_unit_def quote_def backslash_def)

lemma hex_val_digit: "d < 16 \<Longrightarrow> hex_val (hex_digit d) = Some d"
  by (auto simp: hex_val_def hex_digit_def Let_def)

lemma hex_val_0: "hex_val CHR ''0'' = Some 0"
  by (simp add: hex_val_def Let_def)

lemma hex4_byte:
  "hex4 [CHR ''0'', CHR ''0'', hex_digit (of_char c div 16), hex_digit (of_char c mod 16)]
     = Some (of_char c)"
proof -
  have "(of_char c :: nat) < 256" by simp
  then have "(of_char c :: nat) div 16 < 16" by (simp add: less_mult_imp_div_less)
  then show ?thesis by (simp add: hex4_def hex_val_digit hex_val_0)
qed

lemma scan_unit_ascii: "scan_unit (enc_ascii c)"
proof -
  have esc: "scan_unit [backslash, e]"
    if "e = quote \<or> e = backslash \<or> e = CHR ''b'' \<or> e = CHR ''f'' \<or> e = CHR ''n''
        \<or> e = CHR ''r'' \<or> e = CHR ''t''" for e
    using that by (intro scan_unit_escape) (auto simp: simple_escape_def quote_def backslash_def)
  have hex: "scan_unit [backslash, CHR ''u'', CHR ''0'', CHR ''0'',
      hex_digit (of_char c div 16), hex_digit (of_char c mod 16)]"
    by (rule scan_unit_hex) (simp add: hex4_byte)
  show ?thesis
    unfolding enc_ascii_def
    by (simp add: esc hex scan_unit_plain split: if_split)
qed

lemma utf8_width_high:
  assumes "utf8_width s = Some w" and "\<not> is_ascii (hd s)" and "c \<in> set (take w s)"
  shows "128 \<le> (of_char c :: nat)"
proof -
  from assms(3) obtain i where i: "i < w" "i < length s" "c = s ! i"
    by (auto simp: in_set_conv_nth)
  then have "s \<noteq> []" by auto
  with assms(2) have b0: "128 \<le> (of_char (s ! 0) :: nat)" by (simp add: is_ascii_def hd_conv_nth)
  have "w \<le> 4" using assms(1) by (auto simp: utf8_width_def Let_def split: if_splits)
  with i(1) have "i = 0 \<or> i = 1 \<or> i = 2 \<or> i = 3" by linarith
  then show ?thesis
    using assms(1) b0 i
    by (elim disjE) (auto simp: utf8_width_def byte_at_def is_cont_def Let_def split: if_splits)
qed

lemma scan_unit_rune:
  assumes "r = take (rune_step s) s" and "s \<noteq> []"
  shows "scan_unit (enc_rune r)"
proof (cases "is_ascii (hd s)")
  case True
  with assms have "r = [hd s]"
    by (cases s) (auto simp: rune_step_def utf8_width_def byte_at_def is_ascii_def)
  with True show ?thesis by (simp add: enc_rune_def scan_unit_ascii)
next
  case False
  have r: "r \<noteq> []" "hd r = hd s"
    using assms rune_step_pos [of s] by (cases s; cases "rune_step s"; simp)+
  have high: "scan_unit r"
  proof (cases "utf8_width s")
    case None
    with assms have "r = [hd s]" by (cases s) (simp_all add: rune_step_def)
    with False show ?thesis by (intro scan_unit_high) (simp add: is_ascii_def)
  next
    case (Some w)
    with assms have "r = take w s" by (simp add: rune_step_def)
    with utf8_width_high [OF Some False] show ?thesis by (auto intro: scan_unit_high)
  qed
  obtain c u where cu: "r = c # u" using r by (cases r) auto
  have hx: "scan_unit (backslash # ''ufffd'')" "scan_unit (backslash # ''u2028'')"
    "scan_unit (backslash # ''u2029'')"
    by (rule scan_unit_hex; simp add: hex4_def hex_val_def Let_def)+
  from False r(2) cu have "\<not> is_ascii c" by simp
  with high hx show ?thesis by (auto simp: enc_rune_def cu)
qed

lemma runes_pieces: "r \<in> set (runes s) \<Longrightarrow> \<exists>t. t \<noteq> [] \<and> r = take (rune_step t) t"
proof (induction s rule: runes.induct)
  case (1 s)
  then have "s \<noteq> []" by auto
  with "1.prems" consider "r = take (rune_step s) s" | "r \<in> set (runes (drop (rune_step s) s))"
    by (auto simp: runes_Cons_eq)
  then show ?case
    using \<open>s \<noteq> []\<close> "1.IH" [OF \<open>s \<noteq> []\<close>] by cases blast+
qed

lemma scan_unit_contents: "scan_unit (enc_contents s)"
  unfolding enc_contents_def
  by (rule scan_unit_concat) (auto dest!: runes_pieces intro: scan_unit_rune)

lemma scan_str_enc: "scan_str (enc_contents s @ quote # rest) = Some (enc_contents s, rest)"
  using scan_unit_contents [of s] by (simp add: scan_unit_def)

section \<open>Decoding an encoded string\<close>

definition dec_unit :: "string \<Rightarrow> string \<Rightarrow> bool" where
  "dec_unit u v \<longleftrightarrow> (\<forall>s. unquote (u @ s) = v @ unquote s)"

lemma unquote_Nil [simp]: "unquote [] = []"
  by (simp add: unquote.simps)

lemma dec_unit_plain: "c \<noteq> backslash \<Longrightarrow> is_ascii c \<Longrightarrow> dec_unit [c] [c]"
  by (simp add: dec_unit_def unquote.simps [of "c # _"])

lemma dec_unit_escape: "simple_escape e = Some x \<Longrightarrow> e \<noteq> CHR ''u'' \<Longrightarrow> dec_unit [backslash, e] [x]"
  by (simp add: dec_unit_def unquote.simps [of "backslash # _"])

lemma dec_unit_hex:
  "hex4 [a, b, c, d] = Some r \<Longrightarrow> \<not> (55296 \<le> r \<and> r < 57344)
   \<Longrightarrow> dec_unit [backslash, CHR ''u'', a, b, c, d] (utf8_encode r)"
  by (auto simp: dec_unit_def unquote.simps [of "backslash # _"])

lemma utf8_encode_ascii: "is_ascii c \<Longrightarrow> utf8_encode (of_char c) = [c]"
  by (simp add: utf8_encode_def byte_string_def is_ascii_def)

lemma dec_unit_ascii: "is_ascii c \<Longrightarrow> dec_unit (enc_ascii c) [c]"
proof -
  assume c: "is_ascii c"
  have "dec_unit [backslash, CHR ''u'', CHR ''0'', CHR ''0'',
      hex_digit (of_char c div 16), hex_digit (of_char c mod 16)] (utf8_encode (of_char c))"
    by (rule dec_unit_hex [OF hex4_byte]) (use c in \<open>simp add: is_ascii_def\<close>)
  then have hex: "dec_unit [backslash, CHR ''u'', CHR ''0'', CHR ''0'',
      hex_digit (of_char c div 16), hex_digit (of_char c mod 16)] [c]"
    by (simp only: utf8_encode_ascii [OF c])
  have "dec_unit [backslash, c] [c]" if "c = quote \<or> c = backslash"
    using that by (intro dec_unit_escape) (auto simp: simple_escape_def quote_def backslash_def)
  moreover have "dec_unit [backslash, CHR ''b''] [CHR 0x08]" "dec_unit [backslash, CHR ''f''] [CHR 0x0C]"
    "dec_unit [backslash, CHR ''n''] [CHR 0x0A]" "dec_unit [backslash, CHR ''r''] [CHR 0x0D]"
    "dec_unit [backslash, CHR ''t''] [CHR 0x09]"
    by (rule dec_unit_escape; simp add: simple_escape_def quote_def backslash_def)+
  ultimately show ?thesis
    using hex dec_unit_plain [OF _ c] unfolding enc_ascii_def by (auto simp: quote_def)
qed

text \<open>A valid sequence is recognised whatever follows it.\<close>

lemma byte_at_take:
  "utf8_width s = Some w \<Longrightarrow> w \<le> length s"
  by (auto simp: Suc_le_eq utf8_width_def byte_at_def is_cont_def Let_def split: if_splits)

lemma utf8_width_prefix:
  assumes "utf8_width s = Some w"
  shows "utf8_width (take w s @ t) = Some w"
proof -
  have len: "w \<le> length s" using byte_at_take [OF assms] .
  have b: "i < w \<Longrightarrow> byte_at (take w s @ t) i = byte_at s i" for i
    using len by (simp add: byte_at_def nth_append)
  have ne: "s \<noteq> []" using assms by (auto simp: utf8_width_def Let_def)
  have "take w s @ t \<noteq> []" using ne utf8_width_pos [OF assms] by simp
  then show ?thesis
    using assms ne b unfolding utf8_width_def Let_def by (auto split: if_splits)
qed

lemma dec_unit_rune:
  assumes r: "r = take (rune_step s) s" and ne: "s \<noteq> []"
  shows "dec_unit (enc_rune r) (clean_rune r)"
proof (cases "is_ascii (hd s)")
  case True
  with assms have "r = [hd s]"
    by (cases s) (auto simp: rune_step_def utf8_width_def byte_at_def is_ascii_def)
  with True show ?thesis
    by (simp add: enc_rune_def clean_rune_def dec_unit_ascii utf8_width_def byte_at_def is_ascii_def)
next
  case False
  have hx: "dec_unit (backslash # ''ufffd'') (utf8_encode 65533)"
    "dec_unit (backslash # ''u2028'') (utf8_encode 8232)"
    "dec_unit (backslash # ''u2029'') (utf8_encode 8233)"
    by (rule dec_unit_hex; simp add: hex4_def hex_val_def Let_def)+
  have enc: "utf8_encode 65533 = rune_error" "utf8_encode 8232 = byte_string [226, 128, 168]"
    "utf8_encode 8233 = byte_string [226, 128, 169]"
    by (simp_all add: utf8_encode_def rune_error_def)
  show ?thesis
  proof (cases "utf8_width s")
    case None
    with assms have "r = [hd s]" by (cases s) (simp_all add: rune_step_def)
    moreover from this False have "utf8_width r = None"
      by (simp add: utf8_width_def byte_at_def is_ascii_def is_cont_def Let_def)
    ultimately show ?thesis using False hx(1) enc(1) by (simp add: enc_rune_def clean_rune_def)
  next
    case (Some w)
    then have w: "r = take w s" "0 < w" using r utf8_width_pos by (auto simp: rune_step_def)
    then obtain c u where cu: "r = c # u" using ne by (cases s; cases w) auto
    have hd: "hd s = c" using w cu ne by (cases s; cases w) auto
    with False have c: "\<not> is_ascii c" by simp
    have wr: "utf8_width (r @ t) = Some w" for t
      using utf8_width_prefix [OF Some] w(1) by simp
    have lenr: "length r = w" using w(1) byte_at_take [OF Some] by simp
    have "c \<noteq> backslash" using c by (auto simp: backslash_def is_ascii_def)
    then have raw: "dec_unit r r"
      using c wr lenr [symmetric] cu
      by (simp add: dec_unit_def unquote.simps [of "c # _"] rune_step_def)
    have "clean_rune r = r" using wr [of "[]"] by (simp add: clean_rune_def)
    moreover have "dec_unit (enc_rune r) r"
      using raw hx enc c wr [of "[]"] by (auto simp: enc_rune_def cu)
    ultimately show ?thesis by simp
  qed
qed

lemma dec_unit_concat:
  "(\<And>r. r \<in> set rs \<Longrightarrow> dec_unit (f r) (g r)) \<Longrightarrow> dec_unit (concat (map f rs)) (concat (map g rs))"
  by (induction rs) (simp_all add: dec_unit_def)

lemma unquote_json: "unquote (enc_contents s) = ToValid s"
proof -
  have "dec_unit (enc_contents s) (ToValid s)"
    unfolding enc_contents_def ToValid_def
    by (rule dec_unit_concat) (auto dest!: runes_pieces intro: dec_unit_rune)
  then have "unquote (enc_contents s @ []) = ToValid s @ unquote []" unfolding dec_unit_def by blast
  then show ?thesis by simp
qed

lemma dec_string_json: "dec_string old (json_string s) = Some (ToValid s)"
  by (simp add: dec_string_def json_string_def scan_str_enc unquote_json)

section \<open>Objects\<close>

text \<open>The text of an object after its opening brace, as \<^verbatim>\<open>json.Marshal\<close> writes a struct.\<close>

fun json_members :: "(string \<times> bytes) list \<Rightarrow> string" where
  "json_members [] = ''}''"
| "json_members [(k, v)] = json_string k @ CHR '':'' # v @ ''}''"
| "json_members ((k, v) # m # ms) = json_string k @ CHR '':'' # v @ CHR '','' # json_members (m # ms)"

definition json_object :: "(string \<times> bytes) list \<Rightarrow> bytes" where
  "json_object kvs = CHR ''{'' # json_members kvs"

definition value_ok :: "nat \<Rightarrow> bytes \<Rightarrow> bool" where
  "value_ok d v \<longleftrightarrow> v \<noteq> [] \<and> \<not> is_ws (hd v)
     \<and> (\<forall>rest. rest \<noteq> [] \<and> (hd rest = CHR '','' \<or> hd rest = CHR ''}'' \<or> hd rest = CHR '']'') \<longrightarrow>
          scan_value (scan_fuel (v @ rest)) d (v @ rest) = Some rest)"

lemma skip_ws_id: "s \<noteq> [] \<Longrightarrow> \<not> is_ws (hd s) \<Longrightarrow> skip_ws s = s"
  by (cases s) (simp_all add: skip_ws_def)

lemma skip_ws_punct [simp]:
  "skip_ws (CHR '':'' # s) = CHR '':'' # s" "skip_ws (CHR '','' # s) = CHR '','' # s"
  "skip_ws (CHR ''}'' # s) = CHR ''}'' # s" "skip_ws (CHR ''{'' # s) = CHR ''{'' # s"
  "skip_ws (quote # s) = quote # s" "skip_ws [] = []"
  by (simp_all add: skip_ws_def is_ws_def quote_def)

lemma json_string_Cons: "json_string k @ s = quote # enc_contents k @ quote # s"
  by (simp add: json_string_def)

lemma json_members_hd: "kvs \<noteq> [] \<Longrightarrow> \<exists>s. json_members kvs = quote # s"
  by (cases kvs rule: json_members.cases) (auto simp: json_string_def)

lemma scan_value_from:
  assumes "scan_value (scan_fuel s) d s = Some t" and "scan_fuel s \<le> n"
  shows "scan_value n d s = Some t"
  using assms scan_value_fuel by metis

lemma value_ok_scan:
  assumes "value_ok d v" and "rest \<noteq> []" "hd rest = CHR '','' \<or> hd rest = CHR ''}'' \<or> hd rest = CHR '']''"
    and "scan_fuel (v @ rest) \<le> n"
  shows "scan_value n d (skip_ws (v @ rest)) = Some rest" "skip_ws (v @ rest) = v @ rest"
proof -
  show s: "skip_ws (v @ rest) = v @ rest"
    using assms(1) by (intro skip_ws_id) (auto simp: value_ok_def)
  have "scan_value (scan_fuel (v @ rest)) d (v @ rest) = Some rest"
    using assms(1-3) by (auto simp: value_ok_def)
  then show "scan_value n d (skip_ws (v @ rest)) = Some rest"
    unfolding s using assms(4) by (rule scan_value_from)
qed

lemma scan_members_object:
  assumes "kvs \<noteq> []" and "\<And>k v. (k, v) \<in> set kvs \<Longrightarrow> value_ok d v"
    and "2 * length (json_members kvs @ rest) + 2 \<le> n"
  shows "scan_members n d (json_members kvs @ rest) = Some rest"
  using assms
proof (induction kvs arbitrary: n rule: json_members.induct)
  case 1
  then show ?case by simp
next
  case (2 k v)
  then obtain m where n: "n = Suc m" by (cases n) auto
  have "scan_value m d (skip_ws (v @ CHR ''}'' # rest)) = Some (CHR ''}'' # rest)"
    using 2 n by (intro value_ok_scan(1)) (auto simp: scan_fuel_def json_string_def)
  then show ?case
    unfolding n scan_members.simps(2) by (simp add: json_string_def scan_str_enc)
next
  case (3 k v m ms)
  then obtain i where n: "n = Suc i" by (cases n) auto
  let ?t = "json_members (m # ms) @ rest"
  have v: "scan_value i d (skip_ws (v @ CHR '','' # ?t)) = Some (CHR '','' # ?t)"
    using 3 n by (intro value_ok_scan(1)) (auto simp: scan_fuel_def json_string_def)
  obtain u where "json_members (m # ms) = quote # u" using json_members_hd [of "m # ms"] by auto
  then have sk: "skip_ws ?t = ?t" by simp
  have "scan_members i d ?t = Some rest"
    using 3 n by (intro "3.IH") (auto simp: json_string_def)
  then show ?case
    unfolding n scan_members.simps(2) using v sk
    by (simp add: json_string_def scan_str_enc del: json_members.simps scan_members.simps
        add: json_members.simps(3))
qed

lemma members_object:
  assumes "kvs \<noteq> []" and "\<And>k v. (k, v) \<in> set kvs \<Longrightarrow> value_ok d v" and "length kvs \<le> n"
  shows "members n d (json_members kvs) = Some (map (\<lambda>(k, v). (enc_contents k, v)) kvs)"
  using assms
proof (induction kvs arbitrary: n rule: json_members.induct)
  case 1
  then show ?case by simp
next
  case (2 k v)
  then obtain m where n: "n = Suc m" by (cases n) auto
  have "scan_value (scan_fuel (v @ ''}'')) d (skip_ws (v @ ''}'')) = Some ''}''"
    and sk: "skip_ws (v @ ''}'') = v @ ''}''"
    using 2 by (auto intro!: value_ok_scan)
  then show ?case
    unfolding n members.simps(2) by (simp add: json_string_def scan_str_enc Let_def)
next
  case (3 k v m ms)
  then obtain i where n: "n = Suc i" by (cases n) auto
  let ?t = "json_members (m # ms)"
  have v: "scan_value (scan_fuel (v @ CHR '','' # ?t)) d (v @ CHR '','' # ?t) = Some (CHR '','' # ?t)"
    and skv: "skip_ws (v @ CHR '','' # ?t) = v @ CHR '','' # ?t"
    using "3.prems"(2) value_ok_scan [of d v "CHR '','' # ?t", OF _ _ _ order_refl] by auto
  obtain u where "?t = quote # u" using json_members_hd [of "m # ms"] by auto
  then have sk: "skip_ws ?t = ?t" by simp
  have "members i d ?t = Some (map (\<lambda>(k, v). (enc_contents k, v)) (m # ms))"
    using 3 n by (intro "3.IH") auto
  then show ?case
    unfolding n members.simps(2) using v skv sk
    by (simp add: json_string_def scan_str_enc Let_def del: json_members.simps members.simps
        add: json_members.simps(3))
qed

lemma length_json_members: "length kvs < length (json_members kvs)"
  by (induction kvs rule: json_members.induct) (auto simp: json_string_def)

lemma scan_object:
  assumes "kvs \<noteq> []" and "\<And>k v. (k, v) \<in> set kvs \<Longrightarrow> value_ok (max_nesting - 1) v"
  shows "skip_ws (json_object kvs) = json_object kvs"
    and "scan_value (scan_fuel (json_object kvs)) max_nesting (json_object kvs) = Some []"
proof -
  obtain u where u: "json_members kvs = quote # u" using json_members_hd [OF assms(1)] by auto
  let ?o = "json_object kvs"
  have sm: "scan_members (2 * length ?o + 1) (max_nesting - 1) (json_members kvs @ []) = Some []"
    using assms by (intro scan_members_object) (auto simp: json_object_def)
  have qb: "quote \<noteq> CHR ''}''" by (simp add: quote_def)
  show "skip_ws ?o = ?o" by (simp add: json_object_def)
  have "scan_value (Suc (2 * length ?o + 1)) max_nesting ?o = Some []"
    using sm u qb by (simp add: json_object_def max_nesting_def del: scan_members.simps)
  then show "scan_value (scan_fuel ?o) max_nesting ?o = Some []" by (simp add: scan_fuel_def)
qed

lemma object_members_json:
  assumes "kvs \<noteq> []" and "\<And>k v. (k, v) \<in> set kvs \<Longrightarrow> value_ok (max_nesting - 1) v"
  shows "object_members (json_object kvs) = Some (map (\<lambda>(k, v). (ToValid k, v)) kvs)"
proof -
  obtain u where u: "json_members kvs = quote # u" using json_members_hd [OF assms(1)] by auto
  let ?o = "json_object kvs"
  have qb: "quote \<noteq> CHR ''}''" by (simp add: quote_def)
  have sk: "skip_ws ?o = ?o" using scan_object(1) [OF assms] .
  then have valid: "json_Valid ?o"
    using scan_object(2) [OF assms] by (simp add: json_Valid_def Let_def)
  have "members (length (json_members kvs)) (max_nesting - 1) (json_members kvs)
      = Some (map (\<lambda>(k, v). (enc_contents k, v)) kvs)"
    using assms length_json_members [of kvs] by (intro members_object) auto
  then have "object_members ?o =
      map_option (map (\<lambda>(k, v). (unquote k, v))) (Some (map (\<lambda>(k, v). (enc_contents k, v)) kvs))"
    using valid u qb unfolding object_members_def sk
    by (simp add: json_object_def Let_def del: members.simps)
  then show ?thesis by (simp add: case_prod_beta comp_def unquote_json)
qed

text \<open>The scalar values the program writes.\<close>

lemma value_ok_string: "value_ok d (json_string s)"
proof -
  have q: "quote \<noteq> CHR ''{''" "quote \<noteq> CHR ''[''" "\<not> is_ws quote"
    by (simp_all add: quote_def is_ws_def)
  show ?thesis by (simp add: value_ok_def json_string_def scan_fuel_def scan_str_enc q)
qed

lemma scan_stops:
  assumes "rest \<noteq> []" "hd rest = CHR '','' \<or> hd rest = CHR ''}'' \<or> hd rest = CHR '']''"
  shows "scan_frac rest = Some rest" "scan_exp rest = Some rest" "dropWhile is_digit rest = rest"
proof -
  obtain x xs where "rest = x # xs" using assms(1) by (cases rest) auto
  moreover from this have "x = CHR '','' \<or> x = CHR ''}'' \<or> x = CHR '']''" using assms(2) by simp
  ultimately show "scan_frac rest = Some rest" "scan_exp rest = Some rest" "dropWhile is_digit rest = rest"
    by (auto simp: scan_frac_def scan_exp_def is_digit_def digit_val_def)
qed

lemma value_ok_number:
  assumes v: "v = c # cs" "is_digit c \<or> c = CHR ''-''"
    and scan: "\<And>rest. rest \<noteq> [] \<Longrightarrow> hd rest = CHR '','' \<or> hd rest = CHR ''}'' \<or> hd rest = CHR '']'' \<Longrightarrow>
      scan_number (v @ rest) = Some rest"
  shows "value_ok d v"
proof -
  have "c \<noteq> CHR ''{''" "c \<noteq> CHR ''[''" "c \<noteq> quote" "\<not> is_ws c" "c \<noteq> CHR ''t''" "c \<noteq> CHR ''f''" "c \<noteq> CHR ''n''"
    using v(2) by (auto simp: is_digit_def digit_val_def quote_def is_ws_def)
  then show ?thesis using scan v(1) by (simp add: value_ok_def scan_fuel_def HasPrefix_def)
qed

lemma digits_stop:
  assumes "rest \<noteq> []" "hd rest = CHR '','' \<or> hd rest = CHR ''}'' \<or> hd rest = CHR '']''" "list_all is_digit ds"
  shows "dropWhile is_digit (ds @ rest) = rest"
  using assms(3) scan_stops(3) [OF assms(1,2)] by (induction ds) auto

lemma nat_dec_shape: "nat_dec n = c # cs \<Longrightarrow> is_digit c \<and> list_all is_digit cs \<and> (c = CHR ''0'' \<longrightarrow> cs = [])"
proof (induction n arbitrary: c cs rule: nat_dec.induct)
  case (1 n)
  have d: "is_digit (digit_char k)" if "k < 10" for k using that by (simp add: is_digit_def)
  have z: "digit_char k = CHR ''0'' \<longleftrightarrow> k = 0" if "k < 10" for k
    using that by (auto simp: digit_char_def char_of_eq_iff take_bit_eq_mod)
  show ?case
  proof (cases "n < 10")
    case True
    then show ?thesis using 1(2) d [of n] by (auto simp: nat_dec.simps [of n])
  next
    case False
    obtain c' cs' where h: "nat_dec (n div 10) = c' # cs'" by (metis list.exhaust nat_dec_not_Nil)
    have eq: "c = c'" "cs = cs' @ [digit_char (n mod 10)]"
      using 1(2) False h by (simp_all add: nat_dec.simps [of n])
    have "c \<noteq> CHR ''0''"
    proof
      assume c0: "c = CHR ''0''"
      then have "cs' = []" using 1(1) [OF False h] eq(1) by simp
      then have "dec_val 0 [c'] = Some (n div 10)" using dec_val_nat_dec [of "n div 10"] h by simp
      then have "n div 10 = 0" using c0 eq(1) by (simp add: digit_val_def)
      then show False using False by simp
    qed
    then show ?thesis using 1(1) [OF False h] eq d by simp
  qed
qed

lemma value_ok_int: "value_ok d (FormatInt n)"
proof -
  obtain c cs where nd: "nat_dec (nat \<bar>n\<bar>) = c # cs" by (metis list.exhaust nat_dec_not_Nil)
  note sh = nat_dec_shape [OF nd]
  have scan: "scan_number (c # cs @ rest) = Some rest" "scan_number (CHR ''-'' # c # cs @ rest) = Some rest"
    if r: "rest \<noteq> []" "hd rest = CHR '','' \<or> hd rest = CHR ''}'' \<or> hd rest = CHR '']''" for rest
  proof -
    have "c \<noteq> CHR ''-''" using sh by (auto simp: is_digit_def digit_val_def)
    then show "scan_number (c # cs @ rest) = Some rest" "scan_number (CHR ''-'' # c # cs @ rest) = Some rest"
      using sh scan_stops [OF r] digits_stop [OF r, of cs] by (auto simp: scan_number_def)
  qed
  have f: "FormatInt n = (if n < 0 then CHR ''-'' # c # cs else c # cs)"
    using nd by (auto simp: FormatInt_def abs_if split: if_splits)
  show ?thesis
  proof (cases "n < 0")
    case True
    show ?thesis by (rule value_ok_number [of _ "CHR ''-''" "c # cs"]) (use f True scan in auto)
  next
    case False
    show ?thesis by (rule value_ok_number [of _ c cs]) (use f False scan sh in auto)
  qed
qed

lemma value_ok_digit: "is_digit c \<Longrightarrow> value_ok d [c]"
  by (rule value_ok_number [of _ c "[]"]) (auto simp: scan_number_def scan_stops is_digit_def digit_val_def)

lemma value_ok_empty: "0 < d \<Longrightarrow> value_ok d ''{}''"
  by (auto simp: value_ok_def scan_fuel_def is_ws_def)

lemma value_ok_bool: "value_ok d ''true''" "value_ok d ''false''"
  by (auto simp: value_ok_def scan_fuel_def is_ws_def HasPrefix_def quote_def)

end
