(* ===== verification/Obs_Metrics.thy ===== *)
theory Obs_Metrics
  imports Prelude Complex_Main
begin

text \<open>
  \<^verbatim>\<open>internal/obs/metrics.go\<close> and \<^verbatim>\<open>internal/obs/instruments.go\<close>: the counters, gauges and histograms
  the components update, keyed by the rendered label set. Measurements are exact rationals where
  the code has \<^verbatim>\<open>float64\<close>.

  The lemmas show that the rendered label sets keep distinct label values apart (so no two series
  are ever merged) and that a histogram's buckets stay cumulative.
\<close>

section \<open>Labels\<close>

definition escape_char :: "char \<Rightarrow> string" where
  "escape_char c =
     (if c = CHR 0x5C then [CHR 0x5C, CHR 0x5C]
      else if c = CHR 0x22 then [CHR 0x5C, CHR 0x22]
      else if c = CHR 0x0A then [CHR 0x5C, CHR ''n'']
      else [c])"

definition escapeLabel :: "string \<Rightarrow> string" where
  "escapeLabel v = concat (map escape_char v)"

definition render_label :: "string \<Rightarrow> string \<Rightarrow> string" where
  "render_label n v = n @ [CHR ''='', CHR 0x22] @ escapeLabel v @ [CHR 0x22]"

text \<open>The loop over the key/value pairs; an odd trailing argument is dropped.\<close>

fun label_pairs :: "bool \<Rightarrow> string list \<Rightarrow> string" where
  "label_pairs first (n # v # ls) =
     (if first then [] else [CHR '','']) @ render_label n v @ label_pairs False ls"
| "label_pairs first _ = []"

definition labelKey :: "string list \<Rightarrow> string" where
  "labelKey labels = (if labels = [] then [] else [CHR ''{''] @ label_pairs True labels @ [CHR ''}''])"

definition withLabel :: "string \<Rightarrow> string \<Rightarrow> string \<Rightarrow> string" where
  "withLabel key n v =
     (if key = [] then [CHR ''{''] @ n @ [CHR ''='', CHR 0x22] @ v @ [CHR 0x22, CHR ''}'']
      else take (length key - 1) key @ [CHR '',''] @ n @ [CHR ''='', CHR 0x22] @ v @ [CHR 0x22, CHR ''}''])"

lemma escapeLabel_simps [simp]:
  "escapeLabel [] = []" "escapeLabel (c # v) = escape_char c @ escapeLabel v"
  by (simp_all add: escapeLabel_def)

lemma escapeLabel_quote_inj:
  "escapeLabel v @ CHR 0x22 # r = escapeLabel v' @ CHR 0x22 # r' \<Longrightarrow> v = v' \<and> r = r'"
proof (induction v arbitrary: v')
  case Nil
  then show ?case by (cases v') (auto simp: escape_char_def split: if_splits)
next
  case (Cons c v)
  show ?case
  proof (cases v')
    case Nil
    with Cons.prems show ?thesis by (auto simp: escape_char_def split: if_splits)
  next
    case v': (Cons d w)
    with Cons.prems have "c = d" and "escapeLabel v @ CHR 0x22 # r = escapeLabel w @ CHR 0x22 # r'"
      by (auto simp: escape_char_def split: if_splits)
    with Cons.IH v' show ?thesis by simp
  qed
qed

lemma escapeLabel_inj [simp]: "escapeLabel v = escapeLabel v' \<longleftrightarrow> v = v'"
  using escapeLabel_quote_inj [of v "[]" v' "[]"] by auto

text \<open>Two label sets over the same names render alike only when the values agree.\<close>

fun interleave :: "string list \<Rightarrow> string list \<Rightarrow> string list" where
  "interleave (n # ns) (v # vs) = n # v # interleave ns vs"
| "interleave _ _ = []"

lemma label_pairs_inj:
  "length vs = length ns \<Longrightarrow> length vs' = length ns
   \<Longrightarrow> label_pairs b (interleave ns vs) = label_pairs b (interleave ns vs') \<Longrightarrow> vs = vs'"
proof (induction ns arbitrary: vs vs' b)
  case Nil
  then show ?case by simp
next
  case (Cons n ns)
  then obtain v w v' w' where vs: "vs = v # w" "vs' = v' # w'"
    by (metis length_Suc_conv)
  let ?r = "label_pairs False (interleave ns w)" and ?r' = "label_pairs False (interleave ns w')"
  have "escapeLabel v @ CHR 0x22 # ?r = escapeLabel v' @ CHR 0x22 # ?r'"
    using Cons.prems(3) vs by (auto simp: render_label_def split: if_splits)
  from escapeLabel_quote_inj [OF this] have "v = v'" "?r = ?r'" by auto
  with Cons.IH [of w w' False] Cons.prems vs show ?case by simp
qed

lemma labelKey_inj:
  "length vs = length ns \<Longrightarrow> length vs' = length ns
   \<Longrightarrow> labelKey (interleave ns vs) = labelKey (interleave ns vs') \<Longrightarrow> vs = vs'"
proof -
  assume len: "length vs = length ns" "length vs' = length ns"
    and eq: "labelKey (interleave ns vs) = labelKey (interleave ns vs')"
  show "vs = vs'"
  proof (cases ns)
    case Nil
    with len show ?thesis by simp
  next
    case (Cons n ms)
    with len have "interleave ns vs \<noteq> []" "interleave ns vs' \<noteq> []"
      by (cases vs; cases vs'; simp)+
    with eq have "label_pairs True (interleave ns vs) = label_pairs True (interleave ns vs')"
      by (simp add: labelKey_def)
    with len show ?thesis by (rule label_pairs_inj)
  qed
qed

section \<open>Histograms\<close>

record histSeries =
  hcounts :: "nat list"
  hsum :: rat
  hcount :: nat

definition defaultBuckets :: "rat list" where
  "defaultBuckets = [5/1000, 25/1000, 1/10, 1/2, 1, 5/2, 5, 10, 30, 60]"

type_synonym histogram = "string \<Rightarrow> histSeries option"

definition new_series :: "rat list \<Rightarrow> histSeries" where
  "new_series bounds = \<lparr>hcounts = map (\<lambda>_. 0) bounds, hsum = 0, hcount = 0\<rparr>"

definition observe_series :: "rat list \<Rightarrow> rat \<Rightarrow> histSeries \<Rightarrow> histSeries" where
  "observe_series bounds seconds s =
     \<lparr>hcounts = map2 (\<lambda>upper n. if seconds \<le> upper then n + 1 else n) bounds (hcounts s),
      hsum = hsum s + seconds, hcount = hcount s + 1\<rparr>"

definition Observe :: "rat list \<Rightarrow> rat \<Rightarrow> string list \<Rightarrow> histogram \<Rightarrow> histogram" where
  "Observe bounds seconds labels h = (
     let key = labelKey labels;
         s = (case h key of None \<Rightarrow> new_series bounds | Some s \<Rightarrow> s)
     in h(key \<mapsto> observe_series bounds seconds s))"

text \<open>The buckets a scraper reads: cumulative, and none above the total.\<close>

definition cumulative :: "rat list \<Rightarrow> histSeries \<Rightarrow> bool" where
  "cumulative bounds s \<longleftrightarrow>
     length (hcounts s) = length bounds \<and> sorted (hcounts s @ [hcount s])"

lemma observe_series_cumulative:
  assumes "sorted bounds" and "cumulative bounds s"
  shows "cumulative bounds (observe_series bounds x s)"
proof -
  let ?n = "length bounds"
  have len: "length (hcounts s) = ?n" and mono: "sorted (hcounts s)"
    and top: "\<And>i. i < ?n \<Longrightarrow> hcounts s ! i \<le> hcount s"
    using assms(2) by (auto simp: cumulative_def sorted_append)
  let ?c = "map2 (\<lambda>upper n. if x \<le> upper then n + 1 else n) bounds (hcounts s)"
  have nth: "?c ! i = (if x \<le> bounds ! i then hcounts s ! i + 1 else hcounts s ! i)" if "i < ?n" for i
    using that len by simp
  have "?c ! i \<le> ?c ! j" if "i \<le> j" "j < ?n" for i j
  proof -
    have "hcounts s ! i \<le> hcounts s ! j" using that mono len by (simp add: sorted_nth_mono)
    moreover have "bounds ! i \<le> bounds ! j" using that assms(1) by (simp add: sorted_nth_mono)
    ultimately show ?thesis using that by (simp add: nth)
  qed
  then have "sorted ?c" using len by (simp add: sorted_iff_nth_mono)
  moreover have "?c ! i \<le> hcount s + 1" if "i < ?n" for i
    using top [OF that] nth [OF that] by simp
  then have "\<forall>m \<in> set ?c. m \<le> hcount s + 1"
    using len by (metis (no_types, lifting) in_set_conv_nth length_map length_zip min.idem)
  ultimately show ?thesis
    using len by (simp add: cumulative_def observe_series_def sorted_append)
qed

lemma new_series_cumulative: "cumulative bounds (new_series bounds)"
  by (auto simp: cumulative_def new_series_def sorted_append map_replicate_const)

lemma Observe_cumulative:
  assumes "sorted bounds" and "\<forall>k s. h k = Some s \<longrightarrow> cumulative bounds s"
  shows "\<forall>k s. Observe bounds x labels h k = Some s \<longrightarrow> cumulative bounds s"
  using assms
  by (auto simp: Observe_def Let_def observe_series_cumulative new_series_cumulative split: option.splits)

section \<open>The registry\<close>

text \<open>The values of every counter series, gauge and histogram, by metric name.\<close>

record metrics =
  counters :: "string \<Rightarrow> string \<Rightarrow> int option"
  gauges :: "string \<Rightarrow> rat"
  histograms :: "string \<Rightarrow> histogram"

definition counter_Add :: "string \<Rightarrow> int \<Rightarrow> string list \<Rightarrow> metrics \<Rightarrow> metrics" where
  "counter_Add c n labels m =
     m\<lparr>counters := (counters m)(c := (counters m c)(labelKey labels \<mapsto>
       (case counters m c (labelKey labels) of None \<Rightarrow> n | Some v \<Rightarrow> v + n)))\<rparr>"

definition counter_Inc :: "string \<Rightarrow> string list \<Rightarrow> metrics \<Rightarrow> metrics" where
  "counter_Inc c labels m = counter_Add c 1 labels m"

definition counter_Value :: "string \<Rightarrow> string list \<Rightarrow> metrics \<Rightarrow> int" where
  "counter_Value c labels m = (case counters m c (labelKey labels) of None \<Rightarrow> 0 | Some v \<Rightarrow> v)"

definition gauge_Set :: "string \<Rightarrow> rat \<Rightarrow> metrics \<Rightarrow> metrics" where
  "gauge_Set g f m = m\<lparr>gauges := (gauges m)(g := f)\<rparr>"

definition gauge_SetBool :: "string \<Rightarrow> bool \<Rightarrow> metrics \<Rightarrow> metrics" where
  "gauge_SetBool g ok m = (if ok then gauge_Set g 1 m else gauge_Set g 0 m)"

definition histogram_Observe :: "string \<Rightarrow> rat \<Rightarrow> string list \<Rightarrow> metrics \<Rightarrow> metrics" where
  "histogram_Observe h seconds labels m =
     m\<lparr>histograms := (histograms m)(h := Observe defaultBuckets seconds labels (histograms m h))\<rparr>"

definition new_metrics :: metrics where
  "new_metrics = \<lparr>counters = (\<lambda>_ _. None), gauges = (\<lambda>_. 0), histograms = (\<lambda>_ _. None)\<rparr>"

lemma counter_Value_Inc [simp]:
  "counter_Value c ls (counter_Inc c' ls' m) =
     counter_Value c ls m + (if c = c' \<and> labelKey ls = labelKey ls' then 1 else 0)"
  by (simp add: counter_Value_def counter_Inc_def counter_Add_def split: option.splits)

section \<open>Instruments\<close>

definition NATSUp :: string where "NATSUp = ''centralconfig_nats_up''"
definition KVPublishAttempts :: string where
  "KVPublishAttempts = ''centralconfig_kv_publish_attempts_total''"
definition KVPublishSuccess :: string where
  "KVPublishSuccess = ''centralconfig_kv_publish_success_total''"
definition KVPublishFailures :: string where
  "KVPublishFailures = ''centralconfig_kv_publish_failures_total''"
definition KVPublishSkipped :: string where
  "KVPublishSkipped = ''centralconfig_kv_publish_skipped_total''"
definition KVDeleteFailures :: string where
  "KVDeleteFailures = ''centralconfig_kv_delete_failures_total''"
definition ReconcileCycles :: string where
  "ReconcileCycles = ''centralconfig_reconcile_cycles_total''"
definition ReconcileDuration :: string where
  "ReconcileDuration = ''centralconfig_reconcile_duration_seconds''"
definition ReconcileKeysRepublished :: string where
  "ReconcileKeysRepublished = ''centralconfig_reconcile_keys_republished_total''"
definition ReconcileKeysPruned :: string where
  "ReconcileKeysPruned = ''centralconfig_reconcile_keys_pruned_total''"
definition ReconcilePruneRefused :: string where
  "ReconcilePruneRefused = ''centralconfig_reconcile_prune_refused_total''"
definition ReconcileSourceFailures :: string where
  "ReconcileSourceFailures = ''centralconfig_reconcile_source_failures_total''"
definition ReconcileLastSuccess :: string where
  "ReconcileLastSuccess = ''centralconfig_reconcile_last_success_timestamp_seconds''"
definition HTTPRequests :: string where "HTTPRequests = ''centralconfig_http_requests_total''"
definition HTTPDuration :: string where
  "HTTPDuration = ''centralconfig_http_request_duration_seconds''"
definition HTTPPanics :: string where "HTTPPanics = ''centralconfig_http_panics_total''"
definition DBUp :: string where "DBUp = ''centralconfig_db_up''"
definition DBPingFailures :: string where "DBPingFailures = ''centralconfig_db_ping_failures_total''"

text \<open>The six instruments the publisher and the sweep count with are different series.\<close>

lemmas kv_instruments = KVPublishAttempts_def KVPublishSuccess_def KVPublishFailures_def
  KVPublishSkipped_def KVDeleteFailures_def

end
