(* ===== verification/Kv_Publisher.thy ===== *)
theory Kv_Publisher
  imports Config_Keys Go_Time Go_Json_Strings Obs_Metrics
begin

text \<open>
  The write-through publisher: \<^verbatim>\<open>internal/messaging/kv.go\<close>, \<^verbatim>\<open>publisher.go\<close> and \<^verbatim>\<open>noop.go\<close>.

  The JetStream client is not part of the repository. It is the parameter \<open>js_ops\<close>: one field per
  call the code makes, each a function on the client's world \<open>'w\<close> (which includes every other
  client of the server), with the sentinel errors the code tells apart. A \<^verbatim>\<open>jetstream.KeyValue\<close>
  handle is an abstract \<open>'h\<close>. \<open>Publisher\<close> builds the \<^verbatim>\<open>ConfigPublisher\<close> interface from it, over
  a state that holds the bucket handles, the client's world and the metrics.
\<close>

section \<open>The flag payload\<close>

record FlagPayload =
  fp_Enabled :: bool
  fp_Value :: string
  fp_UpdatedAt :: string

definition bool_json :: "bool \<Rightarrow> bytes" where
  "bool_json b = (if b then ''true'' else ''false'')"

definition Marshal_payload :: "FlagPayload \<Rightarrow> bytes" where
  "Marshal_payload p = json_object
     [(''enabled'', bool_json (fp_Enabled p)), (''value'', json_string (fp_Value p)),
      (''updatedAt'', json_string (fp_UpdatedAt p))]"

definition payload_field :: "string \<Rightarrow> bytes \<Rightarrow> FlagPayload \<Rightarrow> FlagPayload option" where
  "payload_field k raw p =
     (if key_is k ''enabled'' then map_option (\<lambda>b. p\<lparr>fp_Enabled := b\<rparr>) (dec_bool (fp_Enabled p) raw)
      else if key_is k ''value'' then map_option (\<lambda>s. p\<lparr>fp_Value := s\<rparr>) (dec_string (fp_Value p) raw)
      else if key_is k ''updatedAt''
        then map_option (\<lambda>s. p\<lparr>fp_UpdatedAt := s\<rparr>) (dec_string (fp_UpdatedAt p) raw)
      else Some p)"

definition zero_payload :: FlagPayload where
  "zero_payload = \<lparr>fp_Enabled = False, fp_Value = [], fp_UpdatedAt = []\<rparr>"

definition Unmarshal_payload :: "bytes \<Rightarrow> FlagPayload option" where
  "Unmarshal_payload s = Option.bind (object_members s) (\<lambda>ms. decode_members payload_field ms zero_payload)"

definition clean_payload :: "FlagPayload \<Rightarrow> FlagPayload" where
  "clean_payload p = p\<lparr>fp_Value := ToValid (fp_Value p), fp_UpdatedAt := ToValid (fp_UpdatedAt p)\<rparr>"

lemma payload_keys:
  "key_is (ToValid ''enabled'') ''enabled''" "\<not> key_is (ToValid ''value'') ''enabled''"
  "key_is (ToValid ''value'') ''value''" "\<not> key_is (ToValid ''updatedAt'') ''enabled''"
  "\<not> key_is (ToValid ''updatedAt'') ''value''" "key_is (ToValid ''updatedAt'') ''updatedAt''"
  by (simp_all add: key_is_def fold_name_def ToValid_def clean_rune_def runes_ascii is_ascii_def
      fold_rune_def utf8_width_def byte_at_def byte_string_def lower_char_def)

lemma Unmarshal_Marshal: "Unmarshal_payload (Marshal_payload p) = Some (clean_payload p)"
proof -
  have "object_members (Marshal_payload p) = Some
     [(ToValid ''enabled'', bool_json (fp_Enabled p)), (ToValid ''value'', json_string (fp_Value p)),
      (ToValid ''updatedAt'', json_string (fp_UpdatedAt p))]"
    unfolding Marshal_payload_def
    by (subst object_members_json) (auto simp: bool_json_def value_ok_string value_ok_bool)
  then show ?thesis
    by (simp add: Unmarshal_payload_def payload_field_def payload_keys dec_string_json
        bool_json_def dec_bool_def zero_payload_def clean_payload_def)
qed

section \<open>The JetStream client\<close>

datatype js_err =
  ErrKeyNotFound | ErrKeyDeleted | ErrKeyExists | ErrNoKeysFound | ErrBucketNotFound | JsOther string

definition MaxValueSize :: nat where "MaxValueSize = 524288"

record BucketOptions =
  History :: nat
  Replicas :: int

definition withDefaults :: "BucketOptions \<Rightarrow> BucketOptions" where
  "withDefaults opts = (
     let o1 = (if History opts = 0 then opts\<lparr>History := 5\<rparr> else opts)
     in (if Replicas o1 = 0 then o1\<lparr>Replicas := 1\<rparr> else o1))"

record KeyValueConfig =
  kvc_Bucket :: string
  kvc_History :: nat
  kvc_Replicas :: int
  kvc_MaxValueSize :: nat

text \<open>What a watcher delivers: an entry, the nil that closes the snapshot, the caller's deadline.\<close>

datatype watch_event = Entry string nat | SnapshotEnd | CtxDone

record ('h, 'w) js_ops =
  js_CreateOrUpdateKeyValue :: "KeyValueConfig \<Rightarrow> 'w \<Rightarrow> (js_err + 'h) \<times> 'w"
  js_Get :: "'h \<Rightarrow> string \<Rightarrow> 'w \<Rightarrow> (js_err + bytes \<times> nat) \<times> 'w"
  js_Create :: "'h \<Rightarrow> string \<Rightarrow> bytes \<Rightarrow> 'w \<Rightarrow> (js_err + nat) \<times> 'w"
  js_Update :: "'h \<Rightarrow> string \<Rightarrow> bytes \<Rightarrow> nat \<Rightarrow> 'w \<Rightarrow> (js_err + nat) \<times> 'w"
  js_Purge :: "'h \<Rightarrow> string \<Rightarrow> 'w \<Rightarrow> (js_err + unit) \<times> 'w"
  js_ListKeys :: "'h \<Rightarrow> 'w \<Rightarrow> (js_err + string list) \<times> 'w"
  js_WatchAll :: "'h \<Rightarrow> 'w \<Rightarrow> (js_err + watch_event list) \<times> 'w"
  js_Now :: "'w \<Rightarrow> gotime \<times> 'w"

section \<open>Buckets\<close>

record 'h Buckets =
  bk_flags :: "'h option"
  bk_serviceSettings :: "'h option"
  bk_localization :: "'h option"
  bk_opts :: BucketOptions

datatype pub_err =
    ErrNotProvisioned string | UnknownBucket string | EnsureBucket string js_err
  | KvGet string string js_err | KvPut string string "js_err option"
  | EmptySettings | EmptyLocale | EmptyBundle
  | KvListKeys string js_err | KvListRevisions string js_err | KvPurge string string js_err | CtxErr

definition NewBuckets :: "BucketOptions \<Rightarrow> 'h Buckets" where
  "NewBuckets opts = \<lparr>bk_flags = None, bk_serviceSettings = None, bk_localization = None,
     bk_opts = withDefaults opts\<rparr>"

definition ensureBucket ::
  "('h, 'w) js_ops \<Rightarrow> string \<Rightarrow> BucketOptions \<Rightarrow> 'w \<Rightarrow> (pub_err + 'h) \<times> 'w" where
  "ensureBucket js name opts w = mapErr (EnsureBucket name)
     (js_CreateOrUpdateKeyValue js \<lparr>kvc_Bucket = name, kvc_History = History opts,
        kvc_Replicas = Replicas opts, kvc_MaxValueSize = MaxValueSize\<rparr> w)"

definition EnsureBuckets ::
  "('h, 'w) js_ops \<Rightarrow> BucketOptions \<Rightarrow> 'w \<Rightarrow> (pub_err + 'h Buckets) \<times> 'w" where
  "EnsureBuckets js opts0 w = (
     let opts = withDefaults opts0 in
     bindE (ensureBucket js BucketFlags opts w) (\<lambda>fl w.
     bindE (ensureBucket js BucketServiceSettings opts w) (\<lambda>micro w.
     bindE (ensureBucket js BucketLocalization opts w) (\<lambda>loc w.
       (Inr \<lparr>bk_flags = Some fl, bk_serviceSettings = Some micro, bk_localization = Some loc,
             bk_opts = opts\<rparr>, w)))))"

definition byName :: "string \<Rightarrow> 'h Buckets \<Rightarrow> pub_err + 'h" where
  "byName name b =
     (if name = BucketFlags then (case bk_flags b of None \<Rightarrow> Inl (ErrNotProvisioned name) | Some kv \<Rightarrow> Inr kv)
      else if name = BucketServiceSettings
        then (case bk_serviceSettings b of None \<Rightarrow> Inl (ErrNotProvisioned name) | Some kv \<Rightarrow> Inr kv)
      else if name = BucketLocalization
        then (case bk_localization b of None \<Rightarrow> Inl (ErrNotProvisioned name) | Some kv \<Rightarrow> Inr kv)
      else Inl (UnknownBucket name))"

text \<open>\<^verbatim>\<open>Buckets.Ensure\<close>: fresh handles are swapped in only when all three buckets are provisioned.\<close>

definition Ensure :: "('h, 'w) js_ops \<Rightarrow> 'h Buckets \<Rightarrow> 'w \<Rightarrow> (pub_err + 'h Buckets) \<times> 'w" where
  "Ensure js b w = bindE (EnsureBuckets js (bk_opts b) w) (\<lambda>fresh w.
     (Inr (b\<lparr>bk_flags := bk_flags fresh, bk_serviceSettings := bk_serviceSettings fresh,
             bk_localization := bk_localization fresh\<rparr>), w))"

section \<open>The revision-checked write\<close>

definition publishAttempts :: nat where "publishAttempts = 3"

text \<open>What KV holds under a key; a nil value with revision 0 is an absent key.\<close>

record stored =
  st_value :: "bytes option"
  st_revision :: nat

definition current ::
  "('h, 'w) js_ops \<Rightarrow> 'h \<Rightarrow> string \<Rightarrow> string \<Rightarrow> 'w \<Rightarrow> (pub_err + stored) \<times> 'w" where
  "current js kv bucket key w = (case js_Get js kv key w of
     (Inl err, w) \<Rightarrow>
        if err = ErrKeyNotFound \<or> err = ErrKeyDeleted
        then (Inr \<lparr>st_value = None, st_revision = 0\<rparr>, w)
        else (Inl (KvGet bucket key err), w)
   | (Inr (v, rv), w) \<Rightarrow> (Inr \<lparr>st_value = Some v, st_revision = rv\<rparr>, w))"

text \<open>The bytes to write and the bytes to compare the stored ones against.\<close>

type_synonym 'w buildValue = "bytes option \<Rightarrow> 'w \<Rightarrow> (pub_err + bytes \<times> bytes) \<times> 'w"

fun publish_loop ::
  "nat \<Rightarrow> js_err option \<Rightarrow> ('h, 'w) js_ops \<Rightarrow> 'h \<Rightarrow> string \<Rightarrow> string \<Rightarrow> 'w buildValue \<Rightarrow> 'w
     \<Rightarrow> (pub_err + bool) \<times> 'w" where
  "publish_loop 0 conflict js kv bucket key build w = (Inl (KvPut bucket key conflict), w)"
| "publish_loop (Suc n) conflict js kv bucket key build w =
     bindE (current js kv bucket key w) (\<lambda>cur w.
     bindE (build (st_value cur) w) (\<lambda>(write, compare) w.
       if st_value cur = Some compare then (Inr True, w)
       else (case (if st_revision cur = 0 then js_Create js kv key write w
                   else js_Update js kv key write (st_revision cur) w) of
               (Inr _, w) \<Rightarrow> (Inr False, w)
             | (Inl err, w) \<Rightarrow>
                 if err = ErrKeyExists
                 then publish_loop n (Some err) js kv bucket key build w
                 else (Inl (KvPut bucket key (Some err)), w))))"

definition publish ::
  "('h, 'w) js_ops \<Rightarrow> 'h \<Rightarrow> string \<Rightarrow> string \<Rightarrow> 'w buildValue \<Rightarrow> 'w \<Rightarrow> (pub_err + bool) \<times> 'w" where
  "publish js kv bucket key build w = publish_loop publishAttempts None js kv bucket key build w"

definition raw :: "bytes \<Rightarrow> 'w buildValue" where
  "raw value cur w = (Inr (value, value), w)"

text \<open>
  The builder of \<^verbatim>\<open>publishFlag\<close>. A payload without a timestamp is stamped with the present when it is
  written, and compared with the timestamp that is stored; \<^verbatim>\<open>json.Unmarshal(nil)\<close> is an error.
\<close>

definition flag_build :: "('h, 'w) js_ops \<Rightarrow> FlagPayload \<Rightarrow> 'w buildValue" where
  "flag_build js payload cur w =
     (if fp_UpdatedAt payload = [] then
        (let compared = (case Option.bind cur Unmarshal_payload of
                           None \<Rightarrow> payload
                         | Some prev \<Rightarrow> payload\<lparr>fp_UpdatedAt := fp_UpdatedAt prev\<rparr>)
         in case js_Now js w of (now, w) \<Rightarrow>
              (Inr (Marshal_payload (payload\<lparr>fp_UpdatedAt := FormatRFC3339 now\<rparr>),
                    Marshal_payload compared), w))
      else (Inr (Marshal_payload payload, Marshal_payload payload), w))"

section \<open>The ConfigPublisher interface\<close>

record 'w config_publisher =
  PublishFlag :: "int \<Rightarrow> string \<Rightarrow> FlagPayload \<Rightarrow> 'w \<Rightarrow> (pub_err + unit) \<times> 'w"
  PublishServiceSettings :: "int \<Rightarrow> int \<Rightarrow> bytes \<Rightarrow> 'w \<Rightarrow> (pub_err + unit) \<times> 'w"
  PublishLocalization :: "int \<Rightarrow> int \<Rightarrow> string \<Rightarrow> bytes \<Rightarrow> 'w \<Rightarrow> (pub_err + unit) \<times> 'w"
  ListKeys :: "string \<Rightarrow> 'w \<Rightarrow> (pub_err + string list) \<times> 'w"
  ListRevisions :: "string \<Rightarrow> 'w \<Rightarrow> (pub_err + (string \<times> nat) list) \<times> 'w"
  DeleteKey :: "string \<Rightarrow> string \<Rightarrow> 'w \<Rightarrow> (pub_err + unit) \<times> 'w"
  EnsureAll :: "'w \<Rightarrow> (pub_err + unit) \<times> 'w"

record ('h, 'w) plane =
  pl_buckets :: "'h Buckets"
  pl_net :: 'w
  pl_metrics :: metrics

text \<open>Run a call of the client inside the plane.\<close>

definition on_net :: "('w \<Rightarrow> 'a \<times> 'w) \<Rightarrow> ('h, 'w) plane \<Rightarrow> 'a \<times> ('h, 'w) plane" where
  "on_net f p = (case f (pl_net p) of (x, w) \<Rightarrow> (x, p\<lparr>pl_net := w\<rparr>))"

definition on_metrics :: "(metrics \<Rightarrow> metrics) \<Rightarrow> ('h, 'w) plane \<Rightarrow> ('h, 'w) plane" where
  "on_metrics f p = p\<lparr>pl_metrics := f (pl_metrics p)\<rparr>"

definition with_bucket ::
  "string \<Rightarrow> ('h \<Rightarrow> 'w \<Rightarrow> (pub_err + 'a) \<times> 'w) \<Rightarrow> ('h, 'w) plane \<Rightarrow> (pub_err + 'a) \<times> ('h, 'w) plane" where
  "with_bucket bucket f p = (case byName bucket (pl_buckets p) of
     Inl err \<Rightarrow> (Inl err, p) | Inr kv \<Rightarrow> on_net (f kv) p)"

definition observePublish ::
  "string \<Rightarrow> (pub_err + bool) \<times> ('h, 'w) plane \<Rightarrow> (pub_err + unit) \<times> ('h, 'w) plane" where
  "observePublish bucket r = (case r of (res, p0) \<Rightarrow>
     let p = on_metrics (counter_Inc KVPublishAttempts [''bucket'', bucket]) p0 in
     case res of
       Inl err \<Rightarrow> (Inl err, on_metrics (counter_Inc KVPublishFailures [''bucket'', bucket]) p)
     | Inr True \<Rightarrow> (Inr (), on_metrics (counter_Inc KVPublishSkipped [''bucket'', bucket]) p)
     | Inr False \<Rightarrow> (Inr (), on_metrics (counter_Inc KVPublishSuccess [''bucket'', bucket]) p))"

definition publishFlag ::
  "('h, 'w) js_ops \<Rightarrow> int \<Rightarrow> string \<Rightarrow> FlagPayload \<Rightarrow> ('h, 'w) plane \<Rightarrow> (pub_err + bool) \<times> ('h, 'w) plane" where
  "publishFlag js environmentID flagKey payload = with_bucket BucketFlags
     (\<lambda>kv. publish js kv BucketFlags (FlagKey environmentID flagKey) (flag_build js payload))"

definition publishServiceSettings ::
  "('h, 'w) js_ops \<Rightarrow> int \<Rightarrow> int \<Rightarrow> bytes \<Rightarrow> ('h, 'w) plane \<Rightarrow> (pub_err + bool) \<times> ('h, 'w) plane" where
  "publishServiceSettings js environmentID microserviceID settings p =
     (if settings = [] then (Inl EmptySettings, p)
      else with_bucket BucketServiceSettings
        (\<lambda>kv. publish js kv BucketServiceSettings (ServiceSettingsKey environmentID microserviceID)
                (raw settings)) p)"

definition publishLocalization ::
  "('h, 'w) js_ops \<Rightarrow> int \<Rightarrow> int \<Rightarrow> string \<Rightarrow> bytes \<Rightarrow> ('h, 'w) plane \<Rightarrow> (pub_err + bool) \<times> ('h, 'w) plane" where
  "publishLocalization js environmentID microserviceID locale bundle p =
     (if locale = [] then (Inl EmptyLocale, p)
      else if bundle = [] then (Inl EmptyBundle, p)
      else with_bucket BucketLocalization
        (\<lambda>kv. publish js kv BucketLocalization (LocalizationKey environmentID microserviceID locale)
                (raw bundle)) p)"

definition list_keys :: "('h, 'w) js_ops \<Rightarrow> string \<Rightarrow> 'h \<Rightarrow> 'w \<Rightarrow> (pub_err + string list) \<times> 'w" where
  "list_keys js bucket kv w = (case js_ListKeys js kv w of
     (Inl err, w) \<Rightarrow> if err = ErrNoKeysFound \<or> err = ErrBucketNotFound then (Inr [], w)
                     else (Inl (KvListKeys bucket err), w)
   | (Inr keys, w) \<Rightarrow> (Inr keys, w))"

text \<open>The receive loop of \<^verbatim>\<open>ListRevisions\<close>; a closed channel yields nil entries.\<close>

fun collect_revisions :: "watch_event list \<Rightarrow> pub_err + (string \<times> nat) list" where
  "collect_revisions [] = Inr []"
| "collect_revisions (CtxDone # _) = Inl CtxErr"
| "collect_revisions (SnapshotEnd # _) = Inr []"
| "collect_revisions (Entry k rv # es) =
     (case collect_revisions es of Inl err \<Rightarrow> Inl err | Inr out \<Rightarrow> Inr ((k, rv) # out))"

definition list_revisions ::
  "('h, 'w) js_ops \<Rightarrow> string \<Rightarrow> 'h \<Rightarrow> 'w \<Rightarrow> (pub_err + (string \<times> nat) list) \<times> 'w" where
  "list_revisions js bucket kv w = (case js_WatchAll js kv w of
     (Inl err, w) \<Rightarrow> if err = ErrNoKeysFound \<or> err = ErrBucketNotFound then (Inr [], w)
                     else (Inl (KvListRevisions bucket err), w)
   | (Inr events, w) \<Rightarrow> (collect_revisions events, w))"

definition purge_key :: "('h, 'w) js_ops \<Rightarrow> string \<Rightarrow> string \<Rightarrow> 'h \<Rightarrow> 'w \<Rightarrow> (pub_err + unit) \<times> 'w" where
  "purge_key js bucket key kv w = (case js_Purge js kv key w of
     (Inl err, w) \<Rightarrow> if err = ErrKeyNotFound then (Inr (), w) else (Inl (KvPurge bucket key err), w)
   | (Inr _, w) \<Rightarrow> (Inr (), w))"

definition delete_key ::
  "('h, 'w) js_ops \<Rightarrow> string \<Rightarrow> string \<Rightarrow> ('h, 'w) plane \<Rightarrow> (pub_err + unit) \<times> ('h, 'w) plane" where
  "delete_key js bucket key p = (case with_bucket bucket (purge_key js bucket key) p of
     (Inl err, p) \<Rightarrow> (Inl err, on_metrics (counter_Inc KVDeleteFailures [''bucket'', bucket]) p)
   | (Inr _, p) \<Rightarrow> (Inr (), p))"

definition ensure_plane ::
  "('h, 'w) js_ops \<Rightarrow> ('h, 'w) plane \<Rightarrow> (pub_err + unit) \<times> ('h, 'w) plane" where
  "ensure_plane js p = (case Ensure js (pl_buckets p) (pl_net p) of
     (Inl err, w) \<Rightarrow> (Inl err, p\<lparr>pl_net := w\<rparr>)
   | (Inr b, w) \<Rightarrow> (Inr (), p\<lparr>pl_buckets := b, pl_net := w\<rparr>))"

definition Publisher :: "('h, 'w) js_ops \<Rightarrow> ('h, 'w) plane config_publisher" where
  "Publisher js = \<lparr>
     PublishFlag = (\<lambda>environmentID flagKey payload p.
       observePublish BucketFlags (publishFlag js environmentID flagKey payload p)),
     PublishServiceSettings = (\<lambda>environmentID microserviceID settings p.
       observePublish BucketServiceSettings
         (publishServiceSettings js environmentID microserviceID settings p)),
     PublishLocalization = (\<lambda>environmentID microserviceID locale bundle p.
       observePublish BucketLocalization
         (publishLocalization js environmentID microserviceID locale bundle p)),
     ListKeys = (\<lambda>bucket. with_bucket bucket (list_keys js bucket)),
     ListRevisions = (\<lambda>bucket. with_bucket bucket (list_revisions js bucket)),
     DeleteKey = delete_key js,
     EnsureAll = ensure_plane js\<rparr>"

definition NoopPublisher :: "'w config_publisher" where
  "NoopPublisher = \<lparr>
     PublishFlag = (\<lambda>_ _ _ w. (Inr (), w)),
     PublishServiceSettings = (\<lambda>_ _ _ w. (Inr (), w)),
     PublishLocalization = (\<lambda>_ _ _ _ w. (Inr (), w)),
     ListKeys = (\<lambda>_ w. (Inr [], w)),
     ListRevisions = (\<lambda>_ w. (Inr [], w)),
     DeleteKey = (\<lambda>_ _ w. (Inr (), w)),
     EnsureAll = (\<lambda>w. (Inr (), w))\<rparr>"

end
