(* ===== verification/Config_Client.thy ===== *)
theory Config_Client
  imports Kv_Publisher
begin

text \<open>
  The consumer library: \<^verbatim>\<open>pkg/configclient/configclient.go\<close>. A client keeps three maps, fed by three
  key-value watches, and answers reads from them.

  NATS is the parameter \<open>client_env\<close>: connecting, opening a watch (which yields the deliveries that
  precede the end of the snapshot), and the clock. What a watch delivers afterwards reaches the client
  through \<open>deliver\<close>; the three watches fill disjoint maps, so only the order within a bucket matters.
  The callback \<^verbatim>\<open>OnChange\<close> is the trace of its calls. A nil and an empty \<^verbatim>\<open>json.RawMessage\<close> are the
  same bytes. Mutexes, goroutines and logging are not modelled.
\<close>

section \<open>The client\<close>

datatype client_err =
    NATSURLRequired | EnvironmentRequired | NegativeMicroservice
  | BaseURLRequired | TokenRequired | TokenUnusable
  | ConnectFailed | JetStreamFailed | OpenBucket string | WatchFailed string | InitCtx
  | StatusError int | FetchFailed | WrongEnvironment int | OutOfScope int
  | NoTargets | FallbackFailed "client_err list" | FallbackPartial "client_err list"
  | WarmupFailed client_err client_err

record Client =
  cl_env :: int
  cl_msID :: int
  cl_nc :: bool
  cl_watch :: bool
  cl_flags :: "string \<rightharpoonup> FlagPayload"
  cl_micro :: "int \<rightharpoonup> bytes"
  cl_loc :: "int \<rightharpoonup> (string \<rightharpoonup> bytes)"
  cl_lastUpdate :: gotime
  cl_outOfScope :: int
  cl_httpUsed :: bool
  cl_lastErr :: "client_err option"
  cl_onChange :: "(string \<times> string \<times> bytes option) list"

definition new_client :: "int \<Rightarrow> int \<Rightarrow> Client" where
  "new_client env msID = \<lparr>cl_env = env, cl_msID = msID, cl_nc = False, cl_watch = False,
     cl_flags = Map.empty, cl_micro = Map.empty, cl_loc = Map.empty, cl_lastUpdate = 0,
     cl_outOfScope = 0, cl_httpUsed = False, cl_lastErr = None, cl_onChange = []\<rparr>"

definition inScope :: "Client \<Rightarrow> int \<Rightarrow> bool" where
  "inScope c microserviceID \<longleftrightarrow> cl_msID c = 0 \<or> cl_msID c = microserviceID"

definition setLastErr :: "client_err \<Rightarrow> Client \<Rightarrow> Client" where
  "setLastErr err c = c\<lparr>cl_lastErr := Some err\<rparr>"

section \<open>Applying an entry\<close>

definition trimEnv :: "Client \<Rightarrow> string \<Rightarrow> string" where
  "trimEnv c key = TrimPrefix key (FormatInt (cl_env c) @ ''.'')"

definition applyFlag :: "string \<Rightarrow> bytes option \<Rightarrow> Client \<Rightarrow> Client" where
  "applyFlag key val c = (let flagKey = trimEnv c key in
     case val of
       None \<Rightarrow> c\<lparr>cl_flags := (cl_flags c)(flagKey := None)\<rparr>
     | Some v \<Rightarrow> (case Unmarshal_payload v of
         None \<Rightarrow> c
       | Some p \<Rightarrow> c\<lparr>cl_flags := (cl_flags c)(flagKey \<mapsto> p)\<rparr>))"

definition applyServiceSettings :: "string \<Rightarrow> bytes option \<Rightarrow> Client \<Rightarrow> Client" where
  "applyServiceSettings key val c = (case ParseInt (trimEnv c key) of
     None \<Rightarrow> c
   | Some msID \<Rightarrow> c\<lparr>cl_micro := (cl_micro c)(msID := val)\<rparr>)"

definition set_bundle :: "int \<Rightarrow> string \<Rightarrow> bytes \<Rightarrow> Client \<Rightarrow> Client" where
  "set_bundle msID locale v c = (let m = (case cl_loc c msID of None \<Rightarrow> Map.empty | Some m \<Rightarrow> m)
     in c\<lparr>cl_loc := (cl_loc c)(msID \<mapsto> m(locale \<mapsto> v))\<rparr>)"

definition applyLoc :: "string \<Rightarrow> bytes option \<Rightarrow> Client \<Rightarrow> Client" where
  "applyLoc key val c = (case SplitN (CHR ''.'') 2 (trimEnv c key) of
     [ms, locale] \<Rightarrow>
       (case ParseInt ms of
          None \<Rightarrow> c
        | Some msID \<Rightarrow>
            (case val of
               None \<Rightarrow> (case cl_loc c msID of
                   None \<Rightarrow> c
                 | Some m \<Rightarrow> c\<lparr>cl_loc := (cl_loc c)(msID \<mapsto> m(locale := None))\<rparr>)
             | Some v \<Rightarrow> set_bundle msID locale v c))
   | _ \<Rightarrow> c)"

text \<open>What a watch delivers: a put carries a value, a delete or purge marker does not.\<close>

datatype kv_operation = KeyValuePut | KeyValueDelete | KeyValuePurge

record kv_entry =
  kve_Key :: string
  kve_Operation :: kv_operation
  kve_Value :: bytes

definition entry_value :: "kv_entry \<Rightarrow> bytes option" where
  "entry_value e = (if kve_Operation e = KeyValuePut then Some (kve_Value e) else None)"

type_synonym apply_fn = "string \<Rightarrow> bytes option \<Rightarrow> Client \<Rightarrow> Client"

definition applyEntry :: "apply_fn \<Rightarrow> string \<Rightarrow> gotime \<Rightarrow> kv_entry \<Rightarrow> Client \<Rightarrow> Client" where
  "applyEntry app bucket now e c = (let c1 = app (kve_Key e) (entry_value e) c in
     c1\<lparr>cl_lastUpdate := now, cl_onChange := cl_onChange c1 @ [(bucket, kve_Key e, entry_value e)]\<rparr>)"

definition bucket_apply :: "string \<Rightarrow> apply_fn" where
  "bucket_apply bucket =
     (if bucket = BucketFlags then applyFlag
      else if bucket = BucketServiceSettings then applyServiceSettings else applyLoc)"

text \<open>One delivery of the background loop of a bucket's watch.\<close>

definition deliver :: "string \<times> gotime \<times> kv_entry \<Rightarrow> Client \<Rightarrow> Client" where
  "deliver d c = (case d of (bucket, now, e) \<Rightarrow> applyEntry (bucket_apply bucket) bucket now e c)"

section \<open>Warm-up\<close>

text \<open>
  What the initial drain receives: an entry with the time it is applied at, the nil that ends the
  snapshot, or the end of the caller's context. A closed channel yields nil.
\<close>

datatype watch_item = Delivered gotime kv_entry | AllDelivered | InitDone

record 'w client_env =
  ce_Connect :: "string \<Rightarrow> string \<Rightarrow> 'w \<Rightarrow> (client_err + unit) \<times> 'w"
  ce_JetStream :: "'w \<Rightarrow> (client_err + unit) \<times> 'w"
  ce_KeyValue :: "string \<Rightarrow> 'w \<Rightarrow> (client_err + unit) \<times> 'w"
  ce_Watch :: "string \<Rightarrow> string \<Rightarrow> 'w \<Rightarrow> (client_err + watch_item list) \<times> 'w"

fun drain :: "apply_fn \<Rightarrow> string \<Rightarrow> watch_item list \<Rightarrow> Client \<Rightarrow> client_err option \<times> Client" where
  "drain app bucket [] c = (None, c)"
| "drain app bucket (InitDone # _) c = (Some InitCtx, c)"
| "drain app bucket (AllDelivered # _) c = (None, c)"
| "drain app bucket (Delivered now e # es) c = drain app bucket es (applyEntry app bucket now e c)"

text \<open>A step of the warm-up acts on the client and the world and may fail; the client keeps what it has.\<close>

definition startWatch ::
  "'w client_env \<Rightarrow> string \<Rightarrow> string \<Rightarrow> apply_fn \<Rightarrow> Client \<times> 'w \<Rightarrow> (client_err + unit) \<times> Client \<times> 'w" where
  "startWatch ce bucket pattern app = (\<lambda>(c, w).
     case ce_KeyValue ce bucket w of
       (Inl _, w) \<Rightarrow> (Inl (OpenBucket bucket), c, w)
     | (Inr _, w) \<Rightarrow>
         (case ce_Watch ce bucket pattern w of
            (Inl _, w) \<Rightarrow> (Inl (WatchFailed bucket), c, w)
          | (Inr items, w) \<Rightarrow>
              (case drain app bucket items c of
                 (Some err, c) \<Rightarrow> (Inl err, c, w)
               | (None, c) \<Rightarrow> (Inr (), c, w))))"

definition envPrefix :: "Client \<Rightarrow> string" where
  "envPrefix c = FormatInt (cl_env c) @ ''.>''"

definition microPrefix :: "Client \<Rightarrow> string" where
  "microPrefix c = (if 0 < cl_msID c then FormatInt (cl_env c) @ ''.'' @ FormatInt (cl_msID c)
                    else envPrefix c)"

definition locPrefix :: "Client \<Rightarrow> string" where
  "locPrefix c = (if 0 < cl_msID c then FormatInt (cl_env c) @ ''.'' @ FormatInt (cl_msID c) @ ''.>''
                  else envPrefix c)"

definition connectAndWatch ::
  "'w client_env \<Rightarrow> string \<Rightarrow> string \<Rightarrow> Client \<times> 'w \<Rightarrow> (client_err + unit) \<times> Client \<times> 'w" where
  "connectAndWatch ce url creds = (\<lambda>(c, w).
     case ce_Connect ce url creds w of
       (Inl _, w) \<Rightarrow> (Inl ConnectFailed, c, w)
     | (Inr _, w) \<Rightarrow>
         (case ce_JetStream ce w of
            (Inl _, w) \<Rightarrow> (Inl JetStreamFailed, c, w)
          | (Inr _, w) \<Rightarrow>
              bindE (startWatch ce BucketFlags (envPrefix c) applyFlag (c\<lparr>cl_nc := True\<rparr>, w)) (\<lambda>_ cw.
              bindE (startWatch ce BucketServiceSettings (microPrefix c) applyServiceSettings cw) (\<lambda>_ cw.
              bindE (startWatch ce BucketLocalization (locPrefix c) applyLoc cw) (\<lambda>_ (c, w).
                (Inr (), c\<lparr>cl_watch := True\<rparr>, w))))))"

definition closeConn :: "Client \<Rightarrow> Client" where
  "closeConn c = c\<lparr>cl_nc := False, cl_watch := False\<rparr>"

section \<open>Reads\<close>

definition FlagEnabled :: "Client \<Rightarrow> string \<Rightarrow> bool" where
  "FlagEnabled c flagKey = (case cl_flags c flagKey of None \<Rightarrow> False | Some p \<Rightarrow> fp_Enabled p)"

definition FlagValue_read :: "Client \<Rightarrow> string \<Rightarrow> string \<times> bool" where
  "FlagValue_read c flagKey = (case cl_flags c flagKey of None \<Rightarrow> ([], False) | Some p \<Rightarrow> (fp_Value p, True))"

definition ServiceSettings :: "int \<Rightarrow> Client \<Rightarrow> (bytes \<times> bool) \<times> Client" where
  "ServiceSettings microserviceID c =
     (if \<not> inScope c microserviceID then (([], False), c\<lparr>cl_outOfScope := cl_outOfScope c + 1\<rparr>)
      else ((case cl_micro c microserviceID of None \<Rightarrow> ([], False) | Some v \<Rightarrow> (v, True)), c))"

definition client_bundle :: "Client \<Rightarrow> int \<Rightarrow> string \<Rightarrow> bytes option" where
  "client_bundle c microserviceID locale =
     (case cl_loc c microserviceID of None \<Rightarrow> None | Some m \<Rightarrow> m locale)"

text \<open>\<^verbatim>\<open>json.Unmarshal\<close> into a \<^verbatim>\<open>map[string]string\<close>.\<close>

definition strings_field :: "string \<Rightarrow> bytes \<Rightarrow> (string \<rightharpoonup> string) \<Rightarrow> (string \<rightharpoonup> string) option" where
  "strings_field k v m = map_option (\<lambda>s. m(k \<mapsto> s)) (dec_string [] v)"

definition Unmarshal_strings :: "bytes \<Rightarrow> (string \<rightharpoonup> string) option" where
  "Unmarshal_strings s =
     Option.bind (object_members s) (\<lambda>ms. decode_members strings_field ms Map.empty)"

definition Translate :: "int \<Rightarrow> string \<Rightarrow> string \<Rightarrow> Client \<Rightarrow> (string \<times> bool) \<times> Client" where
  "Translate microserviceID locale key c =
     (if \<not> inScope c microserviceID then (([], False), c\<lparr>cl_outOfScope := cl_outOfScope c + 1\<rparr>)
      else ((case client_bundle c microserviceID locale of
               None \<Rightarrow> ([], False)
             | Some b \<Rightarrow> (case Unmarshal_strings b of
                 None \<Rightarrow> ([], False)
               | Some m \<Rightarrow> (case m key of None \<Rightarrow> ([], False) | Some v \<Rightarrow> (v, True)))), c))"

record Snapshot =
  sn_EnvironmentID :: int
  sn_Flags :: "string \<rightharpoonup> FlagPayload"
  sn_ServiceSettings :: "int \<rightharpoonup> bytes"
  sn_Localization :: "int \<rightharpoonup> (string \<rightharpoonup> bytes)"

definition Snapshot_of :: "Client \<Rightarrow> Snapshot" where
  "Snapshot_of c = \<lparr>sn_EnvironmentID = cl_env c, sn_Flags = cl_flags c,
     sn_ServiceSettings = cl_micro c, sn_Localization = cl_loc c\<rparr>"

text \<open>
  \<^verbatim>\<open>Status\<close>; the two times are given as times (the code renders them as text), and whether the
  connection is up at the moment is an argument.
\<close>

record Status =
  s_EnvironmentID :: int
  s_MicroserviceID :: int
  s_FleetWide :: bool
  s_Connected :: bool
  s_Watching :: bool
  s_UsedHTTPFallback :: bool
  s_LastUpdate :: "gotime option"
  s_StaleFor :: "gotime option"
  s_LastError :: "client_err option"
  s_OutOfScopeReads :: int
  s_Flags :: nat
  s_ServiceSettings :: nat
  s_Localization :: nat

definition Status_of :: "bool \<Rightarrow> gotime \<Rightarrow> Client \<Rightarrow> Status" where
  "Status_of up now c = \<lparr>
     s_EnvironmentID = cl_env c, s_MicroserviceID = cl_msID c, s_FleetWide = (cl_msID c = 0),
     s_Connected = (cl_nc c \<and> up), s_Watching = cl_watch c, s_UsedHTTPFallback = cl_httpUsed c,
     s_LastUpdate = (if 0 < cl_lastUpdate c then Some (cl_lastUpdate c) else None),
     s_StaleFor = (if 0 < cl_lastUpdate c then Some (now - cl_lastUpdate c) else None),
     s_LastError = cl_lastErr c, s_OutOfScopeReads = cl_outOfScope c,
     s_Flags = card (dom (cl_flags c)), s_ServiceSettings = card (dom (cl_micro c)),
     s_Localization = card (dom (cl_loc c))\<rparr>"

end
