(* ===== verification/Go_Json_Rows.thy ===== *)
theory Go_Json_Rows
  imports Go_Json_Strings
begin

text \<open>
  Listings: the elements of a JSON array as \<^verbatim>\<open>json.Unmarshal\<close> into \<^verbatim>\<open>[]json.RawMessage\<close> keeps them, and the
  compaction \<^verbatim>\<open>json.Marshal\<close> applies to a raw message. An array of objects the program wrote is split back
  into exactly those objects, and compaction leaves them alone.
\<close>

section \<open>Streams\<close>

text \<open>\<^verbatim>\<open>json.Decoder.Decode\<close> reads the first value of the stream and leaves what follows unread.\<close>

definition first_value :: "bytes \<Rightarrow> bytes option" where
  "first_value s = (let t = skip_ws s in
     map_option (\<lambda>u. take (length t - length u) t) (scan_value (scan_fuel t) max_nesting t))"

definition decode_struct ::
  "(string \<Rightarrow> bytes \<Rightarrow> 'a \<Rightarrow> 'a option) \<Rightarrow> 'a \<Rightarrow> bytes \<Rightarrow> 'a option" where
  "decode_struct field x s = Option.bind (first_value s)
     (\<lambda>v. Option.bind (object_members v) (\<lambda>ms. decode_members field ms x))"

lemma object_first_value:
  assumes "kvs \<noteq> []" and "\<And>k v. (k, v) \<in> set kvs \<Longrightarrow> value_ok (max_nesting - 1) v"
  shows "first_value (json_object kvs) = Some (json_object kvs)"
  using scan_object [OF assms] by (simp add: first_value_def Let_def)

lemma ToValid_ascii: "list_all is_ascii s \<Longrightarrow> ToValid s = s"
  by (simp add: ToValid_id ascii_ValidString)

section \<open>Elements\<close>

fun elements :: "nat \<Rightarrow> nat \<Rightarrow> string \<Rightarrow> bytes list option" where
  "elements 0 d s = None"
| "elements (Suc n) d s = (case scan_value (scan_fuel s) d s of
     None \<Rightarrow> None
   | Some t \<Rightarrow> (let raw = take (length s - length t) s in case skip_ws t of
       [] \<Rightarrow> None
     | e # u \<Rightarrow> if e = CHR '']'' then Some [raw]
                else if e = CHR '','' then map_option ((#) raw) (elements n d (skip_ws u))
                else None))"

text \<open>\<^verbatim>\<open>json.Unmarshal\<close> of an array into raw messages, for a text that starts with the bracket.\<close>

definition array_elements :: "bytes \<Rightarrow> bytes list option" where
  "array_elements s =
     (if \<not> json_Valid s then None
      else case skip_ws s of
        [] \<Rightarrow> None
      | c # t \<Rightarrow>
          if c = CHR ''['' then
            (let u = skip_ws t in
             if (case u of [] \<Rightarrow> False | e # _ \<Rightarrow> e = CHR '']'') then Some []
             else elements (length u) (max_nesting - 1) u)
          else None)"

fun json_elements :: "bytes list \<Rightarrow> string" where
  "json_elements [] = '']''"
| "json_elements [v] = v @ '']''"
| "json_elements (v # w # ws) = v @ CHR '','' # json_elements (w # ws)"

definition json_array :: "bytes list \<Rightarrow> bytes" where
  "json_array vs = CHR ''['' # json_elements vs"

lemma value_ok_first: "value_ok d v \<Longrightarrow> v \<noteq> [] \<and> \<not> is_ws (hd v)"
  by (simp add: value_ok_def)

lemma value_ok_not_bracket: "value_ok d v \<Longrightarrow> hd v \<noteq> CHR '']''"
proof
  assume v: "value_ok d v" "hd v = CHR '']''"
  then obtain t where t: "v = CHR '']'' # t" by (cases v) (auto simp: value_ok_def)
  have "scan_value (scan_fuel (v @ '']'')) d (v @ '']'') = Some '']''" using v(1) by (simp add: value_ok_def)
  then show False
    by (simp add: t scan_fuel_def HasPrefix_def scan_number_def is_digit_def digit_val_def quote_def)
qed

lemma json_elements_hd: "vs \<noteq> [] \<Longrightarrow> \<forall>v \<in> set vs. value_ok d v \<Longrightarrow>
    \<exists>c s. json_elements vs = c # s \<and> \<not> is_ws c \<and> c \<noteq> CHR '']''"
proof -
  assume a: "vs \<noteq> []" "\<forall>v \<in> set vs. value_ok d v"
  then obtain v ws where vs: "vs = v # ws" "value_ok d v" by (cases vs) auto
  obtain c s where v: "v = c # s" using value_ok_first [OF vs(2)] by (cases v) auto
  show ?thesis using value_ok_first [OF vs(2)] value_ok_not_bracket [OF vs(2)] vs(1) v
    by (cases ws) auto
qed

lemma skip_elements: "vs \<noteq> [] \<Longrightarrow> \<forall>v \<in> set vs. value_ok d v \<Longrightarrow> skip_ws (json_elements vs @ r) = json_elements vs @ r"
  using json_elements_hd [of vs d] by (auto simp: skip_ws_def)

lemma skip_bracket [simp]: "skip_ws (CHR '']'' # s) = CHR '']'' # s" "skip_ws (CHR ''['' # s) = CHR ''['' # s"
  by (simp_all add: skip_ws_def is_ws_def)

lemma scan_elems_array:
  assumes "vs \<noteq> []" "\<forall>v \<in> set vs. value_ok d v" "2 * length (json_elements vs) + 3 \<le> n"
  shows "scan_elems n d (json_elements vs) = Some []"
  using assms
proof (induction vs arbitrary: n rule: json_elements.induct)
  case 1
  then show ?case by simp
next
  case (2 v)
  then obtain m where n: "n = Suc m" by (cases n) auto
  have "scan_value m d (skip_ws (v @ '']'')) = Some '']''" "skip_ws (v @ '']'') = v @ '']''"
    using 2 n by (auto intro!: value_ok_scan simp: scan_fuel_def)
  then show ?case by (simp add: n)
next
  case (3 v w ws)
  then obtain m where n: "n = Suc m" by (cases n) auto
  let ?t = "json_elements (w # ws)"
  have v: "scan_value m d (skip_ws (v @ CHR '','' # ?t)) = Some (CHR '','' # ?t)"
    "skip_ws (v @ CHR '','' # ?t) = v @ CHR '','' # ?t"
    using 3 n by (auto intro!: value_ok_scan simp: scan_fuel_def)
  have "scan_elems m d ?t = Some []" using 3 n by (intro "3.IH") auto
  moreover have "skip_ws ?t = ?t" using skip_elements [of "w # ws" d "[]"] 3(3) by simp
  ultimately show ?case using v by (simp add: n del: json_elements.simps(2,3) add: json_elements.simps(3) [of v])
qed

lemma elements_array:
  assumes "vs \<noteq> []" "\<forall>v \<in> set vs. value_ok d v" "length vs \<le> n"
  shows "elements n d (json_elements vs) = Some vs"
  using assms
proof (induction vs arbitrary: n rule: json_elements.induct)
  case 1
  then show ?case by simp
next
  case (2 v)
  then obtain m where n: "n = Suc m" by (cases n) auto
  have "scan_value (scan_fuel (v @ '']'')) d (skip_ws (v @ '']'')) = Some '']''" "skip_ws (v @ '']'') = v @ '']''"
    using 2 by (auto intro!: value_ok_scan)
  then show ?case by (simp add: n Let_def)
next
  case (3 v w ws)
  then obtain m where n: "n = Suc m" by (cases n) auto
  let ?t = "json_elements (w # ws)"
  have v: "scan_value (scan_fuel (v @ CHR '','' # ?t)) d (v @ CHR '','' # ?t) = Some (CHR '','' # ?t)"
    using 3(3) by (simp add: value_ok_def)
  have "elements m d ?t = Some (w # ws)" using 3 n by (intro "3.IH") auto
  moreover have "skip_ws ?t = ?t" using skip_elements [of "w # ws" d "[]"] 3(3) by simp
  ultimately show ?case using v
    by (simp add: n Let_def del: json_elements.simps(2,3) add: json_elements.simps(3) [of v])
qed

lemma length_json_elements: "length vs \<le> length (json_elements vs)"
  if "\<forall>v \<in> set vs. value_ok d v"
  using that by (induction vs rule: json_elements.induct) (auto dest: value_ok_first simp: Suc_le_eq)

lemma array_elements_json:
  assumes "\<forall>v \<in> set vs. value_ok (max_nesting - 1) v"
  shows "array_elements (json_array vs) = Some vs"
proof (cases "vs = []")
  case True
  have "scan_value (scan_fuel ''[]'') max_nesting ''[]'' = Some []"
    using scan_value.simps(3) [of 5 max_nesting "CHR ''[''" "'']''"] by (simp add: scan_fuel_def max_nesting_def)
  with True show ?thesis by (simp add: array_elements_def json_array_def json_Valid_def Let_def)
next
  case False
  let ?a = "json_array vs" and ?e = "json_elements vs"
  obtain c s where cs: "?e = c # s" "\<not> is_ws c" "c \<noteq> CHR '']''"
    using json_elements_hd [OF False assms] by blast
  have sk: "skip_ws ?e = ?e" using skip_elements [OF False assms, of "[]"] by simp
  have "scan_elems (2 * length ?e + 3) (max_nesting - 1) ?e = Some []"
    using scan_elems_array [OF False assms] by simp
  then have "scan_value (Suc (2 * length ?e + 3)) max_nesting ?a = Some []"
    using sk cs scan_value.simps(3) [of "2 * length ?e + 3" max_nesting "CHR ''[''" ?e]
    by (simp add: json_array_def max_nesting_def del: scan_elems.simps scan_value.simps)
  then have "json_Valid ?a"
    by (simp add: json_Valid_def json_array_def Let_def scan_fuel_def eval_nat_numeral del: scan_value.simps scan_elems.simps)
  moreover have "elements (length ?e) (max_nesting - 1) ?e = Some vs"
    using elements_array [OF False assms] length_json_elements [OF assms] by simp
  ultimately show ?thesis
    using sk cs by (simp add: array_elements_def json_array_def Let_def del: elements.simps)
qed

lemma value_ok_object:
  assumes "kvs \<noteq> []" "\<And>k v. (k, v) \<in> set kvs \<Longrightarrow> value_ok (d - 1) v" "0 < d"
  shows "value_ok d (json_object kvs)"
proof -
  obtain u where u: "json_members kvs = quote # u" using json_members_hd [OF assms(1)] by auto
  have qb: "quote \<noteq> CHR ''}''" by (simp add: quote_def)
  have "scan_value (scan_fuel (json_object kvs @ rest)) d (json_object kvs @ rest) = Some rest" for rest
  proof -
    let ?n = "2 * length (json_object kvs @ rest) + 1"
    have "scan_members ?n (d - 1) (json_members kvs @ rest) = Some rest"
      using assms(1,2) by (intro scan_members_object) (auto simp: json_object_def)
    then have "scan_value (Suc ?n) d (json_object kvs @ rest) = Some rest"
      using assms(3) u qb by (simp add: json_object_def del: scan_members.simps)
    then show ?thesis by (simp add: scan_fuel_def)
  qed
  then show ?thesis by (simp add: value_ok_def json_object_def is_ws_def)
qed

section \<open>Compaction\<close>

text \<open>\<^verbatim>\<open>appendCompact\<close> with HTML escaping, of a text that is known to be valid; the flag says whether a string
  literal is open.\<close>

fun compact_json :: "bool \<Rightarrow> string \<Rightarrow> string" where
  "compact_json open [] = []"
| "compact_json False (c # s) = (if is_ws c then compact_json False s else c # compact_json (c = quote) s)"
| "compact_json True (c # s) =
     (if c = backslash then (case s of [] \<Rightarrow> [c] | e # t \<Rightarrow> c # e # compact_json True t)
      else if c = quote then c # compact_json False s
      else if c = CHR ''<'' \<or> c = CHR ''>'' \<or> c = CHR ''&'' then
        [backslash, CHR ''u'', CHR ''0'', CHR ''0'',
         hex_digit (of_char c div 16), hex_digit (of_char c mod 16)] @ compact_json True s
      else if c = CHR 0xE2 then
        (case s of
           x # y # t \<Rightarrow>
             if x = CHR 0x80 \<and> (y = CHR 0xA8 \<or> y = CHR 0xA9)
             then backslash # ''u202'' @ [hex_digit (of_char y mod 16)] @ compact_json True t
             else c # compact_json True s
         | _ \<Rightarrow> c # compact_json True s)
      else c # compact_json True s)"

definition compact_ok :: "bytes \<Rightarrow> bool" where
  "compact_ok v \<longleftrightarrow> (\<forall>r. compact_json False (v @ r) = v @ compact_json False r)"

definition string_ok :: "string \<Rightarrow> bool" where
  "string_ok u \<longleftrightarrow> (\<forall>r. compact_json True (u @ r) = u @ compact_json True r)"

lemma compact_ok_self: "compact_ok v \<Longrightarrow> compact_json False v = v"
  unfolding compact_ok_def by (metis append_Nil2 compact_json.simps(1))

lemma compact_ok_append: "compact_ok u \<Longrightarrow> compact_ok v \<Longrightarrow> compact_ok (u @ v)"
  by (simp add: compact_ok_def)

lemma compact_ok_char: "\<not> is_ws c \<Longrightarrow> c \<noteq> quote \<Longrightarrow> compact_ok v \<Longrightarrow> compact_ok (c # v)"
  by (simp add: compact_ok_def)

lemma compact_ok_plain: "\<forall>c \<in> set v. \<not> is_ws c \<and> c \<noteq> quote \<Longrightarrow> compact_ok v"
  by (induction v) (auto simp: compact_ok_char, simp add: compact_ok_def)

lemma string_ok_Nil [simp]: "string_ok []"
  by (simp add: string_ok_def)

lemma string_ok_append: "string_ok u \<Longrightarrow> string_ok v \<Longrightarrow> string_ok (u @ v)"
  by (simp add: string_ok_def)

lemma string_ok_concat: "(\<And>u. u \<in> set us \<Longrightarrow> string_ok u) \<Longrightarrow> string_ok (concat us)"
  by (induction us) (simp_all add: string_ok_append)

lemma string_ok_escape: "string_ok [backslash, e]"
  by (simp add: string_ok_def)

lemma string_ok_char:
  "c \<noteq> backslash \<Longrightarrow> c \<noteq> quote \<Longrightarrow> c \<notin> {CHR ''<'', CHR ''>'', CHR ''&'', CHR 0xE2} \<Longrightarrow> string_ok [c]"
  by (simp add: string_ok_def)

lemma string_ok_chars:
  "\<forall>c \<in> set u. c \<noteq> backslash \<and> c \<noteq> quote \<and> c \<notin> {CHR ''<'', CHR ''>'', CHR ''&'', CHR 0xE2} \<Longrightarrow> string_ok u"
proof (induction u)
  case (Cons c u)
  then show ?case using string_ok_append [OF string_ok_char [of c], of u] by simp
qed simp

lemma hex_digit_plain: "d < 16 \<Longrightarrow> hex_digit d \<noteq> backslash \<and> hex_digit d \<noteq> quote \<and>
    hex_digit d \<notin> {CHR ''<'', CHR ''>'', CHR ''&'', CHR 0xE2}"
  by (auto simp: hex_digit_def backslash_def quote_def char_of_eq_iff take_bit_eq_mod)

lemma string_ok_hex:
  "\<forall>c \<in> set u. c \<noteq> backslash \<and> c \<noteq> quote \<and> c \<notin> {CHR ''<'', CHR ''>'', CHR ''&'', CHR 0xE2} \<Longrightarrow>
    string_ok (backslash # CHR ''u'' # u)"
  using string_ok_append [OF string_ok_escape [of "CHR ''u''"] string_ok_chars [of u]] by simp

lemma string_ok_ascii: "is_ascii c \<Longrightarrow> string_ok (enc_ascii c)"
proof -
  assume c: "is_ascii c"
  have byte: "(of_char c :: nat) < 256" by simp
  have h: "(of_char c :: nat) div 16 < 16" "(of_char c :: nat) mod 16 < 16"
    using byte by (simp_all add: less_mult_imp_div_less)
  have hex: "string_ok [backslash, CHR ''u'', CHR ''0'', CHR ''0'',
      hex_digit (of_char c div 16), hex_digit (of_char c mod 16)]"
    by (rule string_ok_hex) (use hex_digit_plain [OF h(1)] hex_digit_plain [OF h(2)] in
      \<open>simp add: backslash_def quote_def\<close>)
  have "c \<noteq> CHR 0xE2" using c by (auto simp: is_ascii_def)
  then show ?thesis unfolding enc_ascii_def
    by (simp add: hex string_ok_escape string_ok_char split: if_split)
qed

lemma line_separators:
  "char_of (226 :: nat) = CHR 0xE2" "char_of (128 :: nat) = CHR 0x80" "char_of (168 :: nat) = CHR 0xA8"
  "char_of (169 :: nat) = CHR 0xA9"
  by (simp_all add: char_of_eq_iff)

lemma string_ok_rune:
  assumes "r = take (rune_step s) s" "s \<noteq> []"
  shows "string_ok (enc_rune r)"
proof (cases "is_ascii (hd s)")
  case True
  with assms have "r = [hd s]"
    by (cases s) (auto simp: rune_step_def utf8_width_def byte_at_def is_ascii_def)
  with True show ?thesis by (simp add: enc_rune_def string_ok_ascii)
next
  case False
  have esc: "string_ok (backslash # ''ufffd'')" "string_ok (backslash # ''u2028'')" "string_ok (backslash # ''u2029'')"
    by (rule string_ok_hex; simp add: backslash_def quote_def)+
  show ?thesis
  proof (cases "utf8_width s")
    case None
    with assms have "r = [hd s]" by (cases s) (simp_all add: rune_step_def)
    moreover from this False have "utf8_width r = None"
      by (simp add: utf8_width_def byte_at_def is_ascii_def is_cont_def Let_def)
    ultimately show ?thesis using False esc(1) by (simp add: enc_rune_def)
  next
    case (Some w)
    then have w: "r = take w s" "0 < w" using assms utf8_width_pos by (auto simp: rune_step_def)
    have len: "length r = w" using w(1) byte_at_take [OF Some] by simp
    have b: "i < w \<Longrightarrow> byte_at s i = of_char (r ! i)" for i
      using w(1) byte_at_take [OF Some] by (simp add: byte_at_def)
    have lead: "128 \<le> byte_at s 0" using False assms(2) by (simp add: byte_at_def is_ascii_def hd_conv_nth)
    have cont: "128 \<le> (of_char (r ! i) :: nat) \<and> (of_char (r ! i) :: nat) \<le> 191" if "0 < i" "i < w" for i
    proof -
      have "i = 1 \<or> i = 2 \<or> i = 3"
        using that Some by (auto simp: utf8_width_def Let_def split: if_splits)
      then have "128 \<le> byte_at s i \<and> byte_at s i \<le> 191" using that Some lead
        by (elim disjE) (auto simp: utf8_width_def Let_def is_cont_def split: if_splits)
      then show ?thesis using b [OF that(2)] by simp
    qed
    obtain c u where cu: "r = c # u" using len w(2) by (cases r) auto
    have "x \<noteq> backslash \<and> x \<noteq> quote \<and> x \<notin> {CHR ''<'', CHR ''>'', CHR ''&'', CHR 0xE2}" if x: "x \<in> set u" for x
    proof -
      obtain i where "i < length u" "x = r ! Suc i" using x cu by (auto simp: in_set_conv_nth)
      then have "128 \<le> (of_char x :: nat) \<and> (of_char x :: nat) \<le> 191" using cont [of "Suc i"] len cu by auto
      then show ?thesis by (auto simp: backslash_def quote_def)
    qed
    then have u: "string_ok u" by (intro string_ok_chars) auto
    have c: "c \<noteq> backslash" "c \<noteq> quote" "c \<notin> {CHR ''<'', CHR ''>'', CHR ''&''}" "\<not> is_ascii c"
      using lead b [of 0] w(2) cu by (auto simp: backslash_def quote_def is_ascii_def)
    have raw: "string_ok r" if "r \<noteq> byte_string [226, 128, 168]" "r \<noteq> byte_string [226, 128, 169]"
    proof (cases "c = CHR 0xE2")
      case True
      then have "byte_at s 0 = 226" using b [of 0] w(2) cu by simp
      then have "w = 3" using Some by (auto simp: utf8_width_def Let_def split: if_splits)
      then obtain x y where xy: "u = [x, y]" using len cu by (auto simp: length_Suc_conv numeral_3_eq_3)
      have "\<not> (x = CHR 0x80 \<and> (y = CHR 0xA8 \<or> y = CHR 0xA9))"
        using that cu True xy by (auto simp: byte_string_def line_separators)
      then show ?thesis using u c True unfolding string_ok_def cu xy by (simp add: backslash_def quote_def)
    next
      case False
      have "string_ok [c]" using c(1,2,3) False by (intro string_ok_char) auto
      then show ?thesis using string_ok_append [of "[c]" u] u cu by simp
    qed
    have "utf8_width r \<noteq> None" using utf8_width_prefix [OF Some, of "[]"] w(1) by simp
    then show ?thesis using raw esc c(4) by (auto simp: enc_rune_def cu)
  qed
qed

lemma compact_ok_string: "compact_ok (json_string s)"
proof -
  have "string_ok (enc_contents s)"
    unfolding enc_contents_def by (rule string_ok_concat) (auto dest!: runes_pieces intro: string_ok_rune)
  then show ?thesis by (simp add: compact_ok_def json_string_def string_ok_def is_ws_def quote_def backslash_def)
qed

lemma compact_ok_int: "compact_ok (FormatInt n)"
proof (rule compact_ok_plain)
  have "\<not> is_ws c \<and> c \<noteq> quote" if "digit_val c \<noteq> None \<or> c = CHR ''-''" for c
    using that by (auto simp: digit_val_def is_ws_def quote_def)
  then show "\<forall>c \<in> set (FormatInt n). \<not> is_ws c \<and> c \<noteq> quote"
    by (auto simp: FormatInt_def split: if_splits dest: nat_dec_digits)
qed

lemma compact_ok_punct:
  "compact_ok v \<Longrightarrow> compact_ok (CHR '':'' # v)" "compact_ok v \<Longrightarrow> compact_ok (CHR '','' # v)"
  "compact_ok v \<Longrightarrow> compact_ok (CHR ''{'' # v)" "compact_ok ''}''"
  by (rule compact_ok_char; simp add: is_ws_def quote_def) (auto simp: compact_ok_def is_ws_def quote_def)

lemma compact_ok_object: "\<forall>(k, v) \<in> set kvs. compact_ok v \<Longrightarrow> compact_ok (json_object kvs)"
proof -
  have "\<forall>(k, v) \<in> set kvs. compact_ok v \<Longrightarrow> compact_ok (json_members kvs)"
    by (induction kvs rule: json_members.induct)
      (auto intro!: compact_ok_append compact_ok_punct compact_ok_string)
  then show "\<forall>(k, v) \<in> set kvs. compact_ok v \<Longrightarrow> compact_ok (json_object kvs)"
    by (simp add: json_object_def compact_ok_punct)
qed

end
