(* ===== verification/Client_Fallback.thy ===== *)
theory Client_Fallback
  imports Config_Client Go_Json_Rows
begin

text \<open>
  The boot-time HTTP fallback of the consumer library, \<^verbatim>\<open>pkg/configclient/httpfallback.go\<close>, and
  \<^verbatim>\<open>New\<close>, which ties it to the watches. The HTTP client is the parameter \<open>http_ops\<close>: whether a
  request can be built for a URL, and the answer to a GET (a transport error, or a status and a body).
  The order in which Go visits the map \<^verbatim>\<open>FlagValueIDs\<close> is not specified; the map is an association
  list in the order visited. Timeouts are part of the HTTP parameter.
\<close>

section \<open>Standard library\<close>

text \<open>\<^verbatim>\<open>url.PathEscape\<close>.\<close>

definition path_safe :: "char \<Rightarrow> bool" where
  "path_safe c \<longleftrightarrow> char_between CHR ''a'' CHR ''z'' c \<or> char_between CHR ''A'' CHR ''Z'' c
     \<or> char_between CHR ''0'' CHR ''9'' c \<or> c \<in> set ''-_.~$&+:=@''"

definition upper_hex :: "nat \<Rightarrow> char" where
  "upper_hex n = (''0123456789ABCDEF'' ! n)"

definition PathEscape :: "string \<Rightarrow> string" where
  "PathEscape s = concat (map (\<lambda>c. if path_safe c then [c]
     else [CHR ''%'', upper_hex (of_char c div 16), upper_hex (of_char c mod 16)]) s)"

definition TrimRight_slash :: "string \<Rightarrow> string" where
  "TrimRight_slash s = rev (dropWhile (\<lambda>c. c = CHR ''/'') (rev s))"

section \<open>Configuration\<close>

record HTTPFallback =
  hf_BaseURL :: string
  hf_Token :: string
  hf_AllowUnauthenticated :: bool
  hf_ConfigValueID :: int
  hf_FlagValueIDs :: "(string \<times> int) list"
  hf_Locales :: "string list"

definition bearer :: "HTTPFallback \<Rightarrow> string" where
  "bearer f = TrimSpace (hf_Token f)"

definition usableHeaderValue :: "string \<Rightarrow> bool" where
  "usableHeaderValue token = list_all (\<lambda>r. case r of
     [c] \<Rightarrow> char_between CHR ''!'' CHR ''~'' c | _ \<Rightarrow> False) (runes token)"

definition fallback_validate :: "HTTPFallback \<Rightarrow> client_err + unit" where
  "fallback_validate f =
     (if TrimSpace (hf_BaseURL f) = [] then Inl BaseURLRequired
      else if bearer f = [] then (if hf_AllowUnauthenticated f then Inr () else Inl TokenRequired)
      else if \<not> usableHeaderValue (bearer f) then Inl TokenUnusable
      else Inr ())"

section \<open>Requests\<close>

record 'w http_ops =
  http_NewRequest :: "string \<Rightarrow> bool"
  http_Get :: "string \<Rightarrow> string option \<Rightarrow> 'w \<Rightarrow> (unit + int \<times> bytes) \<times> 'w"

definition refused :: "client_err \<Rightarrow> bool" where
  "refused err = (case err of StatusError n \<Rightarrow> n = 401 \<or> n = 403 | _ \<Rightarrow> False)"

definition http_fetch ::
  "'w http_ops \<Rightarrow> HTTPFallback \<Rightarrow> string \<Rightarrow> (bytes \<Rightarrow> 'a option) \<Rightarrow> 'w \<Rightarrow> (client_err + 'a) \<times> 'w" where
  "http_fetch ho f path decode w = (
     let url = TrimRight_slash (hf_BaseURL f) @ path;
         token = bearer f
     in if \<not> http_NewRequest ho url then (Inl FetchFailed, w)
        else case http_Get ho url (if token = [] then None else Some (''Bearer '' @ token)) w of
          (Inl _, w) \<Rightarrow> (Inl FetchFailed, w)
        | (Inr (status, body), w) \<Rightarrow>
            if status \<noteq> 200 then (Inl (StatusError status), w)
            else (case decode body of None \<Rightarrow> (Inl FetchFailed, w) | Some x \<Rightarrow> (Inr x, w)))"

record flagValueResponse =
  fr_EnvironmentID :: int
  fr_Value :: string
  fr_Enabled :: int
  fr_UpdatedAt :: string

definition flag_response_field :: "string \<Rightarrow> bytes \<Rightarrow> flagValueResponse \<Rightarrow> flagValueResponse option" where
  "flag_response_field k v r =
     (if key_is k ''environmentId''
        then map_option (\<lambda>n. r\<lparr>fr_EnvironmentID := n\<rparr>) (dec_int64 (fr_EnvironmentID r) v)
      else if key_is k ''value'' then map_option (\<lambda>s. r\<lparr>fr_Value := s\<rparr>) (dec_string (fr_Value r) v)
      else if key_is k ''enabled'' then map_option (\<lambda>n. r\<lparr>fr_Enabled := n\<rparr>) (dec_int64 (fr_Enabled r) v)
      else if key_is k ''updatedAt''
        then map_option (\<lambda>s. r\<lparr>fr_UpdatedAt := s\<rparr>) (dec_string (fr_UpdatedAt r) v)
      else Some r)"

definition flag_response :: "bytes \<Rightarrow> flagValueResponse option" where
  "flag_response = decode_struct flag_response_field
     \<lparr>fr_EnvironmentID = 0, fr_Value = [], fr_Enabled = 0, fr_UpdatedAt = []\<rparr>"

record configValueResponse =
  cr_MicroserviceID :: int
  cr_EnvironmentID :: int
  cr_SettingsJSON :: bytes

definition config_response_field :: "string \<Rightarrow> bytes \<Rightarrow> configValueResponse \<Rightarrow> configValueResponse option" where
  "config_response_field k v r =
     (if key_is k ''microserviceId''
        then map_option (\<lambda>n. r\<lparr>cr_MicroserviceID := n\<rparr>) (dec_int64 (cr_MicroserviceID r) v)
      else if key_is k ''environmentId''
        then map_option (\<lambda>n. r\<lparr>cr_EnvironmentID := n\<rparr>) (dec_int64 (cr_EnvironmentID r) v)
      else if key_is k ''settingsJson'' then Some (r\<lparr>cr_SettingsJSON := v\<rparr>)
      else Some r)"

definition config_response :: "bytes \<Rightarrow> configValueResponse option" where
  "config_response = decode_struct config_response_field
     \<lparr>cr_MicroserviceID = 0, cr_EnvironmentID = 0, cr_SettingsJSON = []\<rparr>"

record localizationResponse =
  lr_MicroserviceID :: int
  lr_EnvironmentID :: int
  lr_Locale :: string
  lr_BundleJSON :: bytes

definition localization_response_field ::
  "string \<Rightarrow> bytes \<Rightarrow> localizationResponse \<Rightarrow> localizationResponse option" where
  "localization_response_field k v r =
     (if key_is k ''microserviceId''
        then map_option (\<lambda>n. r\<lparr>lr_MicroserviceID := n\<rparr>) (dec_int64 (lr_MicroserviceID r) v)
      else if key_is k ''environmentId''
        then map_option (\<lambda>n. r\<lparr>lr_EnvironmentID := n\<rparr>) (dec_int64 (lr_EnvironmentID r) v)
      else if key_is k ''locale'' then map_option (\<lambda>s. r\<lparr>lr_Locale := s\<rparr>) (dec_string (lr_Locale r) v)
      else if key_is k ''bundleJson'' then Some (r\<lparr>lr_BundleJSON := v\<rparr>)
      else Some r)"

definition localization_response :: "bytes \<Rightarrow> localizationResponse option" where
  "localization_response = decode_struct localization_response_field
     \<lparr>lr_MicroserviceID = 0, lr_EnvironmentID = 0, lr_Locale = [], lr_BundleJSON = []\<rparr>"

section \<open>Fetching\<close>

definition fetchFlag ::
  "'w http_ops \<Rightarrow> HTTPFallback \<Rightarrow> string \<Rightarrow> int \<Rightarrow> Client \<times> 'w \<Rightarrow> (client_err + unit) \<times> Client \<times> 'w" where
  "fetchFlag ho f flagKey i = (\<lambda>(c, w).
     case http_fetch ho f (''/flags/values/'' @ FormatInt i) flag_response w of
       (Inl err, w) \<Rightarrow> (Inl err, c, w)
     | (Inr r, w) \<Rightarrow>
         if fr_EnvironmentID r \<noteq> cl_env c then (Inl (WrongEnvironment (fr_EnvironmentID r)), c, w)
         else (Inr (), c\<lparr>cl_flags := (cl_flags c)(flagKey \<mapsto>
                 \<lparr>fp_Enabled = (fr_Enabled r \<noteq> 0), fp_Value = fr_Value r, fp_UpdatedAt = fr_UpdatedAt r\<rparr>)\<rparr>, w))"

definition fetchConfig ::
  "'w http_ops \<Rightarrow> HTTPFallback \<Rightarrow> Client \<times> 'w \<Rightarrow> (client_err + unit) \<times> Client \<times> 'w" where
  "fetchConfig ho f = (\<lambda>(c, w).
     case http_fetch ho f (''/configs/values/'' @ FormatInt (hf_ConfigValueID f)) config_response w of
       (Inl err, w) \<Rightarrow> (Inl err, c, w)
     | (Inr r, w) \<Rightarrow>
         if cr_EnvironmentID r \<noteq> cl_env c then (Inl (WrongEnvironment (cr_EnvironmentID r)), c, w)
         else if \<not> inScope c (cr_MicroserviceID r) then (Inl (OutOfScope (cr_MicroserviceID r)), c, w)
         else (Inr (), c\<lparr>cl_micro := (cl_micro c)(cr_MicroserviceID r \<mapsto> cr_SettingsJSON r)\<rparr>, w))"

definition fetchLocalization ::
  "'w http_ops \<Rightarrow> HTTPFallback \<Rightarrow> string \<Rightarrow> Client \<times> 'w \<Rightarrow> (client_err + unit) \<times> Client \<times> 'w" where
  "fetchLocalization ho f locale = (\<lambda>(c, w).
     case http_fetch ho f (''/localization/lookup/'' @ FormatInt (cl_msID c) @ ''/'' @ FormatInt (cl_env c)
            @ ''/'' @ PathEscape locale) localization_response w of
       (Inl err, w) \<Rightarrow> (Inl err, c, w)
     | (Inr r, w) \<Rightarrow> (Inr (), set_bundle (cl_msID c) locale (lr_BundleJSON r) c, w))"

section \<open>Hydration\<close>

text \<open>The targets: what each needs to be fetched, and the fetch.\<close>

datatype target = FlagTarget string int | ConfigTarget | LocaleTarget string

definition targets :: "HTTPFallback \<Rightarrow> Client \<Rightarrow> target list" where
  "targets f c = map (\<lambda>(k, i). FlagTarget k i) (hf_FlagValueIDs f)
     @ (if 0 < hf_ConfigValueID f then [ConfigTarget] else [])
     @ (if hf_Locales f \<noteq> [] \<and> 0 < cl_msID c then map LocaleTarget (hf_Locales f) else [])"

text \<open>Whether the loop skips a target because of what is cached when it comes to it.\<close>

fun skip_target :: "target \<Rightarrow> Client \<Rightarrow> bool" where
  "skip_target (FlagTarget k i) c = snd (FlagValue_read c k)"
| "skip_target ConfigTarget c = (snd (fst (ServiceSettings (cl_msID c) c)) \<and> cl_msID c \<noteq> 0)"
| "skip_target (LocaleTarget l) c = (client_bundle c (cl_msID c) l \<noteq> None)"

fun fetch_target ::
  "'w http_ops \<Rightarrow> HTTPFallback \<Rightarrow> target \<Rightarrow> Client \<times> 'w \<Rightarrow> (client_err + unit) \<times> Client \<times> 'w" where
  "fetch_target ho f (FlagTarget k i) cw = fetchFlag ho f k i cw"
| "fetch_target ho f ConfigTarget cw = fetchConfig ho f cw"
| "fetch_target ho f (LocaleTarget l) cw = fetchLocalization ho f l cw"

text \<open>The loops of \<^verbatim>\<open>hydrate\<close>: how many targets were attempted, and the errors in order.\<close>

fun fetch_all ::
  "'w http_ops \<Rightarrow> HTTPFallback \<Rightarrow> target list \<Rightarrow> nat \<Rightarrow> client_err list \<Rightarrow> Client \<times> 'w
     \<Rightarrow> (nat \<times> client_err list) \<times> Client \<times> 'w" where
  "fetch_all ho f [] attempted errs cw = ((attempted, errs), cw)"
| "fetch_all ho f (t # ts) attempted errs cw =
     (if skip_target t (fst cw) then fetch_all ho f ts attempted errs cw
      else (case fetch_target ho f t cw of
              (Inl err, cw) \<Rightarrow> fetch_all ho f ts (attempted + 1) (errs @ [err]) cw
            | (Inr _, cw) \<Rightarrow> fetch_all ho f ts (attempted + 1) errs cw))"

definition hydrate ::
  "'w http_ops \<Rightarrow> HTTPFallback \<Rightarrow> Client \<times> 'w \<Rightarrow> (client_err + unit) \<times> Client \<times> 'w" where
  "hydrate ho f cw = (case fallback_validate f of
     Inl err \<Rightarrow> (Inl err, cw)
   | Inr _ \<Rightarrow>
       (case fetch_all ho f (targets f (fst cw)) 0 [] cw of ((attempted, errs), (c, w)) \<Rightarrow>
          if attempted = 0 then (Inl NoTargets, c, w)
          else
            let c1 = (if length errs < attempted then c\<lparr>cl_httpUsed := True\<rparr> else c) in
            if list_ex refused errs \<or> length errs = attempted then (Inl (FallbackFailed errs), c1, w)
            else if errs \<noteq> [] then (Inr (), setLastErr (FallbackPartial errs) c1, w)
            else (Inr (), c1, w)))"

definition missingOwnKeys :: "HTTPFallback \<Rightarrow> Client \<Rightarrow> bool" where
  "missingOwnKeys f c \<longleftrightarrow>
     0 < hf_ConfigValueID f \<and> 0 < cl_msID c \<and> cl_micro c (cl_msID c) = None
     \<or> list_ex (\<lambda>l. client_bundle c (cl_msID c) l = None) (hf_Locales f)
     \<or> list_ex (\<lambda>(k, i). cl_flags c k = None) (hf_FlagValueIDs f)"

section \<open>New\<close>

record Options =
  op_NATSURL :: string
  op_NATSCreds :: string
  op_EnvironmentID :: int
  op_MicroserviceID :: int
  op_HTTPFallback :: "HTTPFallback option"

definition check_options :: "Options \<Rightarrow> client_err + unit" where
  "check_options opts =
     (if op_NATSURL opts = [] then Inl NATSURLRequired
      else if op_EnvironmentID opts \<le> 0 then Inl EnvironmentRequired
      else if op_MicroserviceID opts < 0 then Inl NegativeMicroservice
      else case op_HTTPFallback opts of None \<Rightarrow> Inr () | Some f \<Rightarrow> fallback_validate f)"

definition New :: "'w client_env \<Rightarrow> 'w http_ops \<Rightarrow> Options \<Rightarrow> 'w \<Rightarrow> (client_err + Client) \<times> 'w" where
  "New ce ho opts w = (case check_options opts of
     Inl err \<Rightarrow> (Inl err, w)
   | Inr _ \<Rightarrow>
       (case connectAndWatch ce (op_NATSURL opts) (op_NATSCreds opts)
               (new_client (op_EnvironmentID opts) (op_MicroserviceID opts), w) of
          (Inl err, (c, w)) \<Rightarrow>
            (case op_HTTPFallback opts of
               None \<Rightarrow> (Inl err, w)
             | Some f \<Rightarrow>
                 (case hydrate ho f (closeConn (setLastErr err c), w) of
                    (Inl ferr, (c, w)) \<Rightarrow> (Inl (WarmupFailed err ferr), w)
                  | (Inr _, (c, w)) \<Rightarrow> (Inr c, w)))
        | (Inr _, (c, w)) \<Rightarrow>
            (case op_HTTPFallback opts of
               None \<Rightarrow> (Inr c, w)
             | Some f \<Rightarrow>
                 if missingOwnKeys f c then
                   (case hydrate ho f (c, w) of
                      (Inl ferr, (c, w)) \<Rightarrow> (Inr (setLastErr ferr c), w)
                    | (Inr _, (c, w)) \<Rightarrow> (Inr c, w))
                 else (Inr c, w))))"

end
