(* ===== verification/Kv_Laws.thy ===== *)
theory Kv_Laws
  imports Kv_Publisher
begin

text \<open>
  What the publisher relies on of JetStream, and what it then guarantees. \<open>kv_laws js view rely\<close>
  states the documented behaviour of the key-value client: \<open>view w h k\<close> is the value and revision
  the server holds, and \<open>rely w w'\<close> says that only other clients have acted between \<open>w\<close> and \<open>w'\<close>
  (they may write and purge anything; a revision, once used, stays with its value). Every call takes
  effect at one moment between its start and its end, and an error other than a conflict leaves
  open whether the write was applied.

  \<open>publish_loop_wrote\<close> and \<open>publish_loop_skipped\<close> show that a publish is atomic: there is one moment
  at which the key held exactly what the written value was built from, and at which it was written.
\<close>

section \<open>Laws of the client\<close>

type_synonym ('h, 'w) kv_view = "'w \<Rightarrow> 'h \<Rightarrow> string \<Rightarrow> (bytes \<times> nat) option"

definition kv_put ::
  "('h, 'w) kv_view \<Rightarrow> 'h \<Rightarrow> string \<Rightarrow> bytes \<Rightarrow> nat \<Rightarrow> 'w \<Rightarrow> 'w \<Rightarrow> bool" where
  "kv_put view h k v r w1 w2 \<longleftrightarrow>
     (\<forall>h' k'. view w2 h' k' = (if h' = h \<and> k' = k then Some (v, r) else view w1 h' k'))"

definition kv_gone :: "('h, 'w) kv_view \<Rightarrow> 'h \<Rightarrow> string \<Rightarrow> 'w \<Rightarrow> 'w \<Rightarrow> bool" where
  "kv_gone view h k w1 w2 \<longleftrightarrow>
     (\<forall>h' k'. view w2 h' k' = (if h' = h \<and> k' = k then None else view w1 h' k'))"

text \<open>A change that takes effect at one moment of a call.\<close>

definition during :: "('w \<Rightarrow> 'w \<Rightarrow> bool) \<Rightarrow> ('w \<Rightarrow> 'w \<Rightarrow> bool) \<Rightarrow> 'w \<Rightarrow> 'w \<Rightarrow> bool" where
  "during rely act w w' \<longleftrightarrow> (\<exists>w1 w2. rely w w1 \<and> act w1 w2 \<and> rely w2 w')"

definition rely_laws :: "('h, 'w) kv_view \<Rightarrow> ('w \<Rightarrow> 'w \<Rightarrow> bool) \<Rightarrow> bool" where
  "rely_laws view rely \<longleftrightarrow>
     (\<forall>w. rely w w) \<and> (\<forall>w w' w''. rely w w' \<longrightarrow> rely w' w'' \<longrightarrow> rely w w'')
     \<and> (\<forall>w w' h k v v' r. rely w w' \<longrightarrow> view w h k = Some (v, r) \<longrightarrow> view w' h k = Some (v', r) \<longrightarrow> v' = v)
     \<and> (\<forall>w h k v r. view w h k = Some (v, r) \<longrightarrow> 0 < r)"

definition get_law :: "('h, 'w) js_ops \<Rightarrow> ('h, 'w) kv_view \<Rightarrow> ('w \<Rightarrow> 'w \<Rightarrow> bool) \<Rightarrow> bool" where
  "get_law js view rely \<longleftrightarrow> (\<forall>h k w res w'. js_Get js h k w = (res, w') \<longrightarrow>
     during rely (\<lambda>w1 w2. w1 = w2 \<and> (case res of
         Inr vr \<Rightarrow> view w1 h k = Some vr
       | Inl e \<Rightarrow> (e = ErrKeyNotFound \<or> e = ErrKeyDeleted) \<longrightarrow> view w1 h k = None)) w w')"

text \<open>A conditional write: \<open>P\<close> is what the server checks of the key's present state.\<close>

definition write_law ::
  "('h, 'w) kv_view \<Rightarrow> ('w \<Rightarrow> 'w \<Rightarrow> bool) \<Rightarrow> 'h \<Rightarrow> string \<Rightarrow> bytes \<Rightarrow> ((bytes \<times> nat) option \<Rightarrow> bool)
     \<Rightarrow> js_err + nat \<Rightarrow> 'w \<Rightarrow> 'w \<Rightarrow> bool" where
  "write_law view rely h k v P res w w' \<longleftrightarrow> (case res of
     Inr r \<Rightarrow> during rely (\<lambda>w1 w2. P (view w1 h k) \<and> kv_put view h k v r w1 w2) w w'
   | Inl e \<Rightarrow> rely w w'
       \<or> e \<noteq> ErrKeyExists \<and> (\<exists>r. during rely (\<lambda>w1 w2. P (view w1 h k) \<and> kv_put view h k v r w1 w2) w w'))"

definition create_law :: "('h, 'w) js_ops \<Rightarrow> ('h, 'w) kv_view \<Rightarrow> ('w \<Rightarrow> 'w \<Rightarrow> bool) \<Rightarrow> bool" where
  "create_law js view rely \<longleftrightarrow> (\<forall>h k v w res w'. js_Create js h k v w = (res, w') \<longrightarrow>
     write_law view rely h k v (\<lambda>c. c = None) res w w')"

definition update_law :: "('h, 'w) js_ops \<Rightarrow> ('h, 'w) kv_view \<Rightarrow> ('w \<Rightarrow> 'w \<Rightarrow> bool) \<Rightarrow> bool" where
  "update_law js view rely \<longleftrightarrow> (\<forall>h k v old w res w'. js_Update js h k v old w = (res, w') \<longrightarrow>
     write_law view rely h k v (\<lambda>c. map_option snd c = Some old) res w w')"

definition purge_law :: "('h, 'w) js_ops \<Rightarrow> ('h, 'w) kv_view \<Rightarrow> ('w \<Rightarrow> 'w \<Rightarrow> bool) \<Rightarrow> bool" where
  "purge_law js view rely \<longleftrightarrow> (\<forall>h k w res w'. js_Purge js h k w = (res, w') \<longrightarrow>
     (case res of
        Inr _ \<Rightarrow> during rely (kv_gone view h k) w w'
      | Inl e \<Rightarrow> (rely w w' \<and> (e = ErrKeyNotFound \<longrightarrow> during rely (\<lambda>w1 w2. w1 = w2 \<and> view w1 h k = None) w w'))
          \<or> (e \<noteq> ErrKeyNotFound \<and> during rely (kv_gone view h k) w w')))"

definition now_law :: "('h, 'w) js_ops \<Rightarrow> ('w \<Rightarrow> 'w \<Rightarrow> bool) \<Rightarrow> bool" where
  "now_law js rely \<longleftrightarrow> (\<forall>w t w'. js_Now js w = (t, w') \<longrightarrow> rely w w')"

definition kv_laws :: "('h, 'w) js_ops \<Rightarrow> ('h, 'w) kv_view \<Rightarrow> ('w \<Rightarrow> 'w \<Rightarrow> bool) \<Rightarrow> bool" where
  "kv_laws js view rely \<longleftrightarrow> rely_laws view rely \<and> get_law js view rely \<and> create_law js view rely
     \<and> update_law js view rely \<and> purge_law js view rely \<and> now_law js rely"

lemma rely_lawsD:
  assumes "kv_laws js view rely"
  shows rely_refl: "rely w w"
    and rely_trans: "rely w w' \<Longrightarrow> rely w' w'' \<Longrightarrow> rely w w''"
    and rely_revision: "rely w w' \<Longrightarrow> view w h k = Some (v, r) \<Longrightarrow> view w' h k = Some (v', r) \<Longrightarrow> v' = v"
    and revision_pos: "view w h k = Some (v, r) \<Longrightarrow> 0 < r"
  using assms unfolding kv_laws_def rely_laws_def by meson+

lemma kv_get:
  assumes "kv_laws js view rely" and "js_Get js h k w = (res, w')"
  shows "during rely (\<lambda>w1 w2. w1 = w2 \<and> (case res of
         Inr vr \<Rightarrow> view w1 h k = Some vr
       | Inl e \<Rightarrow> (e = ErrKeyNotFound \<or> e = ErrKeyDeleted) \<longrightarrow> view w1 h k = None)) w w'"
  using assms unfolding kv_laws_def get_law_def by blast

lemma kv_create:
  assumes "kv_laws js view rely" and "js_Create js h k x w = (res, w')"
  shows "write_law view rely h k x (\<lambda>c. c = None) res w w'"
  using assms unfolding kv_laws_def create_law_def by blast

lemma kv_update:
  assumes "kv_laws js view rely" and "js_Update js h k x old w = (res, w')"
  shows "write_law view rely h k x (\<lambda>c. map_option snd c = Some old) res w w'"
  using assms unfolding kv_laws_def update_law_def by blast

lemma kv_now: "kv_laws js view rely \<Longrightarrow> js_Now js w = (t, w') \<Longrightarrow> rely w w'"
  unfolding kv_laws_def now_law_def by blast

lemma kv_purge:
  assumes "kv_laws js view rely" and "js_Purge js h k w = (res, w')"
  shows "case res of
      Inr _ \<Rightarrow> during rely (kv_gone view h k) w w'
    | Inl e \<Rightarrow> (rely w w' \<and> (e = ErrKeyNotFound \<longrightarrow> during rely (\<lambda>w1 w2. w1 = w2 \<and> view w1 h k = None) w w'))
        \<or> (e \<noteq> ErrKeyNotFound \<and> during rely (kv_gone view h k) w w')"
  using assms unfolding kv_laws_def purge_law_def by blast

lemma during_stay: "kv_laws js view rely \<Longrightarrow> during rely (\<lambda>w1 w2. w1 = w2 \<and> P w1) w w' \<Longrightarrow> rely w w'"
proof -
  assume laws: "kv_laws js view rely" and "during rely (\<lambda>w1 w2. w1 = w2 \<and> P w1) w w'"
  then obtain w1 where "rely w w1" "rely w1 w'" unfolding during_def by blast
  then show "rely w w'" by (rule rely_trans [OF laws])
qed

lemma during_mono:
  assumes "during rely act w w'" and "\<And>w1 w2. rely w w1 \<Longrightarrow> act w1 w2 \<Longrightarrow> act' w1 w2"
  shows "during rely act' w w'"
  using assms unfolding during_def by blast

lemma write_law_mono:
  assumes "write_law view rely h k v P res w w'"
    and PQ: "\<And>w1. rely w w1 \<Longrightarrow> P (view w1 h k) \<Longrightarrow> Q (view w1 h k)"
  shows "write_law view rely h k v Q res w w'"
proof -
  have m: "during rely (\<lambda>w1 w2. Q (view w1 h k) \<and> kv_put view h k v r w1 w2) w w'"
    if "during rely (\<lambda>w1 w2. P (view w1 h k) \<and> kv_put view h k v r w1 w2) w w'" for r
    using that by (rule during_mono) (simp add: PQ)
  show ?thesis
  proof (cases res)
    case (Inr r)
    with assms(1) m [of r] show ?thesis by (simp add: write_law_def)
  next
    case (Inl e)
    with assms(1) have "rely w w' \<or> e \<noteq> ErrKeyExists
        \<and> (\<exists>r. during rely (\<lambda>w1 w2. P (view w1 h k) \<and> kv_put view h k v r w1 w2) w w')"
      by (simp add: write_law_def)
    with m have "rely w w' \<or> e \<noteq> ErrKeyExists
        \<and> (\<exists>r. during rely (\<lambda>w1 w2. Q (view w1 h k) \<and> kv_put view h k v r w1 w2) w w')"
      by fast
    with Inl show ?thesis by (simp add: write_law_def)
  qed
qed

text \<open>A builder reads the clock at most.\<close>

definition clock_only :: "('w \<Rightarrow> 'w \<Rightarrow> bool) \<Rightarrow> 'w buildValue \<Rightarrow> bool" where
  "clock_only rely build \<longleftrightarrow> (\<forall>cur w res w'. build cur w = (res, w') \<longrightarrow> rely w w')"

lemma raw_clock_only: "kv_laws js view rely \<Longrightarrow> clock_only rely (raw v)"
  by (auto simp: clock_only_def raw_def intro: rely_refl)

lemma flag_build_world:
  "flag_build js p cur w = (res, w') \<Longrightarrow>
     w' = (if fp_UpdatedAt p = [] then snd (js_Now js w) else w)"
  by (auto simp: flag_build_def Let_def split: prod.splits)

lemma flag_build_clock_only:
  assumes "kv_laws js view rely"
  shows "clock_only rely (flag_build js p)"
proof -
  have "rely w (snd (js_Now js w))" for w using kv_now [OF assms, of w] by (simp add: prod_eq_iff)
  with rely_refl [OF assms] show ?thesis
    by (auto simp: clock_only_def dest!: flag_build_world)
qed

section \<open>A publish is atomic\<close>

lemma current_cases:
  assumes laws: "kv_laws js view rely" and cur: "current js kv bucket key w = (res, w')"
  shows "rely w w'"
    and "res = Inr c \<Longrightarrow> \<exists>w1. rely w w1 \<and> rely w1 w' \<and> st_value c = map_option fst (view w1 kv key)
           \<and> st_revision c = (case view w1 kv key of None \<Rightarrow> 0 | Some (v, r) \<Rightarrow> r)"
proof -
  obtain g w2 where g: "js_Get js kv key w = (g, w2)" by fastforce
  have w2: "w2 = w'" using cur g by (auto simp: current_def split: sum.splits if_splits prod.splits)
  obtain w1 where w1: "rely w w1" "rely w1 w'"
    and read: "case g of Inr vr \<Rightarrow> view w1 kv key = Some vr
       | Inl e \<Rightarrow> (e = ErrKeyNotFound \<or> e = ErrKeyDeleted) \<longrightarrow> view w1 kv key = None"
    using kv_get [OF laws g] w2 unfolding during_def by blast
  show "rely w w'" using w1 rely_trans [OF laws] by blast
  assume res: "res = Inr c"
  have "st_value c = map_option fst (view w1 kv key)
      \<and> st_revision c = (case view w1 kv key of None \<Rightarrow> 0 | Some (v, r) \<Rightarrow> r)"
    using cur g res read by (auto simp: current_def split: sum.splits if_splits prod.splits)
  with w1 show "\<exists>w1. rely w w1 \<and> rely w1 w' \<and> st_value c = map_option fst (view w1 kv key)
      \<and> st_revision c = (case view w1 kv key of None \<Rightarrow> 0 | Some (v, r) \<Rightarrow> r)"
    by blast
qed

text \<open>
  The outcome of one publish: at the moment \<open>w1\<close> the key held what the builder was given; it was
  written then, or left alone because it already compared equal.
\<close>

definition publish_point ::
  "('h, 'w) kv_view \<Rightarrow> ('w \<Rightarrow> 'w \<Rightarrow> bool) \<Rightarrow> 'h \<Rightarrow> string \<Rightarrow> 'w buildValue \<Rightarrow> bool \<Rightarrow> 'w \<Rightarrow> 'w \<Rightarrow> bool" where
  "publish_point view rely kv key build skipped w w' \<longleftrightarrow>
     (\<exists>w1 wb wb' write compare. rely w w1
        \<and> build (map_option fst (view w1 kv key)) wb = (Inr (write, compare), wb')
        \<and> (if skipped then map_option fst (view w1 kv key) = Some compare \<and> rely w1 w'
           else map_option fst (view w1 kv key) \<noteq> Some compare
             \<and> (\<exists>w2 r. kv_put view kv key write r w1 w2 \<and> rely w2 w')))"

lemma publish_point_later:
  "kv_laws js view rely \<Longrightarrow> rely w w' \<Longrightarrow> publish_point view rely kv key build b w' w''
   \<Longrightarrow> publish_point view rely kv key build b w w''"
proof -
  assume laws: "kv_laws js view rely" and r: "rely w w'"
    and p: "publish_point view rely kv key build b w' w''"
  have "rely w w1" if "rely w' w1" for w1 using rely_trans [OF laws r that] .
  with p show ?thesis unfolding publish_point_def by blast
qed

text \<open>The read of one attempt and its conditional write.\<close>

definition cond_write ::
  "('h, 'w) js_ops \<Rightarrow> 'h \<Rightarrow> string \<Rightarrow> bytes \<Rightarrow> stored \<Rightarrow> 'w \<Rightarrow> (js_err + nat) \<times> 'w" where
  "cond_write js kv key write cur w =
     (if st_revision cur = 0 then js_Create js kv key write w
      else js_Update js kv key write (st_revision cur) w)"

text \<open>The condition the server checks implies that the key still holds what was read.\<close>

lemma cond_write_law:
  assumes laws: "kv_laws js view rely" and wr: "rely w0 w"
    and cur: "st_revision cur = (case view w0 kv key of None \<Rightarrow> 0 | Some (v, r) \<Rightarrow> r)"
    and act: "cond_write js kv key write cur w = (res, w')"
  shows "write_law view rely kv key write
     (\<lambda>c. map_option fst c = map_option fst (view w0 kv key)) res w w'"
proof -
  show ?thesis
  proof (cases "view w0 kv key")
    case None
    with cur act have "js_Create js kv key write w = (res, w')" by (simp add: cond_write_def)
    from kv_create [OF laws this] None show ?thesis by simp
  next
    case (Some vr)
    obtain v r where vr: "vr = (v, r)" by fastforce
    with Some cur act revision_pos [OF laws, of w0 kv key v r]
    have "js_Update js kv key write r w = (res, w')" by (simp add: cond_write_def)
    note upd = kv_update [OF laws this]
    have "map_option fst (view w1 kv key) = map_option fst (view w0 kv key)"
      if "rely w w1" "map_option snd (view w1 kv key) = Some r" for w1
      using that Some vr rely_revision [OF laws rely_trans [OF laws wr that(1)], of kv key v r]
      by (cases "view w1 kv key") auto
    with upd show ?thesis by (rule write_law_mono)
  qed
qed

lemma publish_loop_Suc:
  "publish_loop (Suc n) conflict js kv bucket key build w =
     bindE (current js kv bucket key w) (\<lambda>cur w.
     bindE (build (st_value cur) w) (\<lambda>(write, compare) w.
       if st_value cur = Some compare then (Inr True, w)
       else (case cond_write js kv key write cur w of
               (Inr _, w) \<Rightarrow> (Inr False, w)
             | (Inl err, w) \<Rightarrow>
                 if err = ErrKeyExists
                 then publish_loop n (Some err) js kv bucket key build w
                 else (Inl (KvPut bucket key (Some err)), w))))"
  unfolding cond_write_def publish_loop.simps(2) by (rule refl)

declare publish_loop.simps(2) [simp del]

text \<open>
  The guarantee of a publish: a success is atomic; an error leaves the key alone, except that a
  write whose answer was lost may have happened, atomically too.
\<close>

definition publish_post ::
  "('h, 'w) kv_view \<Rightarrow> ('w \<Rightarrow> 'w \<Rightarrow> bool) \<Rightarrow> 'h \<Rightarrow> string \<Rightarrow> 'w buildValue
     \<Rightarrow> pub_err + bool \<Rightarrow> 'w \<Rightarrow> 'w \<Rightarrow> bool" where
  "publish_post view rely kv key build res w w' \<longleftrightarrow> (case res of
     Inr skipped \<Rightarrow> publish_point view rely kv key build skipped w w'
   | Inl err \<Rightarrow> rely w w'
       \<or> (\<exists>b k e. err = KvPut b k (Some e) \<and> e \<noteq> ErrKeyExists)
         \<and> publish_point view rely kv key build False w w')"

lemma publish_post_later:
  assumes "kv_laws js view rely" and "rely w w1" and "publish_post view rely kv key build res w1 w'"
  shows "publish_post view rely kv key build res w w'"
proof -
  note later = publish_point_later [OF assms(1,2)] rely_trans [OF assms(1,2)]
  show ?thesis
  proof (cases res)
    case (Inl e)
    with assms(3) later show ?thesis by (auto simp: publish_post_def)
  next
    case (Inr b)
    with assms(3) later show ?thesis by (simp add: publish_post_def)
  qed
qed

lemma cond_write_point:
  assumes laws: "kv_laws js view rely"
    and act: "during rely (\<lambda>w1 w2. map_option fst (view w1 kv key) = map_option fst (view w0 kv key)
        \<and> kv_put view kv key write r w1 w2) w w'"
    and b: "build (map_option fst (view w0 kv key)) wb = (Inr (write, compare), wb')"
    and ne: "map_option fst (view w0 kv key) \<noteq> Some compare"
  shows "publish_point view rely kv key build False w w'"
proof -
  obtain w1 w2 where w: "rely w w1" "rely w2 w'" and put: "kv_put view kv key write r w1 w2"
    and same: "map_option fst (view w1 kv key) = map_option fst (view w0 kv key)"
    using act unfolding during_def by blast
  have "build (map_option fst (view w1 kv key)) wb = (Inr (write, compare), wb')"
    "map_option fst (view w1 kv key) \<noteq> Some compare"
    using b ne unfolding same by blast+
  with w put show ?thesis unfolding publish_point_def if_False by blast
qed

lemma publish_loop_post:
  assumes laws: "kv_laws js view rely" and clk: "clock_only rely build"
  shows "publish_loop n conflict js kv bucket key build w = (res, w')
     \<Longrightarrow> publish_post view rely kv key build res w w'"
proof (induction n arbitrary: conflict w)
  case 0
  then show ?case using rely_refl [OF laws] by (auto simp: publish_post_def)
next
  case (Suc n)
  obtain rc w1 where c: "current js kv bucket key w = (rc, w1)" by fastforce
  have r1: "rely w w1" using current_cases(1) [OF laws c] .
  show ?case
  proof (cases rc)
    case (Inl e)
    with Suc.prems c r1 show ?thesis by (auto simp: publish_loop_Suc publish_post_def)
  next
    case (Inr cur)
    obtain w0 where w0: "rely w w0" "rely w0 w1" and cv: "st_value cur = map_option fst (view w0 kv key)"
      and cr: "st_revision cur = (case view w0 kv key of None \<Rightarrow> 0 | Some (v, r) \<Rightarrow> r)"
      using current_cases(2) [OF laws c Inr] by blast
    obtain rb w2 where b: "build (st_value cur) w1 = (rb, w2)" by fastforce
    have r12: "rely w1 w2" using clk b unfolding clock_only_def by blast
    have r2: "rely w w2" and r02: "rely w0 w2"
      using rely_trans [OF laws] r1 r12 w0(2) by blast+
    show ?thesis
    proof (cases rb)
      case (Inl e)
      with Suc.prems c Inr b r2 show ?thesis by (auto simp: publish_loop_Suc publish_post_def)
    next
      case rb: (Inr wc)
      obtain new compare where wc: "wc = (new, compare)" by fastforce
      note b' = b [unfolded rb wc cv]
      show ?thesis
      proof (cases "st_value cur = Some compare")
        case True
        with Suc.prems c Inr b rb wc have "res = Inr True" "w' = w2"
          by (simp_all add: publish_loop_Suc)
        moreover have "publish_point view rely kv key build True w w2"
          unfolding publish_point_def if_True using w0(1) b' True [unfolded cv] r02 by blast
        ultimately show ?thesis by (simp add: publish_post_def)
      next
        case False
        obtain rw w3 where act: "cond_write js kv key new cur w2 = (rw, w3)" by fastforce
        note law = cond_write_law [OF laws r02 cr act]
        have pt: "publish_point view rely kv key build False w x"
          if "during rely (\<lambda>w1 w2. map_option fst (view w1 kv key) = map_option fst (view w0 kv key)
            \<and> kv_put view kv key new r w1 w2) w2 x" for x r
          using publish_point_later [OF laws r2]
            cond_write_point [where build = build, OF laws that b' False [unfolded cv]] .
        show ?thesis
        proof (cases rw)
          case (Inr r)
          with Suc.prems c \<open>rc = Inr cur\<close> b rb wc False act have "res = Inr False" "w' = w3"
            by (simp_all add: publish_loop_Suc)
          with law Inr pt show ?thesis by (auto simp: publish_post_def write_law_def)
        next
          case (Inl e)
          show ?thesis
          proof (cases "e = ErrKeyExists")
            case True
            with law Inl have "rely w2 w3" by (auto simp: write_law_def)
            then have "rely w w3" using rely_trans [OF laws r2] by blast
            moreover have "publish_loop n (Some e) js kv bucket key build w3 = (res, w')"
              using Suc.prems c \<open>rc = Inr cur\<close> b rb wc False act Inl True
              by (simp add: publish_loop_Suc)
            ultimately show ?thesis using Suc.IH publish_post_later [OF laws] by blast
          next
            case ne: False
            with Suc.prems c \<open>rc = Inr cur\<close> b rb wc False act Inl
            have "res = Inl (KvPut bucket key (Some e))" "w' = w3"
              by (simp_all add: publish_loop_Suc)
            with law Inl ne pt rely_trans [OF laws r2, of w3] show ?thesis
              by (auto simp: publish_post_def write_law_def)
          qed
        qed
      qed
    qed
  qed
qed

section \<open>Publishing through the plane\<close>

lemma with_bucket_InrD:
  assumes "with_bucket bucket f p = (Inr a, p')"
  obtains kv where "byName bucket (pl_buckets p) = Inr kv" "f kv (pl_net p) = (Inr a, pl_net p')"
    "p' = p\<lparr>pl_net := pl_net p'\<rparr>"
  using assms by (auto simp: with_bucket_def on_net_def split: sum.splits prod.splits)

lemma publishFlag_point:
  assumes "kv_laws js view rely" and "byName BucketFlags (pl_buckets p) = Inr kv"
    and "publishFlag js e k payload p = (Inr skipped, p')"
  shows "publish_point view rely kv (FlagKey e k) (flag_build js payload) skipped (pl_net p) (pl_net p')"
proof -
  have "publish_loop publishAttempts None js kv BucketFlags (FlagKey e k) (flag_build js payload) (pl_net p)
      = (Inr skipped, pl_net p')"
    using assms(2,3) by (auto simp: publishFlag_def publish_def elim!: with_bucket_InrD)
  from publish_loop_post [OF assms(1) flag_build_clock_only [OF assms(1)] this]
  show ?thesis by (simp add: publish_post_def)
qed

lemma publish_raw_point:
  assumes "kv_laws js view rely" and "publish js kv bucket key (raw v) w = (Inr skipped, w')"
  shows "publish_point view rely kv key (raw v) skipped w w'"
  using publish_loop_post [OF assms(1) raw_clock_only [OF assms(1)], of publishAttempts] assms(2)
  by (fastforce simp: publish_def publish_post_def)

text \<open>
  What the stored bytes say: either what was just written or, on a skip, what was already there
  decodes to the flag state the caller passed.
\<close>

definition flag_state :: "bytes \<Rightarrow> (bool \<times> string) option" where
  "flag_state v = map_option (\<lambda>q. (fp_Enabled q, fp_Value q)) (Unmarshal_payload v)"

lemma flag_state_Marshal: "flag_state (Marshal_payload p) = Some (fp_Enabled p, ToValid (fp_Value p))"
  by (simp add: flag_state_def Unmarshal_Marshal clean_payload_def)

lemma flag_build_state:
  assumes "flag_build js p cur w = (Inr (new, compare), w')"
  shows "flag_state new = Some (fp_Enabled p, ToValid (fp_Value p))"
    "flag_state compare = Some (fp_Enabled p, ToValid (fp_Value p))"
  using assms
  by (auto simp: flag_build_def Let_def flag_state_Marshal split: if_splits prod.splits option.splits)

lemma publish_point_value:
  assumes "publish_point view rely kv key build skipped w w'"
    and "\<And>cur wb new compare wb'. build cur wb = (Inr (new, compare), wb') \<Longrightarrow> P new \<and> P compare"
  shows "\<exists>wm v r. view wm kv key = Some (v, r) \<and> P v \<and> rely wm w'"
proof -
  obtain w1 wb wb' new compare where w1: "rely w w1"
    and b: "build (map_option fst (view w1 kv key)) wb = (Inr (new, compare), wb')"
    and r: "if skipped then map_option fst (view w1 kv key) = Some compare \<and> rely w1 w'
           else map_option fst (view w1 kv key) \<noteq> Some compare
             \<and> (\<exists>w2 r. kv_put view kv key new r w1 w2 \<and> rely w2 w')"
    using assms(1) unfolding publish_point_def by blast
  have P: "P new" "P compare" using assms(2) [OF b] by blast+
  show ?thesis
  proof (cases skipped)
    case True
    with r obtain rv where "view w1 kv key = Some (compare, rv)" "rely w1 w'" by auto
    with P(2) show ?thesis by blast
  next
    case False
    with r obtain w2 rv where put: "kv_put view kv key new rv w1 w2" and "rely w2 w'" by auto
    moreover from put have "view w2 kv key = Some (new, rv)" by (simp add: kv_put_def)
    ultimately show ?thesis using P(1) by blast
  qed
qed

text \<open>No other writer and no expiry: what is there stays there.\<close>

definition quiet :: "('h, 'w) kv_view \<Rightarrow> ('w \<Rightarrow> 'w \<Rightarrow> bool) \<Rightarrow> bool" where
  "quiet view rely \<longleftrightarrow> (\<forall>w w'. rely w w' \<longrightarrow> view w' = view w)"

text \<open>The comparison value built from a value this publisher wrote is that value.\<close>

lemma flag_build_fixpoint:
  assumes b: "flag_build js p cur w = (Inr (new, compare), w')"
    and v: "v = new \<or> (cur = Some compare \<and> v = compare)"
    and again: "flag_build js p (Some v) w2 = (Inr (new2, compare2), w2')"
  shows "compare2 = v"
proof (cases "fp_UpdatedAt p = []")
  case False
  with assms show ?thesis by (auto simp: flag_build_def)
next
  case True
  have "\<exists>u. v = Marshal_payload (p\<lparr>fp_UpdatedAt := u\<rparr>) \<and> ToValid u = u"
    using v
  proof
    assume "v = new"
    with b True obtain t where "v = Marshal_payload (p\<lparr>fp_UpdatedAt := FormatRFC3339 t\<rparr>)"
      by (auto simp: flag_build_def Let_def split: prod.splits)
    with ToValid_id [OF ascii_ValidString [OF FormatRFC3339_ascii]] show ?thesis by blast
  next
    assume c: "cur = Some compare \<and> v = compare"
    show ?thesis
    proof (cases "Unmarshal_payload compare")
      case None
      with b c True have "compare = Marshal_payload p"
        by (auto simp: flag_build_def Let_def split: prod.splits option.splits)
      with None show ?thesis by (simp add: Unmarshal_Marshal)
    next
      case (Some q)
      with b c True have m: "compare = Marshal_payload (p\<lparr>fp_UpdatedAt := fp_UpdatedAt q\<rparr>)"
        by (auto simp: flag_build_def Let_def split: prod.splits option.splits)
      with Some have "fp_UpdatedAt q = ToValid (fp_UpdatedAt q)"
        by (metis FlagPayload.select_convs(3) FlagPayload.surjective FlagPayload.update_convs(3)
            Unmarshal_Marshal clean_payload_def option.inject)
      with m c show ?thesis by metis
    qed
  qed
  then obtain u where u: "v = Marshal_payload (p\<lparr>fp_UpdatedAt := u\<rparr>)" "ToValid u = u" by blast
  with again True show ?thesis
    by (auto simp: flag_build_def Let_def Unmarshal_Marshal clean_payload_def split: prod.splits)
qed

end
