(* ===== verification/Client_Laws.thy ===== *)
theory Client_Laws
  imports Client_Fallback Kv_Laws
begin

text \<open>
  The client's cache as a replica of the keys it watches. The locale \<open>replica\<close> states what the apply
  function of a bucket does to the entry of one key, and derives what a sequence of deliveries leaves in the
  cache; it is interpreted for the flags, the settings and the bundles.
\<close>

section \<open>Deliveries\<close>

type_synonym delivery = "string \<times> gotime \<times> kv_entry"

definition client_buckets :: "string set" where
  "client_buckets = {BucketFlags, BucketServiceSettings, BucketLocalization}"

definition deliver_all :: "delivery list \<Rightarrow> Client \<Rightarrow> Client" where
  "deliver_all ds c = fold deliver ds c"

text \<open>The last thing a list of deliveries says of a key of a bucket.\<close>

definition last_value :: "string \<Rightarrow> string \<Rightarrow> delivery list \<Rightarrow> bytes option option" where
  "last_value bucket key ds =
     (let es = filter (\<lambda>(b, t, e). b = bucket \<and> kve_Key e = key) ds
      in if es = [] then None else Some (entry_value (snd (snd (last es)))))"

lemma last_value_Nil [simp]: "last_value b k [] = None"
  by (simp add: last_value_def Let_def)

lemma last_value_snoc:
  "last_value b k (ds @ [d]) =
     (if fst d = b \<and> kve_Key (snd (snd d)) = k then Some (entry_value (snd (snd d))) else last_value b k ds)"
  by (cases d) (auto simp: last_value_def Let_def)

lemma deliver_all_snoc: "deliver_all (ds @ [d]) c = deliver d (deliver_all ds c)"
  by (simp add: deliver_all_def)

section \<open>A bucket of the cache\<close>

locale replica =
  fixes bucket :: string
    and look :: "Client \<Rightarrow> 'k \<Rightarrow> 'v option"
    and key :: "int \<Rightarrow> 'k \<Rightarrow> string"
    and ok :: "'k \<Rightarrow> bool"
    and dec :: "bytes \<Rightarrow> 'v option"
  assumes hit: "ok k \<Longrightarrow> look (bucket_apply bucket (key (cl_env c) k) val c) k =
      (case val of None \<Rightarrow> None | Some v \<Rightarrow> (case dec v of None \<Rightarrow> look c k | Some x \<Rightarrow> Some x))"
    and miss: "ok k \<Longrightarrow> ok j \<Longrightarrow> j \<noteq> k \<Longrightarrow>
      look (bucket_apply bucket (key (cl_env c) j) val c) k = look c k"
    and frame: "b \<in> client_buckets \<Longrightarrow> b \<noteq> bucket \<Longrightarrow> look (bucket_apply b s val c) k = look c k"
    and env: "b \<in> client_buckets \<Longrightarrow> cl_env (bucket_apply b s val c) = cl_env c"
    and stamp: "look (c\<lparr>cl_lastUpdate := t, cl_onChange := l\<rparr>) k = look c k"
    and inj: "ok k \<Longrightarrow> ok j \<Longrightarrow> key e k = key e j \<Longrightarrow> k = j"
begin

text \<open>Deliveries of known buckets, those of this one with keys of the environment.\<close>

definition sound :: "int \<Rightarrow> delivery list \<Rightarrow> bool" where
  "sound e ds \<longleftrightarrow> (\<forall>(b, t, x) \<in> set ds.
     b \<in> client_buckets \<and> (b = bucket \<longrightarrow> (\<exists>k. ok k \<and> kve_Key x = key e k)))"

lemma look_deliver: "look (deliver (b, t, x) c) k = look (bucket_apply b (kve_Key x) (entry_value x) c) k"
  by (simp add: deliver_def applyEntry_def stamp Let_def)

lemma env_deliver: "b \<in> client_buckets \<Longrightarrow> cl_env (deliver (b, t, x) c) = cl_env c"
  by (simp add: deliver_def applyEntry_def env Let_def)

lemma env_deliver_all: "sound e ds \<Longrightarrow> cl_env (deliver_all ds c) = cl_env c"
proof (induction ds rule: rev_induct)
  case Nil
  then show ?case by (simp add: deliver_all_def)
next
  case (snoc d ds)
  obtain b t x where d: "d = (b, t, x)" using prod_cases3 .
  with snoc show ?case by (simp add: sound_def deliver_all_snoc env_deliver)
qed

text \<open>The cache follows the last delivery of each key, malformed values excepted.\<close>

lemma follows_last:
  assumes "sound (cl_env c) ds" and "ok k"
  shows "last_value bucket (key (cl_env c) k) ds = None \<Longrightarrow> look (deliver_all ds c) k = look c k"
    and "last_value bucket (key (cl_env c) k) ds = Some None \<Longrightarrow> look (deliver_all ds c) k = None"
    and "last_value bucket (key (cl_env c) k) ds = Some (Some v) \<Longrightarrow> dec v = Some y
      \<Longrightarrow> look (deliver_all ds c) k = Some y"
  using assms(1)
proof (induction ds rule: rev_induct)
  case Nil
  case 1 then show ?case by (simp add: deliver_all_def)
next
  case Nil
  case 2 then show ?case by simp
next
  case Nil
  case 3 then show ?case by simp
next
  case (snoc d ds)
  obtain b t x where d: "d = (b, t, x)" using prod_cases3 .
  let ?c = "deliver_all ds c"
  let ?key = "key (cl_env c) k"
  have step: "look (deliver_all (ds @ [d]) c) k =
      (if b = bucket \<and> kve_Key x = ?key
       then (case entry_value x of None \<Rightarrow> None
             | Some v \<Rightarrow> (case dec v of None \<Rightarrow> look ?c k | Some y \<Rightarrow> Some y))
       else look ?c k)" if s: "sound (cl_env c) (ds @ [d])"
  proof -
    from s have b: "b \<in> client_buckets" "b = bucket \<longrightarrow> (\<exists>j. ok j \<and> kve_Key x = key (cl_env c) j)"
      and s': "sound (cl_env c) ds" by (auto simp: sound_def d)
    have e: "cl_env ?c = cl_env c" using env_deliver_all [OF s'] .
    show ?thesis
    proof (cases "b = bucket")
      case True
      then obtain j where j: "ok j" "kve_Key x = key (cl_env c) j" using b by blast
      show ?thesis
        using True j assms(2) hit [OF assms(2), of ?c] miss [OF assms(2) j(1), of ?c] inj [OF j(1) assms(2)]
        by (cases "j = k") (auto simp: d deliver_all_snoc look_deliver e)
    next
      case False
      then show ?thesis using frame [OF b(1)] by (simp add: d deliver_all_snoc look_deliver)
    qed
  qed
  {
    case 1
    then show ?case using snoc.IH(1) step [OF 1(2)]
      by (auto simp: last_value_snoc d sound_def split: if_splits)
  next
    case 2
    then show ?case using snoc.IH(2) step [OF 2(2)]
      by (auto simp: last_value_snoc d sound_def split: if_splits)
  next
    case 3
    then show ?case using snoc.IH(3) step [OF 3(3)]
      by (auto simp: last_value_snoc d sound_def split: if_splits)
  }
qed

end

section \<open>The three buckets\<close>

lemma bucket_apply_simps [simp]:
  "bucket_apply BucketFlags = applyFlag"
  "bucket_apply BucketServiceSettings = applyServiceSettings"
  "bucket_apply BucketLocalization = applyLoc"
  by (simp_all add: bucket_apply_def)

lemmas apply_defs = applyFlag_def applyServiceSettings_def applyLoc_def set_bundle_def Let_def

lemma applyFlag_frame:
  "cl_micro (applyFlag s v c) = cl_micro c" "cl_loc (applyFlag s v c) = cl_loc c"
  "cl_env (applyFlag s v c) = cl_env c"
  by (auto simp: apply_defs split: option.splits)

lemma applyServiceSettings_frame:
  "cl_flags (applyServiceSettings s v c) = cl_flags c" "cl_loc (applyServiceSettings s v c) = cl_loc c"
  "cl_env (applyServiceSettings s v c) = cl_env c"
  by (auto simp: apply_defs split: option.splits)

lemma applyLoc_frame:
  "cl_flags (applyLoc s v c) = cl_flags c" "cl_micro (applyLoc s v c) = cl_micro c"
  "cl_env (applyLoc s v c) = cl_env c"
  by (auto simp: apply_defs split: option.splits list.splits)

lemmas apply_frames = applyFlag_frame applyServiceSettings_frame applyLoc_frame

lemma trimEnv_FlagKey [simp]: "trimEnv c (FlagKey (cl_env c) k) = k"
  using TrimPrefix_append [of "FormatInt (cl_env c) @ ''.''" k]
  by (simp add: trimEnv_def FlagKey_def)

lemma trimEnv_ServiceSettingsKey [simp]: "trimEnv c (ServiceSettingsKey (cl_env c) m) = FormatInt m"
  using TrimPrefix_append [of "FormatInt (cl_env c) @ ''.''" "FormatInt m"]
  by (simp add: trimEnv_def ServiceSettingsKey_def)

lemma trimEnv_LocalizationKey [simp]:
  "trimEnv c (LocalizationKey (cl_env c) m l) = FormatInt m @ CHR ''.'' # l"
  using TrimPrefix_append [of "FormatInt (cl_env c) @ ''.''" "FormatInt m @ CHR ''.'' # l"]
  by (simp add: trimEnv_def LocalizationKey_def)

lemma split_loc [simp]: "SplitN (CHR ''.'') 2 (FormatInt m @ CHR ''.'' # l) = [FormatInt m, l]"
  using SplitN_append [of "CHR ''.''" "FormatInt m" 0 l] by (simp add: numeral_2_eq_2)

interpretation flags_cache: replica BucketFlags cl_flags FlagKey "\<lambda>_. True" Unmarshal_payload
proof unfold_locales
  fix c k val
  show "cl_flags (bucket_apply BucketFlags (FlagKey (cl_env c) k) val c) k =
      (case val of None \<Rightarrow> None | Some v \<Rightarrow> (case Unmarshal_payload v of None \<Rightarrow> cl_flags c k | Some x \<Rightarrow> Some x))"
    by (auto simp: applyFlag_def Let_def split: option.splits)
next
  fix c k j val
  assume "j \<noteq> (k :: string)"
  then show "cl_flags (bucket_apply BucketFlags (FlagKey (cl_env c) j) val c) k = cl_flags c k"
    by (auto simp: applyFlag_def Let_def split: option.splits)
qed (auto simp: client_buckets_def apply_frames)

interpretation settings_cache: replica BucketServiceSettings cl_micro ServiceSettingsKey in_int64 Some
proof unfold_locales
  fix c k val
  assume "in_int64 k"
  then show "cl_micro (bucket_apply BucketServiceSettings (ServiceSettingsKey (cl_env c) k) val c) k =
      (case val of None \<Rightarrow> None | Some v \<Rightarrow> (case Some v of None \<Rightarrow> cl_micro c k | Some x \<Rightarrow> Some x))"
    by (auto simp: applyServiceSettings_def ParseInt_FormatInt split: option.splits)
next
  fix c k j val
  assume "in_int64 j" "j \<noteq> k"
  then show "cl_micro (bucket_apply BucketServiceSettings (ServiceSettingsKey (cl_env c) j) val c) k = cl_micro c k"
    by (auto simp: applyServiceSettings_def ParseInt_FormatInt split: option.splits)
qed (auto simp: client_buckets_def apply_frames)

definition bundle_at :: "Client \<Rightarrow> int \<times> string \<Rightarrow> bytes option" where
  "bundle_at c k = client_bundle c (fst k) (snd k)"

definition bundle_key :: "int \<Rightarrow> int \<times> string \<Rightarrow> string" where
  "bundle_key e k = LocalizationKey e (fst k) (snd k)"

interpretation bundles_cache: replica BucketLocalization bundle_at bundle_key "\<lambda>k. in_int64 (fst k)" Some
proof unfold_locales
  fix c k val
  assume "in_int64 (fst (k :: int \<times> string))"
  then show "bundle_at (bucket_apply BucketLocalization (bundle_key (cl_env c) k) val c) k =
      (case val of None \<Rightarrow> None | Some v \<Rightarrow> (case Some v of None \<Rightarrow> bundle_at c k | Some x \<Rightarrow> Some x))"
    by (auto simp: bundle_at_def bundle_key_def client_bundle_def applyLoc_def set_bundle_def
        ParseInt_FormatInt Let_def split: option.splits)
next
  fix c j k val
  assume "in_int64 (fst (j :: int \<times> string))" "j \<noteq> k"
  then show "bundle_at (bucket_apply BucketLocalization (bundle_key (cl_env c) j) val c) k = bundle_at c k"
    by (cases k; cases j) (auto simp: bundle_at_def bundle_key_def client_bundle_def applyLoc_def set_bundle_def
        ParseInt_FormatInt Let_def split: option.splits)
qed (auto simp: client_buckets_def apply_frames bundle_at_def bundle_key_def client_bundle_def prod_eq_iff)

end
