(* ===== verification/Config_Model.thy ===== *)
theory Config_Model
  imports Go_Strings
begin

text \<open>
  The rows of the three domains, from \<^verbatim>\<open>internal/flagsconfig/model.go\<close>,
  \<^verbatim>\<open>internal/servicesettings/model.go\<close> and \<^verbatim>\<open>internal/localization/model.go\<close>. A Go struct is a
  record; the fields of the different structs share names in Go, so each carries its struct's prefix
  here. A \<^verbatim>\<open>*time.Time\<close> is an option.
\<close>

record Flag =
  flag_ID :: int
  flag_FlagKey :: string
  flag_IsActive :: int
  flag_UpdatedAt :: gotime

record FlagValue =
  fv_ID :: int
  fv_EnvironmentID :: int
  fv_FlagId :: int
  fv_Value :: string
  fv_Enabled :: int
  fv_UpdatedAt :: gotime
  fv_ExpectedUpdatedAt :: "gotime option"

record FlagValueRow =
  fvr_ID :: int
  fvr_EnvironmentID :: int
  fvr_FlagId :: int
  fvr_FlagKey :: string
  fvr_Value :: string
  fvr_Enabled :: int
  fvr_UpdatedAt :: gotime

record DeletedFlagValue =
  del_EnvironmentID :: int
  del_FlagKey :: string

record MicroserviceAppSettings =
  as_ID :: int
  as_MicroserviceID :: int
  as_EnvironmentID :: int
  as_SettingsJSON :: bytes
  as_UpdatedAt :: gotime
  as_ExpectedUpdatedAt :: "gotime option"

record Microservice =
  ms_ID :: int
  ms_Microservice :: string
  ms_UpdatedAt :: gotime

record Environment =
  env_ID :: int
  env_Environment :: string
  env_UpdatedAt :: gotime

record Localization =
  loc_ID :: int
  loc_MicroserviceID :: int
  loc_EnvironmentID :: int
  loc_Locale :: string
  loc_BundleJSON :: bytes
  loc_UpdatedAt :: gotime
  loc_ExpectedUpdatedAt :: "gotime option"

text \<open>\<^verbatim>\<open>Page\<close> is declared identically in the three packages.\<close>

record Page =
  Limit :: int
  Offset :: int

definition maxListLimit :: int where "maxListLimit = 500"

definition normalizePage :: "Page \<Rightarrow> Page" where
  "normalizePage p = (
     let p1 = (if Limit p \<le> 0 \<or> Limit p > maxListLimit then p\<lparr>Limit := maxListLimit\<rparr> else p)
     in (if Offset p1 < 0 then p1\<lparr>Offset := 0\<rparr> else p1))"

lemma normalizePage_bounds:
  "0 < Limit (normalizePage p)" "Limit (normalizePage p) \<le> 500" "0 \<le> Offset (normalizePage p)"
  by (auto simp: normalizePage_def maxListLimit_def Let_def)

end
