(* ===== verification/Config_Db.thy ===== *)
theory Config_Db
  imports Config_Model
begin

text \<open>
  The database the repositories talk to: the six configuration tables with the primary keys, unique
  constraints, foreign keys and column bounds that \<^verbatim>\<open>migrations/\<close> declares, and a connection whose
  statements may fail or may find that another client has committed in the meantime.

  A \<^verbatim>\<open>table\<close> holds its rows in insertion order and the next value of its identity sequence. A
  \<^verbatim>\<open>dbconn\<close> carries the committed tables, the database clock and the script of what the environment
  does to the coming statements: \<open>Calm\<close> lets one run, \<open>Fail\<close> makes it return a driver error
  without effect, \<open>Other t\<close> commits another client's tables \<open>t\<close> just before it runs. An exhausted
  script is calm. Every driver-error branch of the code is reachable through \<open>Fail\<close>, and every
  check-then-act race through \<open>Other\<close>.
\<close>

section \<open>Tables\<close>

record 'r table =
  rows :: "'r list"
  seq :: int

datatype sql_err = DriverError | UniqueViolation | OtherViolation

text \<open>\<^verbatim>\<open>database.IsUniqueViolation\<close>, on the classes of error the model distinguishes.\<close>

definition IsUniqueViolation :: "sql_err \<Rightarrow> bool" where
  "IsUniqueViolation err = (case err of UniqueViolation \<Rightarrow> True | _ \<Rightarrow> False)"

record tables =
  environments :: "Environment table"
  microservices :: "Microservice table"
  flags :: "Flag table"
  flag_values :: "FlagValue table"
  appsettings :: "MicroserviceAppSettings table"
  localizations :: "Localization table"

text \<open>The natural unique keys (\<^verbatim>\<open>UQ_*\<close> of the migrations).\<close>

definition fv_key :: "FlagValue \<Rightarrow> int \<times> int" where
  "fv_key r = (fv_EnvironmentID r, fv_FlagId r)"

definition as_key :: "MicroserviceAppSettings \<Rightarrow> int \<times> int" where
  "as_key r = (as_MicroserviceID r, as_EnvironmentID r)"

definition loc_key :: "Localization \<Rightarrow> int \<times> int \<times> string" where
  "loc_key r = (loc_MicroserviceID r, loc_EnvironmentID r, loc_Locale r)"

definition table_ok :: "('r \<Rightarrow> int) \<Rightarrow> ('r \<Rightarrow> 'k) \<Rightarrow> 'r table \<Rightarrow> bool" where
  "table_ok pk uk T \<longleftrightarrow> distinct (map pk (rows T)) \<and> distinct (map uk (rows T))"

text \<open>
  \<^verbatim>\<open>INSERT\<close>: the identity sequence advances whether or not the row is admitted, as a Postgres
  sequence does, and a collision of the primary or the unique key is a unique violation.
\<close>

definition table_insert ::
  "('r \<Rightarrow> int) \<Rightarrow> ('r \<Rightarrow> 'k) \<Rightarrow> (int \<Rightarrow> 'r) \<Rightarrow> 'r table \<Rightarrow> (sql_err + nat) \<times> 'r table" where
  "table_insert pk uk mk T = (
     let r = mk (seq T); T1 = T\<lparr>seq := seq T + 1\<rparr>
     in if list_ex (\<lambda>x. pk x = pk r \<or> uk x = uk r) (rows T) then (Inl UniqueViolation, T1)
        else (Inr 1, T1\<lparr>rows := rows T @ [r]\<rparr>))"

definition table_update ::
  "('r \<Rightarrow> 'k) \<Rightarrow> ('r \<Rightarrow> bool) \<Rightarrow> ('r \<Rightarrow> 'r) \<Rightarrow> 'r table \<Rightarrow> (sql_err + nat) \<times> 'r table" where
  "table_update uk P f T = (
     let rs = map (\<lambda>r. if P r then f r else r) (rows T)
     in if distinct (map uk rs) then (Inr (length (filter P (rows T))), T\<lparr>rows := rs\<rparr>)
        else (Inl UniqueViolation, T))"

definition table_delete :: "('r \<Rightarrow> bool) \<Rightarrow> 'r table \<Rightarrow> nat \<times> 'r table" where
  "table_delete P T = (length (filter P (rows T)), T\<lparr>rows := filter (\<lambda>r. \<not> P r) (rows T)\<rparr>)"

lemma table_insert_ok:
  "table_ok pk uk T \<Longrightarrow> table_ok pk uk (snd (table_insert pk uk mk T))"
  by (auto simp: table_ok_def table_insert_def Let_def list_ex_iff)

lemma table_delete_ok: "table_ok pk uk T \<Longrightarrow> table_ok pk uk (snd (table_delete P T))"
  by (simp add: table_ok_def table_delete_def distinct_map_filter)

lemma table_update_ok:
  assumes "table_ok pk uk T" and "\<And>r. pk (f r) = pk r"
  shows "table_ok pk uk (snd (table_update uk P f T))"
proof -
  have "map pk (map (\<lambda>r. if P r then f r else r) (rows T)) = map pk (rows T)"
    using assms(2) by auto
  with assms(1) show ?thesis by (simp add: table_ok_def table_update_def Let_def del: map_map)
qed

text \<open>\<^verbatim>\<open>ORDER BY ID\<close> and \<^verbatim>\<open>LIMIT n OFFSET m\<close>.\<close>

definition order_by :: "('r \<Rightarrow> int) \<Rightarrow> 'r list \<Rightarrow> 'r list" where
  "order_by pk rs = sort_key pk rs"

definition limit_offset :: "Page \<Rightarrow> 'r list \<Rightarrow> 'r list" where
  "limit_offset p rs = take (nat (Limit p)) (drop (nat (Offset p)) rs)"

definition find_row :: "('r \<Rightarrow> bool) \<Rightarrow> 'r table \<Rightarrow> 'r option" where
  "find_row P T = find P (rows T)"

lemma find_row_SomeD: "find_row P T = Some r \<Longrightarrow> r \<in> set (rows T) \<and> P r"
  by (auto simp: find_row_def find_Some_iff)

lemma find_row_None: "find_row P T = None \<longleftrightarrow> (\<forall>r \<in> set (rows T). \<not> P r)"
  by (auto simp: find_row_def find_None_iff)

lemma find_row_unique:
  assumes "distinct (map k (rows T))" and "r \<in> set (rows T)" and "k r = x"
  shows "find_row (\<lambda>r. k r = x) T = Some r"
proof -
  obtain r' where "find_row (\<lambda>r. k r = x) T = Some r'"
    using assms(2,3) by (cases "find_row (\<lambda>r. k r = x) T") (auto simp: find_row_None)
  moreover from this have "r' = r"
    using assms distinct_map_inj [OF assms(1)] by (auto dest!: find_row_SomeD)
  ultimately show ?thesis by simp
qed

section \<open>Well-formed databases\<close>

definition fk_ok :: "tables \<Rightarrow> bool" where
  "fk_ok t \<longleftrightarrow>
     (\<forall>r \<in> set (rows (flag_values t)).
        fv_EnvironmentID r \<in> env_ID ` set (rows (environments t))
        \<and> fv_FlagId r \<in> flag_ID ` set (rows (flags t)))
     \<and> (\<forall>r \<in> set (rows (appsettings t)).
        as_EnvironmentID r \<in> env_ID ` set (rows (environments t))
        \<and> as_MicroserviceID r \<in> ms_ID ` set (rows (microservices t)))
     \<and> (\<forall>r \<in> set (rows (localizations t)).
        loc_EnvironmentID r \<in> env_ID ` set (rows (environments t))
        \<and> loc_MicroserviceID r \<in> ms_ID ` set (rows (microservices t)))"

definition keys_ok :: "tables \<Rightarrow> bool" where
  "keys_ok t \<longleftrightarrow>
     table_ok env_ID env_Environment (environments t)
     \<and> table_ok ms_ID ms_Microservice (microservices t)
     \<and> table_ok flag_ID flag_FlagKey (flags t)
     \<and> table_ok fv_ID fv_key (flag_values t)
     \<and> table_ok as_ID as_key (appsettings t)
     \<and> table_ok loc_ID loc_key (localizations t)"

definition wf_tables :: "tables \<Rightarrow> bool" where
  "wf_tables t \<longleftrightarrow> keys_ok t \<and> fk_ok t"

section \<open>Connections and statements\<close>

datatype stmt_env = Calm | Fail | Other tables

record dbconn =
  tabs :: tables
  clock :: gotime
  script :: "stmt_env list"

definition calm :: "dbconn \<Rightarrow> bool" where
  "calm db \<longleftrightarrow> script db = []"

text \<open>What the environment does at the next statement: whether it runs, and on which tables.\<close>

fun begin_stmt :: "dbconn \<Rightarrow> bool \<times> dbconn" where
  "begin_stmt db = (case script db of
     [] \<Rightarrow> (True, db)
   | Calm # s \<Rightarrow> (True, db\<lparr>script := s\<rparr>)
   | Fail # s \<Rightarrow> (False, db\<lparr>script := s\<rparr>)
   | Other t # s \<Rightarrow> (True, db\<lparr>tabs := t, script := s\<rparr>))"

definition query :: "(tables \<Rightarrow> 'a) \<Rightarrow> dbconn \<Rightarrow> (sql_err + 'a) \<times> dbconn" where
  "query q db = (case begin_stmt db of
     (False, db1) \<Rightarrow> (Inl DriverError, db1)
   | (True, db1) \<Rightarrow> (Inr (q (tabs db1)), db1))"

type_synonym stmt = "gotime \<Rightarrow> tables \<Rightarrow> (sql_err + nat) \<times> tables"

definition exec :: "stmt \<Rightarrow> dbconn \<Rightarrow> (sql_err + nat) \<times> dbconn" where
  "exec st db = (case begin_stmt db of
     (False, db1) \<Rightarrow> (Inl DriverError, db1)
   | (True, db1) \<Rightarrow>
       (case st (clock db1) (tabs db1) of (res, t) \<Rightarrow> (res, db1\<lparr>tabs := t\<rparr>)))"

declare begin_stmt.simps [simp del]

lemma begin_stmt_calm [simp]: "calm db \<Longrightarrow> begin_stmt db = (True, db)"
  by (simp add: begin_stmt.simps calm_def)

lemma query_calm [simp]: "calm db \<Longrightarrow> query q db = (Inr (q (tabs db)), db)"
  by (simp add: query_def)

lemma exec_calm: "calm db \<Longrightarrow>
  exec st db = (fst (st (clock db) (tabs db)), db\<lparr>tabs := snd (st (clock db) (tabs db))\<rparr>)"
  by (simp add: exec_def split: prod.splits)

text \<open>
  An invariant \<open>P\<close> of the tables holds of a connection when the committed tables satisfy it and so
  does whatever other clients are going to commit; a statement keeps it when it cannot break it.
\<close>

definition holds :: "(tables \<Rightarrow> bool) \<Rightarrow> dbconn \<Rightarrow> bool" where
  "holds P db \<longleftrightarrow> P (tabs db) \<and> (\<forall>t. Other t \<in> set (script db) \<longrightarrow> P t)"

definition keeps :: "(tables \<Rightarrow> bool) \<Rightarrow> stmt \<Rightarrow> bool" where
  "keeps P st \<longleftrightarrow> (\<forall>now t. P t \<longrightarrow> P (snd (st now t)))"

abbreviation wf_db :: "dbconn \<Rightarrow> bool" where
  "wf_db \<equiv> holds wf_tables"

lemma begin_stmt_holds: "holds P db \<Longrightarrow> holds P (snd (begin_stmt db))"
  by (auto simp: holds_def begin_stmt.simps split: list.splits stmt_env.splits)

lemma query_holds: "holds P db \<Longrightarrow> holds P (snd (query q db))"
  using begin_stmt_holds [of P db] by (auto simp: query_def split: prod.splits bool.splits)

lemma exec_holds:
  assumes "keeps P st" and "holds P db"
  shows "holds P (snd (exec st db))"
proof -
  obtain ok db1 where b: "begin_stmt db = (ok, db1)" by fastforce
  with begin_stmt_holds [OF assms(2)] have inv: "holds P db1" by simp
  obtain res t where st: "st (clock db1) (tabs db1) = (res, t)" by fastforce
  with assms(1) inv have "P t" by (metis keeps_def snd_conv holds_def)
  with b inv st show ?thesis by (cases ok) (auto simp: exec_def holds_def)
qed

text \<open>
  A statement inside a transaction: it may fail, but no other client's commit is seen between the
  transaction's statements.
\<close>

definition tx_stmt :: "dbconn \<Rightarrow> bool \<times> dbconn" where
  "tx_stmt db = (case begin_stmt db of (ok, db1) \<Rightarrow> (ok, db1\<lparr>tabs := tabs db\<rparr>))"

lemma tx_stmt_tabs [simp]: "tabs (snd (tx_stmt db)) = tabs db"
  by (simp add: tx_stmt_def split: prod.splits)

lemma tx_stmt_calm [simp]: "calm db \<Longrightarrow> tx_stmt db = (True, db)"
  by (simp add: tx_stmt_def)

lemma tx_stmt_holds: "holds P db \<Longrightarrow> holds P (snd (tx_stmt db))"
  using begin_stmt_holds [of P db] by (cases "begin_stmt db") (simp add: tx_stmt_def holds_def)

section \<open>Column bounds\<close>

definition smallint :: "int \<Rightarrow> bool" where
  "smallint n \<longleftrightarrow> - 32768 \<le> n \<and> n \<le> 32767"

definition varchar :: "nat \<Rightarrow> string \<Rightarrow> bool" where
  "varchar n s \<longleftrightarrow> RuneCount s \<le> n"

end
