(* ===== verification/Flags_Repo.thy ===== *)
theory Flags_Repo
  imports Config_Db
begin

text \<open>
  \<^verbatim>\<open>internal/flagsconfig/repository.go\<close>: the Postgres repository of feature flags, one definition per
  method, each statement of the code a \<open>query\<close> or an \<open>exec\<close> on the connection, with the sentinel
  errors of \<^verbatim>\<open>errors.go\<close>. \<open>Flags_Repo_Laws\<close> shows that every method keeps the database well-formed
  whatever the environment's script does, \<open>Flags_Repo_Spec\<close> what each does to the environment's flag
  values on a calm connection.
\<close>

section \<open>Errors\<close>

datatype flags_error =
    ErrFlagNotFound | ErrInvalidFlagID | ErrInvalidEnvironmentID | ErrInvalidFlagKey
  | ErrInvalidFlagValue | ErrFlagValueTooLarge | ErrInvalidEnabled | ErrInvalidIsActive
  | ErrFlagExists | ErrFlagValueExists | ErrEnvironmentNotFound | ErrConflict
  | FlagsWrapped string

type_synonym 'a flags_result = "(flags_error + 'a) \<times> dbconn"

definition flags_wrap :: "string \<Rightarrow> (sql_err + 'a) \<times> dbconn \<Rightarrow> 'a flags_result" where
  "flags_wrap msg = mapErr (\<lambda>_. FlagsWrapped msg)"

lemma flags_wrap_Inl [simp]: "flags_wrap msg (Inl e, db) = (Inl (FlagsWrapped msg), db)"
  and flags_wrap_Inr [simp]: "flags_wrap msg (Inr a, db) = (Inr a, db)"
  by (simp_all add: flags_wrap_def)

section \<open>Statements\<close>

text \<open>\<^verbatim>\<open>CONFIG_FLAG_VALUE fv JOIN CONFIG_FLAG f ON f.ID = fv.FLAG_ID\<close>.\<close>

definition fv_join :: "tables \<Rightarrow> (FlagValue \<times> Flag) list" where
  "fv_join t = concat (map (\<lambda>fv. map (Pair fv)
      (filter (\<lambda>f. flag_ID f = fv_FlagId fv) (rows (flags t)))) (rows (flag_values t)))"

text \<open>The \<^verbatim>\<open>WHERE\<close> and \<^verbatim>\<open>SET\<close> clauses of the (optionally version-guarded) update.\<close>

definition fv_matches :: "FlagValue \<Rightarrow> FlagValue \<Rightarrow> bool" where
  "fv_matches input r \<longleftrightarrow> fv_ID r = fv_ID input
     \<and> (case fv_ExpectedUpdatedAt input of None \<Rightarrow> True | Some e \<Rightarrow> fv_UpdatedAt r = e)"

definition fv_write :: "FlagValue \<Rightarrow> gotime \<Rightarrow> FlagValue \<Rightarrow> FlagValue" where
  "fv_write input now r =
     r\<lparr>fv_Value := fv_Value input, fv_Enabled := fv_Enabled input, fv_UpdatedAt := now\<rparr>"

definition update_fv_stmt :: "FlagValue \<Rightarrow> stmt" where
  "update_fv_stmt input now t =
     (if \<not> (varchar 4000 (fv_Value input) \<and> smallint (fv_Enabled input)) then (Inl OtherViolation, t)
      else case table_update fv_key (fv_matches input) (fv_write input now) (flag_values t)
           of (res, T) \<Rightarrow> (res, t\<lparr>flag_values := T\<rparr>))"

definition insert_flag_stmt :: "Flag \<Rightarrow> stmt" where
  "insert_flag_stmt input now t =
     (if \<not> (varchar 128 (flag_FlagKey input) \<and> smallint (flag_IsActive input))
      then (Inl OtherViolation, t)
      else case table_insert flag_ID flag_FlagKey
             (\<lambda>n. \<lparr>flag_ID = n, flag_FlagKey = flag_FlagKey input,
                   flag_IsActive = flag_IsActive input, flag_UpdatedAt = now\<rparr>) (flags t)
           of (res, T) \<Rightarrow> (res, t\<lparr>flags := T\<rparr>))"

definition insert_fv_stmt :: "FlagValue \<Rightarrow> stmt" where
  "insert_fv_stmt input now t =
     (if \<not> (varchar 4000 (fv_Value input) \<and> smallint (fv_Enabled input)) then (Inl OtherViolation, t)
      else case table_insert fv_ID fv_key
             (\<lambda>n. \<lparr>fv_ID = n, fv_EnvironmentID = fv_EnvironmentID input, fv_FlagId = fv_FlagId input,
                   fv_Value = fv_Value input, fv_Enabled = fv_Enabled input,
                   fv_UpdatedAt = now, fv_ExpectedUpdatedAt = None\<rparr>) (flag_values t)
           of (Inl e, T) \<Rightarrow> (Inl e, t\<lparr>flag_values := T\<rparr>)
            | (Inr n, T) \<Rightarrow>
                if fv_EnvironmentID input \<in> env_ID ` set (rows (environments t))
                   \<and> fv_FlagId input \<in> flag_ID ` set (rows (flags t))
                then (Inr n, t\<lparr>flag_values := T\<rparr>)
                else (Inl OtherViolation, t\<lparr>flag_values := (flag_values t)\<lparr>seq := seq T\<rparr>\<rparr>))"

definition delete_fv_stmt :: "int \<Rightarrow> stmt" where
  "delete_fv_stmt i now t = (case table_delete (\<lambda>r. fv_ID r = i) (flag_values t) of
     (n, T) \<Rightarrow> (Inr n, t\<lparr>flag_values := T\<rparr>))"

section \<open>Reads\<close>

definition GetFlagsByID :: "int \<Rightarrow> dbconn \<Rightarrow> Flag flags_result" where
  "GetFlagsByID i db =
     bindE (flags_wrap ''get flag by id''
             (query (\<lambda>t. find_row (\<lambda>r. flag_ID r = i) (flags t)) db))
       (\<lambda>res db. case res of None \<Rightarrow> (Inl ErrFlagNotFound, db) | Some cfg \<Rightarrow> (Inr cfg, db))"

definition GetFlagValueByID :: "int \<Rightarrow> dbconn \<Rightarrow> FlagValue flags_result" where
  "GetFlagValueByID i db =
     bindE (flags_wrap ''get flag value by id''
             (query (\<lambda>t. find_row (\<lambda>r. fv_ID r = i) (flag_values t)) db))
       (\<lambda>res db. case res of None \<Rightarrow> (Inl ErrFlagNotFound, db) | Some val \<Rightarrow> (Inr val, db))"

definition getFlagValueWithKey :: "int \<Rightarrow> dbconn \<Rightarrow> (FlagValue \<times> string) flags_result" where
  "getFlagValueWithKey i db =
     bindE (flags_wrap ''get flag value with key''
             (query (\<lambda>t. find (\<lambda>(fv, f). fv_ID fv = i) (fv_join t)) db))
       (\<lambda>res db. case res of None \<Rightarrow> (Inl ErrFlagNotFound, db)
                  | Some (fv, f) \<Rightarrow> (Inr (fv, flag_FlagKey f), db))"

definition getFlagByKey :: "string \<Rightarrow> dbconn \<Rightarrow> Flag flags_result" where
  "getFlagByKey flagKey db =
     bindE (flags_wrap ''get flag by key''
             (query (\<lambda>t. find_row (\<lambda>r. flag_FlagKey r = flagKey) (flags t)) db))
       (\<lambda>res db. case res of None \<Rightarrow> (Inl ErrFlagNotFound, db) | Some cfg \<Rightarrow> (Inr cfg, db))"

definition getFlagValueByEnvAndFlag ::
  "int \<Rightarrow> int \<Rightarrow> dbconn \<Rightarrow> (FlagValue \<times> string) flags_result" where
  "getFlagValueByEnvAndFlag environmentID flagID db =
     bindE (flags_wrap ''get flag value by env and flag''
             (query (\<lambda>t. find (\<lambda>(fv, f). fv_EnvironmentID fv = environmentID \<and> fv_FlagId fv = flagID)
                          (fv_join t)) db))
       (\<lambda>res db. case res of None \<Rightarrow> (Inl ErrFlagNotFound, db)
                  | Some (fv, f) \<Rightarrow> (Inr (fv, flag_FlagKey f), db))"

text \<open>\<^verbatim>\<open>count\<close> of the rows a predicate selects.\<close>

definition flags_count :: "(tables \<Rightarrow> nat) \<Rightarrow> dbconn \<Rightarrow> nat flags_result" where
  "flags_count q db = flags_wrap ''count rows'' (query q db)"

record FlagFilter =
  ff_Page :: Page
  ff_FlagKey :: string

record FlagValueFilter =
  fvf_Page :: Page
  fvf_EnvironmentID :: int
  fvf_FlagKey :: string

definition ListFlags :: "FlagFilter \<Rightarrow> dbconn \<Rightarrow> Flag list flags_result" where
  "ListFlags filt db = flags_wrap ''list flags''
     (query (\<lambda>t. limit_offset (ff_Page filt) (order_by flag_ID
        (filter (\<lambda>r. ff_FlagKey filt \<noteq> [] \<longrightarrow> flag_FlagKey r = ff_FlagKey filt) (rows (flags t))))) db)"

definition fv_row_of :: "FlagValue \<times> Flag \<Rightarrow> FlagValueRow" where
  "fv_row_of = (\<lambda>(fv, f). \<lparr>fvr_ID = fv_ID fv, fvr_EnvironmentID = fv_EnvironmentID fv,
     fvr_FlagId = fv_FlagId fv, fvr_FlagKey = flag_FlagKey f, fvr_Value = fv_Value fv,
     fvr_Enabled = fv_Enabled fv, fvr_UpdatedAt = fv_UpdatedAt fv\<rparr>)"

definition ListFlagValues :: "FlagValueFilter \<Rightarrow> dbconn \<Rightarrow> FlagValueRow list flags_result" where
  "ListFlagValues filt db = flags_wrap ''list flag values''
     (query (\<lambda>t. map fv_row_of (limit_offset (fvf_Page filt) (order_by (\<lambda>(fv, f). fv_ID fv)
        (filter (\<lambda>(fv, f).
            (fvf_EnvironmentID filt > 0 \<longrightarrow> fv_EnvironmentID fv = fvf_EnvironmentID filt)
            \<and> (fvf_FlagKey filt \<noteq> [] \<longrightarrow> flag_FlagKey f = fvf_FlagKey filt)) (fv_join t))))) db)"

record ReconcileRow =
  rr_ID :: int
  rr_EnvironmentID :: int
  rr_FlagKey :: string
  rr_Enabled :: int
  rr_Value :: string

definition reconcile_row_of :: "FlagValue \<times> Flag \<Rightarrow> ReconcileRow" where
  "reconcile_row_of = (\<lambda>(fv, f). \<lparr>rr_ID = fv_ID fv, rr_EnvironmentID = fv_EnvironmentID fv,
     rr_FlagKey = flag_FlagKey f, rr_Enabled = fv_Enabled fv, rr_Value = fv_Value fv\<rparr>)"

definition flags_ListAllForReconcile :: "gotime \<Rightarrow> dbconn \<Rightarrow> ReconcileRow list flags_result" where
  "flags_ListAllForReconcile since db = flags_wrap ''list flags for reconcile''
     (query (\<lambda>t. map reconcile_row_of (order_by (\<lambda>(fv, f). fv_ID fv)
        (filter (\<lambda>(fv, f). IsZero since \<or> since \<le> fv_UpdatedAt fv) (fv_join t)))) db)"

section \<open>Writes\<close>

definition flags_noRowsErr :: "FlagValue \<Rightarrow> dbconn \<Rightarrow> flags_error \<times> dbconn" where
  "flags_noRowsErr input db = (case fv_ExpectedUpdatedAt input of
     None \<Rightarrow> (ErrFlagNotFound, db)
   | Some _ \<Rightarrow> (case GetFlagValueByID (fv_ID input) db of
        (Inl err, db) \<Rightarrow> (err, db)
      | (Inr _, db) \<Rightarrow> (ErrConflict, db)))"

definition UpdateFlagValue :: "FlagValue \<Rightarrow> dbconn \<Rightarrow> (FlagValue \<times> string) flags_result" where
  "UpdateFlagValue input db =
     bindE (flags_wrap ''update flag value'' (exec (update_fv_stmt input) db))
       (\<lambda>rowsAffected db.
          if rowsAffected = 0 then (case flags_noRowsErr input db of (err, db) \<Rightarrow> (Inl err, db))
          else getFlagValueWithKey (fv_ID input) db)"

definition CreateFlag :: "Flag \<Rightarrow> dbconn \<Rightarrow> Flag flags_result" where
  "CreateFlag input db =
     bindE (flags_count (\<lambda>t. length (filter (\<lambda>r. flag_FlagKey r = flag_FlagKey input) (rows (flags t)))) db)
       (\<lambda>taken db.
          if taken > 0 then (Inl ErrFlagExists, db)
          else bindE (mapErr (\<lambda>e. if IsUniqueViolation e then ErrFlagExists
                                  else FlagsWrapped ''create flag'')
                       (exec (insert_flag_stmt input) db))
                 (\<lambda>_ db. getFlagByKey (flag_FlagKey input) db))"

definition checkFlagValueRefs :: "FlagValue \<Rightarrow> dbconn \<Rightarrow> unit flags_result" where
  "checkFlagValueRefs input db =
     bindE (flags_count (\<lambda>t. length (filter (\<lambda>r. env_ID r = fv_EnvironmentID input)
                                     (rows (environments t)))) db)
       (\<lambda>envs db. if envs = 0 then (Inl ErrEnvironmentNotFound, db)
     else bindE (flags_count (\<lambda>t. length (filter (\<lambda>r. flag_ID r = fv_FlagId input)
                                           (rows (flags t)))) db)
       (\<lambda>fls db. if fls = 0 then (Inl ErrFlagNotFound, db)
     else bindE (flags_count (\<lambda>t. length (filter (\<lambda>r. fv_EnvironmentID r = fv_EnvironmentID input
                                                   \<and> fv_FlagId r = fv_FlagId input)
                                           (rows (flag_values t)))) db)
       (\<lambda>taken db. if taken > 0 then (Inl ErrFlagValueExists, db) else (Inr (), db))))"

definition CreateFlagValue :: "FlagValue \<Rightarrow> dbconn \<Rightarrow> (FlagValue \<times> string) flags_result" where
  "CreateFlagValue input db =
     bindE (checkFlagValueRefs input db)
       (\<lambda>_ db. bindE (mapErr (\<lambda>e. if IsUniqueViolation e then ErrFlagValueExists
                                 else FlagsWrapped ''create flag value'')
                        (exec (insert_fv_stmt input) db))
         (\<lambda>_ db. getFlagValueByEnvAndFlag (fv_EnvironmentID input) (fv_FlagId input) db))"

definition DeleteFlagValue :: "int \<Rightarrow> dbconn \<Rightarrow> DeletedFlagValue flags_result" where
  "DeleteFlagValue i db =
     bindE (flags_wrap ''read flag value for delete''
             (query (\<lambda>t. find (\<lambda>(fv, f). fv_ID fv = i) (fv_join t)) db))
       (\<lambda>res db. case res of
          None \<Rightarrow> (Inl ErrFlagNotFound, db)
        | Some (fv, f) \<Rightarrow>
            bindE (flags_wrap ''delete flag value'' (exec (delete_fv_stmt i) db))
              (\<lambda>rowsAffected db.
                 if rowsAffected = 0 then (Inl ErrFlagNotFound, db)
                 else (Inr \<lparr>del_EnvironmentID = fv_EnvironmentID fv, del_FlagKey = flag_FlagKey f\<rparr>, db)))"

text \<open>
  \<^verbatim>\<open>DeleteFlag\<close> runs five statements in one transaction (begin, two reads, two deletes, commit), and
  the deferred rollback undoes the deletes on every early return.
\<close>

definition flag_removed :: "int \<Rightarrow> string \<Rightarrow> tables \<Rightarrow> DeletedFlagValue list" where
  "flag_removed i flagKey t =
     map (\<lambda>fv. \<lparr>del_EnvironmentID = fv_EnvironmentID fv, del_FlagKey = flagKey\<rparr>)
       (filter (\<lambda>fv. fv_FlagId fv = i) (rows (flag_values t)))"

definition delete_flag_tables :: "int \<Rightarrow> tables \<Rightarrow> tables" where
  "delete_flag_tables i t =
     t\<lparr>flag_values := snd (table_delete (\<lambda>fv. fv_FlagId fv = i) (flag_values t)),
       flags := snd (table_delete (\<lambda>f. flag_ID f = i) (flags t))\<rparr>"

text \<open>A statement of an open transaction, on the tables the transaction sees.\<close>

definition flags_tx :: "string \<Rightarrow> (tables \<Rightarrow> 'a) \<Rightarrow> dbconn \<Rightarrow> 'a flags_result" where
  "flags_tx msg q db = (case tx_stmt db of
     (False, db) \<Rightarrow> (Inl (FlagsWrapped msg), db)
   | (True, db) \<Rightarrow> (Inr (q (tabs db)), db))"

definition DeleteFlag :: "int \<Rightarrow> dbconn \<Rightarrow> DeletedFlagValue list flags_result" where
  "DeleteFlag i db =
     bindE (flags_wrap ''begin delete flag'' (query (\<lambda>_. ()) db)) (\<lambda>_ db.
     bindE (flags_tx ''read flag for delete'' (\<lambda>t. find_row (\<lambda>f. flag_ID f = i) (flags t)) db)
       (\<lambda>res db. case res of
          None \<Rightarrow> (Inl ErrFlagNotFound, db)
        | Some f \<Rightarrow>
     bindE (flags_tx ''list flag values for delete'' (flag_removed i (flag_FlagKey f)) db) (\<lambda>removed db.
     bindE (flags_tx ''delete flag values'' (\<lambda>_. ()) db) (\<lambda>_ db.
     bindE (flags_tx ''delete flag'' (\<lambda>_. ()) db) (\<lambda>_ db.
     bindE (flags_tx ''commit delete flag'' (\<lambda>_. ()) db) (\<lambda>_ db.
       (Inr removed, db\<lparr>tabs := delete_flag_tables i (tabs db)\<rparr>)))))))"

end
