(* ===== verification/Flags_Repo_Laws.thy ===== *)
theory Flags_Repo_Laws
  imports Flags_Repo
begin

text \<open>
  What the flags repository keeps. The locale \<open>flags_invariant\<close> takes an invariant of the tables that
  the five write statements keep, for the inputs \<open>good_value\<close> and \<open>good_flag\<close> allow, and shows that every
  method keeps it, under any script of driver failures and concurrent commits. It is interpreted
  with well-formedness (keys, uniqueness and references), for every input.
\<close>

section \<open>Well-formedness is preserved\<close>

lemma fk_ok_flag_values_subset:
  assumes "fk_ok t" and "set (rows T) \<subseteq> set (rows (flag_values t))"
  shows "fk_ok (t\<lparr>flag_values := T\<rparr>)"
  using assms by (auto simp: fk_ok_def)

lemma update_fv_preserves [intro, simp]: "keeps wf_tables (update_fv_stmt input)"
proof -
  have "wf_tables (snd (update_fv_stmt input now t))" if wf: "wf_tables t" for now t
  proof (cases "varchar 4000 (fv_Value input) \<and> smallint (fv_Enabled input)")
    case True
    define T where "T = table_update fv_key (fv_matches input) (fv_write input now) (flag_values t)"
    have "table_ok fv_ID fv_key (snd T)"
      unfolding T_def
      by (rule table_update_ok) (use wf in \<open>auto simp: wf_tables_def keys_ok_def fv_write_def\<close>)
    moreover have "fk_ok (t\<lparr>flag_values := snd T\<rparr>)"
      using wf by (auto simp: T_def wf_tables_def fk_ok_def table_update_def fv_write_def Let_def)
    moreover have "snd (update_fv_stmt input now t) = t\<lparr>flag_values := snd T\<rparr>"
      using True by (simp add: update_fv_stmt_def T_def split: prod.splits)
    ultimately show ?thesis using wf by (simp add: wf_tables_def keys_ok_def)
  qed (use wf in \<open>auto simp: update_fv_stmt_def\<close>)
  then show ?thesis by (simp add: keeps_def)
qed

lemma insert_flag_preserves [intro, simp]: "keeps wf_tables (insert_flag_stmt input)"
proof -
  have "wf_tables (snd (insert_flag_stmt input now t))" if wf: "wf_tables t" for now t
  proof (cases "varchar 128 (flag_FlagKey input) \<and> smallint (flag_IsActive input)")
    case True
    define T where "T = table_insert flag_ID flag_FlagKey
             (\<lambda>n. \<lparr>flag_ID = n, flag_FlagKey = flag_FlagKey input,
                   flag_IsActive = flag_IsActive input, flag_UpdatedAt = now\<rparr>) (flags t)"
    have "table_ok flag_ID flag_FlagKey (snd T)"
      unfolding T_def by (rule table_insert_ok) (use wf in \<open>auto simp: wf_tables_def keys_ok_def\<close>)
    moreover have "set (rows (flags t)) \<subseteq> set (rows (snd T))"
      by (auto simp: T_def table_insert_def Let_def)
    then have "fk_ok (t\<lparr>flags := snd T\<rparr>)"
      using wf by (fastforce simp: wf_tables_def fk_ok_def)
    moreover have "snd (insert_flag_stmt input now t) = t\<lparr>flags := snd T\<rparr>"
      using True by (simp add: insert_flag_stmt_def T_def split: prod.splits)
    ultimately show ?thesis using wf by (simp add: wf_tables_def keys_ok_def)
  qed (use wf in \<open>auto simp: insert_flag_stmt_def\<close>)
  then show ?thesis by (simp add: keeps_def)
qed

lemma insert_fv_preserves [intro, simp]: "keeps wf_tables (insert_fv_stmt input)"
proof -
  have "wf_tables (snd (insert_fv_stmt input now t))" if wf: "wf_tables t" for now t
  proof (cases "varchar 4000 (fv_Value input) \<and> smallint (fv_Enabled input)")
    case True
    obtain res T where T: "table_insert fv_ID fv_key
             (\<lambda>n. \<lparr>fv_ID = n, fv_EnvironmentID = fv_EnvironmentID input, fv_FlagId = fv_FlagId input,
                   fv_Value = fv_Value input, fv_Enabled = fv_Enabled input,
                   fv_UpdatedAt = now, fv_ExpectedUpdatedAt = None\<rparr>) (flag_values t) = (res, T)"
      by fastforce
    have ok: "table_ok fv_ID fv_key T"
      using table_insert_ok [of fv_ID fv_key "flag_values t"] wf T
      by (metis keys_ok_def snd_conv wf_tables_def)
    have ok2: "table_ok fv_ID fv_key ((flag_values t)\<lparr>seq := seq T\<rparr>)"
      using wf by (simp add: wf_tables_def keys_ok_def table_ok_def)
    have fk: "fk_ok (t\<lparr>flag_values := T\<rparr>)"
      if "fv_EnvironmentID input \<in> env_ID ` set (rows (environments t))"
        and "fv_FlagId input \<in> flag_ID ` set (rows (flags t))"
      using T wf that
      by (auto simp: table_insert_def Let_def wf_tables_def fk_ok_def split: if_splits)
    have "rows T = rows (flag_values t)" if "res = Inl e" for e
      using T that by (auto simp: table_insert_def Let_def split: if_splits)
    with True T ok ok2 fk wf show ?thesis
      by (cases res) (auto simp: insert_fv_stmt_def wf_tables_def keys_ok_def fk_ok_flag_values_subset)
  qed (use wf in \<open>auto simp: insert_fv_stmt_def\<close>)
  then show ?thesis by (simp add: keeps_def)
qed

lemma delete_fv_preserves [intro, simp]: "keeps wf_tables (delete_fv_stmt i)"
proof -
  have "wf_tables (snd (delete_fv_stmt i now t))" if wf: "wf_tables t" for now t
    using wf table_delete_ok [of fv_ID fv_key "flag_values t" "\<lambda>r. fv_ID r = i"]
    by (auto simp: delete_fv_stmt_def wf_tables_def keys_ok_def table_delete_def
        intro!: fk_ok_flag_values_subset)
  then show ?thesis by (simp add: keeps_def)
qed

lemma delete_flag_tables_wf: "wf_tables t \<Longrightarrow> wf_tables (delete_flag_tables i t)"
  using table_delete_ok [of fv_ID fv_key "flag_values t" "\<lambda>fv. fv_FlagId fv = i"]
    table_delete_ok [of flag_ID flag_FlagKey "flags t" "\<lambda>f. flag_ID f = i"]
  by (auto simp: delete_flag_tables_def wf_tables_def keys_ok_def fk_ok_def table_delete_def)

lemma flags_query_holds: "holds P db \<Longrightarrow> holds P (snd (flags_wrap msg (query q db)))"
  by (simp add: flags_wrap_def query_holds)

lemma flags_tx_holds: "holds P db \<Longrightarrow> holds P (snd (flags_tx msg q db))"
  using tx_stmt_holds [of P db] by (auto simp: flags_tx_def split: prod.splits bool.splits)

section \<open>What a method keeps, from what its statement keeps\<close>

lemma GetFlagsByID_holds: "holds P db \<Longrightarrow> holds P (snd (GetFlagsByID i db))"
  unfolding GetFlagsByID_def
  by (rule snd_bindE [where I = "holds P"]) (auto simp: flags_query_holds split: option.splits)

lemma GetFlagValueByID_holds: "holds P db \<Longrightarrow> holds P (snd (GetFlagValueByID i db))"
  unfolding GetFlagValueByID_def
  by (rule snd_bindE [where I = "holds P"]) (auto simp: flags_query_holds split: option.splits)

lemma getFlagValueWithKey_holds: "holds P db \<Longrightarrow> holds P (snd (getFlagValueWithKey i db))"
  unfolding getFlagValueWithKey_def
  by (rule snd_bindE [where I = "holds P"]) (auto simp: flags_query_holds split: option.splits)

lemma getFlagByKey_holds: "holds P db \<Longrightarrow> holds P (snd (getFlagByKey k db))"
  unfolding getFlagByKey_def
  by (rule snd_bindE [where I = "holds P"]) (auto simp: flags_query_holds split: option.splits)

lemma getFlagValueByEnvAndFlag_holds:
  "holds P db \<Longrightarrow> holds P (snd (getFlagValueByEnvAndFlag e f db))"
  unfolding getFlagValueByEnvAndFlag_def
  by (rule snd_bindE [where I = "holds P"]) (auto simp: flags_query_holds split: option.splits)

lemma flags_noRowsErr_holds: "holds P db \<Longrightarrow> holds P (snd (flags_noRowsErr input db))"
  using GetFlagValueByID_holds [of P db "fv_ID input"]
  by (auto simp: flags_noRowsErr_def split: option.splits prod.splits sum.splits)

lemma ListFlags_holds: "holds P db \<Longrightarrow> holds P (snd (ListFlags filt db))"
  by (simp add: ListFlags_def flags_query_holds)

lemma ListFlagValues_holds: "holds P db \<Longrightarrow> holds P (snd (ListFlagValues filt db))"
  by (simp add: ListFlagValues_def flags_query_holds)

lemma UpdateFlagValue_holds:
  assumes good: "keeps P (update_fv_stmt input)" and db: "holds P db"
  shows "holds P (snd (UpdateFlagValue input db))"
  unfolding UpdateFlagValue_def
proof (rule snd_bindE [where I = "holds P"])
  show "holds P (snd (flags_wrap ''update flag value'' (exec (update_fv_stmt input) db)))"
    using exec_holds [OF good db] by (simp add: flags_wrap_def)
next
  fix n w
  assume "holds P w"
  then show "holds P (snd (if n = 0
      then case flags_noRowsErr input w of (err, db) \<Rightarrow> (Inl err, db)
      else getFlagValueWithKey (fv_ID input) w))"
    using flags_noRowsErr_holds [of P w input] getFlagValueWithKey_holds [of P w "fv_ID input"]
    by (cases "flags_noRowsErr input w") simp
qed

lemma CreateFlag_holds: "keeps P (insert_flag_stmt input) \<Longrightarrow> holds P db \<Longrightarrow> holds P (snd (CreateFlag input db))"
  unfolding CreateFlag_def flags_count_def
  by (rule snd_bindE [where I = "holds P"])
     (auto simp: flags_query_holds exec_holds getFlagByKey_holds
       intro!: snd_bindE [where I = "holds P"])

lemma checkFlagValueRefs_holds: "holds P db \<Longrightarrow> holds P (snd (checkFlagValueRefs input db))"
  unfolding checkFlagValueRefs_def flags_count_def
  by (intro snd_bindE [where I = "holds P"] if_split [where P = "\<lambda>x. holds P (snd x)", THEN iffD2] conjI impI)
     (simp_all add: flags_query_holds)

lemma CreateFlagValue_holds:
  "keeps P (insert_fv_stmt input) \<Longrightarrow> holds P db \<Longrightarrow> holds P (snd (CreateFlagValue input db))"
  unfolding CreateFlagValue_def
  by (intro snd_bindE [where I = "holds P"])
     (simp_all add: checkFlagValueRefs_holds exec_holds getFlagValueByEnvAndFlag_holds)

lemma DeleteFlagValue_holds: "keeps P (delete_fv_stmt i) \<Longrightarrow> holds P db \<Longrightarrow> holds P (snd (DeleteFlagValue i db))"
  unfolding DeleteFlagValue_def
  by (rule snd_bindE [where I = "holds P"], simp add: flags_query_holds)
     (auto simp: flags_wrap_def exec_holds intro!: snd_bindE [where I = "holds P"]
       split: option.splits)

section \<open>Every method keeps an invariant the statements keep\<close>

locale flags_invariant =
  fixes P :: "tables \<Rightarrow> bool"
    and good_value :: "FlagValue \<Rightarrow> bool"
    and good_flag :: "Flag \<Rightarrow> bool"
  assumes update: "good_value v \<Longrightarrow> keeps P (update_fv_stmt v)"
    and insert_flag: "good_flag f \<Longrightarrow> keeps P (insert_flag_stmt f)"
    and insert_value: "good_value v \<Longrightarrow> keeps P (insert_fv_stmt v)"
    and delete_value: "keeps P (delete_fv_stmt i)"
    and delete_flag: "P t \<Longrightarrow> P (delete_flag_tables i t)"
begin

lemma UpdateFlagValue_inv: "good_value input \<Longrightarrow> holds P db \<Longrightarrow> holds P (snd (UpdateFlagValue input db))"
  by (rule UpdateFlagValue_holds [OF update])

lemma CreateFlag_inv: "good_flag input \<Longrightarrow> holds P db \<Longrightarrow> holds P (snd (CreateFlag input db))"
  by (rule CreateFlag_holds [OF insert_flag])

lemma CreateFlagValue_inv: "good_value input \<Longrightarrow> holds P db \<Longrightarrow> holds P (snd (CreateFlagValue input db))"
  by (rule CreateFlagValue_holds [OF insert_value])

lemma DeleteFlagValue_inv: "holds P db \<Longrightarrow> holds P (snd (DeleteFlagValue i db))"
  by (rule DeleteFlagValue_holds [OF delete_value])

lemma delete_flag_commit: "holds P db \<Longrightarrow> holds P (db\<lparr>tabs := delete_flag_tables i (tabs db)\<rparr>)"
  by (simp add: holds_def delete_flag)

lemma DeleteFlag_inv: "holds P db \<Longrightarrow> holds P (snd (DeleteFlag i db))"
  unfolding DeleteFlag_def
  by (intro snd_bindE [where I = "holds P"] option.split [where P = "\<lambda>x. holds P (snd x)", THEN iffD2]
        conjI impI allI)
     (simp_all add: flags_query_holds flags_tx_holds delete_flag_commit)

end

interpretation wf_flags: flags_invariant wf_tables "\<lambda>_. True" "\<lambda>_. True"
  by unfold_locales (simp_all add: delete_flag_tables_wf)

end
