(* ===== verification/Flags_Repo_Spec.thy ===== *)
theory Flags_Repo_Spec
  imports Flags_Repo_Laws
begin

text \<open>
  The abstract state of the flags domain and the refinement of the repository's writes to it.
  \<open>fv_view t\<close> maps an environment and a flag key to the pair a consumer is meant to see, the flag's
  boolean and its value.
\<close>

definition fv_entry :: "FlagValue \<times> Flag \<Rightarrow> (int \<times> string) \<times> (bool \<times> string)" where
  "fv_entry = (\<lambda>(fv, f). ((fv_EnvironmentID fv, flag_FlagKey f), (fv_Enabled fv \<noteq> 0, fv_Value fv)))"

definition fv_view :: "tables \<Rightarrow> (int \<times> string) \<rightharpoonup> (bool \<times> string)" where
  "fv_view t = map_of (map fv_entry (fv_join t))"

lemma map_SomeI: "(\<And>k x. m k = Some x \<longleftrightarrow> m' k = Some x) \<Longrightarrow> m = m'"
  by (rule ext) (metis not_None_eq)

lemma set_fv_join: "(fv, f) \<in> set (fv_join t) \<longleftrightarrow>
    fv \<in> set (rows (flag_values t)) \<and> f \<in> set (rows (flags t)) \<and> flag_ID f = fv_FlagId fv"
  by (auto simp: fv_join_def)

lemma wf_flagsD:
  assumes "wf_tables t"
  shows "distinct (map flag_ID (rows (flags t)))" "distinct (map flag_FlagKey (rows (flags t)))"
    "distinct (map fv_ID (rows (flag_values t)))" "distinct (map fv_key (rows (flag_values t)))"
    "r \<in> set (rows (flag_values t)) \<Longrightarrow> \<exists>f \<in> set (rows (flags t)). flag_ID f = fv_FlagId r"
proof -
  show "distinct (map flag_ID (rows (flags t)))" "distinct (map flag_FlagKey (rows (flags t)))"
    "distinct (map fv_ID (rows (flag_values t)))" "distinct (map fv_key (rows (flag_values t)))"
    using assms by (simp_all add: wf_tables_def keys_ok_def table_ok_def)
  assume "r \<in> set (rows (flag_values t))"
  with assms have "fv_FlagId r \<in> flag_ID ` set (rows (flags t))"
    by (simp add: wf_tables_def fk_ok_def)
  then show "\<exists>f \<in> set (rows (flags t)). flag_ID f = fv_FlagId r" by auto
qed

lemma wf_flag_unique:
  assumes "wf_tables t" "f \<in> set (rows (flags t))" "g \<in> set (rows (flags t))"
  shows "flag_ID f = flag_ID g \<longleftrightarrow> f = g" "flag_FlagKey f = flag_FlagKey g \<longleftrightarrow> f = g"
  using assms wf_flagsD(1,2) [OF assms(1)] by (meson distinct_map_inj)+

lemma wf_fv_unique:
  assumes "wf_tables t" "r \<in> set (rows (flag_values t))" "s \<in> set (rows (flag_values t))"
  shows "fv_ID r = fv_ID s \<longleftrightarrow> r = s" "fv_key r = fv_key s \<longleftrightarrow> r = s"
  using assms wf_flagsD(3,4) [OF assms(1)] by (meson distinct_map_inj)+

text \<open>In a well-formed database the join pairs every value row with exactly one flag.\<close>

lemma fv_join_map:
  assumes "wf_tables t"
  shows "\<exists>g. fv_join t = map (\<lambda>fv. (fv, g fv)) (rows (flag_values t))
    \<and> (\<forall>fv \<in> set (rows (flag_values t)). g fv \<in> set (rows (flags t)) \<and> flag_ID (g fv) = fv_FlagId fv)"
proof -
  have "\<exists>f. f \<in> set (rows (flags t)) \<and> flag_ID f = fv_FlagId fv
        \<and> filter (\<lambda>f. flag_ID f = fv_FlagId fv) (rows (flags t)) = [f]"
    if "fv \<in> set (rows (flag_values t))" for fv
    using wf_flagsD(5) [OF assms that] filter_unique [OF wf_flagsD(1) [OF assms]] by metis
  then obtain g where g: "\<And>fv. fv \<in> set (rows (flag_values t)) \<Longrightarrow> g fv \<in> set (rows (flags t))
      \<and> flag_ID (g fv) = fv_FlagId fv
      \<and> filter (\<lambda>f. flag_ID f = fv_FlagId fv) (rows (flags t)) = [g fv]"
    by metis
  then have "map (\<lambda>fv. map (Pair fv) (filter (\<lambda>f. flag_ID f = fv_FlagId fv) (rows (flags t))))
        (rows (flag_values t)) = map (\<lambda>fv. [(fv, g fv)]) (rows (flag_values t))"
    by (intro map_cong) auto
  then have "fv_join t = concat (map (\<lambda>fv. [(fv, g fv)]) (rows (flag_values t)))"
    by (simp only: fv_join_def)
  then have "fv_join t = map (\<lambda>fv. (fv, g fv)) (rows (flag_values t))"
    by (simp add: concat_map_singleton)
  with g show ?thesis by blast
qed

lemma distinct_fv_entries:
  assumes "wf_tables t"
  shows "distinct (map fst (map fv_entry (fv_join t)))"
proof -
  obtain g where g: "fv_join t = map (\<lambda>fv. (fv, g fv)) (rows (flag_values t))"
    "\<forall>fv \<in> set (rows (flag_values t)). g fv \<in> set (rows (flags t)) \<and> flag_ID (g fv) = fv_FlagId fv"
    using fv_join_map [OF assms] by blast
  have "inj_on (\<lambda>fv. (fv_EnvironmentID fv, flag_FlagKey (g fv))) (set (rows (flag_values t)))"
  proof (rule inj_onI)
    fix r s
    assume rs: "r \<in> set (rows (flag_values t))" "s \<in> set (rows (flag_values t))"
      and eq: "(fv_EnvironmentID r, flag_FlagKey (g r)) = (fv_EnvironmentID s, flag_FlagKey (g s))"
    then have "g r = g s" using g(2) wf_flag_unique(2) [OF assms] by auto
    then have "fv_FlagId r = fv_FlagId s" using rs g(2) by metis
    then have "fv_key r = fv_key s" using eq by (simp add: fv_key_def)
    then show "r = s" using wf_fv_unique(2) [OF assms rs] by blast
  qed
  moreover have "distinct (rows (flag_values t))"
    using wf_flagsD(3) [OF assms] by (simp add: distinct_map)
  ultimately show ?thesis
    by (simp add: g(1) fv_entry_def comp_def distinct_map)
qed

lemma fv_view_iff:
  assumes "wf_tables t"
  shows "fv_view t (e, k) = Some x \<longleftrightarrow>
    (\<exists>fv \<in> set (rows (flag_values t)). \<exists>f \<in> set (rows (flags t)). flag_ID f = fv_FlagId fv
      \<and> fv_EnvironmentID fv = e \<and> flag_FlagKey f = k \<and> x = (fv_Enabled fv \<noteq> 0, fv_Value fv))"
proof -
  have "fv_view t (e, k) = Some x \<longleftrightarrow> ((e, k), x) \<in> fv_entry ` set (fv_join t)"
    using distinct_fv_entries [OF assms] by (simp add: fv_view_def)
  also have "\<dots> \<longleftrightarrow> (\<exists>fv \<in> set (rows (flag_values t)). \<exists>f \<in> set (rows (flags t)).
      flag_ID f = fv_FlagId fv
      \<and> fv_EnvironmentID fv = e \<and> flag_FlagKey f = k \<and> x = (fv_Enabled fv \<noteq> 0, fv_Value fv))"
    by (auto simp: fv_entry_def set_fv_join image_iff split: prod.splits) (metis+)?
  finally show ?thesis .
qed

lemma find_join_Some:
  assumes "find P (fv_join t) = Some (fv, f)"
  shows "P (fv, f)" "fv \<in> set (rows (flag_values t))" "f \<in> set (rows (flags t))"
    "flag_ID f = fv_FlagId fv"
proof -
  have "P (fv, f) \<and> (fv, f) \<in> set (fv_join t)"
    using assms by (auto simp: find_Some_iff)
  then show "P (fv, f)" "fv \<in> set (rows (flag_values t))" "f \<in> set (rows (flags t))"
    "flag_ID f = fv_FlagId fv"
    by (auto simp: set_fv_join)
qed

lemma find_join_ID:
  assumes "wf_tables t" and "fv \<in> set (rows (flag_values t))"
  shows "\<exists>f. find (\<lambda>(r, f). fv_ID r = fv_ID fv) (fv_join t) = Some (fv, f)"
proof -
  obtain f where "f \<in> set (rows (flags t))" "flag_ID f = fv_FlagId fv"
    using wf_flagsD(5) [OF assms] by blast
  then have "(fv, f) \<in> set (fv_join t)" using assms(2) by (simp add: set_fv_join)
  then have "find (\<lambda>(r, f). fv_ID r = fv_ID fv) (fv_join t) \<noteq> None"
    by (auto simp: find_None_iff)
  then obtain r h where rh: "find (\<lambda>(r, f). fv_ID r = fv_ID fv) (fv_join t) = Some (r, h)"
    by fastforce
  then have "fv_ID r = fv_ID fv" "r \<in> set (rows (flag_values t))"
    using find_join_Some [OF rh] by auto
  then have "r = fv" using wf_fv_unique(1) [OF assms(1)] assms(2) by blast
  with rh show ?thesis by blast
qed

section \<open>Update\<close>

definition update_fv_tables :: "FlagValue \<Rightarrow> gotime \<Rightarrow> tables \<Rightarrow> tables" where
  "update_fv_tables input now t = t\<lparr>flag_values := (flag_values t)\<lparr>rows :=
     map (\<lambda>r. if fv_matches input r then fv_write input now r else r) (rows (flag_values t))\<rparr>\<rparr>"

lemma fv_write_keys [simp]:
  "fv_ID (fv_write input now r) = fv_ID r" "fv_key (fv_write input now r) = fv_key r"
  "fv_FlagId (fv_write input now r) = fv_FlagId r"
  "fv_EnvironmentID (fv_write input now r) = fv_EnvironmentID r"
  "fv_Value (fv_write input now r) = fv_Value input"
  "fv_Enabled (fv_write input now r) = fv_Enabled input"
  "fv_UpdatedAt (fv_write input now r) = now"
  by (simp_all add: fv_write_def fv_key_def)

lemma update_fv_stmt_eq:
  assumes "wf_tables t" and "varchar 4000 (fv_Value input)" and "smallint (fv_Enabled input)"
  shows "update_fv_stmt input now t =
    (Inr (length (filter (fv_matches input) (rows (flag_values t)))), update_fv_tables input now t)"
proof -
  have "map fv_key (map (\<lambda>r. if fv_matches input r then fv_write input now r else r)
      (rows (flag_values t))) = map fv_key (rows (flag_values t))"
    by simp
  then have "distinct (map fv_key (map (\<lambda>r. if fv_matches input r then fv_write input now r else r)
      (rows (flag_values t))))"
    using wf_flagsD(4) [OF assms(1)] by (simp only:)
  then show ?thesis
    using assms(2,3)
    by (simp add: update_fv_stmt_def table_update_def update_fv_tables_def Let_def del: map_map)
qed


lemma update_fv_tables_simps [simp]:
  "flags (update_fv_tables input now t) = flags t"
  "rows (flag_values (update_fv_tables input now t)) =
     map (\<lambda>r. if fv_matches input r then fv_write input now r else r) (rows (flag_values t))"
  by (simp_all add: update_fv_tables_def)

lemma update_fv_tables_wf:
  assumes "wf_tables t" and "varchar 4000 (fv_Value input)" and "smallint (fv_Enabled input)"
  shows "wf_tables (update_fv_tables input now t)"
  using update_fv_preserves [of input] assms(1) update_fv_stmt_eq [OF assms, of now]
  by (metis keeps_def snd_conv)

lemma update_fv_tables_id:
  "filter (fv_matches input) (rows (flag_values t)) = [] \<Longrightarrow> update_fv_tables input now t = t"
proof -
  assume "filter (fv_matches input) (rows (flag_values t)) = []"
  then have "map (\<lambda>r. if fv_matches input r then fv_write input now r else r) (rows (flag_values t))
      = rows (flag_values t)"
    by (auto simp: filter_empty_conv intro!: map_idI)
  then show ?thesis by (simp add: update_fv_tables_def)
qed

lemma fv_matches_unique:
  assumes "wf_tables t" "r \<in> set (rows (flag_values t))" "s \<in> set (rows (flag_values t))"
    "fv_matches input r" "fv_matches input s"
  shows "r = s"
  using assms wf_fv_unique(1) [OF assms(1-3)] by (simp add: fv_matches_def)

text \<open>The row the update selects, and the flag it belongs to.\<close>

lemma fv_view_update:
  assumes wf: "wf_tables t" "varchar 4000 (fv_Value input)" "smallint (fv_Enabled input)"
    and r: "r \<in> set (rows (flag_values t))" "fv_matches input r"
    and f: "f \<in> set (rows (flags t))" "flag_ID f = fv_FlagId r"
  shows "fv_view (update_fv_tables input now t) =
    (fv_view t)((fv_EnvironmentID r, flag_FlagKey f) \<mapsto> (fv_Enabled input \<noteq> 0, fv_Value input))"
proof (rule map_SomeI)
  fix ek x
  obtain e k where ek: "ek = (e :: int, k :: string)" by fastforce
  let ?u = "\<lambda>s. if fv_matches input s then fv_write input now s else s"
  have wf': "wf_tables (update_fv_tables input now t)" by (rule update_fv_tables_wf [OF wf])
  have u: "fv_FlagId (?u s) = fv_FlagId s" "fv_EnvironmentID (?u s) = fv_EnvironmentID s" for s
    by simp_all
  have view': "fv_view (update_fv_tables input now t) (e, k) = Some x \<longleftrightarrow>
    (\<exists>s \<in> set (rows (flag_values t)). \<exists>g \<in> set (rows (flags t)). flag_ID g = fv_FlagId s
      \<and> fv_EnvironmentID s = e \<and> flag_FlagKey g = k \<and> x = (fv_Enabled (?u s) \<noteq> 0, fv_Value (?u s)))"
    using u by (simp only: fv_view_iff [OF wf'] update_fv_tables_simps set_map bex_simps)
  have same: "s = r" if "s \<in> set (rows (flag_values t))" "g \<in> set (rows (flags t))"
      "flag_ID g = fv_FlagId s" "fv_EnvironmentID s = fv_EnvironmentID r" "flag_FlagKey g = flag_FlagKey f"
    for s g
  proof -
    have "g = f" using that(2,5) f(1) wf_flag_unique(2) [OF wf(1)] by blast
    then have "fv_key s = fv_key r" using that(3,4) f(2) by (simp add: fv_key_def)
    then show ?thesis using that(1) r(1) wf_fv_unique(2) [OF wf(1)] by blast
  qed
  show "fv_view (update_fv_tables input now t) ek = Some x \<longleftrightarrow>
    ((fv_view t)((fv_EnvironmentID r, flag_FlagKey f) \<mapsto> (fv_Enabled input \<noteq> 0, fv_Value input))) ek
      = Some x"
  proof (cases "ek = (fv_EnvironmentID r, flag_FlagKey f)")
    case True
    then have e: "e = fv_EnvironmentID r" "k = flag_FlagKey f" using ek by simp_all
    have "fv_view (update_fv_tables input now t) (e, k) = Some x
        \<longleftrightarrow> x = (fv_Enabled input \<noteq> 0, fv_Value input)"
    proof
      assume "fv_view (update_fv_tables input now t) (e, k) = Some x"
      then obtain s g where sg: "s \<in> set (rows (flag_values t))" "g \<in> set (rows (flags t))"
        "flag_ID g = fv_FlagId s" "fv_EnvironmentID s = e" "flag_FlagKey g = k"
        and x: "x = (fv_Enabled (?u s) \<noteq> 0, fv_Value (?u s))"
        unfolding view' by blast
      have "s = r" using same [OF sg(1-3)] sg(4,5) e by simp
      with x r(2) show "x = (fv_Enabled input \<noteq> 0, fv_Value input)" by simp
    next
      assume "x = (fv_Enabled input \<noteq> 0, fv_Value input)"
      then have "x = (fv_Enabled (?u r) \<noteq> 0, fv_Value (?u r))" using r(2) by simp
      then show "fv_view (update_fv_tables input now t) (e, k) = Some x"
        unfolding view' using r(1) f e by blast
    qed
    with True ek show ?thesis by auto
  next
    case False
    have nomatch: "\<not> fv_matches input s" if "s \<in> set (rows (flag_values t))" "g \<in> set (rows (flags t))"
      "flag_ID g = fv_FlagId s" "fv_EnvironmentID s = e" "flag_FlagKey g = k" for s g
    proof
      assume "fv_matches input s"
      then have "s = r" using fv_matches_unique [OF wf(1) that(1) r(1)] r(2) by blast
      then have "g = f" using that(2,3) f wf_flag_unique(1) [OF wf(1)] by metis
      with \<open>s = r\<close> that(4,5) False ek show False by simp
    qed
    have "fv_view (update_fv_tables input now t) (e, k) = Some x
        \<longleftrightarrow> fv_view t (e, k) = Some x"
      unfolding view' fv_view_iff [OF wf(1)]
      by (rule bex_cong [OF refl], rule bex_cong [OF refl], intro conj_cong refl)
         (simp add: nomatch)
    with False ek show ?thesis by auto
  qed
qed

text \<open>The outcome of \<^verbatim>\<open>UpdateFlagValue\<close> on a calm connection, on each of its branches.\<close>

lemma UpdateFlagValue_calm:
  assumes db: "calm db" "wf_tables (tabs db)"
    and ok: "varchar 4000 (fv_Value input)" "smallint (fv_Enabled input)"
  shows "UpdateFlagValue input db =
    (case find_row (\<lambda>r. fv_ID r = fv_ID input) (flag_values (tabs db)) of
       None \<Rightarrow> (Inl ErrFlagNotFound, db)
     | Some r \<Rightarrow>
         if fv_matches input r
         then (Inr (fv_write input (clock db) r,
                 flag_FlagKey (the (find_row (\<lambda>f. flag_ID f = fv_FlagId r) (flags (tabs db))))),
               db\<lparr>tabs := update_fv_tables input (clock db) (tabs db)\<rparr>)
         else (Inl ErrConflict, db))"
proof -
  let ?t = "tabs db"
  let ?m = "filter (fv_matches input) (rows (flag_values ?t))"
  let ?db' = "db\<lparr>tabs := update_fv_tables input (clock db) ?t\<rparr>"
  have calm': "calm ?db'" using db(1) by (simp add: calm_def)
  have ex: "exec (update_fv_stmt input) db = (Inr (length ?m), ?db')"
    by (simp add: exec_calm [OF db(1)] update_fv_stmt_eq [OF db(2) ok])
  show ?thesis
  proof (cases "find_row (\<lambda>r. fv_ID r = fv_ID input) (flag_values ?t)")
    case None
    then have none: "?m = []" by (auto simp: find_row_None filter_empty_conv fv_matches_def)
    then have "?db' = db" by (simp add: update_fv_tables_id)
    with none ex None db(1) show ?thesis
      by (auto simp: UpdateFlagValue_def flags_wrap_def flags_noRowsErr_def GetFlagValueByID_def
          split: option.splits)
  next
    case (Some r)
    then have r: "r \<in> set (rows (flag_values ?t))" "fv_ID r = fv_ID input"
      by (auto dest: find_row_SomeD)
    show ?thesis
    proof (cases "fv_matches input r")
      case False
      have "s = r" if "s \<in> set (rows (flag_values ?t))" "fv_matches input s" for s
        using that r wf_fv_unique(1) [OF db(2) that(1) r(1)] by (simp add: fv_matches_def)
      with False have none: "?m = []" by (auto simp: filter_empty_conv)
      then have "?db' = db" by (simp add: update_fv_tables_id)
      moreover have "\<exists>e. fv_ExpectedUpdatedAt input = Some e"
        using False r(2) by (auto simp: fv_matches_def split: option.splits)
      ultimately show ?thesis using none ex Some False db(1)
        by (auto simp: UpdateFlagValue_def flags_wrap_def flags_noRowsErr_def GetFlagValueByID_def)
    next
      case True
      with r have "?m \<noteq> []" by (auto simp: filter_empty_conv)
      obtain f where f: "f \<in> set (rows (flags ?t))" "flag_ID f = fv_FlagId r"
        using wf_flagsD(5) [OF db(2) r(1)] by blast
      let ?r' = "fv_write input (clock db) r"
      have wf': "wf_tables (tabs ?db')" using update_fv_tables_wf [OF db(2) ok] by simp
      have "?r' \<in> set (rows (flag_values (tabs ?db')))" using r(1) True by (auto intro!: image_eqI)
      from find_join_ID [OF wf' this] r(2) obtain g where
        g: "find (\<lambda>(s, f). fv_ID s = fv_ID input) (fv_join (tabs ?db')) = Some (?r', g)"
        by auto
      have "g = f"
        using find_join_Some(3,4) [OF g] f wf_flag_unique(1) [OF db(2), of g f] by simp
      moreover have "find_row (\<lambda>f. flag_ID f = fv_FlagId r) (flags ?t) = Some f"
        using find_row_unique [OF wf_flagsD(1) [OF db(2)] f] .
      ultimately show ?thesis
        using \<open>?m \<noteq> []\<close> ex Some True g calm'
        by (simp add: UpdateFlagValue_def flags_wrap_def getFlagValueWithKey_def)
    qed
  qed
qed


section \<open>Create\<close>

lemma fv_view_insert:
  assumes wf: "wf_tables t" "wf_tables (t\<lparr>flag_values := T\<rparr>)"
    and T: "rows T = rows (flag_values t) @ [r]"
    and f: "f \<in> set (rows (flags t))" "flag_ID f = fv_FlagId r"
  shows "fv_view (t\<lparr>flag_values := T\<rparr>) =
      (fv_view t)((fv_EnvironmentID r, flag_FlagKey f) \<mapsto> (fv_Enabled r \<noteq> 0, fv_Value r))"
    and "fv_view t (fv_EnvironmentID r, flag_FlagKey f) = None"
proof -
  have new: "r \<notin> set (rows (flag_values t))"
    "\<And>s. s \<in> set (rows (flag_values t)) \<Longrightarrow> fv_key s \<noteq> fv_key r"
    using wf_flagsD(3,4) [OF wf(2)] T by (auto simp: image_iff)
  have other: False if "s \<in> set (rows (flag_values t))" "g \<in> set (rows (flags t))"
      "flag_ID g = fv_FlagId s" "fv_EnvironmentID s = fv_EnvironmentID r" "flag_FlagKey g = flag_FlagKey f"
    for s g
  proof -
    have "g = f" using that(2,5) f(1) wf_flag_unique(2) [OF wf(1)] by blast
    then have "fv_key s = fv_key r" using that(3,4) f(2) by (simp add: fv_key_def)
    with new(2) [OF that(1)] show False by blast
  qed
  show "fv_view t (fv_EnvironmentID r, flag_FlagKey f) = None"
    using other fv_view_iff [OF wf(1)] by (metis not_None_eq)
  have split: "fv_view (t\<lparr>flag_values := T\<rparr>) (e, k) = Some x \<longleftrightarrow> fv_view t (e, k) = Some x
      \<or> (e = fv_EnvironmentID r \<and> k = flag_FlagKey f \<and> x = (fv_Enabled r \<noteq> 0, fv_Value r))" for e k x
  proof -
    have "g = f" if "g \<in> set (rows (flags t))" "flag_ID g = fv_FlagId r" for g
      using that f wf_flag_unique(1) [OF wf(1), of g f] by simp
    then have mine: "(\<exists>g \<in> set (rows (flags t)). flag_ID g = fv_FlagId r \<and> fv_EnvironmentID r = e
          \<and> flag_FlagKey g = k \<and> x = (fv_Enabled r \<noteq> 0, fv_Value r))
        \<longleftrightarrow> e = fv_EnvironmentID r \<and> k = flag_FlagKey f \<and> x = (fv_Enabled r \<noteq> 0, fv_Value r)"
      using f by blast
    have rows': "set (rows (flag_values (t\<lparr>flag_values := T\<rparr>))) = set (rows (flag_values t)) \<union> {r}"
      and flags': "flags (t\<lparr>flag_values := T\<rparr>) = flags t"
      using T by simp_all
    show ?thesis
      unfolding fv_view_iff [OF wf(1)] fv_view_iff [OF wf(2)] rows' flags' bex_Un
      by (simp only: bex_simps mine) simp
  qed
  show "fv_view (t\<lparr>flag_values := T\<rparr>) =
      (fv_view t)((fv_EnvironmentID r, flag_FlagKey f) \<mapsto> (fv_Enabled r \<noteq> 0, fv_Value r))"
  proof (rule map_SomeI)
    fix ek x
    obtain e k where "ek = (e :: int, k :: string)" by fastforce
    then show "fv_view (t\<lparr>flag_values := T\<rparr>) ek = Some x \<longleftrightarrow> ((fv_view t)((fv_EnvironmentID r,
        flag_FlagKey f) \<mapsto> (fv_Enabled r \<noteq> 0, fv_Value r))) ek = Some x"
      using split [of e k x] \<open>fv_view t (fv_EnvironmentID r, flag_FlagKey f) = None\<close> by auto
  qed
qed

lemma checkFlagValueRefs_calm:
  assumes "calm db" and "checkFlagValueRefs input db = (Inr u, db')"
  shows "db' = db"
    "\<exists>e \<in> set (rows (environments (tabs db))). env_ID e = fv_EnvironmentID input"
    "\<exists>f \<in> set (rows (flags (tabs db))). flag_ID f = fv_FlagId input"
    "\<forall>r \<in> set (rows (flag_values (tabs db))). fv_key r \<noteq> (fv_EnvironmentID input, fv_FlagId input)"
  using assms
  by (auto simp: checkFlagValueRefs_def flags_count_def fv_key_def filter_empty_conv
      split: if_splits)

lemma insert_fv_stmt_InrD:
  assumes "insert_fv_stmt input now t = (Inr n, t')"
  shows "t' = t\<lparr>flag_values := \<lparr>rows = rows (flag_values t) @ [\<lparr>fv_ID = seq (flag_values t),
      fv_EnvironmentID = fv_EnvironmentID input, fv_FlagId = fv_FlagId input,
      fv_Value = fv_Value input, fv_Enabled = fv_Enabled input,
      fv_UpdatedAt = now, fv_ExpectedUpdatedAt = None\<rparr>], seq = seq (flag_values t) + 1\<rparr>\<rparr>"
  using assms
  by (auto simp: insert_fv_stmt_def table_insert_def Let_def split: if_splits sum.splits prod.splits)

text \<open>A successful create stores the row, was the first for its key, and extends the view.\<close>

lemma CreateFlagValue_calm:
  assumes db: "calm db" "wf_tables (tabs db)"
    and res: "CreateFlagValue input db = (Inr (v, k), db')"
  shows "fv_view (tabs db') =
      (fv_view (tabs db))((fv_EnvironmentID input, k) \<mapsto> (fv_Enabled input \<noteq> 0, fv_Value input))"
    "fv_view (tabs db) (fv_EnvironmentID input, k) = None"
    "fv_EnvironmentID v = fv_EnvironmentID input" "fv_FlagId v = fv_FlagId input"
    "fv_Value v = fv_Value input" "fv_Enabled v = fv_Enabled input"
proof -
  let ?t = "tabs db"
  obtain u d1 where c: "checkFlagValueRefs input db = (Inr u, d1)"
    and r1: "bindE (mapErr (\<lambda>e. if IsUniqueViolation e then ErrFlagValueExists
          else FlagsWrapped ''create flag value'') (exec (insert_fv_stmt input) d1))
        (\<lambda>_ db. getFlagValueByEnvAndFlag (fv_EnvironmentID input) (fv_FlagId input) db) = (Inr (v, k), db')"
    using res unfolding CreateFlagValue_def by (rule bindE_InrE)
  note c = checkFlagValueRefs_calm [OF db(1) c]
  from r1 obtain n d2 where e: "exec (insert_fv_stmt input) d1 = (Inr n, d2)"
    and g: "getFlagValueByEnvAndFlag (fv_EnvironmentID input) (fv_FlagId input) d2 = (Inr (v, k), db')"
    by (rule bindE_InrE) auto
  obtain t' where st: "insert_fv_stmt input (clock db) ?t = (Inr n, t')" and d2: "d2 = db\<lparr>tabs := t'\<rparr>"
    using e c(1) by (cases "insert_fv_stmt input (clock db) ?t") (auto simp: exec_calm [OF db(1)])
  have wf': "wf_tables t'"
    using insert_fv_preserves [of input] db(2) st by (metis keeps_def snd_conv)
  define i where "i = seq (flag_values ?t)"
  obtain T where T: "rows T = rows (flag_values ?t) @ [\<lparr>fv_ID = i,
      fv_EnvironmentID = fv_EnvironmentID input, fv_FlagId = fv_FlagId input,
      fv_Value = fv_Value input, fv_Enabled = fv_Enabled input,
      fv_UpdatedAt = clock db, fv_ExpectedUpdatedAt = None\<rparr>]" "t' = ?t\<lparr>flag_values := T\<rparr>"
    using insert_fv_stmt_InrD [OF st] i_def by (metis table.select_convs(1))
  have "calm d2" using db(1) d2 by (simp add: calm_def)
  then obtain f where fnd: "find (\<lambda>(fv, f). fv_EnvironmentID fv = fv_EnvironmentID input
        \<and> fv_FlagId fv = fv_FlagId input) (fv_join t') = Some (v, f)"
    and k: "k = flag_FlagKey f" and d': "db' = d2"
    using g d2 unfolding getFlagValueByEnvAndFlag_def
    by (auto split: option.splits prod.splits)
  note v = find_join_Some [OF fnd]
  have "v \<notin> set (rows (flag_values ?t))" using c(4) v(1) by (auto simp: fv_key_def)
  then have row: "v = \<lparr>fv_ID = i, fv_EnvironmentID = fv_EnvironmentID input,
      fv_FlagId = fv_FlagId input, fv_Value = fv_Value input, fv_Enabled = fv_Enabled input,
      fv_UpdatedAt = clock db, fv_ExpectedUpdatedAt = None\<rparr>"
    using v(2) T by auto
  have f: "f \<in> set (rows (flags ?t))" "flag_ID f = fv_FlagId v" using v(3,4) T(2) by simp_all
  have wf2: "wf_tables (?t\<lparr>flag_values := T\<rparr>)" using wf' T(2) by simp
  have T1: "rows T = rows (flag_values ?t) @ [v]" using T(1) row by simp
  show "fv_EnvironmentID v = fv_EnvironmentID input" "fv_FlagId v = fv_FlagId input"
    "fv_Value v = fv_Value input" "fv_Enabled v = fv_Enabled input"
    using row by simp_all
  then show "fv_view (tabs db') =
      (fv_view (tabs db))((fv_EnvironmentID input, k) \<mapsto> (fv_Enabled input \<noteq> 0, fv_Value input))"
    "fv_view (tabs db) (fv_EnvironmentID input, k) = None"
    using fv_view_insert [OF db(2) wf2 T1 f] d' d2 T(2) k by simp_all
qed


section \<open>Delete\<close>

lemma delete_fv_wf:
  "wf_tables t \<Longrightarrow> wf_tables (t\<lparr>flag_values := snd (table_delete (\<lambda>r. fv_ID r = i) (flag_values t))\<rparr>)"
  using delete_fv_preserves [of i]
  by (simp add: keeps_def delete_fv_stmt_def case_prod_beta)

lemma fv_view_delete:
  assumes wf: "wf_tables t"
    and r: "r \<in> set (rows (flag_values t))" and f: "f \<in> set (rows (flags t))" "flag_ID f = fv_FlagId r"
  shows "fv_view (t\<lparr>flag_values := snd (table_delete (\<lambda>s. fv_ID s = fv_ID r) (flag_values t))\<rparr>) =
      (fv_view t)((fv_EnvironmentID r, flag_FlagKey f) := None)"
    and "fv_view t (fv_EnvironmentID r, flag_FlagKey f) = Some (fv_Enabled r \<noteq> 0, fv_Value r)"
proof -
  let ?t' = "t\<lparr>flag_values := snd (table_delete (\<lambda>s. fv_ID s = fv_ID r) (flag_values t))\<rparr>"
  show "fv_view t (fv_EnvironmentID r, flag_FlagKey f) = Some (fv_Enabled r \<noteq> 0, fv_Value r)"
    unfolding fv_view_iff [OF wf] using r f by blast
  have wf': "wf_tables ?t'" by (rule delete_fv_wf [OF wf])
  have left: "s \<in> set (rows (flag_values ?t')) \<longleftrightarrow> s \<in> set (rows (flag_values t)) \<and> s \<noteq> r" for s
    using wf_fv_unique(1) [OF wf _ r] by (auto simp: table_delete_def)
  have same: "s = r" if "s \<in> set (rows (flag_values t))" "g \<in> set (rows (flags t))"
      "flag_ID g = fv_FlagId s" "fv_EnvironmentID s = fv_EnvironmentID r" "flag_FlagKey g = flag_FlagKey f"
    for s g
  proof -
    have "g = f" using that(2,5) f(1) wf_flag_unique(2) [OF wf] by blast
    then have "fv_key s = fv_key r" using that(3,4) f(2) by (simp add: fv_key_def)
    then show ?thesis using that(1) r wf_fv_unique(2) [OF wf] by blast
  qed
  have mine: "g = f" if "g \<in> set (rows (flags t))" "flag_ID g = fv_FlagId r" for g
    using that f wf_flag_unique(1) [OF wf, of g f] by simp
  have flags': "flags ?t' = flags t" by simp
  show "fv_view ?t' = (fv_view t)((fv_EnvironmentID r, flag_FlagKey f) := None)"
  proof (rule map_SomeI)
    fix ek x
    obtain e k where ek: "ek = (e :: int, k :: string)" by fastforce
    have "fv_view ?t' (e, k) = Some x \<longleftrightarrow>
        fv_view t (e, k) = Some x \<and> (e, k) \<noteq> (fv_EnvironmentID r, flag_FlagKey f)"
      unfolding fv_view_iff [OF wf] fv_view_iff [OF wf'] flags' Bex_def left
      using same mine by blast
    with ek show "fv_view ?t' ek = Some x \<longleftrightarrow>
        ((fv_view t)((fv_EnvironmentID r, flag_FlagKey f) := None)) ek = Some x"
      by auto
  qed
qed

lemma DeleteFlagValue_calm:
  assumes db: "calm db" "wf_tables (tabs db)" and res: "DeleteFlagValue i db = (Inr d, db')"
  shows "fv_view (tabs db') = (fv_view (tabs db))((del_EnvironmentID d, del_FlagKey d) := None)"
    "fv_view (tabs db) (del_EnvironmentID d, del_FlagKey d) \<noteq> None"
proof -
  let ?t = "tabs db"
  obtain fv f where fnd: "find (\<lambda>(fv, f). fv_ID fv = i) (fv_join ?t) = Some (fv, f)"
    using res db(1) unfolding DeleteFlagValue_def by (auto split: option.splits)
  note fv = find_join_Some [OF fnd]
  have d: "d = \<lparr>del_EnvironmentID = fv_EnvironmentID fv, del_FlagKey = flag_FlagKey f\<rparr>"
    and t': "tabs db' = ?t\<lparr>flag_values := snd (table_delete (\<lambda>r. fv_ID r = i) (flag_values ?t))\<rparr>"
    using res fnd db(1) unfolding DeleteFlagValue_def
    by (auto simp: exec_calm delete_fv_stmt_def split: prod.splits if_splits)
  have i: "fv_ID fv = i" using fv(1) by simp
  show "fv_view (tabs db') = (fv_view (tabs db))((del_EnvironmentID d, del_FlagKey d) := None)"
    "fv_view (tabs db) (del_EnvironmentID d, del_FlagKey d) \<noteq> None"
    using fv_view_delete [OF db(2) fv(2,3,4)] d t' i by simp_all
qed

text \<open>Deleting a flag removes it from every environment, and reports exactly the keys that go.\<close>

lemma DeleteFlag_calm:
  assumes db: "calm db" "wf_tables (tabs db)" and res: "DeleteFlag i db = (Inr removed, db')"
  shows "\<exists>k. (\<forall>e k'. fv_view (tabs db') (e, k') = (if k' = k then None else fv_view (tabs db) (e, k')))
    \<and> (\<lambda>d. (del_EnvironmentID d, del_FlagKey d)) ` set removed
        = {(e, k') | e k'. k' = k \<and> fv_view (tabs db) (e, k') \<noteq> None}"
proof -
  let ?t = "tabs db"
  obtain f where fnd: "find_row (\<lambda>f. flag_ID f = i) (flags ?t) = Some f"
    using res db(1) unfolding DeleteFlag_def by (auto simp: flags_tx_def split: option.splits)
  then have f: "f \<in> set (rows (flags ?t))" "flag_ID f = i" by (auto dest: find_row_SomeD)
  have rm: "removed = flag_removed i (flag_FlagKey f) ?t" and t': "tabs db' = delete_flag_tables i ?t"
    using res fnd db(1) unfolding DeleteFlag_def by (auto simp: flags_tx_def)
  have wf': "wf_tables (delete_flag_tables i ?t)" by (rule delete_flag_tables_wf [OF db(2)])
  have key: "flag_FlagKey g = flag_FlagKey f \<longleftrightarrow> flag_ID g = i" if "g \<in> set (rows (flags ?t))" for g
    using wf_flag_unique [OF db(2) that f(1)] f(2) by simp
  have "fv_view (tabs db') (e, k') = Some x \<longleftrightarrow> k' \<noteq> flag_FlagKey f \<and> fv_view ?t (e, k') = Some x"
    for e k' x
    unfolding t' fv_view_iff [OF db(2)] fv_view_iff [OF wf']
    by (auto simp: delete_flag_tables_def table_delete_def key) metis
  then have "fv_view (tabs db') (e, k') = (if k' = flag_FlagKey f then None else fv_view ?t (e, k'))"
    for e k'
    by (cases "fv_view (tabs db') (e, k')"; cases "fv_view ?t (e, k')") (metis option.distinct(1))+
  moreover have "(\<lambda>d. (del_EnvironmentID d, del_FlagKey d)) ` set removed
        = {(e, k') | e k'. k' = flag_FlagKey f \<and> fv_view ?t (e, k') \<noteq> None}" (is "?A = ?B")
  proof -
    have A: "(e, k') \<in> ?A \<longleftrightarrow> k' = flag_FlagKey f
        \<and> (\<exists>fv \<in> set (rows (flag_values ?t)). fv_FlagId fv = i \<and> fv_EnvironmentID fv = e)" for e k'
      by (auto simp: rm flag_removed_def image_iff)
    have V: "(\<exists>x. fv_view ?t (e, flag_FlagKey f) = Some x) \<longleftrightarrow>
        (\<exists>fv \<in> set (rows (flag_values ?t)). fv_FlagId fv = i \<and> fv_EnvironmentID fv = e)" for e
      unfolding fv_view_iff [OF db(2)] using f key by metis
    show ?thesis
    proof (rule set_eqI)
      fix ek
      obtain e k' where ek: "ek = (e :: int, k' :: string)" by fastforce
      show "ek \<in> ?A \<longleftrightarrow> ek \<in> ?B"
        unfolding ek A V [symmetric] by auto
    qed
  qed
  ultimately show ?thesis by blast
qed

end
