(* ===== verification/Flags_Service.thy ===== *)
theory Flags_Service
  imports Flags_Repo_Spec Kv_Publisher
begin

text \<open>
  \<^verbatim>\<open>internal/flagsconfig/service.go\<close>: the flag service between the HTTP handlers, the repository (the
  \<^verbatim>\<open>Repository\<close> interface, a record of its methods) and the publisher (the \<^verbatim>\<open>ConfigPublisher\<close>
  interface). The state of a call is the database connection and the publisher's world. What the
  service logs is not modelled.
\<close>

section \<open>The Repository interface\<close>

record flags_repository =
  repo_GetFlagsByID :: "int \<Rightarrow> dbconn \<Rightarrow> Flag flags_result"
  repo_GetFlagValueByID :: "int \<Rightarrow> dbconn \<Rightarrow> FlagValue flags_result"
  repo_UpdateFlagValue :: "FlagValue \<Rightarrow> dbconn \<Rightarrow> (FlagValue \<times> string) flags_result"
  repo_ListFlags :: "FlagFilter \<Rightarrow> dbconn \<Rightarrow> Flag list flags_result"
  repo_CreateFlag :: "Flag \<Rightarrow> dbconn \<Rightarrow> Flag flags_result"
  repo_DeleteFlag :: "int \<Rightarrow> dbconn \<Rightarrow> DeletedFlagValue list flags_result"
  repo_ListFlagValues :: "FlagValueFilter \<Rightarrow> dbconn \<Rightarrow> FlagValueRow list flags_result"
  repo_CreateFlagValue :: "FlagValue \<Rightarrow> dbconn \<Rightarrow> (FlagValue \<times> string) flags_result"
  repo_DeleteFlagValue :: "int \<Rightarrow> dbconn \<Rightarrow> DeletedFlagValue flags_result"

definition Flags_PostgresRepository :: flags_repository where
  "Flags_PostgresRepository = \<lparr>
     repo_GetFlagsByID = GetFlagsByID, repo_GetFlagValueByID = GetFlagValueByID,
     repo_UpdateFlagValue = UpdateFlagValue, repo_ListFlags = ListFlags,
     repo_CreateFlag = CreateFlag, repo_DeleteFlag = DeleteFlag,
     repo_ListFlagValues = ListFlagValues, repo_CreateFlagValue = CreateFlagValue,
     repo_DeleteFlagValue = DeleteFlagValue\<rparr>"

section \<open>Calls\<close>

record 'w app =
  app_db :: dbconn
  app_pub :: 'w

definition on_db :: "(dbconn \<Rightarrow> ('e + 'a) \<times> dbconn) \<Rightarrow> 'w app \<Rightarrow> ('e + 'a) \<times> 'w app" where
  "on_db f a = (case f (app_db a) of (r, db) \<Rightarrow> (r, a\<lparr>app_db := db\<rparr>))"

text \<open>A best-effort call of the publisher: its error is logged and dropped.\<close>

definition best_effort :: "('w \<Rightarrow> (pub_err + unit) \<times> 'w) \<Rightarrow> 'w app \<Rightarrow> 'w app" where
  "best_effort f a = a\<lparr>app_pub := snd (f (app_pub a))\<rparr>"

lemma best_effort_db [simp]: "app_db (best_effort f a) = app_db a"
  by (simp add: best_effort_def)

section \<open>Validation\<close>

definition maxFlagValueLen :: nat where "maxFlagValueLen = 4000"

definition checkValue :: "string \<Rightarrow> flags_error + unit" where
  "checkValue v =
     (if v = [] then Inl ErrInvalidFlagValue
      else if maxFlagValueLen < RuneCount v then Inl ErrFlagValueTooLarge
      else Inr ())"

definition validFlagState :: "int \<Rightarrow> bool" where
  "validFlagState n \<longleftrightarrow> n = 0 \<or> n = 1"

section \<open>Operations\<close>

definition flags_publish ::
  "'w config_publisher \<Rightarrow> FlagValue \<Rightarrow> string \<Rightarrow> 'w app \<Rightarrow> 'w app" where
  "flags_publish pub v flagKey = best_effort (PublishFlag pub (fv_EnvironmentID v) flagKey
     \<lparr>fp_Enabled = (fv_Enabled v \<noteq> 0), fp_Value = fv_Value v, fp_UpdatedAt = []\<rparr>)"

definition flags_purge :: "'w config_publisher \<Rightarrow> DeletedFlagValue \<Rightarrow> 'w app \<Rightarrow> 'w app" where
  "flags_purge pub row = best_effort
     (DeleteKey pub BucketFlags (FlagKey (del_EnvironmentID row) (del_FlagKey row)))"

definition FlagService_GetFlagByID ::
  "flags_repository \<Rightarrow> int \<Rightarrow> 'w app \<Rightarrow> (flags_error + Flag) \<times> 'w app" where
  "FlagService_GetFlagByID repo i a =
     (if i \<le> 0 then (Inl ErrInvalidFlagID, a) else on_db (repo_GetFlagsByID repo i) a)"

definition FlagService_GetFlagValueByID ::
  "flags_repository \<Rightarrow> int \<Rightarrow> 'w app \<Rightarrow> (flags_error + FlagValue) \<times> 'w app" where
  "FlagService_GetFlagValueByID repo i a =
     (if i \<le> 0 then (Inl ErrInvalidFlagID, a) else on_db (repo_GetFlagValueByID repo i) a)"

definition FlagService_UpdateFlagValue ::
  "flags_repository \<Rightarrow> 'w config_publisher \<Rightarrow> FlagValue \<Rightarrow> 'w app \<Rightarrow> (flags_error + FlagValue) \<times> 'w app" where
  "FlagService_UpdateFlagValue repo pub req a =
     (if fv_ID req \<le> 0 then (Inl ErrInvalidFlagID, a)
      else case checkValue (fv_Value req) of
        Inl err \<Rightarrow> (Inl err, a)
      | Inr _ \<Rightarrow>
          if \<not> validFlagState (fv_Enabled req) then (Inl ErrInvalidEnabled, a)
          else bindE (on_db (repo_UpdateFlagValue repo req) a)
                 (\<lambda>(updated, flagKey) a. (Inr updated, flags_publish pub updated flagKey a)))"

definition FlagService_ListFlags ::
  "flags_repository \<Rightarrow> FlagFilter \<Rightarrow> 'w app \<Rightarrow> (flags_error + Flag list) \<times> 'w app" where
  "FlagService_ListFlags repo filt =
     on_db (repo_ListFlags repo (filt\<lparr>ff_Page := normalizePage (ff_Page filt)\<rparr>))"

definition FlagService_ListFlagValues ::
  "flags_repository \<Rightarrow> FlagValueFilter \<Rightarrow> 'w app \<Rightarrow> (flags_error + FlagValueRow list) \<times> 'w app" where
  "FlagService_ListFlagValues repo filt =
     on_db (repo_ListFlagValues repo (filt\<lparr>fvf_Page := normalizePage (fvf_Page filt)\<rparr>))"

definition FlagService_CreateFlag ::
  "flags_repository \<Rightarrow> Flag \<Rightarrow> 'w app \<Rightarrow> (flags_error + Flag) \<times> 'w app" where
  "FlagService_CreateFlag repo req a =
     (if \<not> validFlagKey (flag_FlagKey req) then (Inl ErrInvalidFlagKey, a)
      else if \<not> validFlagState (flag_IsActive req) then (Inl ErrInvalidIsActive, a)
      else on_db (repo_CreateFlag repo req) a)"

definition FlagService_DeleteFlag ::
  "flags_repository \<Rightarrow> 'w config_publisher \<Rightarrow> int \<Rightarrow> 'w app \<Rightarrow> (flags_error + unit) \<times> 'w app" where
  "FlagService_DeleteFlag repo pub i a =
     (if i \<le> 0 then (Inl ErrInvalidFlagID, a)
      else bindE (on_db (repo_DeleteFlag repo i) a)
             (\<lambda>removed a. (Inr (), fold (flags_purge pub) removed a)))"

definition FlagService_CreateFlagValue ::
  "flags_repository \<Rightarrow> 'w config_publisher \<Rightarrow> FlagValue \<Rightarrow> 'w app \<Rightarrow> (flags_error + FlagValue) \<times> 'w app" where
  "FlagService_CreateFlagValue repo pub req a =
     (if fv_FlagId req \<le> 0 then (Inl ErrInvalidFlagID, a)
      else if fv_EnvironmentID req \<le> 0 then (Inl ErrInvalidEnvironmentID, a)
      else case checkValue (fv_Value req) of
        Inl err \<Rightarrow> (Inl err, a)
      | Inr _ \<Rightarrow>
          if \<not> validFlagState (fv_Enabled req) then (Inl ErrInvalidEnabled, a)
          else bindE (on_db (repo_CreateFlagValue repo req) a)
                 (\<lambda>(created, flagKey) a. (Inr created, flags_publish pub created flagKey a)))"

definition FlagService_DeleteFlagValue ::
  "flags_repository \<Rightarrow> 'w config_publisher \<Rightarrow> int \<Rightarrow> 'w app \<Rightarrow> (flags_error + unit) \<times> 'w app" where
  "FlagService_DeleteFlagValue repo pub i a =
     (if i \<le> 0 then (Inl ErrInvalidFlagID, a)
      else bindE (on_db (repo_DeleteFlagValue repo i) a)
             (\<lambda>removed a. (Inr (), flags_purge pub removed a)))"

section \<open>A call, by name\<close>

text \<open>The mutating calls as data, for statements about all of them.\<close>

datatype flags_call =
    UpdateValue FlagValue | NewFlag Flag | RemoveFlag int | NewValue FlagValue | RemoveValue int

definition unit_of :: "(flags_error + 'a) \<times> 'w app \<Rightarrow> (flags_error + unit) \<times> 'w app" where
  "unit_of r = (case r of (Inl e, a) \<Rightarrow> (Inl e, a) | (Inr _, a) \<Rightarrow> (Inr (), a))"

fun flags_run ::
  "flags_repository \<Rightarrow> 'w config_publisher \<Rightarrow> flags_call \<Rightarrow> 'w app \<Rightarrow> (flags_error + unit) \<times> 'w app" where
  "flags_run repo pub (UpdateValue req) = unit_of \<circ> FlagService_UpdateFlagValue repo pub req"
| "flags_run repo pub (NewFlag req) = unit_of \<circ> FlagService_CreateFlag repo req"
| "flags_run repo pub (RemoveFlag i) = FlagService_DeleteFlag repo pub i"
| "flags_run repo pub (NewValue req) = unit_of \<circ> FlagService_CreateFlagValue repo pub req"
| "flags_run repo pub (RemoveValue i) = FlagService_DeleteFlagValue repo pub i"

lemma fold_flags_purge_db [simp]: "app_db (fold (flags_purge pub) ds a) = app_db a"
  by (induction ds arbitrary: a) (simp_all add: flags_purge_def)

lemma on_db_eq: "on_db f a = (fst (f (app_db a)), a\<lparr>app_db := snd (f (app_db a))\<rparr>)"
  by (simp add: on_db_def split: prod.splits)

text \<open>The answer and the database never depend on the publisher or on its world.\<close>

lemma flags_run_independent:
  assumes "app_db a = app_db b"
  shows "fst (flags_run repo pub c a) = fst (flags_run repo pub' c b)
    \<and> app_db (snd (flags_run repo pub c a)) = app_db (snd (flags_run repo pub' c b))"
  using assms
  by (cases c) (auto simp: FlagService_UpdateFlagValue_def FlagService_CreateFlag_def
      FlagService_DeleteFlag_def FlagService_CreateFlagValue_def FlagService_DeleteFlagValue_def
      on_db_eq bindE_def unit_of_def flags_publish_def flags_purge_def split: sum.splits prod.splits)

end
