(* ===== verification/Kv_Reconciler.thy ===== *)
theory Kv_Reconciler
  imports Flags_Service
begin

text \<open>
  \<^verbatim>\<open>internal/messaging/reconciler.go\<close>: the periodic sweep that republishes the database to KV and prunes
  the keys whose row is gone. A sweep runs over the database connection and the publisher's world
  (\<open>'w app\<close>). Cancellation of the context and the clock are read from that state by the fields of
  \<open>runtime\<close>. The goroutine and its ticker are not modelled: a history of cycles is a list of
  \<open>runOnce\<close> calls. The prune ceiling is an exact rational where the code has a \<^verbatim>\<open>float64\<close>. What is
  logged is not modelled, what is counted is.
\<close>

section \<open>Sources\<close>

record ResyncResult =
  res_Keys :: "string list"
  res_Partial :: bool

definition ResyncResult_Publish :: "string \<Rightarrow> pub_err + unit \<Rightarrow> ResyncResult \<Rightarrow> ResyncResult" where
  "ResyncResult_Publish key err r =
     (if isl err then r\<lparr>res_Partial := True\<rparr> else r\<lparr>res_Keys := res_Keys r @ [key]\<rparr>)"

text \<open>The error of a source is only logged, so it carries no information here.\<close>

record 'w ReconcileSource =
  src_Name :: string
  src_Bucket :: string
  src_Resync :: "'w config_publisher \<Rightarrow> gotime \<Rightarrow> 'w app \<Rightarrow> (unit + ResyncResult) \<times> 'w app"

text \<open>The loop every source runs over its rows: the key of a row and the publish of it.\<close>

fun resync_rows ::
  "('r \<Rightarrow> string) \<Rightarrow> ('r \<Rightarrow> 'w \<Rightarrow> (pub_err + unit) \<times> 'w) \<Rightarrow> 'r list \<Rightarrow> ResyncResult \<Rightarrow> 'w
     \<Rightarrow> ResyncResult \<times> 'w" where
  "resync_rows key pubrow [] res w = (res, w)"
| "resync_rows key pubrow (row # rs) res w =
     (case pubrow row w of (err, w1) \<Rightarrow>
        resync_rows key pubrow rs (ResyncResult_Publish (key row) err res) w1)"

definition resync_with ::
  "('r \<Rightarrow> string) \<Rightarrow> ('r \<Rightarrow> 'w \<Rightarrow> (pub_err + unit) \<times> 'w) \<Rightarrow> (('e + 'r list) \<times> 'w app)
     \<Rightarrow> (unit + ResyncResult) \<times> 'w app" where
  "resync_with key pubrow listed = (case listed of
     (Inl err, a) \<Rightarrow> (Inl (), a)
   | (Inr rs, a) \<Rightarrow>
       (case resync_rows key pubrow rs \<lparr>res_Keys = [], res_Partial = False\<rparr> (app_pub a) of
          (res, w) \<Rightarrow> (Inr res, a\<lparr>app_pub := w\<rparr>)))"

text \<open>\<^verbatim>\<open>flagsReconcileSource\<close> of \<^verbatim>\<open>internal/app/app.go\<close>; the repository is its \<^verbatim>\<open>flagsLister\<close>.\<close>

definition flagsReconcileSource ::
  "(gotime \<Rightarrow> dbconn \<Rightarrow> ReconcileRow list flags_result) \<Rightarrow> 'w ReconcileSource" where
  "flagsReconcileSource lister = \<lparr>
     src_Name = ''flags'', src_Bucket = BucketFlags,
     src_Resync = (\<lambda>pub since a. resync_with
        (\<lambda>row. FlagKey (rr_EnvironmentID row) (rr_FlagKey row))
        (\<lambda>row. PublishFlag pub (rr_EnvironmentID row) (rr_FlagKey row)
           \<lparr>fp_Enabled = (rr_Enabled row \<noteq> 0), fp_Value = rr_Value row, fp_UpdatedAt = []\<rparr>)
        (on_db (lister since) a))\<rparr>"

section \<open>The reconciler\<close>

definition fullSweepEvery :: nat where "fullSweepEvery = 12"
definition reconcileOverlap :: gotime where "reconcileOverlap = minute"
definition defaultPruneMaxFraction :: rat where "defaultPruneMaxFraction = 1 / 5"
definition minPruneKeys :: int where "minPruneKeys = 5"

record Reconciler =
  rc_interval :: gotime
  rc_pruneMaxFraction :: rat
  rc_runs :: nat
  rc_lastRun :: gotime

text \<open>
  \<^verbatim>\<open>RECONCILE_PRUNE_MAX_FRACTION\<close>: unset, or set to a text that \<^verbatim>\<open>strconv.ParseFloat\<close> reads as a
  number or does not read.
\<close>

definition pruneMaxFractionFromEnv :: "rat option option \<Rightarrow> rat" where
  "pruneMaxFractionFromEnv v = (case v of
     None \<Rightarrow> defaultPruneMaxFraction
   | Some None \<Rightarrow> defaultPruneMaxFraction
   | Some (Some f) \<Rightarrow> if f \<le> 0 \<or> 1 < f then defaultPruneMaxFraction else f)"

definition NewReconciler :: "gotime \<Rightarrow> rat option option \<Rightarrow> Reconciler" where
  "NewReconciler interval env =
     \<lparr>rc_interval = (if interval \<le> 0 then 5 * minute else interval),
      rc_pruneMaxFraction = pruneMaxFractionFromEnv env, rc_runs = 0, rc_lastRun = 0\<rparr>"

record 'w runtime =
  ctx_Err :: "'w app \<Rightarrow> bool"
  time_Now :: "'w app \<Rightarrow> gotime"

text \<open>A call of the publisher from the reconciler.\<close>

definition on_pub :: "('w \<Rightarrow> 'r \<times> 'w) \<Rightarrow> 'w app \<Rightarrow> 'r \<times> 'w app" where
  "on_pub f a = (case f (app_pub a) of (r, w) \<Rightarrow> (r, a\<lparr>app_pub := w\<rparr>))"

definition snapshot ::
  "'w config_publisher \<Rightarrow> 'w ReconcileSource \<Rightarrow> 'w app \<Rightarrow> ((string \<times> nat) list \<times> bool) \<times> 'w app" where
  "snapshot pub s a =
     (if src_Bucket s = [] then (([], True), a)
      else case on_pub (ListRevisions pub (src_Bucket s)) a of
        (Inl err, a) \<Rightarrow> (([], False), a)
      | (Inr entries, a) \<Rightarrow> ((entries, True), a))"

text \<open>
  The keys a prune proposes to delete: held now, not published by the sweep, and still at the
  revision of the snapshot. Writing a key twice into the Go map keeps the later revision.
\<close>

definition stale_keys :: "string list \<Rightarrow> (string \<times> nat) list \<Rightarrow> (string \<times> nat) list \<Rightarrow> string list" where
  "stale_keys published atStart actual = map fst (filter
     (\<lambda>(k, r). k \<notin> set published \<and> map_of (rev atStart) k = Some r) actual)"

definition prune_limit :: "rat \<Rightarrow> nat \<Rightarrow> int" where
  "prune_limit fraction n = max minPruneKeys \<lfloor>of_nat n * fraction\<rfloor>"

text \<open>The deletions, each best-effort; how many succeeded.\<close>

fun delete_stale ::
  "'w config_publisher \<Rightarrow> string \<Rightarrow> string list \<Rightarrow> nat \<Rightarrow> 'w app \<Rightarrow> nat \<times> 'w app" where
  "delete_stale pub bucket [] pruned a = (pruned, a)"
| "delete_stale pub bucket (k # ks) pruned a =
     (case on_pub (DeleteKey pub bucket k) a of
        (Inl err, a) \<Rightarrow> delete_stale pub bucket ks pruned a
      | (Inr _, a) \<Rightarrow> delete_stale pub bucket ks (pruned + 1) a)"

definition prune ::
  "'w config_publisher \<Rightarrow> rat \<Rightarrow> 'w ReconcileSource \<Rightarrow> string list \<Rightarrow> (string \<times> nat) list
     \<Rightarrow> 'w app \<times> metrics \<Rightarrow> 'w app \<times> metrics" where
  "prune pub fraction s published atStart = (\<lambda>(a, m).
     if src_Bucket s = [] then (a, m)
     else case on_pub (ListRevisions pub (src_Bucket s)) a of
       (Inl err, a) \<Rightarrow> (a, m)
     | (Inr actual, a) \<Rightarrow>
         (let stale = stale_keys published atStart actual in
          if stale = [] then (a, m)
          else if published = [] \<or> prune_limit fraction (length actual) < int (length stale)
          then (a, counter_Inc ReconcilePruneRefused [''bucket'', src_Bucket s] m)
          else (case delete_stale pub (src_Bucket s) stale 0 a of (pruned, a) \<Rightarrow>
                  (a, if 0 < pruned
                      then counter_Add ReconcileKeysPruned (int pruned) [''bucket'', src_Bucket s] m
                      else m))))"

text \<open>
  One source of a cycle: \<open>None\<close> when the context was cancelled, otherwise whether the source failed
  or left rows unpublished.
\<close>

definition sweep_source ::
  "'w runtime \<Rightarrow> 'w config_publisher \<Rightarrow> rat \<Rightarrow> gotime \<Rightarrow> 'w ReconcileSource \<Rightarrow> 'w app \<times> metrics
     \<Rightarrow> bool option \<times> 'w app \<times> metrics" where
  "sweep_source rt pub fraction since s = (\<lambda>(a0, m).
     let full = IsZero since in
     case (if full then snapshot pub s a0 else (([], True), a0)) of ((atStart, snapshotted), a1) \<Rightarrow>
     case src_Resync s pub since a1 of (res, a) \<Rightarrow>
       if ctx_Err rt a then (None, a, m)
       else case res of
         Inl _ \<Rightarrow> (Some True, a, counter_Inc ReconcileSourceFailures [''source'', src_Name s] m)
       | Inr r \<Rightarrow>
           (let m1 = (if res_Keys r = [] then m
                      else counter_Add ReconcileKeysRepublished (int (length (res_Keys r)))
                             [''source'', src_Name s] m);
                m2 = (if res_Partial r then counter_Inc ReconcileSourceFailures [''source'', src_Name s] m1
                      else m1);
                (a3, m3) = (if full \<and> \<not> res_Partial r \<and> snapshotted
                            then prune pub fraction s (res_Keys r) atStart (a, m2) else (a, m2))
            in (Some (res_Partial r), a3, m3)))"

fun sweep_sources ::
  "'w runtime \<Rightarrow> 'w config_publisher \<Rightarrow> rat \<Rightarrow> gotime \<Rightarrow> 'w ReconcileSource list \<Rightarrow> bool
     \<Rightarrow> 'w app \<times> metrics \<Rightarrow> bool option \<times> 'w app \<times> metrics" where
  "sweep_sources rt pub fraction since [] failed am = (Some failed, am)"
| "sweep_sources rt pub fraction since (s # ss) failed am =
     (case sweep_source rt pub fraction since s am of
        (None, am1) \<Rightarrow> (None, am1)
      | (Some f, am1) \<Rightarrow> sweep_sources rt pub fraction since ss (failed \<or> f) am1)"

text \<open>The window of the next cycle; zero is a full sweep.\<close>

definition next_since :: "Reconciler \<Rightarrow> gotime" where
  "next_since r =
     (if \<not> IsZero (rc_lastRun r) \<and> rc_runs r mod fullSweepEvery \<noteq> 0
      then rc_lastRun r - reconcileOverlap else 0)"

definition unixEpoch :: gotime where "unixEpoch = 62135596800 * second"

definition runOnce ::
  "'w runtime \<Rightarrow> 'w config_publisher \<Rightarrow> 'w ReconcileSource list \<Rightarrow> Reconciler \<times> 'w app \<times> metrics
     \<Rightarrow> Reconciler \<times> 'w app \<times> metrics" where
  "runOnce rt pub sources = (\<lambda>(r, a0, m).
     let started = time_Now rt a0;
         since = next_since r
     in case on_pub (EnsureAll pub) a0 of (ensured, a1) \<Rightarrow>
        if isl ensured \<and> ctx_Err rt a1 then (r, a1, m)
        else
          let sweep = (if IsZero since then ''full'' else ''incremental'') in
          case sweep_sources rt pub (rc_pruneMaxFraction r) since sources False (a1, m) of
            (None, a, m) \<Rightarrow> (r, a, m)
          | (Some failed, a, m) \<Rightarrow>
              (let r1 = r\<lparr>rc_runs := rc_runs r + 1\<rparr>;
                   r2 = (if failed then r1 else r1\<lparr>rc_lastRun := started\<rparr>);
                   m1 = (if failed then m
                         else gauge_Set ReconcileLastSuccess
                                (of_int ((time_Now rt a - unixEpoch) div second)) m);
                   m2 = counter_Inc ReconcileCycles
                          [''sweep'', sweep, ''result'', if failed then ''failed'' else ''ok''] m1;
                   m3 = histogram_Observe ReconcileDuration
                          (of_int (time_Now rt a - started) / of_int second) [''sweep'', sweep] m2
               in (r2, a, m3)))"

end
