(* ===== verification/Flags_Service_Laws.thy ===== *)
theory Flags_Service_Laws
  imports Flags_Service
begin

text \<open>
  What the flag service guarantees whatever repository it runs on. The locale \<open>flags_store\<close> is the
  contract of the \<^verbatim>\<open>Repository\<close> interface with respect to an invariant: every method keeps it, the
  writes for the inputs the service lets through. Inside it every mutating call of the service is
  shown to keep the invariant. It is interpreted with the Postgres repository for two invariants:
  well-formedness, and the validity of every stored key, state and value.
\<close>

section \<open>Valid data\<close>

definition valid_value :: "FlagValue \<Rightarrow> bool" where
  "valid_value v \<longleftrightarrow> checkValue (fv_Value v) = Inr () \<and> validFlagState (fv_Enabled v)"

definition valid_flag :: "Flag \<Rightarrow> bool" where
  "valid_flag f \<longleftrightarrow> validFlagKey (flag_FlagKey f) \<and> validFlagState (flag_IsActive f)"

definition valid_flag_data :: "tables \<Rightarrow> bool" where
  "valid_flag_data t \<longleftrightarrow> (\<forall>f \<in> set (rows (flags t)). valid_flag f)
     \<and> (\<forall>r \<in> set (rows (flag_values t)). valid_value r)"

lemma checkValue_Inr [simp]:
  "checkValue v = Inr u \<longleftrightarrow> v \<noteq> [] \<and> RuneCount v \<le> 4000"
  by (auto simp: checkValue_def maxFlagValueLen_def)

lemma valid_update: "valid_value v \<Longrightarrow> keeps valid_flag_data (update_fv_stmt v)"
  by (auto simp: keeps_def update_fv_stmt_def valid_flag_data_def table_update_def Let_def
      fv_write_def valid_value_def split: prod.splits if_splits)

lemma valid_insert_flag: "valid_flag f \<Longrightarrow> keeps valid_flag_data (insert_flag_stmt f)"
  by (auto simp: keeps_def insert_flag_stmt_def valid_flag_data_def table_insert_def Let_def
      valid_flag_def split: prod.splits if_splits)

lemma valid_insert_value: "valid_value v \<Longrightarrow> keeps valid_flag_data (insert_fv_stmt v)"
  by (auto simp: keeps_def insert_fv_stmt_def valid_flag_data_def table_insert_def Let_def
      valid_value_def split: prod.splits if_splits sum.splits)

interpretation valid_flags: flags_invariant valid_flag_data valid_value valid_flag
proof unfold_locales
  show "keeps valid_flag_data (delete_fv_stmt i)" for i
    by (auto simp: keeps_def delete_fv_stmt_def valid_flag_data_def table_delete_def)
  show "valid_flag_data t \<Longrightarrow> valid_flag_data (delete_flag_tables i t)" for t i
    by (auto simp: valid_flag_data_def delete_flag_tables_def table_delete_def)
qed (simp_all add: valid_update valid_insert_flag valid_insert_value)

section \<open>The service on any repository\<close>

locale flags_store =
  fixes repo :: flags_repository
    and P :: "tables \<Rightarrow> bool"
  assumes repo_update: "valid_value v \<Longrightarrow> holds P db \<Longrightarrow> holds P (snd (repo_UpdateFlagValue repo v db))"
    and repo_create: "valid_flag f \<Longrightarrow> holds P db \<Longrightarrow> holds P (snd (repo_CreateFlag repo f db))"
    and repo_create_value:
      "valid_value v \<Longrightarrow> holds P db \<Longrightarrow> holds P (snd (repo_CreateFlagValue repo v db))"
    and repo_delete: "holds P db \<Longrightarrow> holds P (snd (repo_DeleteFlag repo i db))"
    and repo_delete_value: "holds P db \<Longrightarrow> holds P (snd (repo_DeleteFlagValue repo i db))"
begin

lemma update_call:
  "holds P (app_db a) \<Longrightarrow> holds P (app_db (snd (FlagService_UpdateFlagValue repo pub req a)))"
  using repo_update [of req "app_db a"]
  by (auto simp: FlagService_UpdateFlagValue_def valid_value_def on_db_eq bindE_def flags_publish_def
      split: sum.splits prod.splits)

lemma create_call:
  "holds P (app_db a) \<Longrightarrow> holds P (app_db (snd (FlagService_CreateFlag repo req a)))"
  using repo_create [of req "app_db a"]
  by (auto simp: FlagService_CreateFlag_def valid_flag_def on_db_eq)

lemma create_value_call:
  "holds P (app_db a) \<Longrightarrow> holds P (app_db (snd (FlagService_CreateFlagValue repo pub req a)))"
  using repo_create_value [of req "app_db a"]
  by (auto simp: FlagService_CreateFlagValue_def valid_value_def on_db_eq bindE_def flags_publish_def
      split: sum.splits prod.splits)

lemma delete_call:
  "holds P (app_db a) \<Longrightarrow> holds P (app_db (snd (FlagService_DeleteFlag repo pub i a)))"
  using repo_delete [of "app_db a" i]
  by (auto simp: FlagService_DeleteFlag_def on_db_eq bindE_def split: sum.splits prod.splits)

lemma delete_value_call:
  "holds P (app_db a) \<Longrightarrow> holds P (app_db (snd (FlagService_DeleteFlagValue repo pub i a)))"
  using repo_delete_value [of "app_db a" i]
  by (auto simp: FlagService_DeleteFlagValue_def on_db_eq bindE_def flags_purge_def
      split: sum.splits prod.splits)

lemma snd_unit_of [simp]: "snd (unit_of r) = snd r"
  by (auto simp: unit_of_def split: prod.splits sum.splits)

lemma run_call: "holds P (app_db a) \<Longrightarrow> holds P (app_db (snd (flags_run repo pub c a)))"
  by (cases c) (simp_all add: update_call create_call create_value_call delete_call delete_value_call)

text \<open>A history of calls, whatever each answered.\<close>

lemma run_calls:
  "holds P (app_db a) \<Longrightarrow> holds P (app_db (fold (\<lambda>c a. snd (flags_run repo pub c a)) cs a))"
  by (induction cs arbitrary: a) (simp_all add: run_call)

end

lemmas postgres_methods = Flags_PostgresRepository_def

interpretation postgres_wf: flags_store Flags_PostgresRepository wf_tables
  by unfold_locales
    (simp_all add: postgres_methods wf_flags.UpdateFlagValue_inv wf_flags.CreateFlag_inv
      wf_flags.CreateFlagValue_inv wf_flags.DeleteFlag_inv wf_flags.DeleteFlagValue_inv)

interpretation postgres_valid: flags_store Flags_PostgresRepository valid_flag_data
  by unfold_locales
    (simp_all add: postgres_methods valid_flags.UpdateFlagValue_inv valid_flags.CreateFlag_inv
      valid_flags.CreateFlagValue_inv valid_flags.DeleteFlag_inv valid_flags.DeleteFlagValue_inv)

section \<open>Properties\<close>

text \<open>
  Property C20. Every history of flag service calls, interleaved with driver failures and with other
  clients' commits of good tables, keeps the database well-formed and every stored flag key, state and
  value valid; so every row can be published under an unambiguous KV key.
\<close>

theorem flags_service_invariant:
  assumes "holds wf_tables (app_db a)" and "holds valid_flag_data (app_db a)"
  shows "holds wf_tables (app_db (fold (\<lambda>c a. snd (flags_run Flags_PostgresRepository pub c a)) cs a))
    \<and> holds valid_flag_data (app_db (fold (\<lambda>c a. snd (flags_run Flags_PostgresRepository pub c a)) cs a))"
  using assms postgres_wf.run_calls postgres_valid.run_calls by blast

text \<open>
  The answer of a flag service call and its effect on the database are the same whatever
  the publisher does: a failed, slow or disabled distribution plane never fails or alters a request.
\<close>

theorem flags_service_db_first:
  "fst (flags_run repo pub c a) = fst (flags_run repo pub' c (a\<lparr>app_pub := w\<rparr>))
   \<and> app_db (snd (flags_run repo pub c a)) = app_db (snd (flags_run repo pub' c (a\<lparr>app_pub := w\<rparr>)))"
  by (rule flags_run_independent) simp

definition call_valid :: "flags_call \<Rightarrow> bool" where
  "call_valid c = (case c of
     UpdateValue v \<Rightarrow> 0 < fv_ID v \<and> valid_value v
   | NewFlag f \<Rightarrow> valid_flag f
   | RemoveFlag i \<Rightarrow> 0 < i
   | NewValue v \<Rightarrow> 0 < fv_FlagId v \<and> 0 < fv_EnvironmentID v \<and> valid_value v
   | RemoveValue i \<Rightarrow> 0 < i)"

text \<open>
  A call whose request does not pass validation is refused before the database is
  touched and before anything is published.
\<close>

theorem flags_service_refuses_invalid:
  "(\<exists>err. flags_run repo pub c a = (Inl err, a)
      \<and> err \<in> {ErrInvalidFlagID, ErrInvalidEnvironmentID, ErrInvalidFlagKey, ErrInvalidFlagValue,
               ErrFlagValueTooLarge, ErrInvalidEnabled, ErrInvalidIsActive}) \<or> call_valid c"
  by (cases c) (auto simp: call_valid_def FlagService_UpdateFlagValue_def FlagService_CreateFlag_def
      FlagService_DeleteFlag_def FlagService_CreateFlagValue_def FlagService_DeleteFlagValue_def
      valid_value_def valid_flag_def unit_of_def checkValue_def maxFlagValueLen_def split: sum.splits)

end
