(* ===== verification/Kv_Memory.thy ===== *)
theory Kv_Memory
  imports Kv_Laws
begin

text \<open>
  A concrete server that satisfies the laws the publisher relies on, used to show that the
  hypotheses of the properties can hold and to run the model: an append-only log of puts and
  purges, newest first, as a JetStream stream keeps it, where the revision of an entry is its
  position. What happens just before a call is a parameter: in the scripted server nothing, a write or
  a purge by another client, or a refusal of the call; in the solo server there is no other client.
\<close>

datatype mem_event = Still | Put string string bytes | Drop string string | Refuse

record mem_kv =
  mk_log :: "(string \<times> string \<times> bytes option) list"
  mk_clock :: gotime
  mk_script :: "mem_event list"

fun log_view :: "(string \<times> string \<times> bytes option) list \<Rightarrow> string \<Rightarrow> string \<Rightarrow> (bytes \<times> nat) option" where
  "log_view [] h k = None"
| "log_view ((h', k', v) # es) h k =
     (if h' = h \<and> k' = k then map_option (\<lambda>x. (x, length es + 1)) v else log_view es h k)"

definition mem_view :: "(string, mem_kv) kv_view" where
  "mem_view w h k = log_view (mk_log w) h k"

definition mem_rely :: "mem_kv \<Rightarrow> mem_kv \<Rightarrow> bool" where
  "mem_rely w w' \<longleftrightarrow> (\<exists>es. mk_log w' = es @ mk_log w)"

definition mem_write :: "string \<Rightarrow> string \<Rightarrow> bytes option \<Rightarrow> mem_kv \<Rightarrow> mem_kv" where
  "mem_write h k v w = w\<lparr>mk_log := (h, k, v) # mk_log w\<rparr>"

text \<open>What happens before a call, and whether the call is served.\<close>

definition mem_begin :: "mem_kv \<Rightarrow> bool \<times> mem_kv" where
  "mem_begin w = (case mk_script w of
     [] \<Rightarrow> (True, w)
   | Still # s \<Rightarrow> (True, w\<lparr>mk_script := s\<rparr>)
   | Put h k v # s \<Rightarrow> (True, mem_write h k (Some v) (w\<lparr>mk_script := s\<rparr>))
   | Drop h k # s \<Rightarrow> (True, mem_write h k None (w\<lparr>mk_script := s\<rparr>))
   | Refuse # s \<Rightarrow> (False, w\<lparr>mk_script := s\<rparr>))"

type_synonym mem_env = "mem_kv \<Rightarrow> bool \<times> mem_kv"

definition solo_begin :: mem_env where
  "solo_begin w = (True, w)"

definition mem_call ::
  "mem_env \<Rightarrow> (mem_kv \<Rightarrow> (js_err + 'a) \<times> mem_kv) \<Rightarrow> mem_kv \<Rightarrow> (js_err + 'a) \<times> mem_kv" where
  "mem_call beg f w = (case beg w of
     (False, w) \<Rightarrow> (Inl (JsOther ''refused''), w) | (True, w) \<Rightarrow> f w)"

definition mem_entries :: "string \<Rightarrow> mem_kv \<Rightarrow> (string \<times> nat) list" where
  "mem_entries h w = concat (map (\<lambda>k. case mem_view w h k of None \<Rightarrow> [] | Some (v, r) \<Rightarrow> [(k, r)])
     (remdups (map (fst \<circ> snd) (filter (\<lambda>e. fst e = h) (mk_log w)))))"

definition mem_server :: "mem_env \<Rightarrow> (string, mem_kv) js_ops" where
  "mem_server beg = \<lparr>
     js_CreateOrUpdateKeyValue = (\<lambda>cfg. mem_call beg (\<lambda>w. (Inr (kvc_Bucket cfg), w))),
     js_Get = (\<lambda>h k. mem_call beg (\<lambda>w. (case mem_view w h k of
        None \<Rightarrow> Inl ErrKeyNotFound | Some vr \<Rightarrow> Inr vr, w))),
     js_Create = (\<lambda>h k v. mem_call beg (\<lambda>w. case mem_view w h k of
        None \<Rightarrow> (Inr (length (mk_log w) + 1), mem_write h k (Some v) w)
      | Some _ \<Rightarrow> (Inl ErrKeyExists, w))),
     js_Update = (\<lambda>h k v old. mem_call beg (\<lambda>w.
        if map_option snd (mem_view w h k) = Some old
        then (Inr (length (mk_log w) + 1), mem_write h k (Some v) w)
        else (Inl ErrKeyExists, w))),
     js_Purge = (\<lambda>h k. mem_call beg (\<lambda>w. (Inr (), mem_write h k None w))),
     js_ListKeys = (\<lambda>h. mem_call beg (\<lambda>w. (Inr (map fst (mem_entries h w)), w))),
     js_WatchAll = (\<lambda>h. mem_call beg (\<lambda>w.
        (Inr (map (\<lambda>(k, r). Entry k r) (mem_entries h w) @ [SnapshotEnd]), w))),
     js_Now = (\<lambda>w. (mk_clock w, w))\<rparr>"

definition mem_js :: "(string, mem_kv) js_ops" where
  "mem_js = mem_server mem_begin"

definition solo_js :: "(string, mem_kv) js_ops" where
  "solo_js = mem_server solo_begin"

definition solo_rely :: "mem_kv \<Rightarrow> mem_kv \<Rightarrow> bool" where
  "solo_rely w w' \<longleftrightarrow> mk_log w' = mk_log w"

section \<open>The laws\<close>

lemma log_view_bounds: "log_view l h k = Some (v, r) \<Longrightarrow> 0 < r \<and> r \<le> length l"
  by (induction l h k rule: log_view.induct) (auto split: if_splits)

lemma log_view_old:
  "log_view (es @ l) h k = Some (v, r) \<Longrightarrow> r \<le> length l \<Longrightarrow> log_view l h k = Some (v, r)"
  by (induction es) (auto split: if_splits)

lemma mem_rely_laws: "rely_laws mem_view mem_rely"
proof -
  have "v' = v" if "mk_log w' = es @ mk_log w" "mem_view w h k = Some (v, r)"
    "mem_view w' h k = Some (v', r)" for w w' es h k v v' r
    using that log_view_bounds [of "mk_log w" h k v r] log_view_old [of es "mk_log w" h k v' r]
    by (simp add: mem_view_def)
  then show ?thesis
    unfolding rely_laws_def mem_rely_def using log_view_bounds
    by (auto simp: mem_view_def)
qed

text \<open>An environment whose actions stay within a guarantee \<open>R\<close>.\<close>

definition env_within :: "mem_env \<Rightarrow> (mem_kv \<Rightarrow> mem_kv \<Rightarrow> bool) \<Rightarrow> bool" where
  "env_within beg R \<longleftrightarrow> rely_laws mem_view R \<and> (\<forall>w. R w (snd (beg w)))"

lemma env_refl: "env_within beg R \<Longrightarrow> R w w"
  by (simp add: env_within_def rely_laws_def)

lemma mem_call_during:
  assumes "env_within beg R" and "mem_call beg f w = (res, w')" and "\<And>w0 b. beg w = (b, w0) \<Longrightarrow>
    (if b then f w0 = (res, w') else res = Inl (JsOther ''refused'') \<and> w' = w0) \<Longrightarrow> R w w0 \<Longrightarrow> P"
  shows P
proof -
  obtain b w0 where b: "beg w = (b, w0)" by fastforce
  with assms(1) have "R w w0" by (metis env_within_def snd_conv)
  with b assms(2) show P by (intro assms(3) [OF b]) (auto simp: mem_call_def split: bool.splits)
qed

lemma mem_put: "kv_put mem_view h k v (length (mk_log w) + 1) w (mem_write h k (Some v) w)"
  by (auto simp: kv_put_def mem_view_def mem_write_def)

lemma mem_gone: "kv_gone mem_view h k w (mem_write h k None w)"
  by (auto simp: kv_gone_def mem_view_def mem_write_def)

lemma mem_during: "env_within beg R \<Longrightarrow> R w w1 \<Longrightarrow> act w1 w' \<Longrightarrow> during R act w w'"
  unfolding during_def using env_refl by blast

lemma mem_get_law:
  assumes env: "env_within beg R"
  shows "get_law (mem_server beg) mem_view R"
  unfolding get_law_def mem_server_def
  by (auto elim!: mem_call_during [OF env] intro!: mem_during [OF env] split: if_splits option.splits)

lemma mem_create_law:
  assumes env: "env_within beg R"
  shows "create_law (mem_server beg) mem_view R"
  unfolding create_law_def write_law_def mem_server_def
  by (auto elim!: mem_call_during [OF env] intro!: mem_during [OF env] mem_put [simplified]
      split: if_splits option.splits)

lemma mem_update_law:
  assumes env: "env_within beg R"
  shows "update_law (mem_server beg) mem_view R"
proof -
  have "write_law mem_view R h k v (\<lambda>c. map_option snd c = Some old) res w w'"
    if call: "mem_call beg (\<lambda>w. if map_option snd (mem_view w h k) = Some old
        then (Inr (length (mk_log w) + 1), mem_write h k (Some v) w)
        else (Inl ErrKeyExists, w)) w = (res, w')" for h k v old w res w'
  proof (rule mem_call_during [OF env call])
    fix w0 b
    let ?c = "map_option snd (mem_view w0 h k) = Some old"
    assume r: "R w w0" and eq: "if b
      then (if ?c then (Inr (length (mk_log w0) + 1), mem_write h k (Some v) w0) else (Inl ErrKeyExists, w0))
        = (res, w')
      else res = Inl (JsOther ''refused'') \<and> w' = w0"
    show ?thesis
    proof (cases "b \<and> ?c")
      case True
      have "during R (\<lambda>w1 w2. map_option snd (mem_view w1 h k) = Some old
          \<and> kv_put mem_view h k v (length (mk_log w0) + 1) w1 w2) w (mem_write h k (Some v) w0)"
        using True by (intro mem_during [OF env r] conjI mem_put) simp
      moreover have "res = Inr (length (mk_log w0) + 1)" "w' = mem_write h k (Some v) w0"
        using eq True by (simp_all split: if_splits)
      ultimately show ?thesis by (simp add: write_law_def)
    next
      case False
      with eq have "w' = w0" "\<exists>e. res = Inl e" by (auto split: if_splits)
      with r show ?thesis by (auto simp: write_law_def)
    qed
  qed
  then show ?thesis unfolding update_law_def by (simp add: mem_server_def)
qed

lemma mem_purge_law:
  assumes env: "env_within beg R"
  shows "purge_law (mem_server beg) mem_view R"
proof -
  have "(case res of Inr _ \<Rightarrow> during R (kv_gone mem_view h k) w w'
      | Inl e \<Rightarrow> (R w w' \<and> (e = ErrKeyNotFound \<longrightarrow>
            during R (\<lambda>w1 w2. w1 = w2 \<and> mem_view w1 h k = None) w w'))
          \<or> (e \<noteq> ErrKeyNotFound \<and> during R (kv_gone mem_view h k) w w'))"
    if call: "mem_call beg (\<lambda>w. (Inr (), mem_write h k None w)) w = (res, w')" for h k w res w'
  proof (rule mem_call_during [OF env call])
    fix w0 b
    assume eq: "if b then (Inr (), mem_write h k None w0) = (res, w')
      else res = Inl (JsOther ''refused'') \<and> w' = w0" and r: "R w w0"
    have "during R (kv_gone mem_view h k) w (mem_write h k None w0)"
      by (rule mem_during [OF env r], rule mem_gone)
    moreover have "b \<Longrightarrow> res = Inr () \<and> w' = mem_write h k None w0"
      and "\<not> b \<Longrightarrow> res = Inl (JsOther ''refused'') \<and> w' = w0"
      using eq by (simp_all split: if_splits)
    ultimately show ?thesis using r by (cases b) simp_all
  qed
  then show ?thesis unfolding purge_law_def by (simp add: mem_server_def)
qed

lemma mem_server_laws: "env_within beg R \<Longrightarrow> kv_laws (mem_server beg) mem_view R"
  by (simp add: kv_laws_def mem_get_law mem_create_law mem_update_law mem_purge_law)
    (simp add: env_within_def now_law_def mem_server_def rely_laws_def)

lemma mem_begin_rely: "mem_rely w (snd (mem_begin w))"
  by (auto simp: mem_begin_def mem_rely_def mem_write_def split: list.splits mem_event.splits)

lemma mem_kv_laws: "kv_laws mem_js mem_view mem_rely"
  unfolding mem_js_def
  by (rule mem_server_laws) (simp add: env_within_def mem_rely_laws mem_begin_rely)

lemma solo_kv_laws: "kv_laws solo_js mem_view solo_rely"
proof -
  have "rely_laws mem_view solo_rely"
    by (auto simp: rely_laws_def solo_rely_def mem_view_def dest: log_view_bounds)
  then show ?thesis
    unfolding solo_js_def
    by (intro mem_server_laws) (simp add: env_within_def solo_begin_def solo_rely_def)
qed

lemma solo_quiet: "quiet mem_view solo_rely"
  by (simp add: quiet_def solo_rely_def mem_view_def fun_eq_iff)

text \<open>A plane on an empty server whose buckets are provisioned.\<close>

definition mem_plane :: "mem_event list \<Rightarrow> (string, mem_kv) plane" where
  "mem_plane events = \<lparr>pl_buckets = \<lparr>bk_flags = Some BucketFlags,
       bk_serviceSettings = Some BucketServiceSettings, bk_localization = Some BucketLocalization,
       bk_opts = \<lparr>History = 5, Replicas = 1\<rparr>\<rparr>,
     pl_net = \<lparr>mk_log = [], mk_clock = 63900000000 * second, mk_script = events\<rparr>,
     pl_metrics = new_metrics\<rparr>"

end
