(* ===== verification/Publish_Spec.thy ===== *)
theory Publish_Spec
  imports Kv_Memory
begin

text \<open>
  The properties of the publisher, each with an instance on the in-memory server of \<open>Kv_Memory\<close>.
\<close>

text \<open>Calls of the interface, unfolded to the counted operation.\<close>

lemma PublishFlag_InrD:
  assumes "PublishFlag (Publisher js) e k payload p = (Inr u, p')"
  obtains skipped p1 where "publishFlag js e k payload p = (Inr skipped, p1)"
    "pl_net p' = pl_net p1" "pl_buckets p' = pl_buckets p1"
  using assms
  by (auto simp: Publisher_def observePublish_def on_metrics_def Let_def
      split: prod.splits sum.splits bool.splits)

lemma publishFlag_buckets:
  "publishFlag js e k payload p = (res, p') \<Longrightarrow> pl_buckets p' = pl_buckets p"
  by (auto simp: publishFlag_def with_bucket_def on_net_def split: sum.splits prod.splits)

text \<open>
  Property C10. A successful \<^verbatim>\<open>PublishFlag\<close> is atomic although other publishers write the same key
  at the same time: there is one moment between its start and its end at which the key held exactly
  the value the written bytes were built from, and at that moment it was replaced by them, or left
  alone because it already compared equal. No other client's write is lost without having been read.
\<close>

theorem publish_flag_atomic:
  assumes "kv_laws js view rely" and "byName BucketFlags (pl_buckets p) = Inr kv"
    and "PublishFlag (Publisher js) e k payload p = (Inr (), p')"
  shows "\<exists>skipped. publish_point view rely kv (FlagKey e k) (flag_build js payload) skipped
           (pl_net p) (pl_net p')"
proof -
  obtain s p1 where "publishFlag js e k payload p = (Inr s, p1)" "pl_net p' = pl_net p1"
    using assms(3) by (rule PublishFlag_InrD)
  with publishFlag_point [OF assms(1,2)] show ?thesis by metis
qed

text \<open>
  Property C20. After a successful \<^verbatim>\<open>PublishFlag\<close> the bytes that were in the bucket at its last moment
  of action decode, for any consumer, to the enabled state and the value the caller passed (invalid
  UTF-8 replaced), and only other publishers have acted since.
\<close>

theorem publish_flag_readable:
  assumes "kv_laws js view rely" and "byName BucketFlags (pl_buckets p) = Inr kv"
    and "PublishFlag (Publisher js) e k payload p = (Inr (), p')"
  shows "\<exists>w v r. view w kv (FlagKey e k) = Some (v, r) \<and> rely w (pl_net p')
           \<and> flag_state v = Some (fp_Enabled payload, ToValid (fp_Value payload))"
proof -
  obtain s p1 where "publishFlag js e k payload p = (Inr s, p1)" "pl_net p' = pl_net p1"
    using assms(3) by (rule PublishFlag_InrD)
  with publishFlag_point [OF assms(1,2)]
  have "publish_point view rely kv (FlagKey e k) (flag_build js payload) s (pl_net p) (pl_net p')"
    by metis
  then have "\<exists>w v r. view w kv (FlagKey e k) = Some (v, r)
      \<and> flag_state v = Some (fp_Enabled payload, ToValid (fp_Value payload)) \<and> rely w (pl_net p')"
    by (rule publish_point_value) (blast dest: flag_build_state)
  then show ?thesis by blast
qed

text \<open>
  Publishing the same flag state again is skipped and cuts no new revision, whatever the
  time of day, as long as nobody else writes in between: the timestamp alone never counts as a change.
\<close>

theorem republish_skipped:
  assumes laws: "kv_laws js view rely" and q: "quiet view rely"
    and b: "byName BucketFlags (pl_buckets p) = Inr kv" and auto_stamp: "fp_UpdatedAt payload = []"
    and first: "publishFlag js e k payload p = (Inr s, p1)"
    and again: "publishFlag js e k payload p1 = (Inr s', p2)"
  shows "s' \<and> view (pl_net p2) = view (pl_net p1)"
proof -
  let ?key = "FlagKey e k" and ?b = "flag_build js payload"
  have b1: "byName BucketFlags (pl_buckets p1) = Inr kv"
    using b publishFlag_buckets [OF first] by simp
  have same: "rely w w' \<Longrightarrow> view w' = view w" for w w' using q by (simp add: quiet_def)
  from publishFlag_point [OF laws b first] obtain w1 wb wb' new compare
    where bld: "?b (map_option fst (view w1 kv ?key)) wb = (Inr (new, compare), wb')"
      and r: "if s then map_option fst (view w1 kv ?key) = Some compare \<and> rely w1 (pl_net p1)
        else map_option fst (view w1 kv ?key) \<noteq> Some compare
          \<and> (\<exists>w2 r. kv_put view kv ?key new r w1 w2 \<and> rely w2 (pl_net p1))"
    unfolding publish_point_def by blast
  have "\<exists>v. map_option fst (view (pl_net p1) kv ?key) = Some v
      \<and> (v = new \<or> (map_option fst (view w1 kv ?key) = Some compare \<and> v = compare))"
  proof (cases s)
    case True
    with r same show ?thesis by (metis (full_types))
  next
    case False
    with r obtain w2 rv where "kv_put view kv ?key new rv w1 w2" "rely w2 (pl_net p1)" by auto
    then have "view (pl_net p1) kv ?key = Some (new, rv)" using same by (simp add: kv_put_def)
    then show ?thesis by simp
  qed
  then obtain v where v: "map_option fst (view (pl_net p1) kv ?key) = Some v"
    and vn: "v = new \<or> (map_option fst (view w1 kv ?key) = Some compare \<and> v = compare)"
    by blast
  from publishFlag_point [OF laws b1 again] obtain x1 xb xb' new2 compare2
    where x1: "rely (pl_net p1) x1"
      and bld2: "?b (map_option fst (view x1 kv ?key)) xb = (Inr (new2, compare2), xb')"
      and r2: "if s' then map_option fst (view x1 kv ?key) = Some compare2 \<and> rely x1 (pl_net p2)
        else map_option fst (view x1 kv ?key) \<noteq> Some compare2
          \<and> (\<exists>w2 r. kv_put view kv ?key new2 r x1 w2 \<and> rely w2 (pl_net p2))"
    unfolding publish_point_def by blast
  have held: "map_option fst (view x1 kv ?key) = Some v" using v same [OF x1] by simp
  with bld2 have "?b (Some v) xb = (Inr (new2, compare2), xb')" by simp
  from flag_build_fixpoint [OF bld vn this] have "compare2 = v" .
  with r2 held have s': s' and "rely x1 (pl_net p2)" by (auto split: if_splits)
  with same [OF x1] same [of x1 "pl_net p2"] show ?thesis by simp
qed

section \<open>Instances\<close>

definition demo_payload :: FlagPayload where
  "demo_payload = \<lparr>fp_Enabled = True, fp_Value = ''50'', fp_UpdatedAt = []\<rparr>"

lemma mem_plane_bucket: "byName BucketFlags (pl_buckets (mem_plane es)) = Inr BucketFlags"
  by (simp add: mem_plane_def byName_def)

lemmas mem_eval = mem_js_def solo_js_def mem_server_def mem_call_def mem_begin_def solo_begin_def
  mem_write_def mem_view_def mem_plane_def cond_write_def current_def

lemmas plane_eval = Publisher_def observePublish_def publishFlag_def with_bucket_def on_net_def
  on_metrics_def publish_def publishAttempts_def byName_def eval_nat_numeral publish_loop_Suc

lemma Marshal_not_braces: "Marshal_payload q \<noteq> ''{}''"
  by (simp add: Marshal_payload_def json_object_def json_string_def quote_def)

text \<open>Another client writes the key between the read and the write of the first attempt.\<close>

definition contended_plane :: "(string, mem_kv) plane" where
  "contended_plane = mem_plane [Still, Put BucketFlags (FlagKey 3 ''dark'') ''{}'']"

definition contended_run :: "(pub_err + unit) \<times> (string, mem_kv) plane" where
  "contended_run = PublishFlag (Publisher mem_js) 3 ''dark'' demo_payload contended_plane"

lemma contended_run_ok: "fst contended_run = Inr ()"
  using Marshal_not_braces [THEN not_sym]
  by (simp add: contended_run_def contended_plane_def plane_eval mem_eval flag_build_def demo_payload_def
      split: option.splits)

theorem publish_flag_atomic_witness:
  "\<exists>skipped. publish_point mem_view mem_rely BucketFlags (FlagKey 3 ''dark'')
     (flag_build mem_js demo_payload) skipped (pl_net contended_plane) (pl_net (snd contended_run))"
proof (rule publish_flag_atomic [OF mem_kv_laws])
  show "byName BucketFlags (pl_buckets contended_plane) = Inr BucketFlags"
    by (simp add: contended_plane_def mem_plane_bucket)
  show "PublishFlag (Publisher mem_js) 3 ''dark'' demo_payload contended_plane = (Inr (), snd contended_run)"
    using contended_run_ok by (simp add: contended_run_def prod_eq_iff)
qed

theorem publish_flag_readable_witness:
  "\<exists>w v r. mem_view w BucketFlags (FlagKey 3 ''dark'') = Some (v, r)
     \<and> mem_rely w (pl_net (snd contended_run))
     \<and> flag_state v = Some (fp_Enabled demo_payload, ToValid (fp_Value demo_payload))"
proof (rule publish_flag_readable [OF mem_kv_laws])
  show "byName BucketFlags (pl_buckets contended_plane) = Inr BucketFlags"
    by (simp add: contended_plane_def mem_plane_bucket)
  show "PublishFlag (Publisher mem_js) 3 ''dark'' demo_payload contended_plane = (Inr (), snd contended_run)"
    using contended_run_ok by (simp add: contended_run_def prod_eq_iff)
qed

definition solo_run :: "(pub_err + bool) \<times> (string, mem_kv) plane" where
  "solo_run = publishFlag solo_js 3 ''dark'' demo_payload (mem_plane [])"

definition solo_rerun :: "(pub_err + bool) \<times> (string, mem_kv) plane" where
  "solo_rerun = publishFlag solo_js 3 ''dark'' demo_payload (snd solo_run)"

lemma solo_run_ok: "fst solo_run = Inr False" "isl (fst solo_rerun) = False"
  by (simp_all add: solo_rerun_def solo_run_def plane_eval mem_eval flag_build_def demo_payload_def
      Unmarshal_Marshal clean_payload_def)

theorem republish_skipped_witness:
  "\<exists>s'. fst solo_rerun = Inr s' \<and> s'
     \<and> mem_view (pl_net (snd solo_rerun)) = mem_view (pl_net (snd solo_run))"
proof -
  obtain s' where s': "solo_rerun = (Inr s', snd solo_rerun)"
    using solo_run_ok(2) by (cases "fst solo_rerun") (auto simp: prod_eq_iff)
  have "s' \<and> mem_view (pl_net (snd solo_rerun)) = mem_view (pl_net (snd solo_run))"
    using s' solo_run_ok(1)
    by (intro republish_skipped [OF solo_kv_laws solo_quiet mem_plane_bucket [of "[]"],
          of demo_payload 3 "''dark''" False "snd solo_run"])
      (simp_all add: demo_payload_def solo_run_def solo_rerun_def prod_eq_iff)
  with s' show ?thesis by (metis fst_conv)
qed

end
