(* ===== verification/Flags_Pipeline.thy ===== *)
theory Flags_Pipeline
  imports Flags_Service_Laws Publish_Spec
begin

text \<open>
  From an admin's write to the consumers' bucket: the flag service over a repository that refines the
  map of flag values (\<open>flags_refinement\<close>, interpreted with the Postgres repository) and over the
  JetStream publisher. A best-effort publish that failed is visible in the failure counter only, so
  the statements are about calls that did not move it.
\<close>

section \<open>Failures are counted\<close>

definition publish_failures :: "string \<Rightarrow> ('h, 'w) plane \<Rightarrow> int" where
  "publish_failures bucket p = counter_Value KVPublishFailures [''bucket'', bucket] (pl_metrics p)"

lemma with_bucket_metrics: "pl_metrics (snd (with_bucket bucket f p)) = pl_metrics p"
  by (simp add: with_bucket_def on_net_def split: sum.splits prod.splits)

lemma observePublish_failures:
  assumes "observePublish bucket (res, p) = (res', p')"
  shows "publish_failures bucket p' = publish_failures bucket p + (if isl res' then 1 else 0)"
  using assms
  by (auto simp: observePublish_def publish_failures_def on_metrics_def Let_def kv_instruments
      split: sum.splits bool.splits)

lemma PublishFlag_failures:
  assumes "PublishFlag (Publisher js) e k payload p = (res, p')"
  shows "publish_failures BucketFlags p' = publish_failures BucketFlags p + (if isl res then 1 else 0)"
proof -
  obtain r p1 where r: "publishFlag js e k payload p = (r, p1)" by fastforce
  have "pl_metrics p1 = pl_metrics p"
    using r with_bucket_metrics unfolding publishFlag_def by (metis snd_conv)
  then have "publish_failures BucketFlags p1 = publish_failures BucketFlags p"
    by (simp add: publish_failures_def)
  with observePublish_failures [of BucketFlags r p1 res p'] assms r show ?thesis
    by (simp add: Publisher_def)
qed

lemma flags_publish_quiet:
  assumes "publish_failures BucketFlags (app_pub (flags_publish (Publisher js) v k a))
      = publish_failures BucketFlags (app_pub a)"
  shows "PublishFlag (Publisher js) (fv_EnvironmentID v) k
      \<lparr>fp_Enabled = (fv_Enabled v \<noteq> 0), fp_Value = fv_Value v, fp_UpdatedAt = []\<rparr> (app_pub a)
    = (Inr (), app_pub (flags_publish (Publisher js) v k a))"
proof -
  let ?p = "PublishFlag (Publisher js) (fv_EnvironmentID v) k
      \<lparr>fp_Enabled = (fv_Enabled v \<noteq> 0), fp_Value = fv_Value v, fp_UpdatedAt = []\<rparr> (app_pub a)"
  have w: "app_pub (flags_publish (Publisher js) v k a) = snd ?p"
    by (simp add: flags_publish_def best_effort_def)
  have "\<not> isl (fst ?p)"
    using assms PublishFlag_failures [of js _ k _ "app_pub a" "fst ?p" "snd ?p"]
    unfolding w by (auto split: if_splits)
  then show ?thesis unfolding w by (cases "fst ?p") (auto simp: prod_eq_iff)
qed

section \<open>A repository that refines the flag map\<close>

locale flags_refinement =
  fixes repo :: flags_repository
  assumes refine_update: "calm db \<Longrightarrow> wf_tables (tabs db) \<Longrightarrow> valid_value v
      \<Longrightarrow> repo_UpdateFlagValue repo v db = (Inr (u, k), db')
      \<Longrightarrow> fv_view (tabs db') = (fv_view (tabs db))
            ((fv_EnvironmentID u, k) \<mapsto> (fv_Enabled v \<noteq> 0, fv_Value v))
          \<and> fv_view (tabs db) (fv_EnvironmentID u, k) \<noteq> None
          \<and> fv_Enabled u = fv_Enabled v \<and> fv_Value u = fv_Value v"
    and refine_create: "calm db \<Longrightarrow> wf_tables (tabs db) \<Longrightarrow> valid_value v
      \<Longrightarrow> repo_CreateFlagValue repo v db = (Inr (u, k), db')
      \<Longrightarrow> fv_view (tabs db') = (fv_view (tabs db))
            ((fv_EnvironmentID u, k) \<mapsto> (fv_Enabled v \<noteq> 0, fv_Value v))
          \<and> fv_view (tabs db) (fv_EnvironmentID u, k) = None
          \<and> fv_Enabled u = fv_Enabled v \<and> fv_Value u = fv_Value v"
begin

lemma update_call_refines:
  assumes db: "calm (app_db a)" "wf_tables (tabs (app_db a))"
    and call: "FlagService_UpdateFlagValue repo pub req a = (Inr u, a')"
  obtains k where "fv_view (tabs (app_db a')) = (fv_view (tabs (app_db a)))
        ((fv_EnvironmentID u, k) \<mapsto> (fv_Enabled req \<noteq> 0, fv_Value req))"
    and "fv_view (tabs (app_db a)) (fv_EnvironmentID u, k) \<noteq> None"
    and "a' = flags_publish pub u k (a\<lparr>app_db := app_db a'\<rparr>)"
    and "fv_Enabled u = fv_Enabled req" "fv_Value u = fv_Value req"
proof -
  have valid: "valid_value req"
    using call by (auto simp: FlagService_UpdateFlagValue_def valid_value_def split: if_splits sum.splits)
  obtain k db' where r: "repo_UpdateFlagValue repo req (app_db a) = (Inr (u, k), db')"
    and a': "a' = flags_publish pub u k (a\<lparr>app_db := db'\<rparr>)"
    using call by (auto simp: FlagService_UpdateFlagValue_def on_db_def bindE_def
        split: if_splits sum.splits prod.splits)
  have "app_db a' = db'" using a' by (simp add: flags_publish_def)
  with refine_update [OF db valid r] a' show thesis by (intro that [of k]) simp_all
qed

lemma create_call_refines:
  assumes db: "calm (app_db a)" "wf_tables (tabs (app_db a))"
    and call: "FlagService_CreateFlagValue repo pub req a = (Inr u, a')"
  obtains k where "fv_view (tabs (app_db a')) = (fv_view (tabs (app_db a)))
        ((fv_EnvironmentID u, k) \<mapsto> (fv_Enabled req \<noteq> 0, fv_Value req))"
    and "fv_view (tabs (app_db a)) (fv_EnvironmentID u, k) = None"
    and "a' = flags_publish pub u k (a\<lparr>app_db := app_db a'\<rparr>)"
    and "fv_Enabled u = fv_Enabled req" "fv_Value u = fv_Value req"
proof -
  have valid: "valid_value req"
    using call by (auto simp: FlagService_CreateFlagValue_def valid_value_def split: if_splits sum.splits)
  obtain k db' where r: "repo_CreateFlagValue repo req (app_db a) = (Inr (u, k), db')"
    and a': "a' = flags_publish pub u k (a\<lparr>app_db := db'\<rparr>)"
    using call by (auto simp: FlagService_CreateFlagValue_def on_db_def bindE_def
        split: if_splits sum.splits prod.splits)
  have "app_db a' = db'" using a' by (simp add: flags_publish_def)
  with refine_create [OF db valid r] a' show thesis by (intro that [of k]) simp_all
qed

end

lemma RuneCount_varchar: "valid_value v \<Longrightarrow> varchar 4000 (fv_Value v) \<and> smallint (fv_Enabled v)"
  by (auto simp: valid_value_def varchar_def smallint_def validFlagState_def)

lemma postgres_update_refines:
  assumes db: "calm db" "wf_tables (tabs db)" and v: "valid_value v"
    and call: "UpdateFlagValue v db = (Inr (u, k), db')"
  shows "fv_view (tabs db') = (fv_view (tabs db))
            ((fv_EnvironmentID u, k) \<mapsto> (fv_Enabled v \<noteq> 0, fv_Value v))
          \<and> fv_view (tabs db) (fv_EnvironmentID u, k) \<noteq> None
          \<and> fv_Enabled u = fv_Enabled v \<and> fv_Value u = fv_Value v"
proof -
  let ?t = "tabs db"
  have ok: "varchar 4000 (fv_Value v)" "smallint (fv_Enabled v)" using RuneCount_varchar [OF v] by blast+
  note branch = UpdateFlagValue_calm [OF db ok]
  from call branch obtain r where r: "find_row (\<lambda>r. fv_ID r = fv_ID v) (flag_values ?t) = Some r"
    and m: "fv_matches v r" and u: "u = fv_write v (clock db) r"
    and k: "k = flag_FlagKey (the (find_row (\<lambda>f. flag_ID f = fv_FlagId r) (flags ?t)))"
    and db': "db' = db\<lparr>tabs := update_fv_tables v (clock db) ?t\<rparr>"
    by (auto split: option.splits if_splits)
  have rr: "r \<in> set (rows (flag_values ?t))" using find_row_SomeD [OF r] by blast
  obtain f where f: "f \<in> set (rows (flags ?t))" "flag_ID f = fv_FlagId r"
    using wf_flagsD(5) [OF db(2) rr] by blast
  then have "k = flag_FlagKey f"
    using k find_row_unique [OF wf_flagsD(1) [OF db(2)] f(1), of "fv_FlagId r"] by simp
  moreover have "fv_view ?t (fv_EnvironmentID r, flag_FlagKey f) \<noteq> None"
    using fv_view_iff [OF db(2)] rr f by blast
  ultimately show ?thesis
    using fv_view_update [OF db(2) ok rr m f, of "clock db"] u db' by simp
qed

interpretation postgres_refines: flags_refinement Flags_PostgresRepository
proof unfold_locales
  fix db v u k db'
  assume "calm db" "wf_tables (tabs db)" "valid_value v"
    and "repo_UpdateFlagValue Flags_PostgresRepository v db = (Inr (u, k), db')"
  then show "fv_view (tabs db') = (fv_view (tabs db))
            ((fv_EnvironmentID u, k) \<mapsto> (fv_Enabled v \<noteq> 0, fv_Value v))
          \<and> fv_view (tabs db) (fv_EnvironmentID u, k) \<noteq> None
          \<and> fv_Enabled u = fv_Enabled v \<and> fv_Value u = fv_Value v"
    using postgres_update_refines by (simp add: postgres_methods)
next
  fix db v u k db'
  assume "calm db" "wf_tables (tabs db)" "valid_value v"
    and "repo_CreateFlagValue Flags_PostgresRepository v db = (Inr (u, k), db')"
  then show "fv_view (tabs db') = (fv_view (tabs db))
            ((fv_EnvironmentID u, k) \<mapsto> (fv_Enabled v \<noteq> 0, fv_Value v))
          \<and> fv_view (tabs db) (fv_EnvironmentID u, k) = None
          \<and> fv_Enabled u = fv_Enabled v \<and> fv_Value u = fv_Value v"
    using CreateFlagValue_calm [of db v u k db'] by (simp add: postgres_methods)
qed

section \<open>Properties\<close>

lemma published_state:
  assumes laws: "kv_laws js view rely" and b: "byName BucketFlags (pl_buckets (app_pub a)) = Inr kv"
    and quiet: "publish_failures BucketFlags (app_pub (flags_publish (Publisher js) u k a))
      = publish_failures BucketFlags (app_pub a)"
  shows "\<exists>w v r. view w kv (FlagKey (fv_EnvironmentID u) k) = Some (v, r)
      \<and> rely w (pl_net (app_pub (flags_publish (Publisher js) u k a)))
      \<and> flag_state v = Some (fv_Enabled u \<noteq> 0, ToValid (fv_Value u))"
proof -
  let ?pl = "\<lparr>fp_Enabled = (fv_Enabled u \<noteq> 0), fp_Value = fv_Value u, fp_UpdatedAt = []\<rparr>"
  obtain s p1 where "publishFlag js (fv_EnvironmentID u) k ?pl (app_pub a) = (Inr s, p1)"
    "pl_net (app_pub (flags_publish (Publisher js) u k a)) = pl_net p1"
    using flags_publish_quiet [OF quiet] by (rule PublishFlag_InrD)
  with publishFlag_point [OF laws b]
  have "publish_point view rely kv (FlagKey (fv_EnvironmentID u) k) (flag_build js ?pl) s
      (pl_net (app_pub a)) (pl_net (app_pub (flags_publish (Publisher js) u k a)))"
    by metis
  then have "\<exists>w v r. view w kv (FlagKey (fv_EnvironmentID u) k) = Some (v, r)
      \<and> flag_state v = Some (fv_Enabled u \<noteq> 0, ToValid (fv_Value u))
      \<and> rely w (pl_net (app_pub (flags_publish (Publisher js) u k a)))"
    by (rule publish_point_value) (use flag_build_state [of js ?pl] in fastforce)
  then show ?thesis by blast
qed

text \<open>
  Property C6. An accepted flag update on a calm database changes exactly one entry of the map from
  (environment, flag key) to flag state, to the state requested, and unless the publish failure was
  counted the bucket then held, under that environment's key, bytes every consumer decodes to that
  same state.
\<close>

theorem update_write_through:
  assumes "calm (app_db a)" and "wf_tables (tabs (app_db a))"
    and "kv_laws js view rely" and "byName BucketFlags (pl_buckets (app_pub a)) = Inr kv"
    and "FlagService_UpdateFlagValue Flags_PostgresRepository (Publisher js) req a = (Inr u, a')"
    and "publish_failures BucketFlags (app_pub a') = publish_failures BucketFlags (app_pub a)"
  shows "\<exists>k. fv_view (tabs (app_db a')) = (fv_view (tabs (app_db a)))
        ((fv_EnvironmentID u, k) \<mapsto> (fv_Enabled req \<noteq> 0, fv_Value req))
    \<and> fv_view (tabs (app_db a)) (fv_EnvironmentID u, k) \<noteq> None
    \<and> (\<exists>w v r. view w kv (FlagKey (fv_EnvironmentID u) k) = Some (v, r) \<and> rely w (pl_net (app_pub a'))
          \<and> flag_state v = Some (fv_Enabled req \<noteq> 0, ToValid (fv_Value req)))"
proof -
  obtain k where k: "fv_view (tabs (app_db a')) = (fv_view (tabs (app_db a)))
        ((fv_EnvironmentID u, k) \<mapsto> (fv_Enabled req \<noteq> 0, fv_Value req))"
    "fv_view (tabs (app_db a)) (fv_EnvironmentID u, k) \<noteq> None"
    and a': "a' = flags_publish (Publisher js) u k (a\<lparr>app_db := app_db a'\<rparr>)"
    and u: "fv_Enabled u = fv_Enabled req" "fv_Value u = fv_Value req"
    using postgres_refines.update_call_refines [OF assms(1,2,5)] .
  have "\<exists>w v r. view w kv (FlagKey (fv_EnvironmentID u) k) = Some (v, r) \<and> rely w (pl_net (app_pub a'))
      \<and> flag_state v = Some (fv_Enabled req \<noteq> 0, ToValid (fv_Value req))"
  proof -
    have b: "byName BucketFlags (pl_buckets (app_pub (a\<lparr>app_db := app_db a'\<rparr>))) = Inr kv"
      using assms(4) by simp
    have "publish_failures BucketFlags (app_pub (flags_publish (Publisher js) u k (a\<lparr>app_db := app_db a'\<rparr>)))
        = publish_failures BucketFlags (app_pub (a\<lparr>app_db := app_db a'\<rparr>))"
      unfolding a' [symmetric] using assms(6) by simp
    from published_state [OF assms(3) b this] show ?thesis unfolding a' [symmetric] u .
  qed
  with k show ?thesis by blast
qed

section \<open>An instance\<close>

definition demo_tables :: tables where
  "demo_tables = \<lparr>
     environments = \<lparr>rows = [\<lparr>env_ID = 3, env_Environment = ''dev'', env_UpdatedAt = 1\<rparr>], seq = 4\<rparr>,
     microservices = \<lparr>rows = [\<lparr>ms_ID = 7, ms_Microservice = ''billing'', ms_UpdatedAt = 1\<rparr>], seq = 8\<rparr>,
     flags = \<lparr>rows = [\<lparr>flag_ID = 5, flag_FlagKey = ''dark'', flag_IsActive = 1, flag_UpdatedAt = 1\<rparr>],
              seq = 6\<rparr>,
     flag_values = \<lparr>rows = [\<lparr>fv_ID = 9, fv_EnvironmentID = 3, fv_FlagId = 5, fv_Value = ''10'',
                    fv_Enabled = 0, fv_UpdatedAt = 1, fv_ExpectedUpdatedAt = None\<rparr>], seq = 10\<rparr>,
     appsettings = \<lparr>rows = [], seq = 1\<rparr>,
     localizations = \<lparr>rows = [], seq = 1\<rparr>\<rparr>"

lemma demo_tables_wf: "wf_tables demo_tables"
  by (simp add: demo_tables_def wf_tables_def keys_ok_def fk_ok_def table_ok_def)

lemma demo_tables_valid: "valid_flag_data demo_tables"
  by (simp add: demo_tables_def valid_flag_data_def valid_flag_def valid_value_def validFlagState_def
      validFlagKey_iff RuneCount_def runes_ascii is_ascii_def plain_char_def char_between_def)

definition demo_app :: "(string, mem_kv) plane app" where
  "demo_app = \<lparr>app_db = \<lparr>tabs = demo_tables, clock = 2, script = []\<rparr>, app_pub = mem_plane []\<rparr>"

definition demo_update :: FlagValue where
  "demo_update = \<lparr>fv_ID = 9, fv_EnvironmentID = 0, fv_FlagId = 0, fv_Value = ''50'', fv_Enabled = 1,
     fv_UpdatedAt = 0, fv_ExpectedUpdatedAt = Some 1\<rparr>"

definition demo_run :: "(flags_error + FlagValue) \<times> (string, mem_kv) plane app" where
  "demo_run = FlagService_UpdateFlagValue Flags_PostgresRepository (Publisher mem_js) demo_update demo_app"

lemma demo_run_eq:
  "demo_run = (Inr (fv_write demo_update 2 (hd (rows (flag_values demo_tables)))),
     flags_publish (Publisher mem_js) (fv_write demo_update 2 (hd (rows (flag_values demo_tables)))) ''dark''
       (demo_app\<lparr>app_db := \<lparr>tabs = update_fv_tables demo_update 2 demo_tables, clock = 2, script = []\<rparr>\<rparr>))"
proof -
  have "UpdateFlagValue demo_update (app_db demo_app) =
      (Inr (fv_write demo_update 2 (hd (rows (flag_values demo_tables))), ''dark''),
       \<lparr>tabs = update_fv_tables demo_update 2 demo_tables, clock = 2, script = []\<rparr>)"
  proof (subst UpdateFlagValue_calm)
    show "calm (app_db demo_app)" "wf_tables (tabs (app_db demo_app))"
      by (simp_all add: demo_app_def calm_def demo_tables_wf)
    show "varchar 4000 (fv_Value demo_update)" "smallint (fv_Enabled demo_update)"
      by (simp_all add: demo_update_def varchar_def RuneCount_def runes_ascii is_ascii_def smallint_def)
  qed (simp add: demo_app_def demo_tables_def demo_update_def find_row_def fv_matches_def)
  then show ?thesis
    by (simp add: demo_run_def FlagService_UpdateFlagValue_def postgres_methods on_db_def
        demo_update_def RuneCount_def runes_ascii is_ascii_def validFlagState_def checkValue_def
        maxFlagValueLen_def)
qed

lemma demo_run_published:
  "publish_failures BucketFlags (app_pub (snd demo_run)) = publish_failures BucketFlags (app_pub demo_app)"
  by (simp add: demo_run_eq flags_publish_def best_effort_def publish_failures_def plane_eval mem_eval
      flag_build_def demo_app_def kv_instruments)

theorem update_write_through_witness:
  "\<exists>u k. fst demo_run = Inr u
    \<and> fv_view (tabs (app_db (snd demo_run))) = (fv_view demo_tables)((fv_EnvironmentID u, k) \<mapsto> (True, ''50''))
    \<and> fv_view demo_tables (fv_EnvironmentID u, k) \<noteq> None
    \<and> (\<exists>w v r. mem_view w BucketFlags (FlagKey (fv_EnvironmentID u) k) = Some (v, r)
          \<and> mem_rely w (pl_net (app_pub (snd demo_run))) \<and> flag_state v = Some (True, ToValid ''50''))"
proof -
  obtain u where u: "demo_run = (Inr u, snd demo_run)" by (simp add: demo_run_eq)
  have "calm (app_db demo_app)" "wf_tables (tabs (app_db demo_app))"
    "byName BucketFlags (pl_buckets (app_pub demo_app)) = Inr BucketFlags"
    by (simp_all add: demo_app_def calm_def demo_tables_wf mem_plane_bucket)
  from update_write_through [OF this(1,2) mem_kv_laws this(3) u [unfolded demo_run_def]
      demo_run_published [unfolded demo_run_def]]
  have "\<exists>k. fv_view (tabs (app_db (snd demo_run))) = (fv_view (tabs (app_db demo_app)))
        ((fv_EnvironmentID u, k) \<mapsto> (fv_Enabled demo_update \<noteq> 0, fv_Value demo_update))
    \<and> fv_view (tabs (app_db demo_app)) (fv_EnvironmentID u, k) \<noteq> None
    \<and> (\<exists>w v r. mem_view w BucketFlags (FlagKey (fv_EnvironmentID u) k) = Some (v, r)
          \<and> mem_rely w (pl_net (app_pub (snd demo_run)))
          \<and> flag_state v = Some (fv_Enabled demo_update \<noteq> 0, ToValid (fv_Value demo_update)))"
    unfolding demo_run_def [symmetric] .
  moreover have "tabs (app_db demo_app) = demo_tables" "fv_Enabled demo_update \<noteq> 0"
    "fv_Value demo_update = ''50''" by (simp_all add: demo_app_def demo_update_def)
  moreover have "fst demo_run = Inr u" using u by (metis fst_conv)
  ultimately show ?thesis by (simp only: simp_thms) blast
qed

theorem flags_service_invariant_witness:
  "holds wf_tables (app_db (fold (\<lambda>c a. snd (flags_run Flags_PostgresRepository (Publisher mem_js) c a))
      [UpdateValue demo_update, RemoveFlag 5] demo_app))"
proof -
  have h: "holds wf_tables (app_db demo_app)" "holds valid_flag_data (app_db demo_app)"
    by (simp_all add: demo_app_def holds_def demo_tables_wf demo_tables_valid)
  show ?thesis
    using flags_service_invariant [OF h, of "Publisher mem_js" "[UpdateValue demo_update, RemoveFlag 5]"]
    by blast
qed

end
