(* ===== verification/Kv_Reconciler_Laws.thy ===== *)
theory Kv_Reconciler_Laws
  imports Kv_Reconciler Flags_Pipeline
begin

text \<open>
  What the parts of a cycle guarantee: which keys a prune may delete (\<open>prune_effect\<close>), how a cycle
  moves the reconciler's clock (\<open>runOnce_cycle\<close>), which keys a resync claims to have published
  (\<open>resync_rows_keys\<close>) and that its loop keeps an invariant of the world (\<open>resync_rows_inv\<close>).
\<close>

section \<open>Pruning\<close>

definition delete_all :: "'w config_publisher \<Rightarrow> string \<Rightarrow> string list \<Rightarrow> 'w app \<Rightarrow> 'w app" where
  "delete_all pub bucket ks a = fold (\<lambda>k a. snd (on_pub (DeleteKey pub bucket k) a)) ks a"

lemma delete_stale_app: "snd (delete_stale pub bucket ks n a) = delete_all pub bucket ks a"
  by (induction pub bucket ks n a rule: delete_stale.induct)
    (simp_all add: delete_all_def split: prod.splits sum.splits)

lemma stale_keys_sound:
  assumes "k \<in> set (stale_keys published atStart actual)"
  shows "k \<notin> set published \<and> (\<exists>r. (k, r) \<in> set actual \<and> (k, r) \<in> set atStart)"
  using assms by (auto simp: stale_keys_def dest!: map_of_SomeD)

lemma prune_effect:
  assumes "src_Bucket s \<noteq> []"
    and "on_pub (ListRevisions pub (src_Bucket s)) a = (listed, a1)"
  shows "\<exists>ks. fst (prune pub fraction s published atStart (a, m)) = delete_all pub (src_Bucket s) ks a1
     \<and> (ks \<noteq> [] \<longrightarrow> (\<exists>actual. listed = Inr actual \<and> ks = stale_keys published atStart actual
          \<and> published \<noteq> [] \<and> int (length ks) \<le> prune_limit fraction (length actual)))"
proof (cases listed)
  case (Inl e)
  then show ?thesis using assms by (intro exI [of _ "[]"]) (simp add: prune_def delete_all_def)
next
  case (Inr actual)
  let ?st = "stale_keys published atStart actual"
  show ?thesis
  proof (cases "?st = [] \<or> published = [] \<or> prune_limit fraction (length actual) < int (length ?st)")
    case True
    then show ?thesis using assms Inr
      by (intro exI [of _ "[]"]) (auto simp: prune_def delete_all_def Let_def)
  next
    case False
    then show ?thesis using assms Inr delete_stale_app [of pub "src_Bucket s" ?st 0 a1]
      by (intro exI [of _ ?st]) (auto simp: prune_def Let_def split: prod.splits)
  qed
qed

section \<open>The incremental window\<close>

lemma runOnce_clock:
  assumes "runOnce rt pub sources (r, a, m) = (r', a', m')"
  shows "r' = r \<or> rc_runs r' = rc_runs r + 1
      \<and> (rc_lastRun r' = rc_lastRun r \<or> rc_lastRun r' = time_Now rt a)
      \<and> rc_pruneMaxFraction r' = rc_pruneMaxFraction r"
  using assms by (auto simp: runOnce_def Let_def split: prod.splits option.splits if_splits)

text \<open>
  A history of cycles: the start time of each, and whether it was clean. The reconciler's own
  record determines its next window.
\<close>

fun after_cycles :: "(gotime \<times> bool option) list \<Rightarrow> Reconciler \<Rightarrow> Reconciler" where
  "after_cycles [] r = r"
| "after_cycles ((started, None) # cs) r = after_cycles cs r"
| "after_cycles ((started, Some failed) # cs) r =
     after_cycles cs (let r1 = r\<lparr>rc_runs := rc_runs r + 1\<rparr> in
       if failed then r1 else r1\<lparr>rc_lastRun := started\<rparr>)"

lemma runOnce_cycle:
  assumes "runOnce rt pub sources (r, a, m) = (r', a', m')"
  shows "\<exists>outcome. r' = after_cycles [(time_Now rt a, outcome)] r"
proof -
  consider "r' = r" | "r' = r\<lparr>rc_runs := rc_runs r + 1\<rparr>"
    | "r' = r\<lparr>rc_runs := rc_runs r + 1, rc_lastRun := time_Now rt a\<rparr>"
    using assms by (auto simp: runOnce_def Let_def split: prod.splits option.splits if_splits)
  then show ?thesis
  proof cases
    case 1
    then show ?thesis by (intro exI [of _ None]) simp
  next
    case 2
    then show ?thesis by (intro exI [of _ "Some True"]) simp
  next
    case 3
    then show ?thesis by (intro exI [of _ "Some False"]) simp
  qed
qed

lemma after_cycles_lastRun:
  "rc_lastRun (after_cycles cs r) = rc_lastRun r
   \<or> (\<exists>s. (s, Some False) \<in> set cs \<and> rc_lastRun (after_cycles cs r) = s)"
proof (induction cs r rule: after_cycles.induct)
  case (1 r)
  then show ?case by simp
next
  case (2 s cs r)
  then show ?case by auto
next
  case (3 s failed cs r)
  then show ?case by (cases failed) (auto simp: Let_def)
qed

section \<open>Sweeps\<close>

lemma resync_rows_keys:
  assumes "resync_rows key pubrow rs res w = (res', w')"
  shows "res_Partial res \<Longrightarrow> res_Partial res'"
    and "\<not> res_Partial res' \<Longrightarrow> res_Keys res' = res_Keys res @ map key rs"
    and "set (res_Keys res') \<subseteq> set (res_Keys res) \<union> key ` set rs"
  using assms
proof (induction key pubrow rs res w rule: resync_rows.induct)
  case (1 key pubrow res w)
  case 1 then show ?case by simp
next
  case (1 key pubrow res w)
  case 2 then show ?case by simp
next
  case (1 key pubrow res w)
  case 3 then show ?case by simp
next
  case (2 key pubrow row rs res w)
  case 1
  then show ?case using "2.IH"(1) by (auto simp: ResyncResult_Publish_def split: prod.splits if_splits)
next
  case (2 key pubrow row rs res w)
  case 2
  obtain err w1 where p: "pubrow row w = (err, w1)" by fastforce
  show ?case
  proof (cases "isl err")
    case True
    then have "res_Partial res'"
      using 2(2) p "2.IH"(1) [OF p [symmetric]] by (simp add: ResyncResult_Publish_def)
    with 2(1) show ?thesis by simp
  next
    case False
    then show ?thesis
      using 2 p "2.IH"(2) [OF p [symmetric]] by (simp add: ResyncResult_Publish_def)
  qed
next
  case (2 key pubrow row rs res w)
  case 3
  obtain err w1 where p: "pubrow row w = (err, w1)" by fastforce
  show ?case
    using 3 p "2.IH"(3) [OF p [symmetric]] by (auto simp: ResyncResult_Publish_def split: if_splits)
qed

text \<open>An invariant of the publisher's world over the loop.\<close>

lemma resync_rows_inv:
  assumes "resync_rows key pubrow rs res w = (res', w')" and "I w"
    and "\<And>row w err w1. row \<in> set rs \<Longrightarrow> I w \<Longrightarrow> pubrow row w = (err, w1) \<Longrightarrow> I w1"
  shows "I w'"
  using assms
proof (induction rs arbitrary: res w)
  case Nil
  then show ?case by simp
next
  case (Cons row rs)
  obtain err w1 where p: "pubrow row w = (err, w1)" by fastforce
  then show ?case
    using Cons.IH [of "ResyncResult_Publish (key row) err res" w1] Cons.prems by (auto dest: Cons.prems(3))
qed

end
