(* ===== verification/Sweep_Convergence.thy ===== *)
theory Sweep_Convergence
  imports Kv_Reconciler_Laws "HOL-Library.Multiset"
begin

text \<open>
  A clean full sweep makes the FLAGS bucket equal to the database. The statements are about a server
  on which no other client acts during the sweep (\<open>quiet\<close>); calls may still fail, but a sweep that
  is not partial, refused nothing and counted no failed deletion had them all succeed.
\<close>

section \<open>Publisher calls on a quiet server\<close>

lemma quiet_point:
  assumes q: "quiet view rely" and p: "publish_point view rely kv key build skipped w w'"
  shows "h \<noteq> kv \<or> key' \<noteq> key \<Longrightarrow> view w' h key' = view w h key'"
proof -
  assume other: "h \<noteq> kv \<or> key' \<noteq> key"
  obtain w1 wb wb' new compare where w1: "rely w w1"
    and r: "if skipped then map_option fst (view w1 kv key) = Some compare \<and> rely w1 w'
           else map_option fst (view w1 kv key) \<noteq> Some compare
             \<and> (\<exists>w2 r. kv_put view kv key new r w1 w2 \<and> rely w2 w')"
    using p unfolding publish_point_def by blast
  have same: "rely x y \<Longrightarrow> view y = view x" for x y using q by (simp add: quiet_def)
  show "view w' h key' = view w h key'"
  proof (cases skipped)
    case True
    with r have "rely w1 w'" by simp
    with same w1 show ?thesis by metis
  next
    case False
    with r obtain w2 rv where put: "kv_put view kv key new rv w1 w2" and w2: "rely w2 w'" by auto
    have "view w2 h key' = view w1 h key'" using put other unfolding kv_put_def by auto
    with same [OF w1] same [OF w2] show ?thesis by simp
  qed
qed

lemma publish_loop_quiet:
  assumes laws: "kv_laws js view rely" and q: "quiet view rely" and clk: "clock_only rely build"
    and run: "publish_loop n c js kv bucket key build w = (res, w')"
    and other: "h \<noteq> kv \<or> key' \<noteq> key"
  shows "view w' h key' = view w h key'"
proof -
  have "(\<exists>s. publish_point view rely kv key build s w w') \<or> rely w w'"
    using publish_loop_post [OF laws clk run] by (auto simp: publish_post_def split: sum.splits)
  then show ?thesis
  proof
    assume "\<exists>s. publish_point view rely kv key build s w w'"
    then show ?thesis using quiet_point [OF q _ other] by blast
  next
    assume "rely w w'"
    then show ?thesis using q by (simp add: quiet_def)
  qed
qed

lemma PublishFlag_quiet:
  assumes laws: "kv_laws js view rely" and q: "quiet view rely"
    and b: "byName BucketFlags (pl_buckets p) = Inr kv"
    and run: "PublishFlag (Publisher js) e k payload p = (res, p')"
  shows "pl_buckets p' = pl_buckets p"
    and "h \<noteq> kv \<or> key \<noteq> FlagKey e k \<Longrightarrow> view (pl_net p') h key = view (pl_net p) h key"
    and "\<not> isl res \<Longrightarrow> \<exists>v r. view (pl_net p') kv (FlagKey e k) = Some (v, r)
           \<and> flag_state v = Some (fp_Enabled payload, ToValid (fp_Value payload))"
proof -
  obtain r p1 where pf: "publishFlag js e k payload p = (r, p1)" by fastforce
  have p': "pl_net p' = pl_net p1" "pl_buckets p' = pl_buckets p1"
    using run pf by (auto simp: Publisher_def observePublish_def on_metrics_def Let_def
        split: sum.splits bool.splits)
  show "pl_buckets p' = pl_buckets p" using publishFlag_buckets [OF pf] p'(2) by simp
  have loop: "publish_loop publishAttempts None js kv BucketFlags (FlagKey e k) (flag_build js payload)
      (pl_net p) = (r, pl_net p1)"
    using pf b by (auto simp: publishFlag_def with_bucket_def on_net_def publish_def split: prod.splits)
  show "view (pl_net p') h key = view (pl_net p) h key" if "h \<noteq> kv \<or> key \<noteq> FlagKey e k"
    using publish_loop_quiet [OF laws q flag_build_clock_only [OF laws] loop that] p'(1) by simp
  show "\<exists>v r. view (pl_net p') kv (FlagKey e k) = Some (v, r)
           \<and> flag_state v = Some (fp_Enabled payload, ToValid (fp_Value payload))" if "\<not> isl res"
  proof -
    have "res = Inr ()" using that by (cases res) auto
    then obtain w v rv where w: "view w kv (FlagKey e k) = Some (v, rv)" "rely w (pl_net p')"
      "flag_state v = Some (fp_Enabled payload, ToValid (fp_Value payload))"
      using publish_point_value [OF publishFlag_point [OF laws b],
          of e k payload _ p1 "\<lambda>v. flag_state v = Some (fp_Enabled payload, ToValid (fp_Value payload))"]
        run flag_build_state [of js payload] PublishFlag_InrD [of js e k payload p "()" p'] p'(1) pf
      by (metis (no_types, lifting) fst_conv snd_conv)
    then show ?thesis using q by (metis quiet_def)
  qed
qed

text \<open>The loop of the flags source over its rows.\<close>

definition publish_row ::
  "'w config_publisher \<Rightarrow> ReconcileRow \<Rightarrow> 'w \<Rightarrow> (pub_err + unit) \<times> 'w" where
  "publish_row pub row = PublishFlag pub (rr_EnvironmentID row) (rr_FlagKey row)
     \<lparr>fp_Enabled = (rr_Enabled row \<noteq> 0), fp_Value = rr_Value row, fp_UpdatedAt = []\<rparr>"

definition row_key :: "ReconcileRow \<Rightarrow> string" where
  "row_key row = FlagKey (rr_EnvironmentID row) (rr_FlagKey row)"

definition row_state :: "ReconcileRow \<Rightarrow> bool \<times> string" where
  "row_state row = (rr_Enabled row \<noteq> 0, ToValid (rr_Value row))"

lemma flag_rows_published:
  assumes laws: "kv_laws js view rely" and q: "quiet view rely"
    and b: "byName BucketFlags (pl_buckets p) = Inr kv"
    and run: "resync_rows row_key (publish_row (Publisher js)) rs res p = (res', p')"
    and whole: "\<not> res_Partial res'" and keys: "distinct (map row_key rs)"
  shows "pl_buckets p' = pl_buckets p"
    and "h \<noteq> kv \<or> key \<notin> row_key ` set rs \<Longrightarrow> view (pl_net p') h key = view (pl_net p) h key"
    and "row \<in> set rs \<Longrightarrow> \<exists>v r. view (pl_net p') kv (row_key row) = Some (v, r)
           \<and> flag_state v = Some (row_state row)"
proof -
  have "pl_buckets p' = pl_buckets p
    \<and> (\<forall>h key. h \<noteq> kv \<or> key \<notin> row_key ` set rs \<longrightarrow> view (pl_net p') h key = view (pl_net p) h key)
    \<and> (\<forall>row \<in> set rs. \<exists>v r. view (pl_net p') kv (row_key row) = Some (v, r)
           \<and> flag_state v = Some (row_state row))"
    using b run keys
  proof (induction rs arbitrary: res p)
    case Nil
    then show ?case by simp
  next
    case (Cons row rs)
    obtain err p1 where pr: "publish_row (Publisher js) row p = (err, p1)" by fastforce
    have rest: "resync_rows row_key (publish_row (Publisher js)) rs
        (ResyncResult_Publish (row_key row) err res) p1 = (res', p')"
      using Cons.prems(2) pr by simp
    note pq = PublishFlag_quiet [OF laws q Cons.prems(1) pr [unfolded publish_row_def]]
    have b1: "byName BucketFlags (pl_buckets p1) = Inr kv" using Cons.prems(1) pq(1) by simp
    have ok: "\<not> isl err"
    proof
      assume "isl err"
      then have "res_Partial (ResyncResult_Publish (row_key row) err res)"
        by (simp add: ResyncResult_Publish_def)
      with resync_rows_keys(1) [OF rest] whole show False by blast
    qed
    have ih: "pl_buckets p' = pl_buckets p1"
      "\<And>h key. h \<noteq> kv \<or> key \<notin> row_key ` set rs \<Longrightarrow> view (pl_net p') h key = view (pl_net p1) h key"
      "\<And>row. row \<in> set rs \<Longrightarrow> \<exists>v r. view (pl_net p') kv (row_key row) = Some (v, r)
           \<and> flag_state v = Some (row_state row)"
      using Cons.IH [OF b1 rest] Cons.prems(3) by simp_all
    have "row_key row \<notin> row_key ` set rs" using Cons.prems(3) by simp
    then have "view (pl_net p') kv (row_key row) = view (pl_net p1) kv (row_key row)"
      using ih(2) by blast
    with pq(3) [OF ok] have "\<exists>v r. view (pl_net p') kv (row_key row) = Some (v, r)
           \<and> flag_state v = Some (row_state row)"
      by (simp add: row_key_def row_state_def)
    with ih pq(1,2) show ?case by (auto simp: row_key_def)
  qed
  then show "pl_buckets p' = pl_buckets p"
    and "h \<noteq> kv \<or> key \<notin> row_key ` set rs \<Longrightarrow> view (pl_net p') h key = view (pl_net p) h key"
    and "row \<in> set rs \<Longrightarrow> \<exists>v r. view (pl_net p') kv (row_key row) = Some (v, r)
           \<and> flag_state v = Some (row_state row)"
    by blast+
qed

section \<open>The rows of a full sweep\<close>

lemma distinct_map_via:
  assumes "distinct (map f xs)" and "\<And>x y. x \<in> set xs \<Longrightarrow> y \<in> set xs \<Longrightarrow> g x = g y \<Longrightarrow> f x = f y"
  shows "distinct (map g xs)"
  using assms
proof (induction xs)
  case Nil
  then show ?case by simp
next
  case (Cons a xs)
  have "g a \<notin> g ` set xs"
  proof
    assume "g a \<in> g ` set xs"
    then obtain b where "b \<in> set xs" "g a = g b" by auto
    with Cons.prems(2) [of a b] have "f a = f b" by simp
    with Cons.prems(1) \<open>b \<in> set xs\<close> show False by simp
  qed
  with Cons show ?case by simp
qed

lemma order_by_perm: "mset (order_by pk xs) = mset xs"
  by (simp add: order_by_def)

lemma full_rows:
  assumes "calm db" and "wf_tables (tabs db)"
    and l: "flags_ListAllForReconcile 0 db = (Inr rs, db')"
  shows "db' = db" and "distinct (map row_key rs)"
    and "row \<in> set rs \<Longrightarrow> fv_view (tabs db) (rr_EnvironmentID row, rr_FlagKey row)
           = Some (rr_Enabled row \<noteq> 0, rr_Value row)"
    and "fv_view (tabs db) (e, k) \<noteq> None \<Longrightarrow> FlagKey e k \<in> row_key ` set rs"
proof -
  let ?t = "tabs db"
  let ?j = "order_by (\<lambda>(fv, f). fv_ID fv) (fv_join ?t)"
  have "flags_ListAllForReconcile 0 db = (Inr (map reconcile_row_of ?j), db)"
    using assms(1) by (simp add: flags_ListAllForReconcile_def IsZero_def)
  with l have eq: "Inr (map reconcile_row_of ?j) = (Inr rs :: flags_error + ReconcileRow list)" "db = db'"
    by (metis Pair_inject)+
  then have rs: "rs = map reconcile_row_of ?j" and "db' = db" by (blast dest: sum.inject(2) [THEN iffD1])+
  then show "db' = db" by simp
  have set: "set ?j = set (fv_join ?t)" by (metis order_by_perm set_mset_mset)
  have "mset (map fst (map fv_entry ?j)) = mset (map fst (map fv_entry (fv_join ?t)))"
    by (simp only: mset_map order_by_perm)
  then have "distinct (map fst (map fv_entry ?j))"
    using distinct_fv_entries [OF assms(2)] by (metis mset_eq_imp_distinct_iff)
  then have d: "distinct (map (\<lambda>x. fst (fv_entry x)) ?j)" by (simp add: comp_def)
  have "distinct (map (\<lambda>x. row_key (reconcile_row_of x)) ?j)"
    by (rule distinct_map_via [OF d])
      (auto simp: row_key_def reconcile_row_of_def fv_entry_def split: prod.splits)
  then show "distinct (map row_key rs)" by (simp add: rs comp_def)
  show "row \<in> set rs \<Longrightarrow> fv_view ?t (rr_EnvironmentID row, rr_FlagKey row)
      = Some (rr_Enabled row \<noteq> 0, rr_Value row)"
  proof -
    assume "row \<in> set rs"
    then obtain fv f where j: "(fv, f) \<in> set (fv_join ?t)" and row: "row = reconcile_row_of (fv, f)"
      using set by (auto simp: rs)
    then have "fv \<in> set (rows (flag_values ?t))" "f \<in> set (rows (flags ?t))" "flag_ID f = fv_FlagId fv"
      by (simp_all add: set_fv_join)
    then show ?thesis unfolding fv_view_iff [OF assms(2)] by (auto simp: row reconcile_row_of_def)
  qed
  show "fv_view ?t (e, k) \<noteq> None \<Longrightarrow> FlagKey e k \<in> row_key ` set rs"
  proof -
    assume "fv_view ?t (e, k) \<noteq> None"
    then obtain x where "fv_view ?t (e, k) = Some x" by blast
    then obtain fv f where "fv \<in> set (rows (flag_values ?t))" "f \<in> set (rows (flags ?t))"
      "flag_ID f = fv_FlagId fv" "fv_EnvironmentID fv = e" "flag_FlagKey f = k"
      unfolding fv_view_iff [OF assms(2)] by blast
    then have "(fv, f) \<in> set ?j" "row_key (reconcile_row_of (fv, f)) = FlagKey e k"
      unfolding set by (simp_all add: set_fv_join row_key_def reconcile_row_of_def)
    then show ?thesis unfolding rs set_map image_image by (metis imageI)
  qed
qed

section \<open>Listing and purging\<close>

text \<open>
  The snapshot a watcher delivers, on a quiet server: every key with its revision. A call may fail,
  and then nothing is said but that nothing changed.
\<close>

definition watch_law :: "('h, 'w) js_ops \<Rightarrow> ('h, 'w) kv_view \<Rightarrow> ('w \<Rightarrow> 'w \<Rightarrow> bool) \<Rightarrow> bool" where
  "watch_law js view rely \<longleftrightarrow> (\<forall>h w res w'. js_WatchAll js h w = (res, w') \<longrightarrow> rely w w' \<and>
     (case res of
        Inr events \<Rightarrow> (\<forall>xs. collect_revisions events = Inr xs \<longrightarrow>
          set xs = {(k, r). \<exists>v. view w' h k = Some (v, r)})
      | Inl err \<Rightarrow> (err = ErrNoKeysFound \<or> err = ErrBucketNotFound) \<longrightarrow> (\<forall>k. view w' h k = None)))"

definition kv_content :: "('h, 'w) kv_view \<Rightarrow> 'h \<Rightarrow> 'w \<Rightarrow> (string \<times> nat) set" where
  "kv_content view h w = {(k, r). \<exists>v. view w h k = Some (v, r)}"

lemma ListRevisions_quiet:
  assumes w: "watch_law js view rely" and q: "quiet view rely"
    and b: "byName bucket (pl_buckets p) = Inr kv"
    and run: "ListRevisions (Publisher js) bucket p = (res, p')"
  shows "pl_buckets p' = pl_buckets p" and "view (pl_net p') = view (pl_net p)"
    and "pl_metrics p' = pl_metrics p"
    and "res = Inr xs \<Longrightarrow> set xs = kv_content view kv (pl_net p)"
proof -
  obtain jr w' where jr: "js_WatchAll js kv (pl_net p) = (jr, w')" by fastforce
  have p': "p' = p\<lparr>pl_net := w'\<rparr>"
    and res: "res = fst (list_revisions js bucket kv (pl_net p))"
    using run b jr
    by (auto simp: Publisher_def with_bucket_def on_net_def list_revisions_def
        split: prod.splits sum.splits if_splits)
  have law: "rely (pl_net p) w' \<and> (case jr of
        Inr events \<Rightarrow> (\<forall>xs. collect_revisions events = Inr xs \<longrightarrow>
          set xs = {(k, r). \<exists>v. view w' kv k = Some (v, r)})
      | Inl err \<Rightarrow> (err = ErrNoKeysFound \<or> err = ErrBucketNotFound) \<longrightarrow> (\<forall>k. view w' kv k = None))"
    using w jr unfolding watch_law_def by blast
  then have same: "view w' = view (pl_net p)" using q unfolding quiet_def by blast
  show "pl_buckets p' = pl_buckets p" "view (pl_net p') = view (pl_net p)" "pl_metrics p' = pl_metrics p"
    using p' same by simp_all
  show "set xs = kv_content view kv (pl_net p)" if "res = Inr xs"
  proof (cases jr)
    case (Inl err)
    with that res jr have "xs = []" "err = ErrNoKeysFound \<or> err = ErrBucketNotFound"
      by (auto simp: list_revisions_def split: if_splits)
    with law Inl same show ?thesis by (simp add: kv_content_def)
  next
    case (Inr events)
    with that res jr have "collect_revisions events = Inr xs" by (simp add: list_revisions_def)
    with law Inr same show ?thesis by (simp add: kv_content_def)
  qed
qed

lemma DeleteKey_quiet:
  assumes laws: "kv_laws js view rely" and q: "quiet view rely"
    and b: "byName bucket (pl_buckets p) = Inr kv"
    and run: "DeleteKey (Publisher js) bucket key p = (res, p')"
  shows "pl_buckets p' = pl_buckets p"
    and "h \<noteq> kv \<or> key' \<noteq> key \<Longrightarrow> view (pl_net p') h key' = view (pl_net p) h key'"
    and "\<not> isl res \<Longrightarrow> view (pl_net p') kv key = None"
    and "isl res \<longleftrightarrow> counter_Value KVDeleteFailures [''bucket'', bucket] (pl_metrics p')
            \<noteq> counter_Value KVDeleteFailures [''bucket'', bucket] (pl_metrics p)"
    and "counter_Value KVDeleteFailures [''bucket'', bucket] (pl_metrics p)
            \<le> counter_Value KVDeleteFailures [''bucket'', bucket] (pl_metrics p')"
proof -
  obtain jr w' where jr: "js_Purge js kv key (pl_net p) = (jr, w')" by fastforce
  have p': "pl_buckets p' = pl_buckets p" "pl_net p' = w'"
    and cnt: "isl res \<longleftrightarrow> counter_Value KVDeleteFailures [''bucket'', bucket] (pl_metrics p')
            \<noteq> counter_Value KVDeleteFailures [''bucket'', bucket] (pl_metrics p)"
      "counter_Value KVDeleteFailures [''bucket'', bucket] (pl_metrics p)
            \<le> counter_Value KVDeleteFailures [''bucket'', bucket] (pl_metrics p')"
    and ok: "isl res \<longleftrightarrow> (\<exists>e. jr = Inl e \<and> e \<noteq> ErrKeyNotFound)"
  proof -
    define pr where "pr = (case jr of
       Inl e \<Rightarrow> if e = ErrKeyNotFound then Inr () else Inl (KvPurge bucket key e) | Inr _ \<Rightarrow> Inr ())"
    have pk: "purge_key js bucket key kv (pl_net p) = (pr, w')"
      using jr by (simp add: purge_key_def pr_def split: sum.splits)
    have pr: "isl pr \<longleftrightarrow> (\<exists>e. jr = Inl e \<and> e \<noteq> ErrKeyNotFound)"
      by (simp add: pr_def split: sum.splits)
    have "DeleteKey (Publisher js) bucket key p =
        (case (pr, p\<lparr>pl_net := w'\<rparr>) of
           (Inl err, p) \<Rightarrow> (Inl err, on_metrics (counter_Inc KVDeleteFailures [''bucket'', bucket]) p)
         | (Inr _, p) \<Rightarrow> (Inr (), p))"
      using b pk by (simp add: Publisher_def delete_key_def with_bucket_def on_net_def)
    with run have d: "(case pr of
           Inl err \<Rightarrow> (Inl err, on_metrics (counter_Inc KVDeleteFailures [''bucket'', bucket]) (p\<lparr>pl_net := w'\<rparr>))
         | Inr _ \<Rightarrow> (Inr (), p\<lparr>pl_net := w'\<rparr>)) = (res, p')"
      by simp
    show "pl_buckets p' = pl_buckets p" "pl_net p' = w'"
      "isl res \<longleftrightarrow> counter_Value KVDeleteFailures [''bucket'', bucket] (pl_metrics p')
            \<noteq> counter_Value KVDeleteFailures [''bucket'', bucket] (pl_metrics p)"
      "counter_Value KVDeleteFailures [''bucket'', bucket] (pl_metrics p)
            \<le> counter_Value KVDeleteFailures [''bucket'', bucket] (pl_metrics p')"
      "isl res \<longleftrightarrow> (\<exists>e. jr = Inl e \<and> e \<noteq> ErrKeyNotFound)"
      using d pr by (cases pr; auto simp: on_metrics_def)+
  qed
  show "pl_buckets p' = pl_buckets p" by (rule p'(1))
  show "isl res \<longleftrightarrow> counter_Value KVDeleteFailures [''bucket'', bucket] (pl_metrics p')
            \<noteq> counter_Value KVDeleteFailures [''bucket'', bucket] (pl_metrics p)" by (rule cnt(1))
  show "counter_Value KVDeleteFailures [''bucket'', bucket] (pl_metrics p)
            \<le> counter_Value KVDeleteFailures [''bucket'', bucket] (pl_metrics p')" by (rule cnt(2))
  have gone: "\<exists>w1. view w1 = view (pl_net p) \<and> (\<forall>h k. view w' h k = (if h = kv \<and> k = key then None else view w1 h k))"
    if "during rely (kv_gone view kv key) (pl_net p) w'"
    using that q unfolding during_def kv_gone_def quiet_def by metis
  have law: "case jr of
      Inr _ \<Rightarrow> during rely (kv_gone view kv key) (pl_net p) w'
    | Inl e \<Rightarrow> (rely (pl_net p) w' \<and> (e = ErrKeyNotFound \<longrightarrow>
          during rely (\<lambda>w1 w2. w1 = w2 \<and> view w1 kv key = None) (pl_net p) w'))
        \<or> (e \<noteq> ErrKeyNotFound \<and> during rely (kv_gone view kv key) (pl_net p) w')"
    by (rule kv_purge [OF laws jr])
  have "rely (pl_net p) w' \<or> during rely (kv_gone view kv key) (pl_net p) w'"
    using law by (cases jr) auto
  then show "view (pl_net p') h key' = view (pl_net p) h key'" if "h \<noteq> kv \<or> key' \<noteq> key"
    using gone q that p'(2) unfolding quiet_def by (metis (no_types, lifting))
  show "view (pl_net p') kv key = None" if nl: "\<not> isl res"
  proof (cases jr)
    case (Inl e)
    with nl ok have "e = ErrKeyNotFound" by auto
    with law Inl have "during rely (\<lambda>w1 w2. w1 = w2 \<and> view w1 kv key = None) (pl_net p) w'" by simp
    then obtain w1 where "view w1 kv key = None" "rely w1 w'" unfolding during_def by blast
    with q p'(2) show ?thesis by (metis quiet_def)
  next
    case (Inr u)
    with law have "during rely (kv_gone view kv key) (pl_net p) w'" by simp
    with gone p'(2) show ?thesis by auto
  qed
qed

definition delete_failures :: "string \<Rightarrow> ('h, 'w) plane \<Rightarrow> int" where
  "delete_failures bucket p = counter_Value KVDeleteFailures [''bucket'', bucket] (pl_metrics p)"

lemma PublishFlag_delete_failures:
  assumes "PublishFlag (Publisher js) e k payload p = (res, p')"
  shows "delete_failures bucket p' = delete_failures bucket p"
proof -
  obtain r p1 where r: "publishFlag js e k payload p = (r, p1)" by fastforce
  have "pl_metrics p1 = pl_metrics p"
    using r with_bucket_metrics unfolding publishFlag_def by (metis snd_conv)
  then show ?thesis
    using assms r by (auto simp: Publisher_def observePublish_def on_metrics_def Let_def
        delete_failures_def kv_instruments split: sum.splits bool.splits)
qed

lemma on_pub_eq: "on_pub f a = (fst (f (app_pub a)), a\<lparr>app_pub := snd (f (app_pub a))\<rparr>)"
  by (simp add: on_pub_def split: prod.splits)

lemma delete_all_quiet:
  assumes laws: "kv_laws js view rely" and q: "quiet view rely"
    and b: "byName bucket (pl_buckets (app_pub a)) = Inr kv"
    and d: "a' = delete_all (Publisher js) bucket ks a"
  shows "app_db a' = app_db a \<and> pl_buckets (app_pub a') = pl_buckets (app_pub a)
    \<and> (\<forall>h key. h \<noteq> kv \<or> key \<notin> set ks \<longrightarrow>
         view (pl_net (app_pub a')) h key = view (pl_net (app_pub a)) h key)
    \<and> delete_failures bucket (app_pub a) \<le> delete_failures bucket (app_pub a')
    \<and> (delete_failures bucket (app_pub a') = delete_failures bucket (app_pub a) \<longrightarrow>
         (\<forall>key \<in> set ks. view (pl_net (app_pub a')) kv key = None))"
  using b d
proof (induction ks arbitrary: a)
  case Nil
  then show ?case by (simp add: delete_all_def)
next
  case (Cons k ks)
  obtain res p1 where dk: "DeleteKey (Publisher js) bucket k (app_pub a) = (res, p1)" by fastforce
  define a1 where "a1 = a\<lparr>app_pub := p1\<rparr>"
  have a': "a' = delete_all (Publisher js) bucket ks a1"
    using Cons.prems(2) dk by (simp add: delete_all_def on_pub_eq a1_def)
  note dq = DeleteKey_quiet [OF laws q Cons.prems(1) dk]
  have b1: "byName bucket (pl_buckets (app_pub a1)) = Inr kv"
    using Cons.prems(1) dq(1) by (simp add: a1_def)
  note ih = Cons.IH [OF b1 a']
  have frame: "view (pl_net (app_pub a')) h key = view (pl_net (app_pub a)) h key"
    if "h \<noteq> kv \<or> key \<notin> set (k # ks)" for h key
    using ih dq(2) that by (auto simp: a1_def)
  have le: "delete_failures bucket (app_pub a) \<le> delete_failures bucket (app_pub a1)"
    using dq(5) by (simp add: delete_failures_def a1_def)
  have gone: "view (pl_net (app_pub a')) kv key = None"
    if eq: "delete_failures bucket (app_pub a') = delete_failures bucket (app_pub a)"
      and key: "key \<in> set (k # ks)" for key
  proof -
    have e1: "delete_failures bucket (app_pub a1) = delete_failures bucket (app_pub a)"
      and e2: "delete_failures bucket (app_pub a') = delete_failures bucket (app_pub a1)"
      using eq le ih by linarith+
    show ?thesis
    proof (cases "key \<in> set ks")
      case True
      with ih e2 show ?thesis by blast
    next
      case False
      with key have "key = k" by simp
      have "\<not> isl res" using dq(4) e1 by (simp add: delete_failures_def a1_def)
      from dq(3) [OF this] have "view (pl_net (app_pub a1)) kv key = None"
        by (simp add: a1_def \<open>key = k\<close>)
      moreover have "view (pl_net (app_pub a')) kv key = view (pl_net (app_pub a1)) kv key"
        using ih False by blast
      ultimately show ?thesis by simp
    qed
  qed
  have "app_db a' = app_db a" "pl_buckets (app_pub a') = pl_buckets (app_pub a)"
    using ih dq(1) by (simp_all add: a1_def)
  with frame gone le ih show ?case by fastforce
qed

text \<open>The bucket can be listed whenever it is asked for.\<close>

definition listable :: "('h, 'w) js_ops \<Rightarrow> 'h \<Rightarrow> bool" where
  "listable js kv \<longleftrightarrow> (\<forall>w. \<not> isl (fst (list_revisions js BucketFlags kv w)))"

lemma ListRevisions_ok:
  assumes "listable js kv" and "byName BucketFlags (pl_buckets p) = Inr kv"
  obtains xs p' where "ListRevisions (Publisher js) BucketFlags p = (Inr xs, p')"
proof -
  obtain r w' where l: "list_revisions js BucketFlags kv (pl_net p) = (r, w')" by fastforce
  with assms(1) obtain xs where "r = Inr xs"
    unfolding listable_def by (metis fst_conv isl_def sum.exhaust_sel)
  with l assms(2) have "ListRevisions (Publisher js) BucketFlags p = (Inr xs, p\<lparr>pl_net := w'\<rparr>)"
    by (simp add: Publisher_def with_bucket_def on_net_def)
  then show thesis by (rule that)
qed

lemma stale_all:
  assumes start: "set atStart = kv_content view kv w0" and now: "set actual = kv_content view kv w1"
    and frame: "\<And>key. key \<notin> set published \<Longrightarrow> view w1 kv key = view w0 kv key"
    and key: "view w1 kv key \<noteq> None" "key \<notin> set published"
  shows "key \<in> set (stale_keys published atStart actual)"
proof -
  obtain v r where v: "view w1 kv key = Some (v, r)" using key(1) by auto
  then have in1: "(key, r) \<in> set actual" by (simp add: now kv_content_def)
  have v0: "view w0 kv key = Some (v, r)" using frame [OF key(2)] v by simp
  then have "(key, r) \<in> set (rev atStart)" by (simp add: start kv_content_def)
  then obtain r' where r': "map_of (rev atStart) key = Some r'"
    by (metis map_of_eq_None_iff not_None_eq fst_conv image_eqI)
  then have "(key, r') \<in> kv_content view kv w0" using start map_of_SomeD [OF r'] by simp
  with v0 have "r = r'" by (simp add: kv_content_def)
  with in1 r' key(2) show ?thesis by (force simp: stale_keys_def)
qed

section \<open>The sweep\<close>

abbreviation flags_source :: "('h, 'w) plane ReconcileSource" where
  "flags_source \<equiv> flagsReconcileSource flags_ListAllForReconcile"

lemma flags_source_simps:
  "src_Bucket flags_source = BucketFlags"
  "src_Resync flags_source pub since a =
     resync_with row_key (publish_row pub) (on_db (flags_ListAllForReconcile since) a)"
  by (simp_all add: flagsReconcileSource_def row_key_def [abs_def] publish_row_def [abs_def])

lemma resync_with_InrD:
  assumes "resync_with key pubrow listed = (Inr r, a')"
  obtains rs a w where "listed = (Inr rs, a)"
    "resync_rows key pubrow rs \<lparr>res_Keys = [], res_Partial = False\<rparr> (app_pub a) = (r, w)"
    "a' = a\<lparr>app_pub := w\<rparr>"
  using assms by (auto simp: resync_with_def split: sum.splits prod.splits)

text \<open>The stages of a clean full sweep of one source.\<close>

lemma sweep_source_clean:
  assumes sweep: "sweep_source rt pub fraction 0 s (a, m) = (Some False, a', m')"
    and bkt: "src_Bucket s \<noteq> []"
    and snap: "on_pub (ListRevisions pub (src_Bucket s)) a = (Inr atStart, a1)"
  obtains r a2 m2 where "src_Resync s pub 0 a1 = (Inr r, a2)" "\<not> res_Partial r"
    "prune pub fraction s (res_Keys r) atStart (a2, m2) = (a', m')"
    "counter_Value ReconcilePruneRefused [''bucket'', src_Bucket s] m2
       = counter_Value ReconcilePruneRefused [''bucket'', src_Bucket s] m"
proof -
  obtain res a2 where res: "src_Resync s pub 0 a1 = (res, a2)" by fastforce
  show thesis
    using sweep snap res bkt that
    by (auto simp: sweep_source_def IsZero_def snapshot_def Let_def counter_Value_def counter_Add_def
        ReconcilePruneRefused_def ReconcileKeysRepublished_def
        split: sum.splits if_splits prod.splits)
qed

lemma prune_not_refused:
  assumes "src_Bucket s \<noteq> []" and "on_pub (ListRevisions pub (src_Bucket s)) a = (Inr actual, a1)"
    and "prune pub fraction s published atStart (a, m) = (a', m')"
    and "counter_Value ReconcilePruneRefused [''bucket'', src_Bucket s] m'
       = counter_Value ReconcilePruneRefused [''bucket'', src_Bucket s] m"
  shows "a' = delete_all pub (src_Bucket s) (stale_keys published atStart actual) a1"
  using assms delete_stale_app [of pub "src_Bucket s" "stale_keys published atStart actual" 0 a1]
  by (auto simp: prune_def Let_def delete_all_def split: if_splits prod.splits)

lemma flags_sweep_converges:
  assumes laws: "kv_laws js view rely" and watch: "watch_law js view rely" and q: "quiet view rely"
    and avail: "listable js kv" and b: "byName BucketFlags (pl_buckets (app_pub a)) = Inr kv"
    and db: "calm (app_db a)" "wf_tables (tabs (app_db a))"
    and sweep: "sweep_source rt (Publisher js) fraction 0 flags_source (a, m) = (Some False, a', m')"
    and refused: "counter_Value ReconcilePruneRefused [''bucket'', BucketFlags] m'
        = counter_Value ReconcilePruneRefused [''bucket'', BucketFlags] m"
    and deleted: "delete_failures BucketFlags (app_pub a') = delete_failures BucketFlags (app_pub a)"
  shows "app_db a' = app_db a"
    and "fv_view (tabs (app_db a)) (e, k) = Some st \<Longrightarrow>
       \<exists>v r. view (pl_net (app_pub a')) kv (FlagKey e k) = Some (v, r)
         \<and> flag_state v = Some (fst st, ToValid (snd st))"
    and "view (pl_net (app_pub a')) kv key \<noteq> None \<Longrightarrow>
       \<exists>e k. key = FlagKey e k \<and> fv_view (tabs (app_db a)) (e, k) \<noteq> None"
proof -
  let ?pub = "Publisher js" and ?t = "tabs (app_db a)"
  have bkt: "src_Bucket flags_source \<noteq> []" by (simp add: flags_source_simps BucketFlags_def)
  obtain atStart p1 where l0: "ListRevisions ?pub BucketFlags (app_pub a) = (Inr atStart, p1)"
    using ListRevisions_ok [OF avail b] .
  define a1 where "a1 = a\<lparr>app_pub := p1\<rparr>"
  have snap: "on_pub (ListRevisions ?pub (src_Bucket flags_source)) a = (Inr atStart, a1)"
    using l0 by (simp add: on_pub_eq a1_def flags_source_simps)
  note lq = ListRevisions_quiet [OF watch q b l0]
  obtain r a2 m2 where res: "src_Resync flags_source ?pub 0 a1 = (Inr r, a2)" and whole: "\<not> res_Partial r"
    and pr: "prune ?pub fraction flags_source (res_Keys r) atStart (a2, m2) = (a', m')"
    and m2: "counter_Value ReconcilePruneRefused [''bucket'', BucketFlags] m2
       = counter_Value ReconcilePruneRefused [''bucket'', BucketFlags] m"
    by (rule sweep_source_clean [OF sweep bkt snap]) (simp add: flags_source_simps)
  obtain rs al w2 where ls: "on_db (flags_ListAllForReconcile 0) a1 = (Inr rs, al)"
    and rr: "resync_rows row_key (publish_row ?pub) rs \<lparr>res_Keys = [], res_Partial = False\<rparr> (app_pub al) = (r, w2)"
    and a2: "a2 = al\<lparr>app_pub := w2\<rparr>"
    using res unfolding flags_source_simps(2) by (rule resync_with_InrD)
  obtain db' where ldb: "flags_ListAllForReconcile 0 (app_db a1) = (Inr rs, db')" and al: "al = a1\<lparr>app_db := db'\<rparr>"
    using ls by (auto simp: on_db_def split: prod.splits)
  have dba1: "app_db a1 = app_db a" by (simp add: a1_def)
  note rows = full_rows [OF db ldb [unfolded dba1]]
  have dba2: "app_db a2 = app_db a" using rows(1) al a2 by simp
  have b1: "byName BucketFlags (pl_buckets (app_pub al)) = Inr kv" using b lq(1) al by (simp add: a1_def)
  note fr = flag_rows_published [OF laws q b1 rr whole rows(2)]
  have keys: "res_Keys r = map row_key rs" using resync_rows_keys(2) [OF rr whole] by simp
  have b2: "byName BucketFlags (pl_buckets (app_pub a2)) = Inr kv" using b1 fr(1) a2 by simp
  obtain actual p3 where l3: "ListRevisions ?pub BucketFlags (app_pub a2) = (Inr actual, p3)"
    using ListRevisions_ok [OF avail b2] .
  define a3 where "a3 = a2\<lparr>app_pub := p3\<rparr>"
  note lq3 = ListRevisions_quiet [OF watch q b2 l3]
  have l3': "on_pub (ListRevisions ?pub (src_Bucket flags_source)) a2 = (Inr actual, a3)"
    using l3 by (simp add: on_pub_eq a3_def flags_source_simps)
  have a': "a' = delete_all ?pub BucketFlags (stale_keys (res_Keys r) atStart actual) a3"
    using prune_not_refused [OF bkt l3' pr] refused m2 by (simp add: flags_source_simps)
  have b3: "byName BucketFlags (pl_buckets (app_pub a3)) = Inr kv" using b2 lq3(1) by (simp add: a3_def)
  note del = delete_all_quiet [OF laws q b3 a']
  have "delete_failures BucketFlags w2 = delete_failures BucketFlags (app_pub al)"
  proof (rule resync_rows_inv [OF rr, where I = "\<lambda>p. delete_failures BucketFlags p
      = delete_failures BucketFlags (app_pub al)"])
    fix row w err w1
    assume "delete_failures BucketFlags w = delete_failures BucketFlags (app_pub al)"
      and "publish_row ?pub row w = (err, w1)"
    then show "delete_failures BucketFlags w1 = delete_failures BucketFlags (app_pub al)"
      using PublishFlag_delete_failures unfolding publish_row_def by metis
  qed simp
  then have "delete_failures BucketFlags (app_pub a3) = delete_failures BucketFlags (app_pub a)"
    using lq(3) lq3(3) al a2 by (simp add: delete_failures_def a3_def a1_def)
  with deleted del have gone: "\<forall>key \<in> set (stale_keys (res_Keys r) atStart actual).
      view (pl_net (app_pub a')) kv key = None" by simp
  have net3: "view (pl_net (app_pub a3)) = view (pl_net w2)" using lq3(2) a2 by (simp add: a3_def)
  have sound: "key \<notin> row_key ` set rs" if "key \<in> set (stale_keys (res_Keys r) atStart actual)" for key
    using stale_keys_sound [OF that] keys by auto
  show "app_db a' = app_db a" using del dba2 by (simp add: a3_def)
  show "\<exists>v r. view (pl_net (app_pub a')) kv (FlagKey e k) = Some (v, r)
      \<and> flag_state v = Some (fst st, ToValid (snd st))" if st: "fv_view ?t (e, k) = Some st"
  proof -
    have "FlagKey e k \<in> row_key ` set rs" using rows(4) st by blast
    then obtain row where row: "row \<in> set rs" "row_key row = FlagKey e k" by auto
    have ek: "rr_EnvironmentID row = e" "rr_FlagKey row = k" using row(2) by (simp_all add: row_key_def)
    have "st = (rr_Enabled row \<noteq> 0, rr_Value row)" using rows(3) [OF row(1)] st ek by simp
    moreover obtain v rv where v: "view (pl_net w2) kv (row_key row) = Some (v, rv)"
      "flag_state v = Some (row_state row)"
      using fr(3) [OF row(1)] by blast
    moreover have "view (pl_net (app_pub a')) kv (row_key row) = view (pl_net w2) kv (row_key row)"
      using del sound row(1) net3 by fastforce
    ultimately show ?thesis using row(2) by (simp add: row_state_def)
  qed
  show "\<exists>e k. key = FlagKey e k \<and> fv_view ?t (e, k) \<noteq> None"
    if held: "view (pl_net (app_pub a')) kv key \<noteq> None"
  proof -
    have "key \<in> row_key ` set rs"
    proof (rule ccontr)
      assume no: "key \<notin> row_key ` set rs"
      have start: "set atStart = kv_content view kv (pl_net (app_pub al))"
        using lq(4) [OF refl] lq(2) al by (simp add: kv_content_def a1_def)
      have now: "set actual = kv_content view kv (pl_net w2)"
        using lq3(4) [OF refl] a2 by simp
      have frame: "view (pl_net w2) kv key' = view (pl_net (app_pub al)) kv key'"
        if "key' \<notin> set (res_Keys r)" for key'
        using fr(2) [of kv key'] that keys by simp
      have ns: "key \<notin> set (stale_keys (res_Keys r) atStart actual)" using gone held by auto
      then have present: "view (pl_net w2) kv key \<noteq> None" using del held net3 by fastforce
      have "key \<in> set (stale_keys (res_Keys r) atStart actual)"
      proof (rule stale_all [OF start now])
        show "view (pl_net w2) kv key' = view (pl_net (app_pub al)) kv key'"
          if "key' \<notin> set (res_Keys r)" for key'
          using that by (rule frame)
        show "view (pl_net w2) kv key \<noteq> None" by (rule present)
        show "key \<notin> set (res_Keys r)" using no keys by simp
      qed
      with ns show False by contradiction
    qed
    then obtain row where "row \<in> set rs" "key = row_key row" by auto
    with rows(3) show ?thesis unfolding row_key_def by blast
  qed
qed

end
