(* ===== verification/Reconcile_Spec.thy ===== *)
theory Reconcile_Spec
  imports Sweep_Convergence
begin

text \<open>
  The properties of the reconciler: convergence of a clean full sweep, what a sweep may delete, the
  window of the incremental sweeps, and the race a prune leaves open. The instances run on the
  in-memory server.
\<close>

section \<open>Listing on the in-memory server\<close>

lemma log_view_key: "log_view l h k \<noteq> None \<Longrightarrow> k \<in> (fst \<circ> snd) ` set (filter (\<lambda>e. fst e = h) l)"
  by (induction l h k rule: log_view.induct) (auto split: if_splits)

lemma mem_entries_content: "set (mem_entries h w) = {(k, r). \<exists>v. mem_view w h k = Some (v, r)}"
proof -
  define K where "K = set (map (fst \<circ> snd) (filter (\<lambda>e. fst e = h) (mk_log w)))"
  let ?entry = "\<lambda>k. case mem_view w h k of None \<Rightarrow> [] | Some (v, r) \<Rightarrow> [(k, r)]"
  have u: "set (mem_entries h w) = (\<Union>k\<in>K. set (?entry k))" by (simp add: mem_entries_def K_def)
  have e: "(k, r) \<in> set (?entry k') \<longleftrightarrow> k' = k \<and> (\<exists>v. mem_view w h k' = Some (v, r))" for k k' r
    by (cases "mem_view w h k'") auto
  have "(k, r) \<in> set (mem_entries h w) \<longleftrightarrow> k \<in> K \<and> (\<exists>v. mem_view w h k = Some (v, r))" for k r
    unfolding u UN_iff e by blast
  moreover have "mem_view w h k = Some vr \<Longrightarrow> k \<in> K" for k vr
    using log_view_key [of "mk_log w" h k] by (simp add: mem_view_def K_def)
  ultimately show ?thesis by blast
qed

lemma collect_mem: "collect_revisions (map (\<lambda>(k, r). Entry k r) es @ [SnapshotEnd]) = Inr es"
  by (induction es) auto

lemma solo_watch_law: "watch_law solo_js mem_view solo_rely"
  by (auto simp: watch_law_def solo_js_def mem_server_def mem_call_def solo_begin_def solo_rely_def
      collect_mem mem_entries_content)

lemma solo_listable: "listable solo_js kv"
  by (simp add: listable_def list_revisions_def solo_js_def mem_server_def mem_call_def solo_begin_def
      collect_mem)

section \<open>Histories of cycles\<close>

text \<open>
  The cycles a reconciler has run since it was created, newest first: when each began and whether it
  was clean, that is, whether it advanced the window.
\<close>

inductive history :: "'w runtime \<Rightarrow> 'w config_publisher \<Rightarrow> 'w ReconcileSource list
    \<Rightarrow> (gotime \<times> bool) list \<Rightarrow> Reconciler \<Rightarrow> bool"
  for rt pub sources where
  created: "history rt pub sources [] (NewReconciler interval env)"
| cycle: "history rt pub sources cs r \<Longrightarrow> runOnce rt pub sources (r, a, m) = (r', a', m')
    \<Longrightarrow> history rt pub sources
          ((time_Now rt a, r' = r\<lparr>rc_runs := rc_runs r + 1, rc_lastRun := time_Now rt a\<rparr>) # cs) r'"

inductive_cases history_cycleE: "history rt pub sources (c # cs) r"

lemma runOnce_cases:
  assumes "runOnce rt pub sources (r, a, m) = (r', a', m')"
  obtains "r' = r" | "r' = r\<lparr>rc_runs := rc_runs r + 1\<rparr>"
  | "r' = r\<lparr>rc_runs := rc_runs r + 1, rc_lastRun := time_Now rt a\<rparr>"
  using assms by (auto simp: runOnce_def Let_def split: prod.splits option.splits if_splits)

lemma history_lastRun:
  "history rt pub sources cs r \<Longrightarrow> rc_lastRun r = 0 \<or> (rc_lastRun r, True) \<in> set cs"
proof (induction rule: history.induct)
  case (created interval env)
  then show ?case by (simp add: NewReconciler_def)
next
  case (cycle cs r a m r' a' m')
  from cycle.hyps(2) show ?case
    by (cases rule: runOnce_cases) (use cycle.IH in auto)
qed

lemma next_since_le:
  assumes "history rt pub sources cs r" and "\<And>s. (s, True) \<in> set cs \<Longrightarrow> s \<le> u + minute" and "0 \<le> u"
  shows "IsZero (next_since r) \<or> next_since r \<le> u"
proof (cases "rc_lastRun r = 0")
  case True
  then show ?thesis by (simp add: next_since_def IsZero_def)
next
  case False
  with history_lastRun [OF assms(1)] have "rc_lastRun r \<le> u + minute" using assms(2) by blast
  then show ?thesis by (simp add: next_since_def IsZero_def reconcileOverlap_def)
qed

section \<open>Properties\<close>

text \<open>
  Property C5. A clean full sweep of the flags on a quiet server makes the bucket equal to the
  database: every flag value row is held under its key with bytes that decode to its state, and every
  key the bucket holds belongs to a row. (The sweep is clean, refused no prune and counted no failed
  deletion; the values' invalid UTF-8 is replaced by JSON encoding.)
\<close>

theorem full_sweep_converges:
  assumes "kv_laws js view rely" and "watch_law js view rely" and "quiet view rely" and "listable js kv"
    and "byName BucketFlags (pl_buckets (app_pub a)) = Inr kv"
    and "calm (app_db a)" and "wf_tables (tabs (app_db a))"
    and "sweep_source rt (Publisher js) fraction 0 flags_source (a, m) = (Some False, a', m')"
    and "counter_Value ReconcilePruneRefused [''bucket'', BucketFlags] m'
        = counter_Value ReconcilePruneRefused [''bucket'', BucketFlags] m"
    and "delete_failures BucketFlags (app_pub a') = delete_failures BucketFlags (app_pub a)"
  shows "(\<forall>e k st. fv_view (tabs (app_db a')) (e, k) = Some st \<longrightarrow>
            (\<exists>v r. view (pl_net (app_pub a')) kv (FlagKey e k) = Some (v, r)
               \<and> flag_state v = Some (fst st, ToValid (snd st))))
       \<and> (\<forall>key. view (pl_net (app_pub a')) kv key \<noteq> None \<longrightarrow>
            (\<exists>e k. key = FlagKey e k \<and> fv_view (tabs (app_db a')) (e, k) \<noteq> None))
       \<and> app_db a' = app_db a"
  using flags_sweep_converges [OF assms] by simp

lemma swept:
  assumes "src_Bucket s \<noteq> []" and l: "on_pub (ListRevisions pub (src_Bucket s)) a2 = (listed, b)"
    and "prune pub fraction s (res_Keys res) atStart (a2, m2) = (a', m')"
  shows "a' = b \<or> (\<exists>actual ks. listed = Inr actual \<and> a' = delete_all pub (src_Bucket s) ks b \<and> res_Keys res \<noteq> []
    \<and> (\<forall>k \<in> set ks. k \<notin> set (res_Keys res) \<and> (\<exists>rev. (k, rev) \<in> set atStart \<and> (k, rev) \<in> set actual))
    \<and> int (length ks) \<le> max 5 \<lfloor>of_nat (length actual) * fraction\<rfloor>)"
proof -
  from prune_effect [OF assms(1) l, of fraction "res_Keys res" atStart m2] assms(3) obtain ks
    where ks: "a' = delete_all pub (src_Bucket s) ks b"
      and c: "ks \<noteq> [] \<longrightarrow> (\<exists>actual. listed = Inr actual \<and> ks = stale_keys (res_Keys res) atStart actual
        \<and> res_Keys res \<noteq> [] \<and> int (length ks) \<le> prune_limit fraction (length actual))"
    by auto
  show ?thesis
  proof (cases "ks = []")
    case True
    then show ?thesis using ks by (simp add: delete_all_def)
  next
    case False
    with c obtain actual where ac: "listed = Inr actual" "ks = stale_keys (res_Keys res) atStart actual"
      "res_Keys res \<noteq> []" "int (length ks) \<le> prune_limit fraction (length actual)" by blast
    have "\<forall>k \<in> set ks. k \<notin> set (res_Keys res) \<and> (\<exists>rev. (k, rev) \<in> set atStart \<and> (k, rev) \<in> set actual)"
      using stale_keys_sound ac(2) by blast
    with ac ks show ?thesis by (auto simp: prune_limit_def minPruneKeys_def)
  qed
qed

text \<open>
  Property C11. What a cycle does to a source's bucket beyond republishing: nothing, or the deletion
  of keys, and then the sweep was full and complete, the snapshot before it and the listing after it
  succeeded, at least one row was published, every deleted key was published by no row and still at
  the revision of the snapshot, and no more keys than the ceiling allows were deleted.
\<close>

theorem sweep_prunes_safely:
  assumes "src_Bucket s \<noteq> []"
    and "sweep_source rt pub fraction since s (a, m) = (outcome, a', m')"
  shows "\<exists>atStart snapped a1 r a2.
     (if IsZero since then snapshot pub s a else (([], True), a)) = ((atStart, snapped), a1)
     \<and> src_Resync s pub since a1 = (r, a2)
     \<and> (a' = a2 \<or> (\<exists>listed b. on_pub (ListRevisions pub (src_Bucket s)) a2 = (listed, b)
          \<and> (a' = b \<or> (\<exists>res actual ks. r = Inr res \<and> listed = Inr actual
               \<and> a' = delete_all pub (src_Bucket s) ks b
               \<and> IsZero since \<and> snapped \<and> \<not> res_Partial res \<and> res_Keys res \<noteq> []
               \<and> (\<forall>k \<in> set ks. k \<notin> set (res_Keys res)
                    \<and> (\<exists>rev. (k, rev) \<in> set atStart \<and> (k, rev) \<in> set actual))
               \<and> int (length ks) \<le> max 5 \<lfloor>of_nat (length actual) * fraction\<rfloor>))))"
proof -
  obtain atStart snapped a1 where sn:
    "(if IsZero since then snapshot pub s a else (([], True), a)) = ((atStart, snapped), a1)"
    by (metis prod.exhaust)
  obtain r a2 where rs: "src_Resync s pub since a1 = (r, a2)" by fastforce
  consider "a' = a2" | res m2 where "r = Inr res" "IsZero since" "snapped" "\<not> res_Partial res"
    "prune pub fraction s (res_Keys res) atStart (a2, m2) = (a', m')"
    using assms(2) sn rs
    by (auto simp: sweep_source_def Let_def split: if_splits sum.splits prod.splits)
  then show ?thesis
  proof cases
    case 1
    with sn rs show ?thesis by blast
  next
    case 2
    obtain listed b where l: "on_pub (ListRevisions pub (src_Bucket s)) a2 = (listed, b)" by fastforce
    from swept [OF assms(1) l 2(5)] 2(1-4) sn rs l show ?thesis by blast
  qed
qed

text \<open>
  Property C19. The windows of the incremental sweeps leave no gap: after any history of cycles, clean
  or not, the next sweep reads every flag value row whose time stamp no clean cycle has passed by more
  than the one-minute overlap.
\<close>

theorem window_covers_row:
  assumes "history rt pub sources cs r" and "calm db"
    and "(fv, f) \<in> set (fv_join (tabs db))" and "0 \<le> fv_UpdatedAt fv"
    and "\<And>s. (s, True) \<in> set cs \<Longrightarrow> s \<le> fv_UpdatedAt fv + minute"
    and "flags_ListAllForReconcile (next_since r) db = (Inr rs, db')"
  shows "reconcile_row_of (fv, f) \<in> set rs"
proof -
  have w: "IsZero (next_since r) \<or> next_since r \<le> fv_UpdatedAt fv"
    using next_since_le [OF assms(1) _ assms(4)] assms(5) by blast
  let ?j = "filter (\<lambda>(fv, f). IsZero (next_since r) \<or> next_since r \<le> fv_UpdatedAt fv) (fv_join (tabs db))"
  have "flags_ListAllForReconcile (next_since r) db
      = (Inr (map reconcile_row_of (order_by (\<lambda>(fv, f). fv_ID fv) ?j)), db)"
    using assms(2) by (simp add: flags_ListAllForReconcile_def)
  with assms(6) have rs: "rs = map reconcile_row_of (order_by (\<lambda>(fv, f). fv_ID fv) ?j)"
    by (metis Pair_inject sum.inject(2))
  have "(fv, f) \<in> set ?j" using assms(3) w by simp
  then have "(fv, f) \<in> set (order_by (\<lambda>(fv, f). fv_ID fv) ?j)" by (metis order_by_perm set_mset_mset)
  then show ?thesis unfolding rs set_map by (rule imageI)
qed

section \<open>Instances\<close>

text \<open>The bucket holds a key without a row; the row of the database is not in the bucket.\<close>

definition drifted_app :: "(string, mem_kv) plane app" where
  "drifted_app = demo_app\<lparr>app_pub := (mem_plane [])\<lparr>pl_net :=
     \<lparr>mk_log = [(BucketFlags, FlagKey 4 ''old'', Some ''{}'')], mk_clock = 7, mk_script = []\<rparr>\<rparr>\<rparr>"

definition demo_runtime :: "(string, mem_kv) plane runtime" where
  "demo_runtime = \<lparr>ctx_Err = (\<lambda>_. False), time_Now = (\<lambda>_. 5)\<rparr>"

definition drift_sweep :: "bool option \<times> (string, mem_kv) plane app \<times> metrics" where
  "drift_sweep = sweep_source demo_runtime (Publisher solo_js) (1 / 5) 0 flags_source (drifted_app, new_metrics)"

lemma demo_rows:
  "flags_ListAllForReconcile 0 (app_db drifted_app) =
     (Inr [\<lparr>rr_ID = 9, rr_EnvironmentID = 3, rr_FlagKey = ''dark'', rr_Enabled = 0, rr_Value = ''10''\<rparr>],
      app_db drifted_app)"
  by (simp add: drifted_app_def demo_app_def demo_tables_def flags_ListAllForReconcile_def calm_def
      IsZero_def order_by_def fv_join_def reconcile_row_of_def)

lemma solo_calls:
  "js_Get solo_js h k w = (case mem_view w h k of None \<Rightarrow> Inl ErrKeyNotFound | Some vr \<Rightarrow> Inr vr, w)"
  "js_Create solo_js h k v w = (case mem_view w h k of
     None \<Rightarrow> (Inr (length (mk_log w) + 1), mem_write h k (Some v) w) | Some _ \<Rightarrow> (Inl ErrKeyExists, w))"
  "js_Purge solo_js h k w = (Inr (), mem_write h k None w)"
  "js_Now solo_js w = (mk_clock w, w)"
  "list_revisions solo_js b h w = (Inr (mem_entries h w), w)"
  by (simp_all add: solo_js_def mem_server_def mem_call_def solo_begin_def list_revisions_def collect_mem)

definition flags_plane :: "(string, mem_kv) plane \<Rightarrow> bool" where
  "flags_plane p \<longleftrightarrow> byName BucketFlags (pl_buckets p) = Inr BucketFlags"

lemma solo_list:
  "flags_plane p \<Longrightarrow>
     ListRevisions (Publisher solo_js) BucketFlags p = (Inr (mem_entries BucketFlags (pl_net p)), p)"
  by (simp add: flags_plane_def Publisher_def with_bucket_def on_net_def solo_calls)

definition published :: "FlagPayload \<Rightarrow> int \<Rightarrow> string \<Rightarrow> (string, mem_kv) plane \<Rightarrow> (string, mem_kv) plane" where
  "published payload e k p =
     on_metrics (counter_Inc KVPublishSuccess [''bucket'', BucketFlags])
       (on_metrics (counter_Inc KVPublishAttempts [''bucket'', BucketFlags])
         (p\<lparr>pl_net := mem_write BucketFlags (FlagKey e k)
            (Some (Marshal_payload (payload\<lparr>fp_UpdatedAt := FormatRFC3339 (mk_clock (pl_net p))\<rparr>))) (pl_net p)\<rparr>))"

lemma solo_publish:
  assumes "flags_plane p" and "mem_view (pl_net p) BucketFlags (FlagKey e k) = None"
    and "fp_UpdatedAt payload = []"
  shows "PublishFlag (Publisher solo_js) e k payload p = (Inr (), published payload e k p)"
  using assms
  by (simp add: flags_plane_def plane_eval current_def cond_write_def flag_build_def solo_calls
      published_def)

lemma solo_delete:
  "flags_plane p \<Longrightarrow> DeleteKey (Publisher solo_js) BucketFlags key p =
     (Inr (), p\<lparr>pl_net := mem_write BucketFlags key None (pl_net p)\<rparr>)"
  by (simp add: flags_plane_def Publisher_def delete_key_def with_bucket_def on_net_def purge_key_def solo_calls)

definition demo_row :: ReconcileRow where
  "demo_row = \<lparr>rr_ID = 9, rr_EnvironmentID = 3, rr_FlagKey = ''dark'', rr_Enabled = 0, rr_Value = ''10''\<rparr>"

definition demo_row_payload :: FlagPayload where
  "demo_row_payload = \<lparr>fp_Enabled = False, fp_Value = ''10'', fp_UpdatedAt = []\<rparr>"

lemma drifted_plane: "flags_plane (app_pub drifted_app)"
  by (simp add: flags_plane_def drifted_app_def mem_plane_bucket)

lemma drifted_entries: "mem_entries BucketFlags (pl_net (app_pub drifted_app)) = [(FlagKey 4 ''old'', 1)]"
  by (simp add: drifted_app_def mem_entries_def mem_view_def)

lemma drift_published: "PublishFlag (Publisher solo_js) 3 ''dark'' demo_row_payload (app_pub drifted_app)
    = (Inr (), published demo_row_payload 3 ''dark'' (app_pub drifted_app))"
  by (rule solo_publish [OF drifted_plane]) (simp_all add: drifted_app_def mem_view_def demo_row_payload_def)

definition republished_app :: "(string, mem_kv) plane app" where
  "republished_app = drifted_app\<lparr>app_pub := published demo_row_payload 3 ''dark'' (app_pub drifted_app)\<rparr>"

lemma republished_plane: "flags_plane (app_pub republished_app)"
  using drifted_plane by (simp add: republished_app_def published_def flags_plane_def on_metrics_def)

lemma republished_entries: "mem_entries BucketFlags (pl_net (app_pub republished_app))
    = [(FlagKey 3 ''dark'', 2), (FlagKey 4 ''old'', 1)]"
  by (simp add: republished_app_def published_def on_metrics_def drifted_app_def mem_write_def
      mem_entries_def mem_view_def)

lemma drift_resync: "src_Resync flags_source (Publisher solo_js) 0 drifted_app =
    (Inr \<lparr>res_Keys = [FlagKey 3 ''dark''], res_Partial = False\<rparr>, republished_app)"
  using drift_published
  by (simp add: flags_source_simps resync_with_def on_db_eq demo_rows publish_row_def row_key_def
      demo_row_payload_def ResyncResult_Publish_def republished_app_def)

lemma drift_prune: "prune (Publisher solo_js) (1 / 5) flags_source [FlagKey 3 ''dark'']
     [(FlagKey 4 ''old'', 1)] (republished_app, m) =
   (republished_app\<lparr>app_pub := (app_pub republished_app)\<lparr>pl_net :=
      mem_write BucketFlags (FlagKey 4 ''old'') None (pl_net (app_pub republished_app))\<rparr>\<rparr>,
    counter_Add ReconcileKeysPruned 1 [''bucket'', BucketFlags] m)"
  by (simp add: prune_def flags_source_simps on_pub_eq solo_list [OF republished_plane]
      solo_delete [OF republished_plane] republished_entries stale_keys_def prune_limit_def
      minPruneKeys_def BucketFlags_def [symmetric])

lemma flags_source_name: "src_Name flags_source = ''flags''"
  by (simp add: flagsReconcileSource_def)

lemma drift_sweep_eq: "drift_sweep =
   (Some False, republished_app\<lparr>app_pub := (app_pub republished_app)\<lparr>pl_net :=
      mem_write BucketFlags (FlagKey 4 ''old'') None (pl_net (app_pub republished_app))\<rparr>\<rparr>,
    counter_Add ReconcileKeysPruned 1 [''bucket'', BucketFlags]
      (counter_Add ReconcileKeysRepublished 1 [''source'', ''flags''] new_metrics))"
  by (simp add: drift_sweep_def sweep_source_def IsZero_def snapshot_def on_pub_eq flags_source_simps(1)
      solo_list [OF drifted_plane] drifted_entries drift_resync drift_prune [unfolded One_nat_def] demo_runtime_def
      BucketFlags_def [symmetric] flags_source_name)

lemma drifted_ok: "calm (app_db drifted_app)" "wf_tables (tabs (app_db drifted_app))"
  by (simp_all add: drifted_app_def demo_app_def calm_def demo_tables_wf)

lemma drift_sweep_counts:
  "counter_Value ReconcilePruneRefused [''bucket'', BucketFlags] (snd (snd drift_sweep))
     = counter_Value ReconcilePruneRefused [''bucket'', BucketFlags] new_metrics"
  "delete_failures BucketFlags (app_pub (fst (snd drift_sweep)))
     = delete_failures BucketFlags (app_pub drifted_app)"
  by (simp_all add: drift_sweep_eq counter_Value_def counter_Add_def ReconcilePruneRefused_def
      ReconcileKeysPruned_def ReconcileKeysRepublished_def delete_failures_def republished_app_def
      published_def on_metrics_def counter_Inc_def kv_instruments)

lemma demo_view:
  "fv_view demo_tables (3, ''dark'') = Some (False, ''10'')" "fv_view demo_tables (4, k) = None"
  by (simp_all add: fv_view_def demo_tables_def fv_join_def fv_entry_def)

theorem full_sweep_converges_witness:
  "(\<exists>v r. mem_view (pl_net (app_pub (fst (snd drift_sweep)))) BucketFlags (FlagKey 3 ''dark'') = Some (v, r)
      \<and> flag_state v = Some (False, ToValid ''10''))
   \<and> mem_view (pl_net (app_pub (fst (snd drift_sweep)))) BucketFlags (FlagKey 4 ''old'') = None"
proof -
  have run: "sweep_source demo_runtime (Publisher solo_js) (1 / 5) 0 flags_source (drifted_app, new_metrics)
      = (Some False, fst (snd drift_sweep), snd (snd drift_sweep))"
    unfolding drift_sweep_def [symmetric] by (simp add: prod_eq_iff drift_sweep_eq)
  have t: "tabs (app_db (fst (snd drift_sweep))) = demo_tables"
    by (simp add: drift_sweep_eq republished_app_def drifted_app_def demo_app_def)
  from full_sweep_converges [OF solo_kv_laws solo_watch_law solo_quiet solo_listable
      drifted_plane [unfolded flags_plane_def] drifted_ok run drift_sweep_counts, unfolded t]
  show ?thesis using demo_view by (metis FlagKey_inj fst_conv option.simps(3) snd_conv)
qed

theorem sweep_prunes_safely_witness:
  "\<exists>atStart snapped a1 r a2.
     snapshot (Publisher solo_js) flags_source drifted_app = ((atStart, snapped), a1)
     \<and> src_Resync flags_source (Publisher solo_js) 0 a1 = (r, a2)
     \<and> fst (snd drift_sweep) \<noteq> a2"
proof -
  have b: "src_Bucket flags_source \<noteq> []" by (simp add: flags_source_simps BucketFlags_def)
  have run: "sweep_source demo_runtime (Publisher solo_js) (1 / 5) 0 flags_source (drifted_app, new_metrics)
      = (Some False, fst (snd drift_sweep), snd (snd drift_sweep))"
    unfolding drift_sweep_def [symmetric] by (simp add: prod_eq_iff drift_sweep_eq)
  from sweep_prunes_safely [OF b run] obtain atStart snapped a1 r a2
    where st: "snapshot (Publisher solo_js) flags_source drifted_app = ((atStart, snapped), a1)"
      "src_Resync flags_source (Publisher solo_js) 0 a1 = (r, a2)"
    by (auto simp: IsZero_def)
  have "a1 = drifted_app"
    using st(1) by (simp add: snapshot_def flags_source_simps on_pub_eq solo_list [OF drifted_plane]
        BucketFlags_def [symmetric])
  with st(2) have "a2 = republished_app" by (simp add: drift_resync)
  moreover have "fst (snd drift_sweep) \<noteq> republished_app"
  proof
    assume "fst (snd drift_sweep) = republished_app"
    then have "mk_log (pl_net (app_pub (fst (snd drift_sweep)))) = mk_log (pl_net (app_pub republished_app))"
      by simp
    then show False by (simp add: drift_sweep_eq mem_write_def)
  qed
  ultimately show ?thesis using st by blast
qed

text \<open>One clean cycle at time 5, then the window of the second.\<close>

lemma demo_history:
  "history demo_runtime NoopPublisher [] [(5, True)]
     \<lparr>rc_interval = minute, rc_pruneMaxFraction = 1 / 5, rc_runs = 1, rc_lastRun = 5\<rparr>"
proof -
  let ?r = "NewReconciler minute None"
  obtain r' a' m' where run: "runOnce demo_runtime NoopPublisher [] (?r, demo_app, new_metrics) = (r', a', m')"
    by (metis prod.exhaust)
  then have r': "r' = ?r\<lparr>rc_runs := rc_runs ?r + 1, rc_lastRun := time_Now demo_runtime demo_app\<rparr>"
    by (simp add: runOnce_def NoopPublisher_def on_pub_eq demo_runtime_def Let_def)
  from history.cycle [OF history.created run] r'
  have "history demo_runtime NoopPublisher [] [(time_Now demo_runtime demo_app, True)] r'" by simp
  then show ?thesis
    unfolding r'
    by (simp add: demo_runtime_def NewReconciler_def minute_def second_def pruneMaxFractionFromEnv_def
        defaultPruneMaxFraction_def)
qed

theorem window_covers_row_witness:
  "\<exists>fv f rs db'. (fv, f) \<in> set (fv_join demo_tables)
     \<and> flags_ListAllForReconcile (next_since
          \<lparr>rc_interval = minute, rc_pruneMaxFraction = 1 / 5, rc_runs = 1, rc_lastRun = 5\<rparr>)
          (app_db demo_app) = (Inr rs, db')
     \<and> reconcile_row_of (fv, f) \<in> set rs"
proof -
  let ?fv = "hd (rows (flag_values demo_tables))" and ?f = "hd (rows (flags demo_tables))"
  let ?r = "\<lparr>rc_interval = minute, rc_pruneMaxFraction = 1 / 5, rc_runs = 1, rc_lastRun = 5\<rparr>"
  have mem: "(?fv, ?f) \<in> set (fv_join (tabs (app_db demo_app)))"
    by (simp add: demo_app_def demo_tables_def set_fv_join)
  have c: "calm (app_db demo_app)" by (simp add: demo_app_def calm_def)
  then obtain rs where l: "flags_ListAllForReconcile (next_since ?r) (app_db demo_app) = (Inr rs, app_db demo_app)"
    by (simp add: flags_ListAllForReconcile_def)
  have "reconcile_row_of (?fv, ?f) \<in> set rs"
  proof (rule window_covers_row [OF demo_history c mem _ _ l])
    show "0 \<le> fv_UpdatedAt ?fv" by (simp add: demo_tables_def)
    show "s \<le> fv_UpdatedAt ?fv + minute" if "(s, True) \<in> set [(5, True)]" for s
      using that by (simp add: demo_tables_def minute_def second_def)
  qed
  with mem l show ?thesis by (metis demo_app_def app.select_convs(1) dbconn.select_convs(1))
qed

section \<open>The race a prune leaves open\<close>

definition racing_app :: "(string, mem_kv) plane app" where
  "racing_app = demo_app\<lparr>app_pub := (mem_plane [])\<lparr>pl_net := \<lparr>mk_log = [(BucketFlags, FlagKey 3 ''dark'', Some ''{}'')],
     mk_clock = 7, mk_script = [Still, Put BucketFlags (FlagKey 3 ''dark'') ''fresh'']\<rparr>\<rparr>\<rparr>"

definition race_run :: "(string, mem_kv) plane app \<times> metrics" where
  "race_run = prune (Publisher mem_js) (1 / 5) flags_source [FlagKey 3 ''kept''] [(FlagKey 3 ''dark'', 1)]
     (racing_app, new_metrics)"


end
