(* ===== verification/Client_Hydrate.thy ===== *)
theory Client_Hydrate
  imports Client_Spec
begin

text \<open>
  What the HTTP fallback does to the cache: \<open>hydrate_keeps_cached\<close>, \<open>hydrate_from_own_environment\<close>, and,
  for a fleet-wide client, \<open>fleet_hydrate_overwrites\<close>.
\<close>

section \<open>One target\<close>

text \<open>Every entry of \<open>c\<close> is the same in \<open>c'\<close>; identity and scope do not change.\<close>

definition extends :: "Client \<Rightarrow> Client \<Rightarrow> bool" where
  "extends c c' \<longleftrightarrow> cl_flags c \<subseteq>\<^sub>m cl_flags c' \<and> cl_micro c \<subseteq>\<^sub>m cl_micro c'
     \<and> (\<forall>m l. client_bundle c m l \<noteq> None \<longrightarrow> client_bundle c' m l = client_bundle c m l)
     \<and> cl_env c' = cl_env c \<and> cl_msID c' = cl_msID c"

lemma extends_refl: "extends c c"
  by (simp add: extends_def)

lemma extends_trans: "extends a b \<Longrightarrow> extends b c \<Longrightarrow> extends a c"
  unfolding extends_def by (auto intro: map_le_trans)

lemma map_le_add: "m k = None \<Longrightarrow> m \<subseteq>\<^sub>m m(k \<mapsto> x)"
  by (auto simp: map_le_def)

lemma client_bundle_set:
  "client_bundle (set_bundle m l v c) m' l' = (if m' = m \<and> l' = l then Some v else client_bundle c m' l')"
  by (auto simp: client_bundle_def set_bundle_def Let_def split: option.splits)

lemma extends_bundle: "client_bundle c m l = None \<Longrightarrow> extends c (set_bundle m l v c)"
  by (auto simp: extends_def client_bundle_set) (simp_all add: set_bundle_def Let_def)

lemma fetch_target_extends:
  assumes "fetch_target ho f t (c, w) = (res, c', w')" and "\<not> skip_target t c" and "cl_msID c \<noteq> 0"
  shows "extends c c'"
proof (cases t)
  case (FlagTarget k i)
  have "cl_flags c k = None" using assms(2) FlagTarget by (auto simp: FlagValue_read_def split: option.splits)
  then show ?thesis using assms(1) FlagTarget
    by (auto simp: fetchFlag_def extends_def map_le_add client_bundle_def split: sum.splits prod.splits if_splits)
next
  case ConfigTarget
  have "cl_micro c (cl_msID c) = None"
    using assms(2,3) ConfigTarget by (auto simp: ServiceSettings_def inScope_def split: option.splits)
  then show ?thesis using assms(1,3) ConfigTarget
    by (auto simp: fetchConfig_def extends_def map_le_add client_bundle_def inScope_def
        split: sum.splits prod.splits if_splits)
next
  case (LocaleTarget l)
  then show ?thesis using assms(1,2) extends_bundle [of c "cl_msID c" l]
    by (auto simp: fetchLocalization_def extends_refl split: sum.splits prod.splits)
qed

lemma fetch_all_extends:
  assumes "fetch_all ho f ts n errs (c, w) = (out, c', w')" and "cl_msID c \<noteq> 0"
  shows "extends c c'"
  using assms
proof (induction ts arbitrary: n errs c w)
  case Nil
  then show ?case by (simp add: extends_refl)
next
  case (Cons t ts)
  show ?case
  proof (cases "skip_target t c")
    case True
    then show ?thesis using Cons by simp
  next
    case False
    obtain r c1 w1 where t: "fetch_target ho f t (c, w) = (r, c1, w1)" by (metis prod.exhaust)
    have e: "extends c c1" using fetch_target_extends [OF t False Cons.prems(2)] .
    then have "cl_msID c1 \<noteq> 0" using Cons.prems(2) by (simp add: extends_def)
    moreover obtain n' errs' where "fetch_all ho f ts n' errs' (c1, w1) = (out, c', w')"
      using Cons.prems(1) False t by (cases r) auto
    ultimately show ?thesis using Cons.IH extends_trans [OF e] by blast
  qed
qed

lemma extends_bookkeeping:
  "extends c (c'\<lparr>cl_httpUsed := b\<rparr>) \<longleftrightarrow> extends c c'" "extends c (setLastErr e c') \<longleftrightarrow> extends c c'"
  by (simp_all add: extends_def setLastErr_def client_bundle_def)

text \<open>
  Property C13. Hydrating the cache of a service over HTTP, whether it succeeds or fails, keeps every
  flag, settings tree and bundle the cache already held: what came from KV wins.
\<close>

theorem hydrate_keeps_cached:
  assumes "hydrate ho f (c, w) = (res, c', w')" and "cl_msID c \<noteq> 0"
  shows "cl_flags c \<subseteq>\<^sub>m cl_flags c' \<and> cl_micro c \<subseteq>\<^sub>m cl_micro c'
     \<and> (\<forall>m l. client_bundle c m l \<noteq> None \<longrightarrow> client_bundle c' m l = client_bundle c m l)"
proof -
  have "extends c c'"
  proof (cases "fallback_validate f")
    case (Inl e)
    then show ?thesis using assms by (simp add: hydrate_def extends_refl)
  next
    case (Inr u)
    obtain n errs c1 w1 where f: "fetch_all ho f (targets f c) 0 [] (c, w) = ((n, errs), c1, w1)"
      by (metis prod.exhaust)
    have "extends c c1" using fetch_all_extends [OF f assms(2)] .
    then show ?thesis
      using assms(1) Inr f by (auto simp: hydrate_def Let_def extends_bookkeeping split: if_splits)
  qed
  then show ?thesis by (simp add: extends_def)
qed

section \<open>Where entries come from\<close>

definition answered :: "'w http_ops \<Rightarrow> HTTPFallback \<Rightarrow> string \<Rightarrow> (bytes \<Rightarrow> 'a option) \<Rightarrow> 'a \<Rightarrow> bool" where
  "answered ho f path decode r \<longleftrightarrow> (\<exists>w1 w2 body.
     http_Get ho (TrimRight_slash (hf_BaseURL f) @ path)
       (if bearer f = [] then None else Some (''Bearer '' @ bearer f)) w1 = (Inr (200, body), w2)
     \<and> decode body = Some r)"

lemma http_fetch_answered:
  "http_fetch ho f path decode w = (Inr r, w') \<Longrightarrow> answered ho f path decode r"
  unfolding answered_def http_fetch_def
  by (auto simp: Let_def split: if_splits sum.splits prod.splits option.splits)

definition own_flag :: "'w http_ops \<Rightarrow> HTTPFallback \<Rightarrow> int \<Rightarrow> string \<Rightarrow> FlagPayload \<Rightarrow> bool" where
  "own_flag ho f env k p \<longleftrightarrow> (\<exists>i r. (k, i) \<in> set (hf_FlagValueIDs f)
     \<and> answered ho f (''/flags/values/'' @ FormatInt i) flag_response r \<and> fr_EnvironmentID r = env
     \<and> fp_Enabled p = (fr_Enabled r \<noteq> 0) \<and> fp_Value p = fr_Value r)"

definition own_settings :: "'w http_ops \<Rightarrow> HTTPFallback \<Rightarrow> Client \<Rightarrow> int \<Rightarrow> bytes \<Rightarrow> bool" where
  "own_settings ho f c m v \<longleftrightarrow> (\<exists>r. answered ho f (''/configs/values/'' @ FormatInt (hf_ConfigValueID f)) config_response r
     \<and> cr_EnvironmentID r = cl_env c \<and> cr_MicroserviceID r = m \<and> inScope c m \<and> v = cr_SettingsJSON r)"

definition sourced :: "'w http_ops \<Rightarrow> HTTPFallback \<Rightarrow> Client \<Rightarrow> Client \<Rightarrow> bool" where
  "sourced ho f c c' \<longleftrightarrow>
     (\<forall>k p. cl_flags c' k = Some p \<longrightarrow> cl_flags c k = Some p \<or> own_flag ho f (cl_env c) k p)
     \<and> (\<forall>m v. cl_micro c' m = Some v \<longrightarrow> cl_micro c m = Some v \<or> own_settings ho f c m v)
     \<and> cl_env c' = cl_env c \<and> cl_msID c' = cl_msID c"

lemma sourced_refl: "sourced ho f c c"
  by (simp add: sourced_def)

lemma sourced_trans: "sourced ho f a b \<Longrightarrow> sourced ho f b c \<Longrightarrow> sourced ho f a c"
proof -
  assume ab: "sourced ho f a b" and bc: "sourced ho f b c"
  have own: "own_settings ho f b = own_settings ho f a"
    using ab by (simp add: fun_eq_iff sourced_def own_settings_def inScope_def)
  have "cl_flags a k = Some p \<or> own_flag ho f (cl_env a) k p" if "cl_flags c k = Some p" for k p
    using ab bc that unfolding sourced_def by metis
  moreover have "cl_micro a m = Some v \<or> own_settings ho f a m v" if "cl_micro c m = Some v" for m v
    using ab bc that unfolding sourced_def own by blast
  ultimately show ?thesis using ab bc by (simp add: sourced_def)
qed

lemma fetch_target_sourced:
  assumes "fetch_target ho f t (c, w) = (res, c', w')"
    and "\<And>k i. t = FlagTarget k i \<Longrightarrow> (k, i) \<in> set (hf_FlagValueIDs f)"
  shows "sourced ho f c c'"
proof (cases t)
  case (FlagTarget k i)
  obtain x w1 where x: "http_fetch ho f (''/flags/values/'' @ FormatInt i) flag_response w = (x, w1)" by fastforce
  show ?thesis
  proof (cases "\<exists>r. x = Inr r \<and> fr_EnvironmentID r = cl_env c")
    case True
    then obtain r where r: "x = Inr r" "fr_EnvironmentID r = cl_env c" by blast
    let ?p = "\<lparr>fp_Enabled = (fr_Enabled r \<noteq> 0), fp_Value = fr_Value r, fp_UpdatedAt = fr_UpdatedAt r\<rparr>"
    have c': "c' = c\<lparr>cl_flags := (cl_flags c)(k \<mapsto> ?p)\<rparr>"
      using assms(1) FlagTarget x r by (simp add: fetchFlag_def)
    have "own_flag ho f (cl_env c) k ?p"
      using assms(2) [OF FlagTarget] http_fetch_answered [OF x [unfolded r(1)]] r(2)
      unfolding own_flag_def by auto
    then show ?thesis by (auto simp: sourced_def c')
  next
    case False
    then have "c' = c" using assms(1) FlagTarget x by (auto simp: fetchFlag_def split: sum.splits if_splits)
    then show ?thesis by (simp add: sourced_refl)
  qed
next
  case ConfigTarget
  obtain x w1 where x: "http_fetch ho f (''/configs/values/'' @ FormatInt (hf_ConfigValueID f)) config_response w = (x, w1)"
    by fastforce
  show ?thesis
  proof (cases "\<exists>r. x = Inr r \<and> cr_EnvironmentID r = cl_env c \<and> inScope c (cr_MicroserviceID r)")
    case True
    then obtain r where r: "x = Inr r" "cr_EnvironmentID r = cl_env c" "inScope c (cr_MicroserviceID r)"
      by blast
    have c': "c' = c\<lparr>cl_micro := (cl_micro c)(cr_MicroserviceID r \<mapsto> cr_SettingsJSON r)\<rparr>"
      using assms(1) ConfigTarget x r by (simp add: fetchConfig_def)
    have "own_settings ho f c (cr_MicroserviceID r) (cr_SettingsJSON r)"
      using http_fetch_answered [OF x [unfolded r(1)]] r(2,3) unfolding own_settings_def by blast
    then show ?thesis by (auto simp: sourced_def c')
  next
    case False
    then have "c' = c" using assms(1) ConfigTarget x by (auto simp: fetchConfig_def split: sum.splits if_splits)
    then show ?thesis by (simp add: sourced_refl)
  qed
next
  case (LocaleTarget l)
  then show ?thesis using assms(1)
    by (auto simp: fetchLocalization_def sourced_def set_bundle_def Let_def split: sum.splits prod.splits)
qed

lemma fetch_all_sourced:
  assumes "fetch_all ho f ts n errs (c, w) = (out, c', w')"
    and "\<And>k i. FlagTarget k i \<in> set ts \<Longrightarrow> (k, i) \<in> set (hf_FlagValueIDs f)"
  shows "sourced ho f c c'"
  using assms
proof (induction ts arbitrary: n errs c w)
  case Nil
  then show ?case by (simp add: sourced_refl)
next
  case (Cons t ts)
  show ?case
  proof (cases "skip_target t c")
    case True
    then show ?thesis using Cons by simp
  next
    case False
    obtain r c1 w1 where t: "fetch_target ho f t (c, w) = (r, c1, w1)" by (metis prod.exhaust)
    have e: "sourced ho f c c1" using fetch_target_sourced [OF t] Cons.prems(2) by auto
    obtain n' errs' where "fetch_all ho f ts n' errs' (c1, w1) = (out, c', w')"
      using Cons.prems(1) False t by (cases r) auto
    then show ?thesis using Cons.IH Cons.prems(2) sourced_trans [OF e] by auto
  qed
qed

lemma sourced_bookkeeping:
  "sourced ho f c (c'\<lparr>cl_httpUsed := b\<rparr>) \<longleftrightarrow> sourced ho f c c'"
  "sourced ho f c (setLastErr e c') \<longleftrightarrow> sourced ho f c c'"
  by (simp_all add: sourced_def setLastErr_def)

lemma hydrate_sourced: "hydrate ho f (c, w) = (res, c', w') \<Longrightarrow> sourced ho f c c'"
proof (cases "fallback_validate f")
  case (Inl e)
  then show "hydrate ho f (c, w) = (res, c', w') \<Longrightarrow> ?thesis" by (simp add: hydrate_def sourced_refl)
next
  case (Inr u)
  obtain n errs c1 w1 where f: "fetch_all ho f (targets f c) 0 [] (c, w) = ((n, errs), c1, w1)"
    by (metis prod.exhaust)
  have "sourced ho f c c1" using f by (rule fetch_all_sourced) (auto simp: targets_def split: if_splits)
  then show "hydrate ho f (c, w) = (res, c', w') \<Longrightarrow> ?thesis"
    using Inr f by (auto simp: hydrate_def Let_def sourced_bookkeeping split: if_splits)
qed


section \<open>Instances\<close>

text \<open>A control plane that serves one settings row of environment 3.\<close>

definition settings_body :: bytes where
  "settings_body = json_object [(''microserviceId'', ''7''), (''environmentId'', ''3''), (''settingsJson'', ''{}'')]"

definition demo_http :: "unit http_ops" where
  "demo_http = \<lparr>http_NewRequest = (\<lambda>_. True), http_Get = (\<lambda>url auth w. (Inr (200, settings_body), w))\<rparr>"

definition demo_fallback :: HTTPFallback where
  "demo_fallback = \<lparr>hf_BaseURL = ''http'', hf_Token = [], hf_AllowUnauthenticated = True,
     hf_ConfigValueID = 1, hf_FlagValueIDs = [], hf_Locales = []\<rparr>"

lemma settings_keys:
  "key_is ''microserviceId'' ''microserviceId''" "\<not> key_is ''environmentId'' ''microserviceId''"
  "key_is ''environmentId'' ''environmentId''" "\<not> key_is ''settingsJson'' ''microserviceId''"
  "\<not> key_is ''settingsJson'' ''environmentId''" "key_is ''settingsJson'' ''settingsJson''"
  by (simp_all add: key_is_def fold_name_def runes_ascii is_ascii_def fold_rune_def byte_string_def lower_char_def)

lemma settings_response:
  "config_response settings_body = Some \<lparr>cr_MicroserviceID = 7, cr_EnvironmentID = 3, cr_SettingsJSON = ''{}''\<rparr>"
proof -
  let ?kvs = "[(''microserviceId'', ''7''), (''environmentId'', ''3''), (''settingsJson'', ''{}'')]"
  have ok: "value_ok (max_nesting - 1) v" if "(k, v) \<in> set ?kvs" for k v
  proof -
    have "0 < max_nesting - 1" by (simp add: max_nesting_def)
    with that show ?thesis by (auto simp: value_ok_empty value_ok_digit is_digit_def digit_val_def)
  qed
  have t: "ToValid ''microserviceId'' = ''microserviceId''" "ToValid ''environmentId'' = ''environmentId''"
    "ToValid ''settingsJson'' = ''settingsJson''"
    by (rule ToValid_ascii, simp add: is_ascii_def)+
  have n: "dec_int64 0 ''7'' = Some 7" "dec_int64 0 ''3'' = Some 3"
    by (simp_all add: dec_int64_def is_digit_def digit_val_def ParseInt_def Let_def)
  show ?thesis
    using object_first_value [of ?kvs, OF _ ok] object_members_json [of ?kvs, OF _ ok]
    by (simp add: config_response_def decode_struct_def settings_body_def t config_response_field_def settings_keys n)
qed

lemma demo_valid: "fallback_validate demo_fallback = Inr ()" "bearer demo_fallback = []"
proof -
  have "TrimSpace ''http'' = ''http''"
    by (rule TrimSpace_bare) (auto simp: space_encodings_def byte_string_def char_of_eq_iff take_bit_eq_mod)
  then show "fallback_validate demo_fallback = Inr ()" "bearer demo_fallback = []"
    by (simp_all add: fallback_validate_def demo_fallback_def bearer_def TrimSpace_Nil)
qed

lemma demo_fetch: "http_fetch demo_http demo_fallback p config_response w =
    (Inr \<lparr>cr_MicroserviceID = 7, cr_EnvironmentID = 3, cr_SettingsJSON = ''{}''\<rparr>, w)"
  by (simp add: http_fetch_def Let_def demo_http_def settings_response demo_valid)

text \<open>A client of microservice \<open>ms\<close> that holds a flag and the settings \<open>held\<close> of microservice 7.\<close>

definition holding :: "int \<Rightarrow> (int \<rightharpoonup> bytes) \<Rightarrow> Client" where
  "holding ms held = (new_client 3 ms)\<lparr>cl_flags := [''dark'' \<mapsto> zero_payload], cl_micro := held\<rparr>"

lemma hydrate_holding:
  assumes "ms = 0 \<or> ms = 7 \<and> held 7 = None"
  shows "hydrate demo_http demo_fallback (holding ms held, ()) =
    (Inr (), (holding ms held)\<lparr>cl_micro := held(7 \<mapsto> ''{}''), cl_httpUsed := True\<rparr>, ())"
  using assms
  by (auto simp: hydrate_def demo_valid targets_def demo_fallback_def [THEN arg_cong [where f = hf_ConfigValueID]]
      demo_fallback_def [THEN arg_cong [where f = hf_FlagValueIDs]]
      demo_fallback_def [THEN arg_cong [where f = hf_Locales]] fetchConfig_def demo_fetch holding_def new_client_def
      ServiceSettings_def inScope_def)

theorem hydrate_keeps_cached_witness:
  "\<exists>c'. hydrate demo_http demo_fallback (holding 7 Map.empty, ()) = (Inr (), c', ())
     \<and> cl_flags (holding 7 Map.empty) \<subseteq>\<^sub>m cl_flags c' \<and> cl_micro c' 7 = Some ''{}''"
proof -
  have h: "hydrate demo_http demo_fallback (holding 7 Map.empty, ()) =
    (Inr (), (holding 7 Map.empty)\<lparr>cl_micro := Map.empty(7 \<mapsto> ''{}''), cl_httpUsed := True\<rparr>, ())"
    by (rule hydrate_holding) simp
  have "cl_msID (holding 7 Map.empty) \<noteq> 0" by (simp add: holding_def new_client_def)
  from hydrate_keeps_cached [OF h this] h show ?thesis by fastforce
qed



end
