(* ===== verification/Settings_Repo.thy ===== *)
theory Settings_Repo
  imports Config_Db
begin

text \<open>
  \<^verbatim>\<open>internal/servicesettings/repository.go\<close>: the Postgres repository of appsettings and of the two
  reference tables, microservices and environments, with the sentinel errors of \<^verbatim>\<open>errors.go\<close>. A column
  read into a string and wrapped in a \<^verbatim>\<open>json.RawMessage\<close> is the same bytes.
\<close>

section \<open>Errors\<close>

datatype settings_error =
    ErrConfigNotFound | ErrInvalidConfigID | ErrInvalidMicroserviceID | ErrInvalidEnvironmentID
  | ErrInvalidSettingsJSON | ErrSettingsTooLarge | ErrMicroserviceNotFound | ErrEnvironmentNotFound
  | ErrInvalidMicroserviceName | ErrInvalidEnvironmentName
  | ErrMicroserviceExists | ErrEnvironmentExists | ErrConfigExists
  | ErrMicroserviceInUse | ErrEnvironmentInUse | ErrConflict
  | SettingsWrapped string

type_synonym 'a settings_result = "(settings_error + 'a) \<times> dbconn"

definition settings_wrap :: "string \<Rightarrow> (sql_err + 'a) \<times> dbconn \<Rightarrow> 'a settings_result" where
  "settings_wrap msg = mapErr (\<lambda>_. SettingsWrapped msg)"

text \<open>A write whose unique violation is a sentinel.\<close>

definition settings_unique ::
  "settings_error \<Rightarrow> string \<Rightarrow> (sql_err + 'a) \<times> dbconn \<Rightarrow> 'a settings_result" where
  "settings_unique dup msg = mapErr (\<lambda>e. if IsUniqueViolation e then dup else SettingsWrapped msg)"

section \<open>Statements\<close>

definition as_refs :: "tables \<Rightarrow> int \<Rightarrow> int \<Rightarrow> bool" where
  "as_refs t microserviceID environmentID \<longleftrightarrow>
     microserviceID \<in> ms_ID ` set (rows (microservices t))
     \<and> environmentID \<in> env_ID ` set (rows (environments t))"

definition insert_as_stmt :: "MicroserviceAppSettings \<Rightarrow> stmt" where
  "insert_as_stmt input now t = (case table_insert as_ID as_key
       (\<lambda>n. \<lparr>as_ID = n, as_MicroserviceID = as_MicroserviceID input,
             as_EnvironmentID = as_EnvironmentID input, as_SettingsJSON = as_SettingsJSON input,
             as_UpdatedAt = now, as_ExpectedUpdatedAt = None\<rparr>) (appsettings t)
     of (Inl e, T) \<Rightarrow> (Inl e, t\<lparr>appsettings := T\<rparr>)
      | (Inr n, T) \<Rightarrow>
          if as_refs t (as_MicroserviceID input) (as_EnvironmentID input)
          then (Inr n, t\<lparr>appsettings := T\<rparr>)
          else (Inl OtherViolation, t\<lparr>appsettings := (appsettings t)\<lparr>seq := seq T\<rparr>\<rparr>))"

definition as_matches :: "MicroserviceAppSettings \<Rightarrow> MicroserviceAppSettings \<Rightarrow> bool" where
  "as_matches input r \<longleftrightarrow> as_ID r = as_ID input
     \<and> (case as_ExpectedUpdatedAt input of None \<Rightarrow> True | Some e \<Rightarrow> as_UpdatedAt r = e)"

definition as_write :: "MicroserviceAppSettings \<Rightarrow> gotime \<Rightarrow> MicroserviceAppSettings \<Rightarrow> MicroserviceAppSettings" where
  "as_write input now r = r\<lparr>as_MicroserviceID := as_MicroserviceID input,
     as_EnvironmentID := as_EnvironmentID input, as_SettingsJSON := as_SettingsJSON input,
     as_UpdatedAt := now\<rparr>"

text \<open>The references are checked of the rows the update wrote.\<close>

definition update_as_stmt :: "MicroserviceAppSettings \<Rightarrow> stmt" where
  "update_as_stmt input now t =
     (case table_update as_key (as_matches input) (as_write input now) (appsettings t) of
        (Inl e, T) \<Rightarrow> (Inl e, t\<lparr>appsettings := T\<rparr>)
      | (Inr n, T) \<Rightarrow>
          if n = 0 \<or> as_refs t (as_MicroserviceID input) (as_EnvironmentID input)
          then (Inr n, t\<lparr>appsettings := T\<rparr>) else (Inl OtherViolation, t))"

definition delete_as_stmt :: "int \<Rightarrow> stmt" where
  "delete_as_stmt i now t = (case table_delete (\<lambda>r. as_ID r = i) (appsettings t) of
     (n, T) \<Rightarrow> (Inr n, t\<lparr>appsettings := T\<rparr>))"

definition insert_ms_stmt :: "string \<Rightarrow> stmt" where
  "insert_ms_stmt name now t =
     (if \<not> varchar 100 name then (Inl OtherViolation, t)
      else case table_insert ms_ID ms_Microservice
             (\<lambda>n. \<lparr>ms_ID = n, ms_Microservice = name, ms_UpdatedAt = now\<rparr>) (microservices t)
           of (res, T) \<Rightarrow> (res, t\<lparr>microservices := T\<rparr>))"

definition insert_env_stmt :: "string \<Rightarrow> stmt" where
  "insert_env_stmt name now t =
     (if \<not> varchar 100 name then (Inl OtherViolation, t)
      else case table_insert env_ID env_Environment
             (\<lambda>n. \<lparr>env_ID = n, env_Environment = name, env_UpdatedAt = now\<rparr>) (environments t)
           of (res, T) \<Rightarrow> (res, t\<lparr>environments := T\<rparr>))"

text \<open>How many rows refer to a microservice, and to an environment.\<close>

definition ms_refs :: "int \<Rightarrow> tables \<Rightarrow> nat" where
  "ms_refs i t = length (filter (\<lambda>r. as_MicroserviceID r = i) (rows (appsettings t)))
     + length (filter (\<lambda>r. loc_MicroserviceID r = i) (rows (localizations t)))"

definition env_refs :: "int \<Rightarrow> tables \<Rightarrow> nat" where
  "env_refs i t = length (filter (\<lambda>r. fv_EnvironmentID r = i) (rows (flag_values t)))
     + length (filter (\<lambda>r. as_EnvironmentID r = i) (rows (appsettings t)))
     + length (filter (\<lambda>r. loc_EnvironmentID r = i) (rows (localizations t)))"

text \<open>A foreign key without an action refuses the delete of a row that is still referred to.\<close>

definition delete_ms_stmt :: "int \<Rightarrow> stmt" where
  "delete_ms_stmt i now t = (case table_delete (\<lambda>r. ms_ID r = i) (microservices t) of
     (n, T) \<Rightarrow> if 0 < n \<and> 0 < ms_refs i t then (Inl OtherViolation, t)
               else (Inr n, t\<lparr>microservices := T\<rparr>))"

definition delete_env_stmt :: "int \<Rightarrow> stmt" where
  "delete_env_stmt i now t = (case table_delete (\<lambda>r. env_ID r = i) (environments t) of
     (n, T) \<Rightarrow> if 0 < n \<and> 0 < env_refs i t then (Inl OtherViolation, t)
               else (Inr n, t\<lparr>environments := T\<rparr>))"

section \<open>Appsettings\<close>

text \<open>A single row read: absent rows have their own error.\<close>

definition settings_row ::
  "string \<Rightarrow> settings_error \<Rightarrow> (tables \<Rightarrow> 'r option) \<Rightarrow> dbconn \<Rightarrow> 'r settings_result" where
  "settings_row msg missing q db = bindE (settings_wrap msg (query q db))
     (\<lambda>res db. case res of None \<Rightarrow> (Inl missing, db) | Some r \<Rightarrow> (Inr r, db))"

definition settings_count :: "(tables \<Rightarrow> nat) \<Rightarrow> dbconn \<Rightarrow> nat settings_result" where
  "settings_count q db = settings_wrap ''count rows'' (query q db)"

definition GetMicroserviceConfigByID :: "int \<Rightarrow> dbconn \<Rightarrow> MicroserviceAppSettings settings_result" where
  "GetMicroserviceConfigByID i = settings_row ''get config by id'' ErrConfigNotFound
     (\<lambda>t. find_row (\<lambda>r. as_ID r = i) (appsettings t))"

definition getConfigByServiceAndEnv :: "int \<Rightarrow> int \<Rightarrow> dbconn \<Rightarrow> MicroserviceAppSettings settings_result" where
  "getConfigByServiceAndEnv microserviceID environmentID =
     settings_row ''get config by service and env'' ErrConfigNotFound
       (\<lambda>t. find_row (\<lambda>r. as_MicroserviceID r = microserviceID \<and> as_EnvironmentID r = environmentID)
              (appsettings t))"

definition settings_noRowsErr :: "MicroserviceAppSettings \<Rightarrow> dbconn \<Rightarrow> settings_error \<times> dbconn" where
  "settings_noRowsErr input db = (case as_ExpectedUpdatedAt input of
     None \<Rightarrow> (ErrConfigNotFound, db)
   | Some _ \<Rightarrow> (case GetMicroserviceConfigByID (as_ID input) db of
        (Inl err, db) \<Rightarrow> (err, db)
      | (Inr _, db) \<Rightarrow> (ErrConflict, db)))"

definition checkAppSettingsRefs :: "MicroserviceAppSettings \<Rightarrow> dbconn \<Rightarrow> unit settings_result" where
  "checkAppSettingsRefs input db =
     bindE (settings_count (\<lambda>t. length (filter (\<lambda>r. ms_ID r = as_MicroserviceID input)
                                        (rows (microservices t)))) db)
       (\<lambda>services db. if services = 0 then (Inl ErrMicroserviceNotFound, db)
     else bindE (settings_count (\<lambda>t. length (filter (\<lambda>r. env_ID r = as_EnvironmentID input)
                                              (rows (environments t)))) db)
       (\<lambda>envs db. if envs = 0 then (Inl ErrEnvironmentNotFound, db)
     else bindE (settings_count (\<lambda>t. length (filter (\<lambda>r. as_MicroserviceID r = as_MicroserviceID input
                                                     \<and> as_EnvironmentID r = as_EnvironmentID input
                                                     \<and> as_ID r \<noteq> as_ID input)
                                              (rows (appsettings t)))) db)
       (\<lambda>taken db. if 0 < taken then (Inl ErrConfigExists, db) else (Inr (), db))))"

definition UpdateMicroserviceConfig ::
  "MicroserviceAppSettings \<Rightarrow> dbconn \<Rightarrow> MicroserviceAppSettings settings_result" where
  "UpdateMicroserviceConfig input db =
     bindE (checkAppSettingsRefs input db) (\<lambda>_ db.
     bindE (settings_unique ErrConfigExists ''update config'' (exec (update_as_stmt input) db))
       (\<lambda>rowsAffected db.
          if rowsAffected = 0 then (case settings_noRowsErr input db of (err, db) \<Rightarrow> (Inl err, db))
          else GetMicroserviceConfigByID (as_ID input) db))"

definition CreateMicroserviceConfig ::
  "MicroserviceAppSettings \<Rightarrow> dbconn \<Rightarrow> MicroserviceAppSettings settings_result" where
  "CreateMicroserviceConfig input db =
     bindE (checkAppSettingsRefs input db) (\<lambda>_ db.
     bindE (settings_unique ErrConfigExists ''create config'' (exec (insert_as_stmt input) db))
       (\<lambda>_ db. getConfigByServiceAndEnv (as_MicroserviceID input) (as_EnvironmentID input) db))"

definition DeleteMicroserviceConfig :: "int \<Rightarrow> dbconn \<Rightarrow> MicroserviceAppSettings settings_result" where
  "DeleteMicroserviceConfig i db =
     bindE (GetMicroserviceConfigByID i db) (\<lambda>removed db.
     bindE (settings_wrap ''delete config'' (exec (delete_as_stmt i) db))
       (\<lambda>rowsAffected db. if rowsAffected = 0 then (Inl ErrConfigNotFound, db) else (Inr removed, db)))"

record AppSettingsFilter =
  asf_Page :: Page
  asf_MicroserviceID :: int
  asf_EnvironmentID :: int

definition ListMicroserviceConfigs ::
  "AppSettingsFilter \<Rightarrow> dbconn \<Rightarrow> MicroserviceAppSettings list settings_result" where
  "ListMicroserviceConfigs filt db = settings_wrap ''list servicesettings''
     (query (\<lambda>t. limit_offset (asf_Page filt) (order_by as_ID (filter (\<lambda>r.
         (0 < asf_MicroserviceID filt \<longrightarrow> as_MicroserviceID r = asf_MicroserviceID filt)
         \<and> (0 < asf_EnvironmentID filt \<longrightarrow> as_EnvironmentID r = asf_EnvironmentID filt))
       (rows (appsettings t))))) db)"

definition settings_ListAllForReconcile ::
  "gotime \<Rightarrow> dbconn \<Rightarrow> MicroserviceAppSettings list settings_result" where
  "settings_ListAllForReconcile since db = settings_wrap ''list servicesettings for reconcile''
     (query (\<lambda>t. order_by as_ID (filter (\<lambda>r. IsZero since \<or> since \<le> as_UpdatedAt r)
       (rows (appsettings t)))) db)"

section \<open>Reference tables\<close>

definition GetMicroserviceByID :: "int \<Rightarrow> dbconn \<Rightarrow> Microservice settings_result" where
  "GetMicroserviceByID i = settings_row ''get microservice by id'' ErrMicroserviceNotFound
     (\<lambda>t. find_row (\<lambda>r. ms_ID r = i) (microservices t))"

definition ListMicroservices :: "Page \<Rightarrow> dbconn \<Rightarrow> Microservice list settings_result" where
  "ListMicroservices page db = settings_wrap ''list microservices''
     (query (\<lambda>t. limit_offset page (order_by ms_ID (rows (microservices t)))) db)"

text \<open>The read-back of a created reference row wraps every error, a missing row included.\<close>

definition CreateMicroservice :: "string \<Rightarrow> dbconn \<Rightarrow> Microservice settings_result" where
  "CreateMicroservice name db =
     bindE (settings_count (\<lambda>t. length (filter (\<lambda>r. ms_Microservice r = name) (rows (microservices t)))) db)
       (\<lambda>taken db. if 0 < taken then (Inl ErrMicroserviceExists, db)
     else bindE (settings_unique ErrMicroserviceExists ''create microservice'' (exec (insert_ms_stmt name) db))
       (\<lambda>_ db. settings_row ''get microservice by name'' (SettingsWrapped ''get microservice by name'')
          (\<lambda>t. find_row (\<lambda>r. ms_Microservice r = name) (microservices t)) db))"

definition DeleteMicroservice :: "int \<Rightarrow> dbconn \<Rightarrow> unit settings_result" where
  "DeleteMicroservice i db =
     bindE (settings_count (ms_refs i) db) (\<lambda>inUse db.
       if 0 < inUse then (Inl ErrMicroserviceInUse, db)
       else bindE (settings_wrap ''delete microservice'' (exec (delete_ms_stmt i) db))
              (\<lambda>rowsAffected db. if rowsAffected = 0 then (Inl ErrMicroserviceNotFound, db) else (Inr (), db)))"

definition ListEnvironments :: "Page \<Rightarrow> dbconn \<Rightarrow> Environment list settings_result" where
  "ListEnvironments page db = settings_wrap ''list environments''
     (query (\<lambda>t. limit_offset page (order_by env_ID (rows (environments t)))) db)"

definition CreateEnvironment :: "string \<Rightarrow> dbconn \<Rightarrow> Environment settings_result" where
  "CreateEnvironment name db =
     bindE (settings_count (\<lambda>t. length (filter (\<lambda>r. env_Environment r = name) (rows (environments t)))) db)
       (\<lambda>taken db. if 0 < taken then (Inl ErrEnvironmentExists, db)
     else bindE (settings_unique ErrEnvironmentExists ''create environment'' (exec (insert_env_stmt name) db))
       (\<lambda>_ db. settings_row ''get environment by name'' (SettingsWrapped ''get environment by name'')
          (\<lambda>t. find_row (\<lambda>r. env_Environment r = name) (environments t)) db))"

definition DeleteEnvironment :: "int \<Rightarrow> dbconn \<Rightarrow> unit settings_result" where
  "DeleteEnvironment i db =
     bindE (settings_count (env_refs i) db) (\<lambda>inUse db.
       if 0 < inUse then (Inl ErrEnvironmentInUse, db)
       else bindE (settings_wrap ''delete environment'' (exec (delete_env_stmt i) db))
              (\<lambda>rowsAffected db. if rowsAffected = 0 then (Inl ErrEnvironmentNotFound, db) else (Inr (), db)))"

end
