(* ===== verification/Settings_Repo_Laws.thy ===== *)
theory Settings_Repo_Laws
  imports Settings_Repo
begin

text \<open>
  What the appsettings repository keeps, as \<open>Flags_Repo_Laws\<close> does for flags: \<open>settings_invariant\<close> takes
  an invariant that the seven write statements keep and shows that every method keeps it;
  \<open>reference_invariant\<close> is its part about the reference tables. They are interpreted with
  well-formedness, in \<open>System_Invariant\<close> with the soundness of all the tables, and in \<open>Settings_Mirror\<close>
  with the documents staying as they are.
\<close>

section \<open>Well-formedness is preserved\<close>

lemma wfD:
  assumes "wf_tables t"
  shows "table_ok as_ID as_key (appsettings t)" "table_ok ms_ID ms_Microservice (microservices t)"
    "table_ok env_ID env_Environment (environments t)" "fk_ok t"
  using assms by (simp_all add: wf_tables_def keys_ok_def)

lemma fk_ok_appsettings:
  assumes "fk_ok t" and "\<And>r. r \<in> set (rows T) \<Longrightarrow> r \<in> set (rows (appsettings t))
      \<or> as_refs t (as_MicroserviceID r) (as_EnvironmentID r)"
  shows "fk_ok (t\<lparr>appsettings := T\<rparr>)"
  using assms by (fastforce simp: fk_ok_def as_refs_def)

lemma wf_appsettings:
  "wf_tables t \<Longrightarrow> table_ok as_ID as_key T \<Longrightarrow> fk_ok (t\<lparr>appsettings := T\<rparr>) \<Longrightarrow> wf_tables (t\<lparr>appsettings := T\<rparr>)"
  by (simp add: wf_tables_def keys_ok_def)

lemma insert_as_wf: "keeps wf_tables (insert_as_stmt input)"
proof -
  have "wf_tables (snd (insert_as_stmt input now t))" if wf: "wf_tables t" for now t
  proof -
    define mk where "mk = (\<lambda>n. \<lparr>as_ID = n, as_MicroserviceID = as_MicroserviceID input,
             as_EnvironmentID = as_EnvironmentID input, as_SettingsJSON = as_SettingsJSON input,
             as_UpdatedAt = now, as_ExpectedUpdatedAt = None\<rparr>)"
    obtain res T where T: "table_insert as_ID as_key mk (appsettings t) = (res, T)" by fastforce
    have ok: "table_ok as_ID as_key T"
      using table_insert_ok [OF wfD(1) [OF wf], of mk] T by simp
    have ok2: "table_ok as_ID as_key ((appsettings t)\<lparr>seq := seq T\<rparr>)"
      using wfD(1) [OF wf] by (simp add: table_ok_def)
    have rows: "rows T = rows (appsettings t) \<or> (\<exists>n. res = Inr n \<and> rows T = rows (appsettings t) @ [mk (seq (appsettings t))])"
      using T by (auto simp: table_insert_def Let_def split: if_splits)
    have fk: "fk_ok (t\<lparr>appsettings := T\<rparr>)"
      if "isl res \<or> as_refs t (as_MicroserviceID input) (as_EnvironmentID input)"
      using rows that by (intro fk_ok_appsettings [OF wfD(4) [OF wf]]) (auto simp: mk_def)
    have fk2: "fk_ok (t\<lparr>appsettings := (appsettings t)\<lparr>seq := seq T\<rparr>\<rparr>)"
      by (rule fk_ok_appsettings [OF wfD(4) [OF wf]]) simp
    show ?thesis
      using T ok ok2 fk fk2 wf unfolding insert_as_stmt_def mk_def [symmetric]
      by (cases res) (auto intro: wf_appsettings)
  qed
  then show ?thesis by (simp add: keeps_def)
qed

lemma update_as_wf: "keeps wf_tables (update_as_stmt input)"
proof -
  have "wf_tables (snd (update_as_stmt input now t))" if wf: "wf_tables t" for now t
  proof -
    obtain res T where T: "table_update as_key (as_matches input) (as_write input now) (appsettings t) = (res, T)"
      by fastforce
    have ok: "table_ok as_ID as_key T"
      using table_update_ok [OF wfD(1) [OF wf], of "as_write input now" "as_matches input"] T
      by (simp add: as_write_def)
    have fk: "fk_ok (t\<lparr>appsettings := T\<rparr>)"
      if "\<And>n. res = Inr n \<Longrightarrow> n = 0 \<or> as_refs t (as_MicroserviceID input) (as_EnvironmentID input)"
      using T that by (intro fk_ok_appsettings [OF wfD(4) [OF wf]])
        (auto simp: table_update_def Let_def as_write_def filter_empty_conv split: if_splits)
    show ?thesis
      using T ok fk wf unfolding update_as_stmt_def
      by (cases res) (auto intro: wf_appsettings)
  qed
  then show ?thesis by (simp add: keeps_def)
qed

lemma delete_as_wf: "keeps wf_tables (delete_as_stmt i)"
proof -
  have "wf_tables (snd (delete_as_stmt i now t))" if wf: "wf_tables t" for now t
  proof -
    let ?T = "snd (table_delete (\<lambda>r. as_ID r = i) (appsettings t))"
    have "wf_tables (t\<lparr>appsettings := ?T\<rparr>)"
      by (intro wf_appsettings [OF wf] table_delete_ok wfD [OF wf] fk_ok_appsettings)
        (auto simp: table_delete_def)
    then show ?thesis by (simp add: delete_as_stmt_def table_delete_def)
  qed
  then show ?thesis by (simp add: keeps_def)
qed

lemma insert_ms_wf: "keeps wf_tables (insert_ms_stmt name)"
proof -
  have "wf_tables (snd (insert_ms_stmt name now t))" if wf: "wf_tables t" for now t
  proof -
    let ?mk = "\<lambda>n. \<lparr>ms_ID = n, ms_Microservice = name, ms_UpdatedAt = now\<rparr>"
    obtain res T where T: "table_insert ms_ID ms_Microservice ?mk (microservices t) = (res, T)" by fastforce
    have "table_ok ms_ID ms_Microservice T" using table_insert_ok [OF wfD(2) [OF wf], of ?mk] T by simp
    moreover have "fk_ok (t\<lparr>microservices := T\<rparr>)"
      using wfD(4) [OF wf] T by (fastforce simp: fk_ok_def table_insert_def Let_def split: if_splits)
    ultimately have "wf_tables (t\<lparr>microservices := T\<rparr>)" using wf by (simp add: wf_tables_def keys_ok_def)
    then show ?thesis using wf T by (simp add: insert_ms_stmt_def)
  qed
  then show ?thesis by (simp add: keeps_def)
qed

lemma insert_env_wf: "keeps wf_tables (insert_env_stmt name)"
proof -
  have "wf_tables (snd (insert_env_stmt name now t))" if wf: "wf_tables t" for now t
  proof -
    let ?mk = "\<lambda>n. \<lparr>env_ID = n, env_Environment = name, env_UpdatedAt = now\<rparr>"
    obtain res T where T: "table_insert env_ID env_Environment ?mk (environments t) = (res, T)" by fastforce
    have "table_ok env_ID env_Environment T" using table_insert_ok [OF wfD(3) [OF wf], of ?mk] T by simp
    moreover have "fk_ok (t\<lparr>environments := T\<rparr>)"
      using wfD(4) [OF wf] T by (fastforce simp: fk_ok_def table_insert_def Let_def split: if_splits)
    ultimately have "wf_tables (t\<lparr>environments := T\<rparr>)" using wf by (simp add: wf_tables_def keys_ok_def)
    then show ?thesis using wf T by (simp add: insert_env_stmt_def)
  qed
  then show ?thesis by (simp add: keeps_def)
qed

lemma delete_ms_wf: "keeps wf_tables (delete_ms_stmt i)"
proof -
  have "wf_tables (snd (delete_ms_stmt i now t))" if wf: "wf_tables t" for now t
  proof -
    let ?T = "snd (table_delete (\<lambda>r. ms_ID r = i) (microservices t))"
    have "wf_tables (t\<lparr>microservices := ?T\<rparr>)"
      if "ms_refs i t = 0 \<or> filter (\<lambda>r. ms_ID r = i) (rows (microservices t)) = []"
    proof -
      have "table_ok ms_ID ms_Microservice ?T" by (intro table_delete_ok wfD [OF wf])
      moreover have "fk_ok (t\<lparr>microservices := ?T\<rparr>)"
        using wfD(4) [OF wf] that
        by (fastforce simp: fk_ok_def ms_refs_def table_delete_def length_filter_eq_0 filter_empty_conv)
      ultimately show ?thesis using wf by (simp add: wf_tables_def keys_ok_def)
    qed
    then show ?thesis using wf by (auto simp: delete_ms_stmt_def table_delete_def)
  qed
  then show ?thesis by (simp add: keeps_def)
qed

lemma delete_env_wf: "keeps wf_tables (delete_env_stmt i)"
proof -
  have "wf_tables (snd (delete_env_stmt i now t))" if wf: "wf_tables t" for now t
  proof -
    let ?T = "snd (table_delete (\<lambda>r. env_ID r = i) (environments t))"
    have "wf_tables (t\<lparr>environments := ?T\<rparr>)"
      if "env_refs i t = 0 \<or> filter (\<lambda>r. env_ID r = i) (rows (environments t)) = []"
    proof -
      have "table_ok env_ID env_Environment ?T" by (intro table_delete_ok wfD [OF wf])
      moreover have "fk_ok (t\<lparr>environments := ?T\<rparr>)"
        using wfD(4) [OF wf] that
        by (fastforce simp: fk_ok_def env_refs_def table_delete_def length_filter_eq_0 filter_empty_conv)
      ultimately show ?thesis using wf by (simp add: wf_tables_def keys_ok_def)
    qed
    then show ?thesis using wf by (auto simp: delete_env_stmt_def table_delete_def)
  qed
  then show ?thesis by (simp add: keeps_def)
qed

section \<open>What a method keeps, from what its statement keeps\<close>

lemma settings_query_holds: "holds P db \<Longrightarrow> holds P (snd (settings_wrap msg (query q db)))"
  by (simp add: settings_wrap_def query_holds)

lemma settings_count_holds: "holds P db \<Longrightarrow> holds P (snd (settings_count q db))"
  by (simp add: settings_count_def settings_query_holds)

lemma settings_row_holds: "holds P db \<Longrightarrow> holds P (snd (settings_row msg missing q db))"
  unfolding settings_row_def
  by (rule snd_bindE [where I = "holds P"]) (auto simp: settings_query_holds split: option.splits)

lemma settings_exec_holds:
  assumes "keeps P st" and "holds P db"
  shows "holds P (snd (settings_wrap msg (exec st db)))" "holds P (snd (settings_unique dup msg (exec st db)))"
  using exec_holds [OF assms] by (simp_all add: settings_wrap_def settings_unique_def)

lemmas settings_holds = settings_query_holds settings_count_holds settings_row_holds settings_exec_holds

lemmas settings_stages = snd_bindE [where I = "holds P" for P]
  if_split [where P = "\<lambda>x. holds P (snd x)" for P, THEN iffD2] conjI impI

lemma CreateMicroservice_holds:
  "keeps P (insert_ms_stmt name) \<Longrightarrow> holds P db \<Longrightarrow> holds P (snd (CreateMicroservice name db))"
  unfolding CreateMicroservice_def by (intro settings_stages) (simp_all add: settings_holds)

lemma DeleteMicroservice_holds:
  "keeps P (delete_ms_stmt i) \<Longrightarrow> holds P db \<Longrightarrow> holds P (snd (DeleteMicroservice i db))"
  unfolding DeleteMicroservice_def by (intro settings_stages) (simp_all add: settings_holds)

lemma CreateEnvironment_holds:
  "keeps P (insert_env_stmt name) \<Longrightarrow> holds P db \<Longrightarrow> holds P (snd (CreateEnvironment name db))"
  unfolding CreateEnvironment_def by (intro settings_stages) (simp_all add: settings_holds)

lemma DeleteEnvironment_holds:
  "keeps P (delete_env_stmt i) \<Longrightarrow> holds P db \<Longrightarrow> holds P (snd (DeleteEnvironment i db))"
  unfolding DeleteEnvironment_def by (intro settings_stages) (simp_all add: settings_holds)

lemma GetMicroserviceConfigByID_holds: "holds P db \<Longrightarrow> holds P (snd (GetMicroserviceConfigByID i db))"
  by (simp add: GetMicroserviceConfigByID_def settings_holds)

lemma getConfigByServiceAndEnv_holds: "holds P db \<Longrightarrow> holds P (snd (getConfigByServiceAndEnv m e db))"
  by (simp add: getConfigByServiceAndEnv_def settings_holds)

lemma checkAppSettingsRefs_holds: "holds P db \<Longrightarrow> holds P (snd (checkAppSettingsRefs input db))"
  unfolding checkAppSettingsRefs_def by (intro settings_stages) (simp_all add: settings_holds)

lemma settings_noRowsErr_holds: "holds P db \<Longrightarrow> holds P (snd (settings_noRowsErr input db))"
  using GetMicroserviceConfigByID_holds [of P db "as_ID input"]
  by (auto simp: settings_noRowsErr_def split: option.splits prod.splits sum.splits)

lemma UpdateMicroserviceConfig_holds:
  "keeps P (update_as_stmt input) \<Longrightarrow> holds P db \<Longrightarrow> holds P (snd (UpdateMicroserviceConfig input db))"
  unfolding UpdateMicroserviceConfig_def
  by (intro settings_stages)
    (auto simp: settings_holds checkAppSettingsRefs_holds GetMicroserviceConfigByID_holds
      dest: settings_noRowsErr_holds [of _ _ input] split: prod.splits)

lemma CreateMicroserviceConfig_holds:
  "keeps P (insert_as_stmt input) \<Longrightarrow> holds P db \<Longrightarrow> holds P (snd (CreateMicroserviceConfig input db))"
  unfolding CreateMicroserviceConfig_def
  by (intro settings_stages)
    (simp_all add: settings_holds checkAppSettingsRefs_holds getConfigByServiceAndEnv_holds)

lemma DeleteMicroserviceConfig_holds:
  "keeps P (delete_as_stmt i) \<Longrightarrow> holds P db \<Longrightarrow> holds P (snd (DeleteMicroserviceConfig i db))"
  unfolding DeleteMicroserviceConfig_def
  by (intro settings_stages) (simp_all add: settings_holds GetMicroserviceConfigByID_holds)

section \<open>Every method keeps an invariant the statements keep\<close>

locale reference_invariant =
  fixes P :: "tables \<Rightarrow> bool"
  assumes insert_ms: "keeps P (insert_ms_stmt name)"
    and delete_ms: "keeps P (delete_ms_stmt i)"
    and insert_env: "keeps P (insert_env_stmt name)"
    and delete_env: "keeps P (delete_env_stmt i)"
begin

lemma CreateMicroservice_inv: "holds P db \<Longrightarrow> holds P (snd (CreateMicroservice name db))"
  by (rule CreateMicroservice_holds [OF insert_ms])

lemma DeleteMicroservice_inv: "holds P db \<Longrightarrow> holds P (snd (DeleteMicroservice i db))"
  by (rule DeleteMicroservice_holds [OF delete_ms])

lemma CreateEnvironment_inv: "holds P db \<Longrightarrow> holds P (snd (CreateEnvironment name db))"
  by (rule CreateEnvironment_holds [OF insert_env])

lemma DeleteEnvironment_inv: "holds P db \<Longrightarrow> holds P (snd (DeleteEnvironment i db))"
  by (rule DeleteEnvironment_holds [OF delete_env])

end

locale settings_invariant = reference_invariant P for P :: "tables \<Rightarrow> bool" +
  fixes good_settings :: "MicroserviceAppSettings \<Rightarrow> bool"
  assumes update: "good_settings v \<Longrightarrow> keeps P (update_as_stmt v)"
    and insert: "good_settings v \<Longrightarrow> keeps P (insert_as_stmt v)"
    and delete: "keeps P (delete_as_stmt i)"
begin

lemma UpdateMicroserviceConfig_inv:
  "good_settings input \<Longrightarrow> holds P db \<Longrightarrow> holds P (snd (UpdateMicroserviceConfig input db))"
  by (rule UpdateMicroserviceConfig_holds [OF update])

lemma CreateMicroserviceConfig_inv:
  "good_settings input \<Longrightarrow> holds P db \<Longrightarrow> holds P (snd (CreateMicroserviceConfig input db))"
  by (rule CreateMicroserviceConfig_holds [OF insert])

lemma DeleteMicroserviceConfig_inv: "holds P db \<Longrightarrow> holds P (snd (DeleteMicroserviceConfig i db))"
  by (rule DeleteMicroserviceConfig_holds [OF delete])

end

interpretation wf_settings: settings_invariant wf_tables "\<lambda>_. True"
  by unfold_locales
    (simp_all add: insert_as_wf update_as_wf delete_as_wf insert_ms_wf insert_env_wf delete_ms_wf delete_env_wf)

end
