(* ===== verification/Loc_Repo.thy ===== *)
theory Loc_Repo
  imports Config_Db
begin

text \<open>
  \<^verbatim>\<open>internal/localization/repository.go\<close>: the Postgres repository of translation bundles, with the
  sentinel errors of \<^verbatim>\<open>errors.go\<close>, and what its methods keep (\<open>loc_invariant\<close>, interpreted with
  well-formedness).
\<close>

section \<open>Errors and statements\<close>

datatype loc_error =
    ErrLocalizationNotFound | ErrInvalidLocalizationID | ErrInvalidMicroserviceID | ErrInvalidEnvironmentID
  | ErrInvalidLocale | ErrInvalidBundleJSON | ErrBundleTooLarge
  | ErrMicroserviceNotFound | ErrEnvironmentNotFound | ErrLocalizationExists | ErrConflict
  | LocWrapped string

type_synonym 'a loc_result = "(loc_error + 'a) \<times> dbconn"

definition loc_wrap :: "string \<Rightarrow> (sql_err + 'a) \<times> dbconn \<Rightarrow> 'a loc_result" where
  "loc_wrap msg = mapErr (\<lambda>_. LocWrapped msg)"

definition loc_unique :: "string \<Rightarrow> (sql_err + 'a) \<times> dbconn \<Rightarrow> 'a loc_result" where
  "loc_unique msg = mapErr (\<lambda>e. if IsUniqueViolation e then ErrLocalizationExists else LocWrapped msg)"

definition loc_refs :: "tables \<Rightarrow> int \<Rightarrow> int \<Rightarrow> bool" where
  "loc_refs t microserviceID environmentID \<longleftrightarrow>
     microserviceID \<in> ms_ID ` set (rows (microservices t))
     \<and> environmentID \<in> env_ID ` set (rows (environments t))"

definition insert_loc_stmt :: "Localization \<Rightarrow> stmt" where
  "insert_loc_stmt input now t =
     (if \<not> varchar 35 (loc_Locale input) then (Inl OtherViolation, t)
      else case table_insert loc_ID loc_key
             (\<lambda>n. \<lparr>loc_ID = n, loc_MicroserviceID = loc_MicroserviceID input,
                   loc_EnvironmentID = loc_EnvironmentID input, loc_Locale = loc_Locale input,
                   loc_BundleJSON = loc_BundleJSON input, loc_UpdatedAt = now,
                   loc_ExpectedUpdatedAt = None\<rparr>) (localizations t)
           of (Inl e, T) \<Rightarrow> (Inl e, t\<lparr>localizations := T\<rparr>)
            | (Inr n, T) \<Rightarrow>
                if loc_refs t (loc_MicroserviceID input) (loc_EnvironmentID input)
                then (Inr n, t\<lparr>localizations := T\<rparr>)
                else (Inl OtherViolation, t\<lparr>localizations := (localizations t)\<lparr>seq := seq T\<rparr>\<rparr>))"

definition loc_matches :: "Localization \<Rightarrow> Localization \<Rightarrow> bool" where
  "loc_matches input r \<longleftrightarrow> loc_ID r = loc_ID input
     \<and> (case loc_ExpectedUpdatedAt input of None \<Rightarrow> True | Some e \<Rightarrow> loc_UpdatedAt r = e)"

definition loc_write :: "Localization \<Rightarrow> gotime \<Rightarrow> Localization \<Rightarrow> Localization" where
  "loc_write input now r = r\<lparr>loc_MicroserviceID := loc_MicroserviceID input,
     loc_EnvironmentID := loc_EnvironmentID input, loc_Locale := loc_Locale input,
     loc_BundleJSON := loc_BundleJSON input, loc_UpdatedAt := now\<rparr>"

definition update_loc_stmt :: "Localization \<Rightarrow> stmt" where
  "update_loc_stmt input now t =
     (if \<not> varchar 35 (loc_Locale input) then (Inl OtherViolation, t)
      else case table_update loc_key (loc_matches input) (loc_write input now) (localizations t) of
        (Inl e, T) \<Rightarrow> (Inl e, t\<lparr>localizations := T\<rparr>)
      | (Inr n, T) \<Rightarrow>
          if n = 0 \<or> loc_refs t (loc_MicroserviceID input) (loc_EnvironmentID input)
          then (Inr n, t\<lparr>localizations := T\<rparr>) else (Inl OtherViolation, t))"

definition delete_loc_stmt :: "int \<Rightarrow> stmt" where
  "delete_loc_stmt i now t = (case table_delete (\<lambda>r. loc_ID r = i) (localizations t) of
     (n, T) \<Rightarrow> (Inr n, t\<lparr>localizations := T\<rparr>))"

section \<open>Methods\<close>

definition loc_row :: "string \<Rightarrow> (Localization \<Rightarrow> bool) \<Rightarrow> dbconn \<Rightarrow> Localization loc_result" where
  "loc_row msg P db = bindE (loc_wrap msg (query (\<lambda>t. find_row P (localizations t)) db))
     (\<lambda>res db. case res of None \<Rightarrow> (Inl ErrLocalizationNotFound, db) | Some l \<Rightarrow> (Inr l, db))"

definition loc_count :: "(tables \<Rightarrow> nat) \<Rightarrow> dbconn \<Rightarrow> nat loc_result" where
  "loc_count q db = loc_wrap ''count rows'' (query q db)"

definition GetLocalizationByID :: "int \<Rightarrow> dbconn \<Rightarrow> Localization loc_result" where
  "GetLocalizationByID i = loc_row ''get localization by id'' (\<lambda>r. loc_ID r = i)"

definition GetLocalization :: "int \<Rightarrow> int \<Rightarrow> string \<Rightarrow> dbconn \<Rightarrow> Localization loc_result" where
  "GetLocalization microserviceID environmentID locale = loc_row ''get localization''
     (\<lambda>r. loc_MicroserviceID r = microserviceID \<and> loc_EnvironmentID r = environmentID \<and> loc_Locale r = locale)"

definition loc_noRowsErr :: "Localization \<Rightarrow> dbconn \<Rightarrow> loc_error \<times> dbconn" where
  "loc_noRowsErr input db = (case loc_ExpectedUpdatedAt input of
     None \<Rightarrow> (ErrLocalizationNotFound, db)
   | Some _ \<Rightarrow> (case GetLocalizationByID (loc_ID input) db of
        (Inl err, db) \<Rightarrow> (err, db)
      | (Inr _, db) \<Rightarrow> (ErrConflict, db)))"

definition checkRefs :: "Localization \<Rightarrow> dbconn \<Rightarrow> unit loc_result" where
  "checkRefs input db =
     bindE (loc_count (\<lambda>t. length (filter (\<lambda>r. ms_ID r = loc_MicroserviceID input)
                                   (rows (microservices t)))) db)
       (\<lambda>services db. if services = 0 then (Inl ErrMicroserviceNotFound, db)
     else bindE (loc_count (\<lambda>t. length (filter (\<lambda>r. env_ID r = loc_EnvironmentID input)
                                         (rows (environments t)))) db)
       (\<lambda>envs db. if envs = 0 then (Inl ErrEnvironmentNotFound, db)
     else bindE (loc_count (\<lambda>t. length (filter (\<lambda>r. loc_MicroserviceID r = loc_MicroserviceID input
                                                \<and> loc_EnvironmentID r = loc_EnvironmentID input
                                                \<and> loc_Locale r = loc_Locale input
                                                \<and> loc_ID r \<noteq> loc_ID input)
                                         (rows (localizations t)))) db)
       (\<lambda>taken db. if 0 < taken then (Inl ErrLocalizationExists, db) else (Inr (), db))))"

definition UpdateLocalization :: "Localization \<Rightarrow> dbconn \<Rightarrow> Localization loc_result" where
  "UpdateLocalization input db =
     bindE (checkRefs input db) (\<lambda>_ db.
     bindE (loc_unique ''update localization'' (exec (update_loc_stmt input) db))
       (\<lambda>n db.
          if n = 0 then (case loc_noRowsErr input db of (err, db) \<Rightarrow> (Inl err, db))
          else GetLocalizationByID (loc_ID input) db))"

definition CreateLocalization :: "Localization \<Rightarrow> dbconn \<Rightarrow> Localization loc_result" where
  "CreateLocalization input db =
     bindE (checkRefs input db) (\<lambda>_ db.
     bindE (loc_unique ''create localization'' (exec (insert_loc_stmt input) db))
       (\<lambda>_ db. GetLocalization (loc_MicroserviceID input) (loc_EnvironmentID input) (loc_Locale input) db))"

definition DeleteLocalization :: "int \<Rightarrow> dbconn \<Rightarrow> Localization loc_result" where
  "DeleteLocalization i db =
     bindE (GetLocalizationByID i db) (\<lambda>removed db.
     bindE (loc_wrap ''delete localization'' (exec (delete_loc_stmt i) db))
       (\<lambda>n db. if n = 0 then (Inl ErrLocalizationNotFound, db) else (Inr removed, db)))"

record LocFilter =
  lf_Page :: Page
  lf_MicroserviceID :: int
  lf_EnvironmentID :: int
  lf_Locale :: string

definition ListLocalizations :: "LocFilter \<Rightarrow> dbconn \<Rightarrow> Localization list loc_result" where
  "ListLocalizations filt db = loc_wrap ''list localization''
     (query (\<lambda>t. limit_offset (lf_Page filt) (order_by loc_ID (filter (\<lambda>r.
         (0 < lf_MicroserviceID filt \<longrightarrow> loc_MicroserviceID r = lf_MicroserviceID filt)
         \<and> (0 < lf_EnvironmentID filt \<longrightarrow> loc_EnvironmentID r = lf_EnvironmentID filt)
         \<and> (lf_Locale filt \<noteq> [] \<longrightarrow> loc_Locale r = lf_Locale filt))
       (rows (localizations t))))) db)"

definition loc_ListAllForReconcile :: "gotime \<Rightarrow> dbconn \<Rightarrow> Localization list loc_result" where
  "loc_ListAllForReconcile since db = loc_wrap ''list localization for reconcile''
     (query (\<lambda>t. order_by loc_ID (filter (\<lambda>r. IsZero since \<or> since \<le> loc_UpdatedAt r)
       (rows (localizations t)))) db)"

section \<open>Well-formedness is preserved\<close>

lemma fk_ok_localizations:
  assumes "fk_ok t" and "\<And>r. r \<in> set (rows T) \<Longrightarrow> r \<in> set (rows (localizations t))
      \<or> loc_refs t (loc_MicroserviceID r) (loc_EnvironmentID r)"
  shows "fk_ok (t\<lparr>localizations := T\<rparr>)"
  using assms by (fastforce simp: fk_ok_def loc_refs_def)

lemma wf_localizations:
  "wf_tables t \<Longrightarrow> table_ok loc_ID loc_key T \<Longrightarrow> fk_ok (t\<lparr>localizations := T\<rparr>)
    \<Longrightarrow> wf_tables (t\<lparr>localizations := T\<rparr>)"
  by (simp add: wf_tables_def keys_ok_def)

lemma wf_locD: "wf_tables t \<Longrightarrow> table_ok loc_ID loc_key (localizations t)" "wf_tables t \<Longrightarrow> fk_ok t"
  by (simp_all add: wf_tables_def keys_ok_def)

lemma insert_loc_wf: "keeps wf_tables (insert_loc_stmt input)"
proof -
  have "wf_tables (snd (insert_loc_stmt input now t))" if wf: "wf_tables t" for now t
  proof -
    define mk where "mk = (\<lambda>n. \<lparr>loc_ID = n, loc_MicroserviceID = loc_MicroserviceID input,
                   loc_EnvironmentID = loc_EnvironmentID input, loc_Locale = loc_Locale input,
                   loc_BundleJSON = loc_BundleJSON input, loc_UpdatedAt = now,
                   loc_ExpectedUpdatedAt = None\<rparr>)"
    obtain res T where T: "table_insert loc_ID loc_key mk (localizations t) = (res, T)" by fastforce
    have ok: "table_ok loc_ID loc_key T" using table_insert_ok [OF wf_locD(1) [OF wf], of mk] T by simp
    have ok2: "table_ok loc_ID loc_key ((localizations t)\<lparr>seq := seq T\<rparr>)"
      using wf_locD(1) [OF wf] by (simp add: table_ok_def)
    have rows: "rows T = rows (localizations t)
        \<or> (\<exists>n. res = Inr n \<and> rows T = rows (localizations t) @ [mk (seq (localizations t))])"
      using T by (auto simp: table_insert_def Let_def split: if_splits)
    have fk: "fk_ok (t\<lparr>localizations := T\<rparr>)"
      if "isl res \<or> loc_refs t (loc_MicroserviceID input) (loc_EnvironmentID input)"
      using rows that by (intro fk_ok_localizations [OF wf_locD(2) [OF wf]]) (auto simp: mk_def)
    have fk2: "fk_ok (t\<lparr>localizations := (localizations t)\<lparr>seq := seq T\<rparr>\<rparr>)"
      by (rule fk_ok_localizations [OF wf_locD(2) [OF wf]]) simp
    show ?thesis
      using T ok ok2 fk fk2 wf unfolding insert_loc_stmt_def mk_def [symmetric]
      by (cases res) (auto intro: wf_localizations)
  qed
  then show ?thesis by (simp add: keeps_def)
qed

lemma update_loc_wf: "keeps wf_tables (update_loc_stmt input)"
proof -
  have "wf_tables (snd (update_loc_stmt input now t))" if wf: "wf_tables t" for now t
  proof -
    obtain res T where T: "table_update loc_key (loc_matches input) (loc_write input now) (localizations t) = (res, T)"
      by fastforce
    have ok: "table_ok loc_ID loc_key T"
      using table_update_ok [OF wf_locD(1) [OF wf], of "loc_write input now" "loc_matches input"] T
      by (simp add: loc_write_def)
    have fk: "fk_ok (t\<lparr>localizations := T\<rparr>)"
      if "\<And>n. res = Inr n \<Longrightarrow> n = 0 \<or> loc_refs t (loc_MicroserviceID input) (loc_EnvironmentID input)"
      using T that by (intro fk_ok_localizations [OF wf_locD(2) [OF wf]])
        (auto simp: table_update_def Let_def loc_write_def filter_empty_conv split: if_splits)
    show ?thesis
      using T ok fk wf unfolding update_loc_stmt_def
      by (cases res) (auto intro: wf_localizations)
  qed
  then show ?thesis by (simp add: keeps_def)
qed

lemma delete_loc_wf: "keeps wf_tables (delete_loc_stmt i)"
proof -
  have "wf_tables (snd (delete_loc_stmt i now t))" if wf: "wf_tables t" for now t
  proof -
    let ?T = "snd (table_delete (\<lambda>r. loc_ID r = i) (localizations t))"
    have "wf_tables (t\<lparr>localizations := ?T\<rparr>)"
      by (intro wf_localizations [OF wf] table_delete_ok wf_locD [OF wf] fk_ok_localizations)
        (auto simp: table_delete_def)
    then show ?thesis by (simp add: delete_loc_stmt_def table_delete_def)
  qed
  then show ?thesis by (simp add: keeps_def)
qed

section \<open>What a method keeps, from what its statement keeps\<close>

lemma loc_wrap_holds: "holds P db \<Longrightarrow> holds P (snd (loc_wrap msg (query q db)))"
  by (simp add: loc_wrap_def query_holds)

lemma loc_count_holds: "holds P db \<Longrightarrow> holds P (snd (loc_count q db))"
  by (simp add: loc_count_def loc_wrap_holds)

lemma loc_row_holds: "holds P db \<Longrightarrow> holds P (snd (loc_row msg Q db))"
  unfolding loc_row_def
  by (rule snd_bindE [where I = "holds P"]) (auto simp: loc_wrap_holds split: option.splits)

lemma loc_exec_holds:
  assumes "keeps P st" and "holds P db"
  shows "holds P (snd (loc_wrap msg (exec st db)))" "holds P (snd (loc_unique msg (exec st db)))"
  using exec_holds [OF assms] by (simp_all add: loc_wrap_def loc_unique_def)

lemmas loc_holds = loc_wrap_holds loc_count_holds loc_row_holds loc_exec_holds

lemmas loc_stages = snd_bindE [where I = "holds P" for P]
  if_split [where P = "\<lambda>x. holds P (snd x)" for P, THEN iffD2] conjI impI

lemma GetLocalizationByID_holds: "holds P db \<Longrightarrow> holds P (snd (GetLocalizationByID i db))"
  by (simp add: GetLocalizationByID_def loc_holds)

lemma GetLocalization_holds: "holds P db \<Longrightarrow> holds P (snd (GetLocalization m e l db))"
  by (simp add: GetLocalization_def loc_holds)

lemma checkRefs_holds: "holds P db \<Longrightarrow> holds P (snd (checkRefs input db))"
  unfolding checkRefs_def by (intro loc_stages) (simp_all add: loc_holds)

lemma loc_noRowsErr_holds: "holds P db \<Longrightarrow> holds P (snd (loc_noRowsErr input db))"
  using GetLocalizationByID_holds [of P db "loc_ID input"]
  by (auto simp: loc_noRowsErr_def split: option.splits prod.splits sum.splits)

lemma UpdateLocalization_holds:
  "keeps P (update_loc_stmt input) \<Longrightarrow> holds P db \<Longrightarrow> holds P (snd (UpdateLocalization input db))"
  unfolding UpdateLocalization_def
  by (intro loc_stages)
    (auto simp: loc_holds checkRefs_holds GetLocalizationByID_holds
      dest: loc_noRowsErr_holds [of _ _ input] split: prod.splits)

lemma CreateLocalization_holds:
  "keeps P (insert_loc_stmt input) \<Longrightarrow> holds P db \<Longrightarrow> holds P (snd (CreateLocalization input db))"
  unfolding CreateLocalization_def
  by (intro loc_stages) (simp_all add: loc_holds checkRefs_holds GetLocalization_holds)

lemma DeleteLocalization_holds:
  "keeps P (delete_loc_stmt i) \<Longrightarrow> holds P db \<Longrightarrow> holds P (snd (DeleteLocalization i db))"
  unfolding DeleteLocalization_def
  by (intro loc_stages) (simp_all add: loc_holds GetLocalizationByID_holds)

section \<open>Every method keeps an invariant the statements keep\<close>

locale loc_invariant =
  fixes P :: "tables \<Rightarrow> bool"
    and good_loc :: "Localization \<Rightarrow> bool"
  assumes update: "good_loc v \<Longrightarrow> keeps P (update_loc_stmt v)"
    and insert: "good_loc v \<Longrightarrow> keeps P (insert_loc_stmt v)"
    and delete: "keeps P (delete_loc_stmt i)"
begin

lemma UpdateLocalization_inv: "good_loc input \<Longrightarrow> holds P db \<Longrightarrow> holds P (snd (UpdateLocalization input db))"
  by (rule UpdateLocalization_holds [OF update])

lemma CreateLocalization_inv: "good_loc input \<Longrightarrow> holds P db \<Longrightarrow> holds P (snd (CreateLocalization input db))"
  by (rule CreateLocalization_holds [OF insert])

lemma DeleteLocalization_inv: "holds P db \<Longrightarrow> holds P (snd (DeleteLocalization i db))"
  by (rule DeleteLocalization_holds [OF delete])

end

interpretation wf_loc: loc_invariant wf_tables "\<lambda>_. True"
  by unfold_locales (simp_all add: insert_loc_wf update_loc_wf delete_loc_wf)

end
