(* ===== verification/Settings_Service.thy ===== *)
theory Settings_Service
  imports Flags_Service Settings_Repo_Laws Loc_Repo Kv_Reconciler
begin

text \<open>
  \<^verbatim>\<open>internal/servicesettings/service.go\<close> and \<^verbatim>\<open>internal/localization/service.go\<close>: validation, the database
  write, and the best-effort write-through, with the purge of the key a moved row leaves behind; and the
  two reconcile sources of \<^verbatim>\<open>internal/app/app.go\<close> for these domains. Both services run on a record of their
  repository's methods.
\<close>

section \<open>Documents\<close>

text \<open>\<^verbatim>\<open>checkSettings\<close> and \<^verbatim>\<open>checkBundle\<close> share this body: the error of a too large and of a malformed document.\<close>

definition check_document :: "'e \<Rightarrow> 'e \<Rightarrow> bytes \<Rightarrow> 'e + unit" where
  "check_document large malformed doc =
     (if MaxValueSize < length doc then Inl large
      else if doc = [] \<or> \<not> json_Valid doc then Inl malformed
      else case skip_ws doc of
        [] \<Rightarrow> Inl malformed
      | c # _ \<Rightarrow> if c \<noteq> CHR ''{'' then Inl malformed else Inr ())"

definition checkSettings :: "bytes \<Rightarrow> settings_error + unit" where
  "checkSettings = check_document ErrSettingsTooLarge ErrInvalidSettingsJSON"

definition checkBundle :: "bytes \<Rightarrow> loc_error + unit" where
  "checkBundle = check_document ErrBundleTooLarge ErrInvalidBundleJSON"

definition validName :: "string \<Rightarrow> bool" where
  "validName name \<longleftrightarrow> name \<noteq> [] \<and> length name \<le> 100"

lemma check_document_Inr:
  "check_document l m doc = Inr u \<Longrightarrow> doc \<noteq> [] \<and> length doc \<le> MaxValueSize \<and> json_Valid doc"
  by (auto simp: check_document_def split: if_splits)

section \<open>Appsettings\<close>

record settings_repository =
  rs_GetConfig :: "int \<Rightarrow> dbconn \<Rightarrow> MicroserviceAppSettings settings_result"
  rs_UpdateConfig :: "MicroserviceAppSettings \<Rightarrow> dbconn \<Rightarrow> MicroserviceAppSettings settings_result"
  rs_GetMicroservice :: "int \<Rightarrow> dbconn \<Rightarrow> Microservice settings_result"
  rs_ListConfigs :: "AppSettingsFilter \<Rightarrow> dbconn \<Rightarrow> MicroserviceAppSettings list settings_result"
  rs_CreateConfig :: "MicroserviceAppSettings \<Rightarrow> dbconn \<Rightarrow> MicroserviceAppSettings settings_result"
  rs_DeleteConfig :: "int \<Rightarrow> dbconn \<Rightarrow> MicroserviceAppSettings settings_result"
  rs_ListMicroservices :: "Page \<Rightarrow> dbconn \<Rightarrow> Microservice list settings_result"
  rs_CreateMicroservice :: "string \<Rightarrow> dbconn \<Rightarrow> Microservice settings_result"
  rs_DeleteMicroservice :: "int \<Rightarrow> dbconn \<Rightarrow> unit settings_result"
  rs_ListEnvironments :: "Page \<Rightarrow> dbconn \<Rightarrow> Environment list settings_result"
  rs_CreateEnvironment :: "string \<Rightarrow> dbconn \<Rightarrow> Environment settings_result"
  rs_DeleteEnvironment :: "int \<Rightarrow> dbconn \<Rightarrow> unit settings_result"

definition Settings_PostgresRepository :: settings_repository where
  "Settings_PostgresRepository = \<lparr>
     rs_GetConfig = GetMicroserviceConfigByID, rs_UpdateConfig = UpdateMicroserviceConfig,
     rs_GetMicroservice = GetMicroserviceByID, rs_ListConfigs = ListMicroserviceConfigs,
     rs_CreateConfig = CreateMicroserviceConfig, rs_DeleteConfig = DeleteMicroserviceConfig,
     rs_ListMicroservices = ListMicroservices, rs_CreateMicroservice = CreateMicroservice,
     rs_DeleteMicroservice = DeleteMicroservice, rs_ListEnvironments = ListEnvironments,
     rs_CreateEnvironment = CreateEnvironment, rs_DeleteEnvironment = DeleteEnvironment\<rparr>"

definition settings_publish ::
  "'w config_publisher \<Rightarrow> MicroserviceAppSettings \<Rightarrow> 'w app \<Rightarrow> 'w app" where
  "settings_publish pub v =
     best_effort (PublishServiceSettings pub (as_EnvironmentID v) (as_MicroserviceID v) (as_SettingsJSON v))"

definition settings_key :: "MicroserviceAppSettings \<Rightarrow> string" where
  "settings_key v = ServiceSettingsKey (as_EnvironmentID v) (as_MicroserviceID v)"

definition settings_purge :: "'w config_publisher \<Rightarrow> string \<Rightarrow> 'w app \<Rightarrow> 'w app" where
  "settings_purge pub key = best_effort (DeleteKey pub BucketServiceSettings key)"

definition settings_purgeMoved ::
  "'w config_publisher \<Rightarrow> MicroserviceAppSettings \<Rightarrow> MicroserviceAppSettings \<Rightarrow> 'w app \<Rightarrow> 'w app" where
  "settings_purgeMoved pub previous updated a =
     (if settings_key previous = settings_key updated then a
      else settings_purge pub (settings_key previous) a)"

definition SettingsService_UpdateMicroserviceConfig ::
  "settings_repository \<Rightarrow> 'w config_publisher \<Rightarrow> MicroserviceAppSettings \<Rightarrow> 'w app
     \<Rightarrow> (settings_error + MicroserviceAppSettings) \<times> 'w app" where
  "SettingsService_UpdateMicroserviceConfig repo pub req a =
     (if as_ID req \<le> 0 then (Inl ErrInvalidConfigID, a)
      else if as_MicroserviceID req \<le> 0 then (Inl settings_error.ErrInvalidMicroserviceID, a)
      else if as_EnvironmentID req \<le> 0 then (Inl settings_error.ErrInvalidEnvironmentID, a)
      else case checkSettings (as_SettingsJSON req) of
        Inl err \<Rightarrow> (Inl err, a)
      | Inr _ \<Rightarrow>
          bindE (on_db (rs_GetConfig repo (as_ID req)) a) (\<lambda>previous a.
          bindE (on_db (rs_UpdateConfig repo req) a) (\<lambda>updated a.
            (Inr updated, settings_purgeMoved pub previous updated (settings_publish pub updated a)))))"

definition SettingsService_GetMicroserviceConfigByID ::
  "settings_repository \<Rightarrow> int \<Rightarrow> 'w app \<Rightarrow> (settings_error + MicroserviceAppSettings) \<times> 'w app" where
  "SettingsService_GetMicroserviceConfigByID repo i a =
     (if i \<le> 0 then (Inl ErrInvalidConfigID, a) else on_db (rs_GetConfig repo i) a)"

definition SettingsService_GetMicroserviceByID ::
  "settings_repository \<Rightarrow> int \<Rightarrow> 'w app \<Rightarrow> (settings_error + Microservice) \<times> 'w app" where
  "SettingsService_GetMicroserviceByID repo i a =
     (if i \<le> 0 then (Inl settings_error.ErrInvalidMicroserviceID, a) else on_db (rs_GetMicroservice repo i) a)"

definition SettingsService_ListMicroserviceConfigs ::
  "settings_repository \<Rightarrow> AppSettingsFilter \<Rightarrow> 'w app \<Rightarrow> (settings_error + MicroserviceAppSettings list) \<times> 'w app" where
  "SettingsService_ListMicroserviceConfigs repo filt =
     on_db (rs_ListConfigs repo (filt\<lparr>asf_Page := normalizePage (asf_Page filt)\<rparr>))"

definition SettingsService_CreateMicroserviceConfig ::
  "settings_repository \<Rightarrow> 'w config_publisher \<Rightarrow> MicroserviceAppSettings \<Rightarrow> 'w app
     \<Rightarrow> (settings_error + MicroserviceAppSettings) \<times> 'w app" where
  "SettingsService_CreateMicroserviceConfig repo pub req a =
     (if as_MicroserviceID req \<le> 0 then (Inl settings_error.ErrInvalidMicroserviceID, a)
      else if as_EnvironmentID req \<le> 0 then (Inl settings_error.ErrInvalidEnvironmentID, a)
      else case checkSettings (as_SettingsJSON req) of
        Inl err \<Rightarrow> (Inl err, a)
      | Inr _ \<Rightarrow> bindE (on_db (rs_CreateConfig repo req) a)
          (\<lambda>created a. (Inr created, settings_publish pub created a)))"

definition SettingsService_DeleteMicroserviceConfig ::
  "settings_repository \<Rightarrow> 'w config_publisher \<Rightarrow> int \<Rightarrow> 'w app \<Rightarrow> (settings_error + unit) \<times> 'w app" where
  "SettingsService_DeleteMicroserviceConfig repo pub i a =
     (if i \<le> 0 then (Inl ErrInvalidConfigID, a)
      else bindE (on_db (rs_DeleteConfig repo i) a)
             (\<lambda>removed a. (Inr (), settings_purge pub (settings_key removed) a)))"

definition SettingsService_ListMicroservices ::
  "settings_repository \<Rightarrow> Page \<Rightarrow> 'w app \<Rightarrow> (settings_error + Microservice list) \<times> 'w app" where
  "SettingsService_ListMicroservices repo page = on_db (rs_ListMicroservices repo (normalizePage page))"

definition SettingsService_CreateMicroservice ::
  "settings_repository \<Rightarrow> Microservice \<Rightarrow> 'w app \<Rightarrow> (settings_error + Microservice) \<times> 'w app" where
  "SettingsService_CreateMicroservice repo req a = (let name = TrimSpace (ms_Microservice req) in
     if \<not> validName name then (Inl ErrInvalidMicroserviceName, a)
     else on_db (rs_CreateMicroservice repo name) a)"

definition SettingsService_DeleteMicroservice ::
  "settings_repository \<Rightarrow> int \<Rightarrow> 'w app \<Rightarrow> (settings_error + unit) \<times> 'w app" where
  "SettingsService_DeleteMicroservice repo i a =
     (if i \<le> 0 then (Inl settings_error.ErrInvalidMicroserviceID, a) else on_db (rs_DeleteMicroservice repo i) a)"

definition SettingsService_ListEnvironments ::
  "settings_repository \<Rightarrow> Page \<Rightarrow> 'w app \<Rightarrow> (settings_error + Environment list) \<times> 'w app" where
  "SettingsService_ListEnvironments repo page = on_db (rs_ListEnvironments repo (normalizePage page))"

definition SettingsService_CreateEnvironment ::
  "settings_repository \<Rightarrow> Environment \<Rightarrow> 'w app \<Rightarrow> (settings_error + Environment) \<times> 'w app" where
  "SettingsService_CreateEnvironment repo req a = (let name = TrimSpace (env_Environment req) in
     if \<not> validName name then (Inl ErrInvalidEnvironmentName, a)
     else on_db (rs_CreateEnvironment repo name) a)"

definition SettingsService_DeleteEnvironment ::
  "settings_repository \<Rightarrow> int \<Rightarrow> 'w app \<Rightarrow> (settings_error + unit) \<times> 'w app" where
  "SettingsService_DeleteEnvironment repo i a =
     (if i \<le> 0 then (Inl settings_error.ErrInvalidEnvironmentID, a) else on_db (rs_DeleteEnvironment repo i) a)"

section \<open>Localization\<close>

record loc_repository =
  rl_GetByID :: "int \<Rightarrow> dbconn \<Rightarrow> Localization loc_result"
  rl_Get :: "int \<Rightarrow> int \<Rightarrow> string \<Rightarrow> dbconn \<Rightarrow> Localization loc_result"
  rl_Update :: "Localization \<Rightarrow> dbconn \<Rightarrow> Localization loc_result"
  rl_List :: "LocFilter \<Rightarrow> dbconn \<Rightarrow> Localization list loc_result"
  rl_Create :: "Localization \<Rightarrow> dbconn \<Rightarrow> Localization loc_result"
  rl_Delete :: "int \<Rightarrow> dbconn \<Rightarrow> Localization loc_result"

definition Loc_PostgresRepository :: loc_repository where
  "Loc_PostgresRepository = \<lparr>rl_GetByID = GetLocalizationByID, rl_Get = GetLocalization,
     rl_Update = UpdateLocalization, rl_List = ListLocalizations, rl_Create = CreateLocalization,
     rl_Delete = DeleteLocalization\<rparr>"

definition bundle_keyOf :: "Localization \<Rightarrow> string" where
  "bundle_keyOf l = LocalizationKey (loc_EnvironmentID l) (loc_MicroserviceID l) (loc_Locale l)"

definition loc_publish :: "'w config_publisher \<Rightarrow> Localization \<Rightarrow> 'w app \<Rightarrow> 'w app" where
  "loc_publish pub l = best_effort (PublishLocalization pub (loc_EnvironmentID l) (loc_MicroserviceID l)
     (loc_Locale l) (loc_BundleJSON l))"

definition loc_purge :: "'w config_publisher \<Rightarrow> string \<Rightarrow> 'w app \<Rightarrow> 'w app" where
  "loc_purge pub key = best_effort (DeleteKey pub BucketLocalization key)"

definition loc_purgeMoved ::
  "'w config_publisher \<Rightarrow> Localization \<Rightarrow> Localization \<Rightarrow> 'w app \<Rightarrow> 'w app" where
  "loc_purgeMoved pub previous updated a =
     (if bundle_keyOf previous = bundle_keyOf updated then a
      else loc_purge pub (bundle_keyOf previous) a)"

definition LocService_GetLocalizationByID ::
  "loc_repository \<Rightarrow> int \<Rightarrow> 'w app \<Rightarrow> (loc_error + Localization) \<times> 'w app" where
  "LocService_GetLocalizationByID repo i a =
     (if i \<le> 0 then (Inl ErrInvalidLocalizationID, a) else on_db (rl_GetByID repo i) a)"

definition LocService_GetLocalization ::
  "loc_repository \<Rightarrow> int \<Rightarrow> int \<Rightarrow> string \<Rightarrow> 'w app \<Rightarrow> (loc_error + Localization) \<times> 'w app" where
  "LocService_GetLocalization repo microserviceID environmentID locale a =
     (if microserviceID \<le> 0 then (Inl loc_error.ErrInvalidMicroserviceID, a)
      else if environmentID \<le> 0 then (Inl loc_error.ErrInvalidEnvironmentID, a)
      else if locale = [] then (Inl ErrInvalidLocale, a)
      else on_db (rl_Get repo microserviceID environmentID locale) a)"

definition LocService_UpdateLocalization ::
  "loc_repository \<Rightarrow> 'w config_publisher \<Rightarrow> Localization \<Rightarrow> 'w app \<Rightarrow> (loc_error + Localization) \<times> 'w app" where
  "LocService_UpdateLocalization repo pub req a =
     (if loc_ID req \<le> 0 then (Inl ErrInvalidLocalizationID, a)
      else if loc_MicroserviceID req \<le> 0 then (Inl loc_error.ErrInvalidMicroserviceID, a)
      else if loc_EnvironmentID req \<le> 0 then (Inl loc_error.ErrInvalidEnvironmentID, a)
      else if \<not> validLocale (loc_Locale req) then (Inl ErrInvalidLocale, a)
      else case checkBundle (loc_BundleJSON req) of
        Inl err \<Rightarrow> (Inl err, a)
      | Inr _ \<Rightarrow>
          bindE (on_db (rl_GetByID repo (loc_ID req)) a) (\<lambda>previous a.
          bindE (on_db (rl_Update repo req) a) (\<lambda>updated a.
            (Inr updated, loc_purgeMoved pub previous updated (loc_publish pub updated a)))))"

definition LocService_ListLocalizations ::
  "loc_repository \<Rightarrow> LocFilter \<Rightarrow> 'w app \<Rightarrow> (loc_error + Localization list) \<times> 'w app" where
  "LocService_ListLocalizations repo filt =
     on_db (rl_List repo (filt\<lparr>lf_Page := normalizePage (lf_Page filt)\<rparr>))"

definition LocService_CreateLocalization ::
  "loc_repository \<Rightarrow> 'w config_publisher \<Rightarrow> Localization \<Rightarrow> 'w app \<Rightarrow> (loc_error + Localization) \<times> 'w app" where
  "LocService_CreateLocalization repo pub req a =
     (if loc_MicroserviceID req \<le> 0 then (Inl loc_error.ErrInvalidMicroserviceID, a)
      else if loc_EnvironmentID req \<le> 0 then (Inl loc_error.ErrInvalidEnvironmentID, a)
      else if \<not> validLocale (loc_Locale req) then (Inl ErrInvalidLocale, a)
      else case checkBundle (loc_BundleJSON req) of
        Inl err \<Rightarrow> (Inl err, a)
      | Inr _ \<Rightarrow> bindE (on_db (rl_Create repo req) a)
          (\<lambda>created a. (Inr created, loc_publish pub created a)))"

definition LocService_DeleteLocalization ::
  "loc_repository \<Rightarrow> 'w config_publisher \<Rightarrow> int \<Rightarrow> 'w app \<Rightarrow> (loc_error + unit) \<times> 'w app" where
  "LocService_DeleteLocalization repo pub i a =
     (if i \<le> 0 then (Inl ErrInvalidLocalizationID, a)
      else bindE (on_db (rl_Delete repo i) a)
             (\<lambda>removed a. (Inr (), loc_purge pub (bundle_keyOf removed) a)))"

section \<open>Reconcile sources\<close>

definition microReconcileSource ::
  "(gotime \<Rightarrow> dbconn \<Rightarrow> MicroserviceAppSettings list settings_result) \<Rightarrow> 'w ReconcileSource" where
  "microReconcileSource lister = \<lparr>
     src_Name = ''servicesettings'', src_Bucket = BucketServiceSettings,
     src_Resync = (\<lambda>pub since a. resync_with
        (\<lambda>row. ServiceSettingsKey (as_EnvironmentID row) (as_MicroserviceID row))
        (\<lambda>row. PublishServiceSettings pub (as_EnvironmentID row) (as_MicroserviceID row) (as_SettingsJSON row))
        (on_db (lister since) a))\<rparr>"

definition locReconcileSource ::
  "(gotime \<Rightarrow> dbconn \<Rightarrow> Localization list loc_result) \<Rightarrow> 'w ReconcileSource" where
  "locReconcileSource lister = \<lparr>
     src_Name = ''localization'', src_Bucket = BucketLocalization,
     src_Resync = (\<lambda>pub since a. resync_with
        (\<lambda>row. LocalizationKey (loc_EnvironmentID row) (loc_MicroserviceID row) (loc_Locale row))
        (\<lambda>row. PublishLocalization pub (loc_EnvironmentID row) (loc_MicroserviceID row) (loc_Locale row)
                 (loc_BundleJSON row))
        (on_db (lister since) a))\<rparr>"

end
