(* ===== verification/System_Invariant.thy ===== *)
theory System_Invariant
  imports Settings_Service Flags_Pipeline
begin

text \<open>
  The whole write side: the three services on one database. The invariant joins well-formedness, the
  validity of the stored flags and the validity of the stored documents; every statement of every
  repository keeps it, and so does every mutating call of every service, whatever happens in between.
  Each service's part is a locale on its repository, interpreted with the Postgres one.
\<close>

section \<open>Valid documents\<close>

definition valid_settings :: "MicroserviceAppSettings \<Rightarrow> bool" where
  "valid_settings r \<longleftrightarrow> checkSettings (as_SettingsJSON r) = Inr ()"

definition valid_loc :: "Localization \<Rightarrow> bool" where
  "valid_loc r \<longleftrightarrow> checkBundle (loc_BundleJSON r) = Inr () \<and> validLocale (loc_Locale r)"

definition valid_documents :: "tables \<Rightarrow> bool" where
  "valid_documents t \<longleftrightarrow> (\<forall>r \<in> set (rows (appsettings t)). valid_settings r)
     \<and> (\<forall>r \<in> set (rows (localizations t)). valid_loc r)"

definition sound_tables :: "tables \<Rightarrow> bool" where
  "sound_tables t \<longleftrightarrow> wf_tables t \<and> valid_flag_data t \<and> valid_documents t"

text \<open>A statement that leaves the other domains' tables alone keeps what only those tables say.\<close>

definition same_flags :: "stmt \<Rightarrow> bool" where
  "same_flags st \<longleftrightarrow> (\<forall>now t. flags (snd (st now t)) = flags t \<and> flag_values (snd (st now t)) = flag_values t)"

definition same_documents :: "stmt \<Rightarrow> bool" where
  "same_documents st \<longleftrightarrow> (\<forall>now t. appsettings (snd (st now t)) = appsettings t
     \<and> localizations (snd (st now t)) = localizations t)"

lemma keeps_flag_data: "same_flags st \<Longrightarrow> keeps valid_flag_data st"
  by (simp add: keeps_def same_flags_def valid_flag_data_def)

lemma keeps_documents: "same_documents st \<Longrightarrow> keeps valid_documents st"
  by (simp add: keeps_def same_documents_def valid_documents_def)

lemma keeps_sound:
  "keeps wf_tables st \<Longrightarrow> keeps valid_flag_data st \<Longrightarrow> keeps valid_documents st \<Longrightarrow> keeps sound_tables st"
  by (simp add: keeps_def sound_tables_def)

lemma flag_stmts_same_documents:
  "same_documents (update_fv_stmt v)" "same_documents (insert_flag_stmt f)"
  "same_documents (insert_fv_stmt v)" "same_documents (delete_fv_stmt i)"
  by (auto simp: same_documents_def update_fv_stmt_def insert_flag_stmt_def insert_fv_stmt_def
      delete_fv_stmt_def split: prod.splits sum.splits)

lemma document_stmts_same_flags:
  "same_flags (update_as_stmt s)" "same_flags (insert_as_stmt s)" "same_flags (delete_as_stmt i)"
  "same_flags (update_loc_stmt l)" "same_flags (insert_loc_stmt l)" "same_flags (delete_loc_stmt i)"
  by (auto simp: same_flags_def update_as_stmt_def insert_as_stmt_def delete_as_stmt_def
      update_loc_stmt_def insert_loc_stmt_def delete_loc_stmt_def split: prod.splits sum.splits)

lemma reference_stmts_same:
  "same_flags (insert_ms_stmt n)" "same_flags (delete_ms_stmt i)"
  "same_flags (insert_env_stmt n)" "same_flags (delete_env_stmt i)"
  "same_documents (insert_ms_stmt n)" "same_documents (delete_ms_stmt i)"
  "same_documents (insert_env_stmt n)" "same_documents (delete_env_stmt i)"
  by (auto simp: same_flags_def same_documents_def insert_ms_stmt_def delete_ms_stmt_def
      insert_env_stmt_def delete_env_stmt_def split: prod.splits sum.splits)

lemma settings_stmts_documents:
  "valid_settings v \<Longrightarrow> keeps valid_documents (update_as_stmt v)"
  "valid_settings v \<Longrightarrow> keeps valid_documents (insert_as_stmt v)"
  "keeps valid_documents (delete_as_stmt i)"
  by (auto simp: keeps_def update_as_stmt_def insert_as_stmt_def delete_as_stmt_def valid_documents_def
      table_update_def table_insert_def table_delete_def Let_def as_write_def valid_settings_def
      split: prod.splits sum.splits if_splits)

lemma loc_stmts_documents:
  "valid_loc v \<Longrightarrow> keeps valid_documents (update_loc_stmt v)"
  "valid_loc v \<Longrightarrow> keeps valid_documents (insert_loc_stmt v)"
  "keeps valid_documents (delete_loc_stmt i)"
  by (auto simp: keeps_def update_loc_stmt_def insert_loc_stmt_def delete_loc_stmt_def valid_documents_def
      table_update_def table_insert_def table_delete_def Let_def loc_write_def valid_loc_def
      split: prod.splits sum.splits if_splits)

lemmas stmts_same = flag_stmts_same_documents document_stmts_same_flags reference_stmts_same

interpretation sound_flags: flags_invariant sound_tables valid_value valid_flag
proof unfold_locales
  show "sound_tables t \<Longrightarrow> sound_tables (delete_flag_tables i t)" for t i
    using wf_flags.delete_flag valid_flags.delete_flag
    by (auto simp: sound_tables_def valid_documents_def delete_flag_tables_def)
qed (auto intro!: keeps_sound keeps_documents stmts_same
  simp: wf_flags.update wf_flags.insert_flag wf_flags.insert_value wf_flags.delete_value
    valid_flags.update valid_flags.insert_flag valid_flags.insert_value valid_flags.delete_value)

interpretation sound_settings: settings_invariant sound_tables valid_settings
  by unfold_locales
    (auto intro!: keeps_sound keeps_flag_data settings_stmts_documents stmts_same
      keeps_documents [OF reference_stmts_same(5)] keeps_documents [OF reference_stmts_same(6)]
      keeps_documents [OF reference_stmts_same(7)] keeps_documents [OF reference_stmts_same(8)]
      simp: wf_settings.update wf_settings.insert wf_settings.delete wf_settings.insert_ms
        wf_settings.delete_ms wf_settings.insert_env wf_settings.delete_env)

interpretation sound_loc: loc_invariant sound_tables valid_loc
  by unfold_locales
    (auto intro!: keeps_sound keeps_flag_data loc_stmts_documents stmts_same
      simp: wf_loc.update wf_loc.insert wf_loc.delete)

section \<open>The services on any repository\<close>

datatype settings_call =
    UpdateConfig MicroserviceAppSettings | NewConfig MicroserviceAppSettings | RemoveConfig int
  | NewMicroservice Microservice | RemoveMicroservice int
  | NewEnvironment Environment | RemoveEnvironment int

text \<open>The database after a mutating call, whatever it answered.\<close>

fun settings_run ::
  "settings_repository \<Rightarrow> 'w config_publisher \<Rightarrow> settings_call \<Rightarrow> 'w app \<Rightarrow> 'w app" where
  "settings_run repo pub (UpdateConfig req) a = snd (SettingsService_UpdateMicroserviceConfig repo pub req a)"
| "settings_run repo pub (NewConfig req) a = snd (SettingsService_CreateMicroserviceConfig repo pub req a)"
| "settings_run repo pub (RemoveConfig i) a = snd (SettingsService_DeleteMicroserviceConfig repo pub i a)"
| "settings_run repo pub (NewMicroservice req) a = snd (SettingsService_CreateMicroservice repo req a)"
| "settings_run repo pub (RemoveMicroservice i) a = snd (SettingsService_DeleteMicroservice repo i a)"
| "settings_run repo pub (NewEnvironment req) a = snd (SettingsService_CreateEnvironment repo req a)"
| "settings_run repo pub (RemoveEnvironment i) a = snd (SettingsService_DeleteEnvironment repo i a)"

datatype loc_call = UpdateBundle Localization | NewBundle Localization | RemoveBundle int

fun loc_run :: "loc_repository \<Rightarrow> 'w config_publisher \<Rightarrow> loc_call \<Rightarrow> 'w app \<Rightarrow> 'w app" where
  "loc_run repo pub (UpdateBundle req) a = snd (LocService_UpdateLocalization repo pub req a)"
| "loc_run repo pub (NewBundle req) a = snd (LocService_CreateLocalization repo pub req a)"
| "loc_run repo pub (RemoveBundle i) a = snd (LocService_DeleteLocalization repo pub i a)"

lemma settings_side_db [simp]:
  "app_db (settings_publish pub v a) = app_db a" "app_db (settings_purge pub key a) = app_db a"
  "app_db (settings_purgeMoved pub v w a) = app_db a"
  by (simp_all add: settings_publish_def settings_purge_def settings_purgeMoved_def)

lemma loc_side_db [simp]:
  "app_db (loc_publish pub v a) = app_db a" "app_db (loc_purge pub key a) = app_db a"
  "app_db (loc_purgeMoved pub v w a) = app_db a"
  by (simp_all add: loc_publish_def loc_purge_def loc_purgeMoved_def)

lemma on_db_holds: "holds P (snd (f (app_db a))) \<Longrightarrow> holds P (app_db (snd (on_db f a)))"
  by (simp add: on_db_eq)

locale settings_store =
  fixes repo :: settings_repository
    and P :: "tables \<Rightarrow> bool"
  assumes get: "holds P db \<Longrightarrow> holds P (snd (rs_GetConfig repo i db))"
    and update: "valid_settings v \<Longrightarrow> holds P db \<Longrightarrow> holds P (snd (rs_UpdateConfig repo v db))"
    and create: "valid_settings v \<Longrightarrow> holds P db \<Longrightarrow> holds P (snd (rs_CreateConfig repo v db))"
    and delete: "holds P db \<Longrightarrow> holds P (snd (rs_DeleteConfig repo i db))"
    and create_ms: "holds P db \<Longrightarrow> holds P (snd (rs_CreateMicroservice repo name db))"
    and delete_ms: "holds P db \<Longrightarrow> holds P (snd (rs_DeleteMicroservice repo i db))"
    and create_env: "holds P db \<Longrightarrow> holds P (snd (rs_CreateEnvironment repo name db))"
    and delete_env: "holds P db \<Longrightarrow> holds P (snd (rs_DeleteEnvironment repo i db))"
begin

lemma update_call:
  assumes "holds P (app_db a)"
  shows "holds P (app_db (snd (SettingsService_UpdateMicroserviceConfig repo pub req a)))"
proof -
  note steps = get [OF assms, of "as_ID req"] update [OF _ get [OF assms, of "as_ID req"], of req]
  show ?thesis
    using assms steps
    by (auto simp: SettingsService_UpdateMicroserviceConfig_def valid_settings_def on_db_eq bindE_def
        split: sum.splits prod.splits)
qed

lemma run_call: "holds P (app_db a) \<Longrightarrow> holds P (app_db (settings_run repo pub c a))"
  by (cases c)
    (auto simp: update_call create delete create_ms delete_ms create_env delete_env valid_settings_def
      SettingsService_CreateMicroserviceConfig_def SettingsService_DeleteMicroserviceConfig_def
      SettingsService_CreateMicroservice_def SettingsService_DeleteMicroservice_def
      SettingsService_CreateEnvironment_def SettingsService_DeleteEnvironment_def Let_def
      intro!: on_db_holds snd_bindE [where I = "\<lambda>a. holds P (app_db a)"] split: sum.splits)

end

locale loc_store =
  fixes repo :: loc_repository
    and P :: "tables \<Rightarrow> bool"
  assumes get: "holds P db \<Longrightarrow> holds P (snd (rl_GetByID repo i db))"
    and update: "valid_loc v \<Longrightarrow> holds P db \<Longrightarrow> holds P (snd (rl_Update repo v db))"
    and create: "valid_loc v \<Longrightarrow> holds P db \<Longrightarrow> holds P (snd (rl_Create repo v db))"
    and delete: "holds P db \<Longrightarrow> holds P (snd (rl_Delete repo i db))"
begin

lemma run_call: "holds P (app_db a) \<Longrightarrow> holds P (app_db (loc_run repo pub c a))"
  by (cases c)
    (auto simp: get update create delete valid_loc_def LocService_UpdateLocalization_def
      LocService_CreateLocalization_def LocService_DeleteLocalization_def
      intro!: on_db_holds snd_bindE [where I = "\<lambda>a. holds P (app_db a)"] split: sum.splits)

end

interpretation sound_flag_store: flags_store Flags_PostgresRepository sound_tables
  by unfold_locales
    (simp_all add: postgres_methods sound_flags.UpdateFlagValue_inv sound_flags.CreateFlag_inv
      sound_flags.CreateFlagValue_inv sound_flags.DeleteFlag_inv sound_flags.DeleteFlagValue_inv)

interpretation sound_settings_store: settings_store Settings_PostgresRepository sound_tables
  by unfold_locales
    (simp_all add: Settings_PostgresRepository_def GetMicroserviceConfigByID_holds
      sound_settings.UpdateMicroserviceConfig_inv sound_settings.CreateMicroserviceConfig_inv
      sound_settings.DeleteMicroserviceConfig_inv sound_settings.CreateMicroservice_inv
      sound_settings.DeleteMicroservice_inv sound_settings.CreateEnvironment_inv
      sound_settings.DeleteEnvironment_inv)

interpretation sound_loc_store: loc_store Loc_PostgresRepository sound_tables
  by unfold_locales
    (simp_all add: Loc_PostgresRepository_def GetLocalizationByID_holds
      sound_loc.UpdateLocalization_inv sound_loc.CreateLocalization_inv sound_loc.DeleteLocalization_inv)

interpretation wf_settings_store: settings_store Settings_PostgresRepository wf_tables
  by unfold_locales
    (simp_all add: Settings_PostgresRepository_def GetMicroserviceConfigByID_holds
      wf_settings.UpdateMicroserviceConfig_inv wf_settings.CreateMicroserviceConfig_inv
      wf_settings.DeleteMicroserviceConfig_inv wf_settings.CreateMicroservice_inv
      wf_settings.DeleteMicroservice_inv wf_settings.CreateEnvironment_inv
      wf_settings.DeleteEnvironment_inv)

interpretation wf_loc_store: loc_store Loc_PostgresRepository wf_tables
  by unfold_locales
    (simp_all add: Loc_PostgresRepository_def GetLocalizationByID_holds
      wf_loc.UpdateLocalization_inv wf_loc.CreateLocalization_inv wf_loc.DeleteLocalization_inv)

lemma holds_calm: "calm db \<Longrightarrow> holds P db \<longleftrightarrow> P (tabs db)"
  by (simp add: holds_def calm_def)

section \<open>Any call of any service\<close>

datatype system_call = FlagsCall flags_call | SettingsCall settings_call | LocCall loc_call

fun system_run :: "'w config_publisher \<Rightarrow> system_call \<Rightarrow> 'w app \<Rightarrow> 'w app" where
  "system_run pub (FlagsCall c) a = snd (flags_run Flags_PostgresRepository pub c a)"
| "system_run pub (SettingsCall c) a = settings_run Settings_PostgresRepository pub c a"
| "system_run pub (LocCall c) a = loc_run Loc_PostgresRepository pub c a"

lemma system_run_holds: "holds sound_tables (app_db a) \<Longrightarrow> holds sound_tables (app_db (system_run pub c a))"
  by (cases c)
    (simp_all add: sound_flag_store.run_call sound_settings_store.run_call sound_loc_store.run_call)

text \<open>
  Property C9. Any history of mutating calls of the three services on one database, interleaved with
  driver failures and with other clients' commits of sound tables, keeps the database sound: keys
  unique, references resolved, every flag key, state and value valid, every settings tree and every
  bundle a JSON object of a publishable size under a valid locale.
\<close>

theorem system_invariant:
  assumes "holds sound_tables (app_db a)"
  shows "holds sound_tables (app_db (fold (system_run pub) cs a))"
  using assms by (induction cs arbitrary: a) (simp_all add: system_run_holds)

lemma demo_tables_sound: "sound_tables demo_tables"
  by (simp add: sound_tables_def demo_tables_wf demo_tables_valid valid_documents_def)
    (simp add: demo_tables_def)

theorem system_invariant_witness:
  "holds sound_tables (app_db (fold (system_run (Publisher mem_js))
      [FlagsCall (UpdateValue demo_update), SettingsCall (RemoveMicroservice 7), LocCall (RemoveBundle 1)]
      demo_app))"
  by (rule system_invariant) (simp add: demo_app_def holds_def demo_tables_sound)

end
