(* ===== verification/System_Bounds.thy ===== *)
theory System_Bounds
  imports System_Invariant
begin

text \<open>
  What a sound database is worth to the distribution plane: every row has a KV key of its own and its
  value fits the buckets. The size of an encoded flag is bounded by the number of runes of its value,
  since one rune takes at most six bytes of JSON.
\<close>

section \<open>The size of an encoded string\<close>

lemma utf8_width_cases: "utf8_width s \<in> {None, Some 1, Some 2, Some 3, Some 4}"
  unfolding utf8_width_def Let_def by simp

lemma utf8_width_le: "utf8_width s = Some w \<Longrightarrow> w \<le> 4"
  using utf8_width_cases [of s] by auto

lemma rune_step_le: "rune_step s \<le> 4"
  by (auto simp: rune_step_def dest: utf8_width_le split: option.splits)

lemma runes_piece_le: "r \<in> set (runes s) \<Longrightarrow> length r \<le> 4"
proof (induction s rule: runes.induct)
  case (1 s)
  then show ?case
    using rune_step_le [of s] by (cases "s = []") (auto simp: runes.simps [of s])
qed

lemma enc_ascii_le: "length (enc_ascii c) \<le> 6"
  unfolding enc_ascii_def by (simp only: if_distrib [of length] list.size) simp

lemma enc_rune_le: "length r \<le> 4 \<Longrightarrow> length (enc_rune r) \<le> 6"
  using enc_ascii_le by (cases r) (simp_all add: enc_rune_def)

lemma length_concat_le:
  "(\<And>x. x \<in> set xs \<Longrightarrow> length (f x) \<le> n) \<Longrightarrow> length (concat (map f xs)) \<le> n * length xs"
proof (induction xs)
  case (Cons x xs)
  then have "length (f x) \<le> n" "length (concat (map f xs)) \<le> n * length xs" by simp_all
  then show ?case by simp
qed simp

lemma json_string_le: "length (json_string s) \<le> 6 * RuneCount s + 2"
proof -
  have "length (enc_contents s) \<le> 6 * length (runes s)"
    unfolding enc_contents_def by (rule length_concat_le) (blast intro: enc_rune_le runes_piece_le)
  then show ?thesis by (simp add: json_string_def RuneCount_def)
qed

lemma bool_json_le: "length (bool_json b) \<le> 5"
  by (simp add: bool_json_def)

lemma Marshal_payload_le:
  "length (Marshal_payload p) \<le> 6 * (RuneCount (fp_Value p) + RuneCount (fp_UpdatedAt p)) + 200"
proof -
  have keys: "length (json_string ''enabled'') \<le> 44" "length (json_string ''value'') \<le> 32"
    "length (json_string ''updatedAt'') \<le> 56"
    using json_string_le [of "''enabled''"] json_string_le [of "''value''"] json_string_le [of "''updatedAt''"]
    by (simp_all add: RuneCount_def runes_ascii is_ascii_def)
  show ?thesis
    using json_string_le [of "fp_Value p"] json_string_le [of "fp_UpdatedAt p"]
      bool_json_le [of "fp_Enabled p"] keys
    by (simp add: Marshal_payload_def json_object_def)
qed

section \<open>Properties\<close>

text \<open>The bytes and the key a stored flag value is published with, at any stamp.\<close>

definition flag_bytes :: "FlagValue \<Rightarrow> string \<Rightarrow> bytes" where
  "flag_bytes r stamp = Marshal_payload
     \<lparr>fp_Enabled = (fv_Enabled r \<noteq> 0), fp_Value = fv_Value r, fp_UpdatedAt = stamp\<rparr>"

definition flag_row_keys :: "tables \<Rightarrow> FlagValue \<Rightarrow> string set" where
  "flag_row_keys t r = {FlagKey (fv_EnvironmentID r) (flag_FlagKey f) | f. f \<in> set (rows (flags t)) \<and> flag_ID f = fv_FlagId r}"

lemma flag_bytes_fit:
  assumes "valid_value r" and "RuneCount stamp \<le> 64"
  shows "length (flag_bytes r stamp) \<le> MaxValueSize"
proof -
  have "RuneCount (fv_Value r) \<le> 4000" using assms(1) by (simp add: valid_value_def)
  with assms(2) Marshal_payload_le
    [of "\<lparr>fp_Enabled = (fv_Enabled r \<noteq> 0), fp_Value = fv_Value r, fp_UpdatedAt = stamp\<rparr>"]
  show ?thesis by (simp add: flag_bytes_def MaxValueSize_def)
qed

lemma flag_row_keys_disjoint:
  assumes wf: "wf_tables t" and r: "r \<in> set (rows (flag_values t))" "r' \<in> set (rows (flag_values t))"
    and k: "k \<in> flag_row_keys t r" "k \<in> flag_row_keys t r'"
  shows "r = r'"
proof -
  from k obtain f f' where f: "f \<in> set (rows (flags t))" "flag_ID f = fv_FlagId r"
    and f': "f' \<in> set (rows (flags t))" "flag_ID f' = fv_FlagId r'"
    and e: "fv_EnvironmentID r = fv_EnvironmentID r'" "flag_FlagKey f = flag_FlagKey f'"
    by (auto simp: flag_row_keys_def)
  have "inj_on flag_FlagKey (set (rows (flags t)))" "inj_on fv_key (set (rows (flag_values t)))"
    using wf by (simp_all add: wf_tables_def keys_ok_def table_ok_def distinct_map)
  with e f f' r show ?thesis by (metis fv_key_def inj_onD)
qed



end
