(* ===== verification/Document_Mirror.thy ===== *)
theory Document_Mirror
  imports System_Invariant Sweep_Convergence
begin

text \<open>
  The write-through of settings trees and bundles keeps a bucket equal to the table: a row that is
  created is written under its key, a row that moves is written under the new key and purged under the
  old one, a removed row is purged. Publishes are counted when they fail, and the statements are about
  calls that did not move the counters, on a server nobody else writes.
\<close>

section \<open>The key-value map a table wants\<close>

definition desired_of :: "('r \<Rightarrow> string) \<Rightarrow> ('r \<Rightarrow> bytes) \<Rightarrow> 'r list \<Rightarrow> string \<rightharpoonup> bytes" where
  "desired_of key doc rs = map_of (map (\<lambda>r. (key r, doc r)) rs)"

lemma desired_of_Some:
  assumes "distinct (map key rs)"
  shows "desired_of key doc rs k = Some d \<longleftrightarrow> (\<exists>r \<in> set rs. key r = k \<and> doc r = d)"
proof -
  have "distinct (map fst (map (\<lambda>r. (key r, doc r)) rs))" using assms by (simp add: comp_def)
  then show ?thesis by (auto simp: desired_of_def map_of_eq_Some_iff simp del: map_map)
qed

lemma desired_ext:
  assumes "distinct (map key rs)" and "\<And>k d. m k = Some d \<longleftrightarrow> (\<exists>r \<in> set rs. key r = k \<and> doc r = d)"
  shows "desired_of key doc rs = m"
proof
  fix k
  have "desired_of key doc rs k = Some d \<longleftrightarrow> m k = Some d" for d
    using desired_of_Some [OF assms(1)] assms(2) by simp
  then show "desired_of key doc rs k = m k" by (metis not_None_eq)
qed

lemma desired_append:
  "distinct (map key (rs @ [r])) \<Longrightarrow>
   desired_of key doc (rs @ [r]) = (desired_of key doc rs)(key r \<mapsto> doc r)"
  by (rule desired_ext) (auto simp: desired_of_Some image_iff)

lemma desired_remove:
  assumes "distinct (map key rs)" and "distinct (map pk rs)" and "r \<in> set rs"
  shows "desired_of key doc (filter (\<lambda>x. pk x \<noteq> pk r) rs) = (desired_of key doc rs)(key r := None)"
proof (rule desired_ext)
  show "distinct (map key (filter (\<lambda>x. pk x \<noteq> pk r) rs))"
    using assms(1) by (simp add: distinct_map_filter)
  have "key x = key r \<longleftrightarrow> pk x = pk r" if "x \<in> set rs" for x
    using that assms by (metis distinct_map_inj)
  then show "((desired_of key doc rs)(key r := None)) k = Some d
      \<longleftrightarrow> (\<exists>r \<in> set (filter (\<lambda>x. pk x \<noteq> pk r) rs). key r = k \<and> doc r = d)" for k d
    using desired_of_Some [OF assms(1), of doc k d] by auto
qed

lemma desired_replace:
  assumes "distinct (map key rs)" and "distinct (map pk rs)" and r: "r \<in> set rs"
    and d: "distinct (map key (map (\<lambda>x. if pk x = pk r then f x else x) rs))"
  shows "desired_of key doc (map (\<lambda>x. if pk x = pk r then f x else x) rs)
    = (desired_of key doc rs)(key r := None, key (f r) \<mapsto> doc (f r))"
proof (rule desired_ext [OF d])
  have r_iff: "key x = key r \<longleftrightarrow> x = r" "pk x = pk r \<longleftrightarrow> x = r" if "x \<in> set rs" for x
    using that assms(1,2) r by (metis distinct_map_inj)+
  have new: "key x \<noteq> key (f r)" if "x \<in> set rs" "x \<noteq> r" for x
  proof
    assume e: "key x = key (f r)"
    let ?g = "\<lambda>x. if pk x = pk r then f x else x"
    have "inj_on (key \<circ> ?g) (set rs)" using d by (simp add: distinct_map)
    moreover have "(key \<circ> ?g) x = (key \<circ> ?g) r" using that r_iff(2) [OF that(1)] e by simp
    ultimately have "x = r" using that(1) r by (rule inj_onD)
    with that(2) show False by blast
  qed
  show "((desired_of key doc rs)(key r := None, key (f r) \<mapsto> doc (f r))) k = Some dd
      \<longleftrightarrow> (\<exists>y \<in> set (map (\<lambda>x. if pk x = pk r then f x else x) rs). key y = k \<and> doc y = dd)" for k dd
    using desired_of_Some [OF assms(1), of doc k dd] r r_iff new by (auto split: if_splits)
qed

section \<open>Raw publishes and purges on a quiet server\<close>

definition kv_errors :: "string \<Rightarrow> ('h, 'w) plane \<Rightarrow> int" where
  "kv_errors bucket p = publish_failures bucket p + delete_failures bucket p"

definition mirrors :: "('h, 'w) kv_view \<Rightarrow> 'h \<Rightarrow> (string \<rightharpoonup> bytes) \<Rightarrow> 'w \<Rightarrow> bool" where
  "mirrors view kv m w \<longleftrightarrow> (\<forall>k. map_option fst (view w kv k) = m k)"

text \<open>
  One call of the publisher that changes the wanted map by \<open>f\<close>: handles stay, errors only accumulate,
  and without a new error a bucket that mirrored a map mirrors the changed one.
\<close>

definition plane_step ::
  "('h, 'w) kv_view \<Rightarrow> string \<Rightarrow> 'h \<Rightarrow> ((string \<rightharpoonup> bytes) \<Rightarrow> (string \<rightharpoonup> bytes))
     \<Rightarrow> ('h, 'w) plane \<Rightarrow> ('h, 'w) plane \<Rightarrow> bool" where
  "plane_step view bucket kv f p p' \<longleftrightarrow> pl_buckets p' = pl_buckets p
     \<and> kv_errors bucket p \<le> kv_errors bucket p'
     \<and> (kv_errors bucket p' = kv_errors bucket p \<longrightarrow>
          (\<forall>m. mirrors view kv m (pl_net p) \<longrightarrow> mirrors view kv (f m) (pl_net p')))"

lemma plane_step_refl: "plane_step view bucket kv (\<lambda>m. m) p p"
  by (simp add: plane_step_def)

lemma plane_step_trans:
  "plane_step view bucket kv f p q \<Longrightarrow> plane_step view bucket kv g q r
   \<Longrightarrow> plane_step view bucket kv (\<lambda>m. g (f m)) p r"
  by (auto simp: plane_step_def)

lemma observePublish_delete_failures:
  "observePublish bucket (r, p) = (r', p') \<Longrightarrow> delete_failures b p' = delete_failures b p"
  by (auto simp: observePublish_def on_metrics_def Let_def delete_failures_def kv_instruments
      split: sum.splits bool.splits)

lemma observePublish_plane:
  "observePublish bucket (r, p) = (r', p') \<Longrightarrow>
     pl_buckets p' = pl_buckets p \<and> pl_net p' = pl_net p \<and> (isl r' \<longleftrightarrow> isl r)"
  by (auto simp: observePublish_def on_metrics_def Let_def split: sum.splits bool.splits)

lemma raw_publish_value:
  assumes laws: "kv_laws js view rely" and q: "quiet view rely"
    and run: "publish js kv bucket key (raw v) w = (Inr s, w')"
  shows "\<exists>r. view w' kv key = Some (v, r)"
proof -
  have "\<exists>wm v' r. view wm kv key = Some (v', r) \<and> v' = v \<and> rely wm w'"
    using publish_raw_point [OF laws run] by (rule publish_point_value) (auto simp: raw_def)
  with q show ?thesis by (metis quiet_def)
qed

lemma raw_publish_step:
  assumes laws: "kv_laws js view rely" and q: "quiet view rely"
    and b: "byName bucket (pl_buckets p) = Inr kv"
    and run: "observePublish bucket (with_bucket bucket (\<lambda>kv. publish js kv bucket key (raw v)) p) = (res, p')"
  shows "plane_step view bucket kv (\<lambda>m. m(key \<mapsto> v)) p p'"
proof -
  obtain r w where pub: "publish js kv bucket key (raw v) (pl_net p) = (r, w)" by fastforce
  have run': "observePublish bucket (r, p\<lparr>pl_net := w\<rparr>) = (res, p')"
    using run b pub by (simp add: with_bucket_def on_net_def)
  note pl = observePublish_plane [OF run'] and pf = observePublish_failures [OF run']
    and df = observePublish_delete_failures [OF run', of bucket]
  have errs: "kv_errors bucket p' = kv_errors bucket p + (if isl res then 1 else 0)"
    using pf df by (simp add: kv_errors_def publish_failures_def delete_failures_def)
  have "mirrors view kv (m(key \<mapsto> v)) w" if m: "mirrors view kv m (pl_net p)" and ok: "\<not> isl r" for m
  proof -
    obtain s where s: "r = Inr s" using ok by (cases r) auto
    obtain rv where "view w kv key = Some (v, rv)" using raw_publish_value [OF laws q pub [unfolded s]] by blast
    moreover have "view w kv k = view (pl_net p) kv k" if "k \<noteq> key" for k
      using publish_loop_quiet [OF laws q raw_clock_only [OF laws] pub [unfolded publish_def]] that by blast
    ultimately show ?thesis using m by (simp add: mirrors_def)
  qed
  with errs pl show ?thesis by (auto simp: plane_step_def split: if_splits)
qed

lemma DeleteKey_step:
  assumes laws: "kv_laws js view rely" and q: "quiet view rely"
    and b: "byName bucket (pl_buckets p) = Inr kv"
    and run: "DeleteKey (Publisher js) bucket key p = (res, p')"
  shows "plane_step view bucket kv (\<lambda>m. m(key := None)) p p'"
proof -
  note d = DeleteKey_quiet [OF laws q b run]
  have "publish_failures bucket p' = publish_failures bucket p"
    using run with_bucket_metrics [of bucket "purge_key js bucket key" p]
    by (auto simp: Publisher_def delete_key_def publish_failures_def on_metrics_def kv_instruments
        split: prod.splits sum.splits)
  with d(4,5) have errs: "kv_errors bucket p \<le> kv_errors bucket p'"
    "kv_errors bucket p' = kv_errors bucket p \<Longrightarrow> \<not> isl res"
    by (auto simp: kv_errors_def delete_failures_def)
  have "mirrors view kv (m(key := None)) (pl_net p')"
    if "mirrors view kv m (pl_net p)" "\<not> isl res" for m
    using that d(2) [of kv] d(3) by (simp add: mirrors_def)
  with errs d(1) show ?thesis by (auto simp: plane_step_def)
qed

section \<open>A service and its bucket\<close>

definition mirror_step ::
  "('h, 'w) kv_view \<Rightarrow> string \<Rightarrow> 'h \<Rightarrow> (tables \<Rightarrow> (string \<rightharpoonup> bytes))
     \<Rightarrow> ('h, 'w) plane app \<Rightarrow> ('h, 'w) plane app \<Rightarrow> bool" where
  "mirror_step view bucket kv want a a' \<longleftrightarrow> calm (app_db a') \<and> wf_tables (tabs (app_db a'))
     \<and> (\<exists>f. plane_step view bucket kv f (app_pub a) (app_pub a')
          \<and> want (tabs (app_db a')) = f (want (tabs (app_db a))))"

lemma mirror_stepI:
  "calm (app_db a') \<Longrightarrow> wf_tables (tabs (app_db a')) \<Longrightarrow> plane_step view bucket kv f (app_pub a) (app_pub a')
   \<Longrightarrow> want (tabs (app_db a')) = f (want (tabs (app_db a))) \<Longrightarrow> mirror_step view bucket kv want a a'"
  by (auto simp: mirror_step_def)

lemma mirror_step_same:
  "calm (app_db a') \<Longrightarrow> wf_tables (tabs (app_db a')) \<Longrightarrow> app_pub a' = app_pub a
   \<Longrightarrow> want (tabs (app_db a')) = want (tabs (app_db a)) \<Longrightarrow> mirror_step view bucket kv want a a'"
  by (rule mirror_stepI [where f = "\<lambda>m. m"]) (simp_all add: plane_step_refl)

lemma mirror_step_trans:
  assumes "mirror_step view bucket kv want a b" and "mirror_step view bucket kv want b c"
  shows "mirror_step view bucket kv want a c"
  using assms by (auto simp: mirror_step_def intro: plane_step_trans)

text \<open>A history of steps keeps the mirror, unless a failure was counted.\<close>

lemma mirror_steps:
  assumes step: "\<And>c a. calm (app_db a) \<Longrightarrow> wf_tables (tabs (app_db a))
      \<Longrightarrow> byName bucket (pl_buckets (app_pub a)) = Inr kv \<Longrightarrow> mirror_step view bucket kv want a (run c a)"
    and start: "calm (app_db a)" "wf_tables (tabs (app_db a))" "byName bucket (pl_buckets (app_pub a)) = Inr kv"
  shows "mirror_step view bucket kv want a (fold run cs a)"
  using start
proof (induction cs arbitrary: a)
  case Nil
  then show ?case by (simp add: mirror_step_same)
next
  case (Cons c cs)
  have s: "mirror_step view bucket kv want a (run c a)" using Cons.prems by (rule step)
  then have "mirror_step view bucket kv want (run c a) (fold run cs (run c a))"
    using Cons.prems(3) by (intro Cons.IH) (auto simp: mirror_step_def plane_step_def)
  with s show ?case using mirror_step_trans by fastforce
qed

lemma mirror_step_mirrors:
  assumes "mirror_step view bucket kv want a a'"
    and "mirrors view kv (want (tabs (app_db a))) (pl_net (app_pub a))"
    and "kv_errors bucket (app_pub a') = kv_errors bucket (app_pub a)"
  shows "mirrors view kv (want (tabs (app_db a'))) (pl_net (app_pub a'))"
  using assms by (auto simp: mirror_step_def plane_step_def)

text \<open>
  The three outcomes of a write that is let through: refused by the database, a row published under its
  key, a row purged; a moved row is published first and purged under its old key second. \<open>pub\<close> and
  \<open>purge\<close> are the service's best-effort calls.
\<close>

definition move_purge ::
  "('r \<Rightarrow> string) \<Rightarrow> (string \<Rightarrow> 'w app \<Rightarrow> 'w app) \<Rightarrow> 'r \<Rightarrow> 'r \<Rightarrow> 'w app \<Rightarrow> 'w app" where
  "move_purge key purge p u a = (if key p = key u then a else purge (key p) a)"

definition publishes ::
  "('h, 'w) kv_view \<Rightarrow> string \<Rightarrow> 'h \<Rightarrow> ('r \<Rightarrow> string) \<Rightarrow> ('r \<Rightarrow> bytes)
     \<Rightarrow> ('r \<Rightarrow> ('h, 'w) plane app \<Rightarrow> ('h, 'w) plane app)
     \<Rightarrow> (string \<Rightarrow> ('h, 'w) plane app \<Rightarrow> ('h, 'w) plane app) \<Rightarrow> bool" where
  "publishes view bucket kv key doc pub purge \<longleftrightarrow>
     (\<forall>v a. byName bucket (pl_buckets (app_pub a)) = Inr kv \<longrightarrow> app_db (pub v a) = app_db a
        \<and> plane_step view bucket kv (\<lambda>m. m(key v \<mapsto> doc v)) (app_pub a) (app_pub (pub v a)))
     \<and> (\<forall>k a. byName bucket (pl_buckets (app_pub a)) = Inr kv \<longrightarrow> app_db (purge k a) = app_db a
        \<and> plane_step view bucket kv (\<lambda>m. m(k := None)) (app_pub a) (app_pub (purge k a)))"

lemma publishesD:
  assumes "publishes view bucket kv key doc pub purge" and "byName bucket (pl_buckets (app_pub a)) = Inr kv"
  shows "app_db (pub v a) = app_db a"
    "plane_step view bucket kv (\<lambda>m. m(key v \<mapsto> doc v)) (app_pub a) (app_pub (pub v a))"
    "app_db (purge k a) = app_db a"
    "plane_step view bucket kv (\<lambda>m. m(k := None)) (app_pub a) (app_pub (purge k a))"
  using assms by (simp_all add: publishes_def)

lemma move_outcome:
  assumes p: "publishes view bucket kv key doc pub purge"
    and b: "byName bucket (pl_buckets (app_pub a)) = Inr kv"
  shows "app_db (move_purge key purge old v (pub v a)) = app_db a"
    "plane_step view bucket kv (\<lambda>m. m(key old := None, key v \<mapsto> doc v)) (app_pub a)
      (app_pub (move_purge key purge old v (pub v a)))"
proof -
  have put: "app_db (pub v a) = app_db a"
    "plane_step view bucket kv (\<lambda>m. m(key v \<mapsto> doc v)) (app_pub a) (app_pub (pub v a))"
    using p b by (simp_all add: publishes_def)
  then have b1: "byName bucket (pl_buckets (app_pub (pub v a))) = Inr kv"
    using b by (simp add: plane_step_def)
  then have purge: "app_db (purge k (pub v a)) = app_db (pub v a)"
    "plane_step view bucket kv (\<lambda>m. m(k := None)) (app_pub (pub v a)) (app_pub (purge k (pub v a)))" for k
    using p by (simp_all add: publishes_def)
  show "app_db (move_purge key purge old v (pub v a)) = app_db a"
    using put(1) purge(1) by (simp add: move_purge_def)
  show "plane_step view bucket kv (\<lambda>m. m(key old := None, key v \<mapsto> doc v)) (app_pub a)
      (app_pub (move_purge key purge old v (pub v a)))"
  proof (cases "key old = key v")
    case True
    with put(2) show ?thesis by (simp add: move_purge_def)
  next
    case False
    then have swap: "(\<lambda>m. m(key old := None, key v \<mapsto> doc v)) = (\<lambda>m. m(key v \<mapsto> doc v, key old := None))"
      by (simp add: fun_upd_twist)
    show ?thesis
      unfolding swap using plane_step_trans [OF put(2) purge(2) [of "key old"]] False
      by (simp add: move_purge_def)
  qed
qed

lemma write_outcome:
  assumes p: "publishes view bucket kv key doc pub purge"
    and b: "byName bucket (pl_buckets (app_pub a)) = Inr kv"
    and db: "calm (app_db a)" "wf_tables (tabs (app_db a))" and wf': "wf_tables (tabs (app_db a'))"
    and out: "a' = a
      \<or> (\<exists>db'. a' = a\<lparr>app_db := db'\<rparr> \<and> calm db' \<and> want (tabs db') = want (tabs (app_db a)))
      \<or> (\<exists>v db'. a' = pub v (a\<lparr>app_db := db'\<rparr>) \<and> calm db'
            \<and> want (tabs db') = (want (tabs (app_db a)))(key v \<mapsto> doc v))
      \<or> (\<exists>old v db'. a' = move_purge key purge old v (pub v (a\<lparr>app_db := db'\<rparr>)) \<and> calm db'
            \<and> want (tabs db') = (want (tabs (app_db a)))(key old := None, key v \<mapsto> doc v))
      \<or> (\<exists>k db'. a' = purge k (a\<lparr>app_db := db'\<rparr>) \<and> calm db'
            \<and> want (tabs db') = (want (tabs (app_db a)))(k := None))"
  shows "mirror_step view bucket kv want a a'"
proof -
  have b': "byName bucket (pl_buckets (app_pub (a\<lparr>app_db := db'\<rparr>))) = Inr kv" for db' using b by simp
  consider "a' = a"
    | db' where "a' = a\<lparr>app_db := db'\<rparr>" "calm db'" "want (tabs db') = want (tabs (app_db a))"
    | v db' where "a' = pub v (a\<lparr>app_db := db'\<rparr>)" "calm db'"
        "want (tabs db') = (want (tabs (app_db a)))(key v \<mapsto> doc v)"
    | old v db' where "a' = move_purge key purge old v (pub v (a\<lparr>app_db := db'\<rparr>))" "calm db'"
        "want (tabs db') = (want (tabs (app_db a)))(key old := None, key v \<mapsto> doc v)"
    | k db' where "a' = purge k (a\<lparr>app_db := db'\<rparr>)" "calm db'"
        "want (tabs db') = (want (tabs (app_db a)))(k := None)"
    using out by blast
  then show ?thesis
  proof cases
    case 1
    with db show ?thesis by (simp add: mirror_step_same)
  next
    case (2 db')
    with wf' show ?thesis by (intro mirror_step_same) simp_all
  next
    case (3 v db')
    then show ?thesis
      using publishesD(1,2) [OF p b' [of db'], of v] wf'
      by (intro mirror_stepI [where f = "\<lambda>m. m(key v \<mapsto> doc v)"]) simp_all
  next
    case (4 old v db')
    then show ?thesis
      using move_outcome [OF p b' [of db'], of old v] wf'
      by (intro mirror_stepI [where f = "\<lambda>m. m(key old := None, key v \<mapsto> doc v)"]) simp_all
  next
    case (5 k db')
    then show ?thesis
      using publishesD(3,4) [OF p b' [of db'], of k] wf'
      by (intro mirror_stepI [where f = "\<lambda>m. m(k := None)"]) simp_all
  qed
qed

section \<open>An update of one row\<close>

lemma table_update_row:
  assumes pk: "distinct (map pk (rows T))" and P: "\<And>x. P x \<Longrightarrow> pk x = i"
    and run: "table_update uk P f T = (Inr n, T')" and n: "n \<noteq> 0"
  obtains r where "r \<in> set (rows T)" "pk r = i" "P r"
    "rows T' = map (\<lambda>x. if pk x = pk r then f x else x) (rows T)"
proof -
  have n': "n = length (filter P (rows T))" and T': "rows T' = map (\<lambda>r. if P r then f r else r) (rows T)"
    using run by (auto simp: table_update_def Let_def split: if_splits)
  from n n' obtain r where r: "r \<in> set (rows T)" "P r" by (auto simp: filter_empty_conv)
  have "P x \<longleftrightarrow> pk x = pk r" if "x \<in> set (rows T)" for x
    using that r P pk by (metis distinct_map_inj)
  with T' have "rows T' = map (\<lambda>x. if pk x = pk r then f x else x) (rows T)"
    by (simp cong: map_cong)
  with r P show thesis by (intro that [of r]) simp_all
qed

lemma table_update_none:
  "table_update uk P f T = (Inr 0, T') \<Longrightarrow> rows T' = rows T"
  by (auto simp: table_update_def Let_def filter_empty_conv map_idI split: if_splits)

section \<open>The empty document\<close>

lemma check_document_empty: "check_document large malformed ''{}'' = Inr ()"
proof -
  have "scan_value (Suc 5) d ''{}'' = Some []" if "0 < d" for d
    using that by (simp add: is_ws_def del: Suc_numeral)
  from this [of max_nesting] have "scan_value 6 max_nesting ''{}'' = Some []" by (simp add: max_nesting_def)
  then show ?thesis
    by (simp add: check_document_def MaxValueSize_def json_Valid_def Let_def
        scan_fuel_def is_ws_def skip_ws_def)
qed

end
