(* ===== verification/Settings_Mirror.thy ===== *)
theory Settings_Mirror
  imports Document_Mirror
begin

text \<open>
  The settings service against the bucket: what each repository write does to the key-value map the
  appsettings table wants, on a calm well-formed database, and the service's publishes and purges
  doing the same to the bucket.
\<close>

definition settings_want :: "tables \<Rightarrow> string \<rightharpoonup> bytes" where
  "settings_want t = desired_of settings_key as_SettingsJSON (rows (appsettings t))"

lemma settings_keys_distinct:
  assumes "wf_tables t"
  shows "distinct (map settings_key (rows (appsettings t)))" "distinct (map as_ID (rows (appsettings t)))"
proof -
  have ok: "distinct (map as_ID (rows (appsettings t)))" "distinct (map as_key (rows (appsettings t)))"
    using assms by (simp_all add: wf_tables_def keys_ok_def table_ok_def)
  then have "inj_on settings_key (set (rows (appsettings t)))"
    by (auto simp: distinct_map inj_on_def settings_key_def as_key_def)
  with ok show "distinct (map settings_key (rows (appsettings t)))" "distinct (map as_ID (rows (appsettings t)))"
    by (simp_all add: distinct_map)
qed

lemma GetConfig_calm:
  "calm db \<Longrightarrow> GetMicroserviceConfigByID i db = (case find_row (\<lambda>r. as_ID r = i) (appsettings (tabs db)) of
     None \<Rightarrow> (Inl ErrConfigNotFound, db) | Some r \<Rightarrow> (Inr r, db))"
  by (auto simp: GetMicroserviceConfigByID_def settings_row_def settings_wrap_def split: option.splits)

lemma checkAppSettingsRefs_calm: "calm db \<Longrightarrow> snd (checkAppSettingsRefs input db) = db"
  by (simp add: checkAppSettingsRefs_def settings_count_def settings_wrap_def)

lemma settings_noRows_calm: "calm db \<Longrightarrow> snd (settings_noRowsErr input db) = db"
  by (auto simp: settings_noRowsErr_def GetConfig_calm split: option.splits)

lemma update_as_rows:
  assumes wf: "wf_tables t" and st: "update_as_stmt input now t = (Inr n, t')" and n: "n \<noteq> 0"
  obtains r where "r \<in> set (rows (appsettings t))" "as_ID r = as_ID input"
    "rows (appsettings t') = map (\<lambda>x. if as_ID x = as_ID r then as_write input now x else x) (rows (appsettings t))"
proof -
  obtain T where T: "table_update as_key (as_matches input) (as_write input now) (appsettings t) = (Inr n, T)"
    "t' = t\<lparr>appsettings := T\<rparr>"
    using st by (auto simp: update_as_stmt_def split: prod.splits sum.splits if_splits)
  show thesis
    using table_update_row [OF settings_keys_distinct(2) [OF wf] _ T(1) n, of "as_ID input"] that T(2)
    by (auto simp: as_matches_def)
qed

lemma update_as_same:
  "update_as_stmt input now t = (res, t') \<Longrightarrow> isl res \<or> res = Inr 0 \<Longrightarrow> settings_want t' = settings_want t"
  by (auto simp: update_as_stmt_def table_update_def Let_def settings_want_def filter_empty_conv
      map_idI split: if_splits)

lemma settings_update_db:
  assumes db: "calm db" "wf_tables (tabs db)"
    and prev: "find_row (\<lambda>r. as_ID r = as_ID input) (appsettings (tabs db)) = Some p"
    and run: "UpdateMicroserviceConfig input db = (res, db')"
  shows "calm db'" "isl res \<Longrightarrow> settings_want (tabs db') = settings_want (tabs db)"
    "res = Inr u \<Longrightarrow> settings_want (tabs db')
        = (settings_want (tabs db))(settings_key p := None, settings_key u \<mapsto> as_SettingsJSON u)"
proof -
  let ?t = "tabs db"
  obtain st t' where st: "update_as_stmt input (clock db) ?t = (st, t')" by fastforce
  have ex: "exec (update_as_stmt input) db = (st, db\<lparr>tabs := t'\<rparr>)" using st by (simp add: exec_calm [OF db(1)])
  have calm': "calm (db\<lparr>tabs := t'\<rparr>)" using db(1) by (simp add: calm_def)
  have wf': "wf_tables t'" using update_as_wf [of input] db(2) st by (metis keeps_def snd_conv)
  obtain c where c: "checkAppSettingsRefs input db = (c, db)"
    using checkAppSettingsRefs_calm [OF db(1), of input] by (metis prod.collapse)
  consider (refused) "isl c" | (failed) "\<not> isl c" "isl st" | (none) "\<not> isl c" "st = Inr 0"
    | (wrote) n where "\<not> isl c" "st = Inr n" "n \<noteq> 0"
    by (metis sum.collapse(2))
  then have *: "calm db' \<and> (isl res \<longrightarrow> settings_want (tabs db') = settings_want ?t)
    \<and> (\<forall>u. res = Inr u \<longrightarrow> settings_want (tabs db')
        = (settings_want ?t)(settings_key p := None, settings_key u \<mapsto> as_SettingsJSON u))"
  proof cases
    case refused
    with run c db show ?thesis by (cases c) (auto simp: UpdateMicroserviceConfig_def)
  next
    case failed
    with run c ex update_as_same [OF st] calm' show ?thesis
      by (cases c; cases st) (auto simp: UpdateMicroserviceConfig_def settings_unique_def)
  next
    case none
    with run c ex update_as_same [OF st] calm' settings_noRows_calm [OF calm', of input] show ?thesis
      by (cases c) (auto simp: UpdateMicroserviceConfig_def settings_unique_def split: prod.splits)
  next
    case (wrote n)
    obtain r where r: "r \<in> set (rows (appsettings ?t))" "as_ID r = as_ID input"
      and rows: "rows (appsettings t') =
        map (\<lambda>x. if as_ID x = as_ID r then as_write input (clock db) x else x) (rows (appsettings ?t))"
      using update_as_rows [OF db(2) st [unfolded wrote(2)] wrote(3)] .
    note d = settings_keys_distinct [OF db(2)] and d' = settings_keys_distinct [OF wf']
    have p: "p = r" using find_row_unique [OF d(2) r] prev by simp
    let ?u = "as_write input (clock db) r"
    have "?u \<in> set (rows (appsettings t'))" using rows r(1) by auto
    then have "find_row (\<lambda>r. as_ID r = as_ID input) (appsettings t') = Some ?u"
      using d'(2) r(2) by (intro find_row_unique) (simp_all add: as_write_def)
    with run c ex wrote calm' have "res = Inr ?u" "db' = db\<lparr>tabs := t'\<rparr>"
      by (cases c; simp add: UpdateMicroserviceConfig_def settings_unique_def GetConfig_calm)+
    moreover have "settings_want t' = (settings_want ?t)(settings_key r := None, settings_key ?u \<mapsto> as_SettingsJSON ?u)"
      unfolding settings_want_def rows
      by (rule desired_replace [OF d r(1)]) (use d'(1) rows in simp)
    ultimately show ?thesis using calm' p by simp
  qed
  from * show "calm db'" by blast
  from * show "isl res \<Longrightarrow> settings_want (tabs db') = settings_want (tabs db)" by blast
  from * show "res = Inr u \<Longrightarrow> settings_want (tabs db')
        = (settings_want (tabs db))(settings_key p := None, settings_key u \<mapsto> as_SettingsJSON u)" by blast
qed

lemma insert_as_want:
  assumes wf: "wf_tables t" and st: "insert_as_stmt input now t = (res, t')"
  shows "isl res \<Longrightarrow> settings_want t' = settings_want t"
    "\<not> isl res \<Longrightarrow> settings_want t' = (settings_want t)(settings_key input \<mapsto> as_SettingsJSON input)"
    "\<not> isl res \<Longrightarrow> \<exists>r \<in> set (rows (appsettings t')). settings_key r = settings_key input
        \<and> as_SettingsJSON r = as_SettingsJSON input"
proof -
  let ?r = "\<lparr>as_ID = seq (appsettings t), as_MicroserviceID = as_MicroserviceID input,
             as_EnvironmentID = as_EnvironmentID input, as_SettingsJSON = as_SettingsJSON input,
             as_UpdatedAt = now, as_ExpectedUpdatedAt = None\<rparr>"
  show "isl res \<Longrightarrow> settings_want t' = settings_want t"
    using st by (auto simp: insert_as_stmt_def table_insert_def Let_def settings_want_def split: if_splits)
  assume ok: "\<not> isl res"
  have rows: "rows (appsettings t') = rows (appsettings t) @ [?r]"
    using st ok by (auto simp: insert_as_stmt_def table_insert_def Let_def split: if_splits)
  have wf': "wf_tables t'" using insert_as_wf [of input] wf st by (metis keeps_def snd_conv)
  have key: "settings_key ?r = settings_key input" by (simp add: settings_key_def)
  show "settings_want t' = (settings_want t)(settings_key input \<mapsto> as_SettingsJSON input)"
    using settings_keys_distinct(1) [OF wf'] key unfolding settings_want_def rows
    by (simp add: desired_append)
  show "\<exists>r \<in> set (rows (appsettings t')). settings_key r = settings_key input
        \<and> as_SettingsJSON r = as_SettingsJSON input"
    unfolding rows using key by (intro bexI [of _ ?r]) simp_all
qed

lemma settings_create_db:
  assumes db: "calm db" "wf_tables (tabs db)" and run: "CreateMicroserviceConfig input db = (res, db')"
  shows "calm db'" "isl res \<Longrightarrow> settings_want (tabs db') = settings_want (tabs db)"
    "res = Inr u \<Longrightarrow> settings_want (tabs db')
        = (settings_want (tabs db))(settings_key u \<mapsto> as_SettingsJSON u)"
proof -
  let ?t = "tabs db"
  obtain st t' where st: "insert_as_stmt input (clock db) ?t = (st, t')" by fastforce
  have ex: "exec (insert_as_stmt input) db = (st, db\<lparr>tabs := t'\<rparr>)" using st by (simp add: exec_calm [OF db(1)])
  have calm': "calm (db\<lparr>tabs := t'\<rparr>)" using db(1) by (simp add: calm_def)
  have wf': "wf_tables t'" using insert_as_wf [of input] db(2) st by (metis keeps_def snd_conv)
  obtain c where c: "checkAppSettingsRefs input db = (c, db)"
    using checkAppSettingsRefs_calm [OF db(1), of input] by (metis prod.collapse)
  have *: "calm db' \<and> (isl res \<longrightarrow> settings_want (tabs db') = settings_want ?t)
    \<and> (\<forall>u. res = Inr u \<longrightarrow> settings_want (tabs db')
        = (settings_want ?t)(settings_key u \<mapsto> as_SettingsJSON u))"
  proof (cases "isl c \<or> isl st")
    case True
    with run c ex insert_as_want(1) [OF db(2) st] calm' db(1) show ?thesis
      by (cases c; cases st) (auto simp: CreateMicroserviceConfig_def settings_unique_def)
  next
    case False
    then obtain r where r: "r \<in> set (rows (appsettings t'))" "settings_key r = settings_key input"
        "as_SettingsJSON r = as_SettingsJSON input"
      using insert_as_want(3) [OF db(2) st] by blast
    have same: "as_MicroserviceID x = as_MicroserviceID input \<and> as_EnvironmentID x = as_EnvironmentID input
        \<longleftrightarrow> settings_key x = settings_key input" for x
      by (auto simp: settings_key_def)
    have "find_row (\<lambda>x. settings_key x = settings_key input) (appsettings t') = Some r"
      by (rule find_row_unique [OF settings_keys_distinct(1) [OF wf'] r(1,2)])
    with run c ex False calm' have "res = Inr r" "db' = db\<lparr>tabs := t'\<rparr>"
      by (cases c; cases st; simp add: CreateMicroserviceConfig_def settings_unique_def
          getConfigByServiceAndEnv_def settings_row_def settings_wrap_def same)+
    with insert_as_want(2) [OF db(2) st] False r calm' show ?thesis by simp
  qed
  from * show "calm db'" by blast
  from * show "isl res \<Longrightarrow> settings_want (tabs db') = settings_want (tabs db)" by blast
  from * show "res = Inr u \<Longrightarrow> settings_want (tabs db')
        = (settings_want (tabs db))(settings_key u \<mapsto> as_SettingsJSON u)" by blast
qed

lemma settings_delete_db:
  assumes db: "calm db" "wf_tables (tabs db)" and run: "DeleteMicroserviceConfig i db = (res, db')"
  shows "calm db'" "isl res \<Longrightarrow> settings_want (tabs db') = settings_want (tabs db)"
    "res = Inr u \<Longrightarrow> settings_want (tabs db') = (settings_want (tabs db))(settings_key u := None)"
proof -
  let ?t = "tabs db" and ?rs = "rows (appsettings (tabs db))"
  note d = settings_keys_distinct [OF db(2)]
  have *: "calm db' \<and> (isl res \<longrightarrow> settings_want (tabs db') = settings_want ?t)
    \<and> (\<forall>u. res = Inr u \<longrightarrow> settings_want (tabs db') = (settings_want ?t)(settings_key u := None))"
  proof (cases "find_row (\<lambda>r. as_ID r = i) (appsettings ?t)")
    case None
    with run db(1) show ?thesis by (auto simp: DeleteMicroserviceConfig_def GetConfig_calm)
  next
    case (Some r)
    then have r: "r \<in> set ?rs" "as_ID r = i" by (auto dest: find_row_SomeD)
    then have "filter (\<lambda>r. as_ID r = i) ?rs \<noteq> []" by (auto simp: filter_empty_conv)
    with run Some db(1) have "res = Inr r"
      and db': "db' = db\<lparr>tabs := ?t\<lparr>appsettings := (appsettings ?t)\<lparr>rows := filter (\<lambda>x. as_ID x \<noteq> as_ID r) ?rs\<rparr>\<rparr>\<rparr>"
      using r(2) by (auto simp: DeleteMicroserviceConfig_def GetConfig_calm exec_calm settings_wrap_def
          delete_as_stmt_def table_delete_def)
    moreover have "calm db'" using db(1) db' by (simp add: calm_def)
    ultimately show ?thesis using desired_remove [OF d r(1)] by (simp add: settings_want_def)
  qed
  from * show "calm db'" by blast
  from * show "isl res \<Longrightarrow> settings_want (tabs db') = settings_want (tabs db)" by blast
  from * show "res = Inr u \<Longrightarrow> settings_want (tabs db') = (settings_want (tabs db))(settings_key u := None)"
    by blast
qed

section \<open>Reference rows\<close>

interpretation keep_settings: reference_invariant "\<lambda>t. appsettings t = T" for T
  using reference_stmts_same by unfold_locales (simp_all add: keeps_def same_documents_def)

lemma reference_calm:
  assumes "calm db"
  shows "calm (snd (CreateMicroservice n db))" "calm (snd (DeleteMicroservice i db))"
    "calm (snd (CreateEnvironment n db))" "calm (snd (DeleteEnvironment i db))"
  using assms
  by (auto simp: CreateMicroservice_def DeleteMicroservice_def CreateEnvironment_def DeleteEnvironment_def
      settings_count_def settings_wrap_def settings_unique_def settings_row_def bindE_def mapErr_def
      exec_calm calm_def query_def begin_stmt.simps split: prod.splits sum.splits option.splits)

section \<open>The service and its bucket\<close>

lemma settings_publish_step:
  assumes laws: "kv_laws js view rely" and q: "quiet view rely"
    and b: "byName BucketServiceSettings (pl_buckets (app_pub a)) = Inr kv"
  shows "plane_step view BucketServiceSettings kv (\<lambda>m. m(settings_key v \<mapsto> as_SettingsJSON v))
    (app_pub a) (app_pub (settings_publish (Publisher js) v a))"
proof (cases "as_SettingsJSON v = []")
  case True
  obtain r p' where run: "observePublish BucketServiceSettings (Inl EmptySettings, app_pub a) = (r, p')"
    by fastforce
  have p': "app_pub (settings_publish (Publisher js) v a) = p'"
    using run True by (simp add: settings_publish_def best_effort_def Publisher_def publishServiceSettings_def)
  have "kv_errors BucketServiceSettings p' = kv_errors BucketServiceSettings (app_pub a) + 1"
    using observePublish_failures [OF run] observePublish_delete_failures [OF run, of BucketServiceSettings]
      observePublish_plane [OF run]
    by (simp add: kv_errors_def)
  then show ?thesis using observePublish_plane [OF run] by (simp add: plane_step_def p')
next
  case False
  obtain r p' where run: "observePublish BucketServiceSettings (with_bucket BucketServiceSettings
        (\<lambda>kv. publish js kv BucketServiceSettings (settings_key v) (raw (as_SettingsJSON v))) (app_pub a)) = (r, p')"
    by fastforce
  have "app_pub (settings_publish (Publisher js) v a) = p'"
    using run False
    by (simp add: settings_publish_def best_effort_def Publisher_def publishServiceSettings_def settings_key_def)
  with raw_publish_step [OF laws q b run] show ?thesis by simp
qed

lemma settings_purge_step:
  assumes laws: "kv_laws js view rely" and q: "quiet view rely"
    and b: "byName BucketServiceSettings (pl_buckets (app_pub a)) = Inr kv"
  shows "plane_step view BucketServiceSettings kv (\<lambda>m. m(key := None))
    (app_pub a) (app_pub (settings_purge (Publisher js) key a))"
  using DeleteKey_step [OF laws q b, of key] by (simp add: settings_purge_def best_effort_def prod_eq_iff)

lemma settings_publishes:
  "kv_laws js view rely \<Longrightarrow> quiet view rely \<Longrightarrow>
   publishes view BucketServiceSettings kv settings_key as_SettingsJSON
     (settings_publish (Publisher js)) (settings_purge (Publisher js))"
  by (simp add: publishes_def settings_publish_step settings_purge_step)

lemma settings_purgeMoved_eq: "settings_purgeMoved pub = move_purge settings_key (settings_purge pub)"
  by (intro ext) (simp add: settings_purgeMoved_def move_purge_def)

lemma settings_update_outcome:
  assumes db: "calm (app_db a)" "wf_tables (tabs (app_db a))"
    and run: "a' = settings_run Settings_PostgresRepository pub (UpdateConfig req) a"
  shows "a' = a
      \<or> (\<exists>db'. a' = a\<lparr>app_db := db'\<rparr> \<and> calm db' \<and> settings_want (tabs db') = settings_want (tabs (app_db a)))
      \<or> (\<exists>old v db'. a' = settings_purgeMoved pub old v (settings_publish pub v (a\<lparr>app_db := db'\<rparr>)) \<and> calm db'
            \<and> settings_want (tabs db') = (settings_want (tabs (app_db a)))
                  (settings_key old := None, settings_key v \<mapsto> as_SettingsJSON v))"
proof (cases "0 < as_ID req \<and> 0 < as_MicroserviceID req \<and> 0 < as_EnvironmentID req
      \<and> checkSettings (as_SettingsJSON req) = Inr ()")
  case False
  then have "a' = a"
    by (auto simp: run SettingsService_UpdateMicroserviceConfig_def not_less split: sum.splits)
  then show ?thesis by blast
next
  case True
  note defs = SettingsService_UpdateMicroserviceConfig_def Settings_PostgresRepository_def on_db_eq
  show ?thesis
  proof (cases "find_row (\<lambda>r. as_ID r = as_ID req) (appsettings (tabs (app_db a)))")
    case None
    with True db(1) have "a' = a" by (simp add: run defs GetConfig_calm)
    then show ?thesis by blast
  next
    case (Some p)
    obtain res db' where upd: "UpdateMicroserviceConfig req (app_db a) = (res, db')" by fastforce
    note u = settings_update_db [OF db Some upd]
    show ?thesis
    proof (cases res)
      case (Inl e)
      with True Some db(1) upd have "a' = a\<lparr>app_db := db'\<rparr>" by (simp add: run defs GetConfig_calm)
      with u(1,2) Inl show ?thesis by (metis isl_def)
    next
      case (Inr v)
      with True Some db(1) upd
      have "a' = settings_purgeMoved pub p v (settings_publish pub v (a\<lparr>app_db := db'\<rparr>))"
        by (simp add: run defs GetConfig_calm)
      with u(1) u(3) [OF Inr] show ?thesis by blast
    qed
  qed
qed

lemma settings_create_outcome:
  assumes db: "calm (app_db a)" "wf_tables (tabs (app_db a))"
    and run: "a' = settings_run Settings_PostgresRepository pub (NewConfig req) a"
  shows "a' = a
      \<or> (\<exists>db'. a' = a\<lparr>app_db := db'\<rparr> \<and> calm db' \<and> settings_want (tabs db') = settings_want (tabs (app_db a)))
      \<or> (\<exists>v db'. a' = settings_publish pub v (a\<lparr>app_db := db'\<rparr>) \<and> calm db'
            \<and> settings_want (tabs db') = (settings_want (tabs (app_db a)))(settings_key v \<mapsto> as_SettingsJSON v))"
proof (cases "0 < as_MicroserviceID req \<and> 0 < as_EnvironmentID req \<and> checkSettings (as_SettingsJSON req) = Inr ()")
  case False
  then have "a' = a"
    by (auto simp: run SettingsService_CreateMicroserviceConfig_def not_less split: sum.splits)
  then show ?thesis by blast
next
  case True
  obtain res db' where ins: "CreateMicroserviceConfig req (app_db a) = (res, db')" by fastforce
  note u = settings_create_db [OF db ins]
  note defs = SettingsService_CreateMicroserviceConfig_def Settings_PostgresRepository_def on_db_eq
  show ?thesis
  proof (cases res)
    case (Inl e)
    with True ins have "a' = a\<lparr>app_db := db'\<rparr>" by (simp add: run defs)
    with u(1,2) Inl show ?thesis by (metis isl_def)
  next
    case (Inr v)
    with True ins have "a' = settings_publish pub v (a\<lparr>app_db := db'\<rparr>)" by (simp add: run defs)
    with u(1) u(3) [OF Inr] show ?thesis by blast
  qed
qed

lemma settings_delete_outcome:
  assumes db: "calm (app_db a)" "wf_tables (tabs (app_db a))"
    and run: "a' = settings_run Settings_PostgresRepository pub (RemoveConfig i) a"
  shows "a' = a
      \<or> (\<exists>db'. a' = a\<lparr>app_db := db'\<rparr> \<and> calm db' \<and> settings_want (tabs db') = settings_want (tabs (app_db a)))
      \<or> (\<exists>k db'. a' = settings_purge pub k (a\<lparr>app_db := db'\<rparr>) \<and> calm db'
            \<and> settings_want (tabs db') = (settings_want (tabs (app_db a)))(k := None))"
proof (cases "i \<le> 0")
  case True
  then show ?thesis by (simp add: run SettingsService_DeleteMicroserviceConfig_def)
next
  case False
  obtain res db' where del: "DeleteMicroserviceConfig i (app_db a) = (res, db')" by fastforce
  note u = settings_delete_db [OF db del]
  note defs = SettingsService_DeleteMicroserviceConfig_def Settings_PostgresRepository_def on_db_eq
  show ?thesis
  proof (cases res)
    case (Inl e)
    with False del have "a' = a\<lparr>app_db := db'\<rparr>" by (simp add: run defs)
    with u(1,2) Inl show ?thesis by (metis isl_def)
  next
    case (Inr v)
    with False del have "a' = settings_purge pub (settings_key v) (a\<lparr>app_db := db'\<rparr>)" by (simp add: run defs)
    with u(1) u(3) [OF Inr] show ?thesis by blast
  qed
qed

definition reference_call :: "settings_call \<Rightarrow> bool" where
  "reference_call c \<longleftrightarrow> (\<forall>req i. c \<noteq> UpdateConfig req \<and> c \<noteq> NewConfig req \<and> c \<noteq> RemoveConfig i)"

lemma settings_reference_step:
  assumes db: "calm (app_db a)" and ref: "reference_call c"
    and wf': "wf_tables (tabs (app_db (settings_run Settings_PostgresRepository pub c a)))"
  shows "mirror_step view bucket kv settings_want a (settings_run Settings_PostgresRepository pub c a)"
proof (rule mirror_step_same [OF _ wf'])
  let ?T = "appsettings (tabs (app_db a))" and ?run = "settings_run Settings_PostgresRepository pub c a"
  have "holds (\<lambda>t. appsettings t = ?T) (app_db a)" using db by (simp add: holds_calm)
  then have "calm (app_db ?run) \<and> app_pub ?run = app_pub a \<and> holds (\<lambda>t. appsettings t = ?T) (app_db ?run)"
    using ref db reference_calm [OF db] keep_settings.CreateMicroservice_inv [of ?T]
      keep_settings.DeleteMicroservice_inv [of ?T] keep_settings.CreateEnvironment_inv [of ?T]
      keep_settings.DeleteEnvironment_inv [of ?T]
    by (cases c) (simp_all add: reference_call_def Settings_PostgresRepository_def on_db_eq Let_def
        SettingsService_CreateMicroservice_def SettingsService_DeleteMicroservice_def
        SettingsService_CreateEnvironment_def SettingsService_DeleteEnvironment_def)
  then show "calm (app_db ?run)" "app_pub ?run = app_pub a"
    "settings_want (tabs (app_db ?run)) = settings_want (tabs (app_db a))"
    by (auto simp: holds_def settings_want_def)
qed

lemma settings_run_step:
  assumes laws: "kv_laws js view rely" and q: "quiet view rely"
    and db: "calm (app_db a)" "wf_tables (tabs (app_db a))"
    and b: "byName BucketServiceSettings (pl_buckets (app_pub a)) = Inr kv"
  shows "mirror_step view BucketServiceSettings kv settings_want a
    (settings_run Settings_PostgresRepository (Publisher js) c a)"
proof -
  have "holds wf_tables (app_db (settings_run Settings_PostgresRepository (Publisher js) c a))"
    using db by (intro wf_settings_store.run_call) (simp add: holds_calm)
  then have wf': "wf_tables (tabs (app_db (settings_run Settings_PostgresRepository (Publisher js) c a)))"
    by (simp add: holds_def)
  note pub = settings_publishes [OF laws q, of kv]
  consider req where "c = UpdateConfig req" | req where "c = NewConfig req" | i where "c = RemoveConfig i"
    | "reference_call c"
    by (auto simp: reference_call_def)
  then show ?thesis
  proof cases
    case (1 req)
    then show ?thesis
      using settings_update_outcome [OF db, of _ "Publisher js" req] unfolding settings_purgeMoved_eq
      by (intro write_outcome [OF pub b db wf']) blast
  next
    case (2 req)
    then show ?thesis
      using settings_create_outcome [OF db, of _ "Publisher js" req]
      by (intro write_outcome [OF pub b db wf']) blast
  next
    case (3 i)
    then show ?thesis
      using settings_delete_outcome [OF db, of _ "Publisher js" i]
      by (intro write_outcome [OF pub b db wf']) blast
  next
    case 4
    with settings_reference_step [OF db(1) _ wf'] show ?thesis by blast
  qed
qed


section \<open>An instance\<close>

lemma checkSettings_empty_object: "checkSettings ''{}'' = Inr ()"
  by (simp add: checkSettings_def check_document_empty)

definition move_tables :: tables where
  "move_tables = demo_tables\<lparr>environments := \<lparr>rows = [\<lparr>env_ID = 3, env_Environment = ''dev'', env_UpdatedAt = 1\<rparr>,
      \<lparr>env_ID = 4, env_Environment = ''prod'', env_UpdatedAt = 1\<rparr>], seq = 5\<rparr>\<rparr>"

definition move_app :: "(string, mem_kv) plane app" where
  "move_app = \<lparr>app_db = \<lparr>tabs = move_tables, clock = 2, script = []\<rparr>, app_pub = mem_plane []\<rparr>"

definition move_req :: "int \<Rightarrow> MicroserviceAppSettings" where
  "move_req e = \<lparr>as_ID = 1, as_MicroserviceID = 7, as_EnvironmentID = e, as_SettingsJSON = ''{}'',
     as_UpdatedAt = 0, as_ExpectedUpdatedAt = None\<rparr>"

definition move_calls :: "settings_call list" where
  "move_calls = [NewConfig (move_req 3), UpdateConfig (move_req 4)]"

lemmas settings_eval = SettingsService_CreateMicroserviceConfig_def SettingsService_UpdateMicroserviceConfig_def
  Settings_PostgresRepository_def on_db_eq CreateMicroserviceConfig_def UpdateMicroserviceConfig_def
  checkAppSettingsRefs_def settings_count_def settings_wrap_def settings_unique_def settings_row_def
  getConfigByServiceAndEnv_def exec_calm insert_as_stmt_def update_as_stmt_def table_insert_def
  table_update_def as_matches_def as_write_def find_row_def

lemma move_tables_wf: "wf_tables move_tables"
  by (simp add: move_tables_def demo_tables_def wf_tables_def keys_ok_def fk_ok_def table_ok_def)

definition move_run :: "settings_call list \<Rightarrow> (string, mem_kv) plane app" where
  "move_run cs = fold (settings_run Settings_PostgresRepository (Publisher solo_js)) cs move_app"

lemma move_quiet: "kv_errors BucketServiceSettings (app_pub (move_run move_calls))
    = kv_errors BucketServiceSettings (app_pub move_app)"
  by (simp add: move_run_def move_calls_def settings_eval move_app_def calm_def move_tables_def
    demo_tables_def move_req_def
    checkSettings_empty_object as_key_def as_refs_def GetConfig_calm settings_purgeMoved_def settings_key_def
    settings_purge_def settings_publish_def best_effort_def
    plane_eval mem_eval publishServiceSettings_def raw_def delete_key_def purge_key_def
    kv_errors_def publish_failures_def delete_failures_def kv_instruments)


end
