(* ===== verification/Loc_Mirror.thy ===== *)
theory Loc_Mirror
  imports Document_Mirror
begin

text \<open>
  The localization service against its bucket, as \<open>Settings_Mirror\<close> does for settings: what each
  repository write does to the key-value map the localizations table wants, and the service's publishes
  and purges doing the same to the bucket.
\<close>

definition loc_want :: "tables \<Rightarrow> string \<rightharpoonup> bytes" where
  "loc_want t = desired_of bundle_keyOf loc_BundleJSON (rows (localizations t))"

lemma loc_keys_distinct:
  assumes "wf_tables t"
  shows "distinct (map bundle_keyOf (rows (localizations t)))" "distinct (map loc_ID (rows (localizations t)))"
proof -
  have ok: "distinct (map loc_ID (rows (localizations t)))" "distinct (map loc_key (rows (localizations t)))"
    using assms by (simp_all add: wf_tables_def keys_ok_def table_ok_def)
  then have "inj_on bundle_keyOf (set (rows (localizations t)))"
    by (auto simp: distinct_map inj_on_def bundle_keyOf_def loc_key_def)
  with ok show "distinct (map bundle_keyOf (rows (localizations t)))" "distinct (map loc_ID (rows (localizations t)))"
    by (simp_all add: distinct_map)
qed

lemma GetLoc_calm:
  "calm db \<Longrightarrow> GetLocalizationByID i db = (case find_row (\<lambda>r. loc_ID r = i) (localizations (tabs db)) of
     None \<Rightarrow> (Inl ErrLocalizationNotFound, db) | Some r \<Rightarrow> (Inr r, db))"
  by (auto simp: GetLocalizationByID_def loc_row_def loc_wrap_def split: option.splits)

lemma checkRefs_calm: "calm db \<Longrightarrow> snd (checkRefs input db) = db"
  by (simp add: checkRefs_def loc_count_def loc_wrap_def)

lemma loc_noRows_calm: "calm db \<Longrightarrow> snd (loc_noRowsErr input db) = db"
  by (auto simp: loc_noRowsErr_def GetLoc_calm split: option.splits)

lemma update_loc_rows:
  assumes wf: "wf_tables t" and st: "update_loc_stmt input now t = (Inr n, t')" and n: "n \<noteq> 0"
  obtains r where "r \<in> set (rows (localizations t))" "loc_ID r = loc_ID input"
    "rows (localizations t') = map (\<lambda>x. if loc_ID x = loc_ID r then loc_write input now x else x) (rows (localizations t))"
proof -
  obtain T where T: "table_update loc_key (loc_matches input) (loc_write input now) (localizations t) = (Inr n, T)"
    "t' = t\<lparr>localizations := T\<rparr>"
    using st by (auto simp: update_loc_stmt_def split: prod.splits sum.splits if_splits)
  show thesis
    using table_update_row [OF loc_keys_distinct(2) [OF wf] _ T(1) n, of "loc_ID input"] that T(2)
    by (auto simp: loc_matches_def)
qed

lemma update_loc_same:
  "update_loc_stmt input now t = (res, t') \<Longrightarrow> isl res \<or> res = Inr 0 \<Longrightarrow> loc_want t' = loc_want t"
  by (auto simp: update_loc_stmt_def table_update_def Let_def loc_want_def filter_empty_conv
      map_idI split: if_splits)

lemma loc_update_db:
  assumes db: "calm db" "wf_tables (tabs db)"
    and prev: "find_row (\<lambda>r. loc_ID r = loc_ID input) (localizations (tabs db)) = Some p"
    and run: "UpdateLocalization input db = (res, db')"
  shows "calm db'" "isl res \<Longrightarrow> loc_want (tabs db') = loc_want (tabs db)"
    "res = Inr u \<Longrightarrow> loc_want (tabs db')
        = (loc_want (tabs db))(bundle_keyOf p := None, bundle_keyOf u \<mapsto> loc_BundleJSON u)"
proof -
  let ?t = "tabs db"
  obtain st t' where st: "update_loc_stmt input (clock db) ?t = (st, t')" by fastforce
  have ex: "exec (update_loc_stmt input) db = (st, db\<lparr>tabs := t'\<rparr>)" using st by (simp add: exec_calm [OF db(1)])
  have calm': "calm (db\<lparr>tabs := t'\<rparr>)" using db(1) by (simp add: calm_def)
  have wf': "wf_tables t'" using update_loc_wf [of input] db(2) st by (metis keeps_def snd_conv)
  obtain c where c: "checkRefs input db = (c, db)"
    using checkRefs_calm [OF db(1), of input] by (metis prod.collapse)
  consider (refused) "isl c" | (failed) "\<not> isl c" "isl st" | (none) "\<not> isl c" "st = Inr 0"
    | (wrote) n where "\<not> isl c" "st = Inr n" "n \<noteq> 0"
    by (metis sum.collapse(2))
  then have *: "calm db' \<and> (isl res \<longrightarrow> loc_want (tabs db') = loc_want ?t)
    \<and> (\<forall>u. res = Inr u \<longrightarrow> loc_want (tabs db')
        = (loc_want ?t)(bundle_keyOf p := None, bundle_keyOf u \<mapsto> loc_BundleJSON u))"
  proof cases
    case refused
    with run c db show ?thesis by (cases c) (auto simp: UpdateLocalization_def)
  next
    case failed
    with run c ex update_loc_same [OF st] calm' show ?thesis
      by (cases c; cases st) (auto simp: UpdateLocalization_def loc_unique_def)
  next
    case none
    with run c ex update_loc_same [OF st] calm' loc_noRows_calm [OF calm', of input] show ?thesis
      by (cases c) (auto simp: UpdateLocalization_def loc_unique_def split: prod.splits)
  next
    case (wrote n)
    obtain r where r: "r \<in> set (rows (localizations ?t))" "loc_ID r = loc_ID input"
      and rows: "rows (localizations t') =
        map (\<lambda>x. if loc_ID x = loc_ID r then loc_write input (clock db) x else x) (rows (localizations ?t))"
      using update_loc_rows [OF db(2) st [unfolded wrote(2)] wrote(3)] .
    note d = loc_keys_distinct [OF db(2)] and d' = loc_keys_distinct [OF wf']
    have p: "p = r" using find_row_unique [OF d(2) r] prev by simp
    let ?u = "loc_write input (clock db) r"
    have "?u \<in> set (rows (localizations t'))" using rows r(1) by auto
    then have "find_row (\<lambda>r. loc_ID r = loc_ID input) (localizations t') = Some ?u"
      using d'(2) r(2) by (intro find_row_unique) (simp_all add: loc_write_def)
    with run c ex wrote calm' have "res = Inr ?u" "db' = db\<lparr>tabs := t'\<rparr>"
      by (cases c; simp add: UpdateLocalization_def loc_unique_def GetLoc_calm)+
    moreover have "loc_want t' = (loc_want ?t)(bundle_keyOf r := None, bundle_keyOf ?u \<mapsto> loc_BundleJSON ?u)"
      unfolding loc_want_def rows
      by (rule desired_replace [OF d r(1)]) (use d'(1) rows in simp)
    ultimately show ?thesis using calm' p by simp
  qed
  from * show "calm db'" by blast
  from * show "isl res \<Longrightarrow> loc_want (tabs db') = loc_want (tabs db)" by blast
  from * show "res = Inr u \<Longrightarrow> loc_want (tabs db')
        = (loc_want (tabs db))(bundle_keyOf p := None, bundle_keyOf u \<mapsto> loc_BundleJSON u)" by blast
qed

lemma insert_loc_want:
  assumes wf: "wf_tables t" and st: "insert_loc_stmt input now t = (res, t')"
  shows "isl res \<Longrightarrow> loc_want t' = loc_want t"
    "\<not> isl res \<Longrightarrow> loc_want t' = (loc_want t)(bundle_keyOf input \<mapsto> loc_BundleJSON input)"
    "\<not> isl res \<Longrightarrow> \<exists>r \<in> set (rows (localizations t')). bundle_keyOf r = bundle_keyOf input
        \<and> loc_BundleJSON r = loc_BundleJSON input"
proof -
  let ?r = "\<lparr>loc_ID = seq (localizations t), loc_MicroserviceID = loc_MicroserviceID input,
             loc_EnvironmentID = loc_EnvironmentID input, loc_Locale = loc_Locale input,
             loc_BundleJSON = loc_BundleJSON input, loc_UpdatedAt = now, loc_ExpectedUpdatedAt = None\<rparr>"
  show "isl res \<Longrightarrow> loc_want t' = loc_want t"
    using st by (auto simp: insert_loc_stmt_def table_insert_def Let_def loc_want_def split: if_splits)
  assume ok: "\<not> isl res"
  have rows: "rows (localizations t') = rows (localizations t) @ [?r]"
    using st ok by (auto simp: insert_loc_stmt_def table_insert_def Let_def split: if_splits)
  have wf': "wf_tables t'" using insert_loc_wf [of input] wf st by (metis keeps_def snd_conv)
  have key: "bundle_keyOf ?r = bundle_keyOf input" by (simp add: bundle_keyOf_def)
  show "loc_want t' = (loc_want t)(bundle_keyOf input \<mapsto> loc_BundleJSON input)"
    using loc_keys_distinct(1) [OF wf'] key unfolding loc_want_def rows
    by (simp add: desired_append)
  show "\<exists>r \<in> set (rows (localizations t')). bundle_keyOf r = bundle_keyOf input
        \<and> loc_BundleJSON r = loc_BundleJSON input"
    unfolding rows using key by (intro bexI [of _ ?r]) simp_all
qed

lemma loc_create_db:
  assumes db: "calm db" "wf_tables (tabs db)" and run: "CreateLocalization input db = (res, db')"
  shows "calm db'" "isl res \<Longrightarrow> loc_want (tabs db') = loc_want (tabs db)"
    "res = Inr u \<Longrightarrow> loc_want (tabs db')
        = (loc_want (tabs db))(bundle_keyOf u \<mapsto> loc_BundleJSON u)"
proof -
  let ?t = "tabs db"
  obtain st t' where st: "insert_loc_stmt input (clock db) ?t = (st, t')" by fastforce
  have ex: "exec (insert_loc_stmt input) db = (st, db\<lparr>tabs := t'\<rparr>)" using st by (simp add: exec_calm [OF db(1)])
  have calm': "calm (db\<lparr>tabs := t'\<rparr>)" using db(1) by (simp add: calm_def)
  have wf': "wf_tables t'" using insert_loc_wf [of input] db(2) st by (metis keeps_def snd_conv)
  obtain c where c: "checkRefs input db = (c, db)"
    using checkRefs_calm [OF db(1), of input] by (metis prod.collapse)
  have *: "calm db' \<and> (isl res \<longrightarrow> loc_want (tabs db') = loc_want ?t)
    \<and> (\<forall>u. res = Inr u \<longrightarrow> loc_want (tabs db')
        = (loc_want ?t)(bundle_keyOf u \<mapsto> loc_BundleJSON u))"
  proof (cases "isl c \<or> isl st")
    case True
    with run c ex insert_loc_want(1) [OF db(2) st] calm' db(1) show ?thesis
      by (cases c; cases st) (auto simp: CreateLocalization_def loc_unique_def)
  next
    case False
    then obtain r where r: "r \<in> set (rows (localizations t'))" "bundle_keyOf r = bundle_keyOf input"
        "loc_BundleJSON r = loc_BundleJSON input"
      using insert_loc_want(3) [OF db(2) st] by blast
    have same: "loc_MicroserviceID x = loc_MicroserviceID input \<and> loc_EnvironmentID x = loc_EnvironmentID input
        \<and> loc_Locale x = loc_Locale input \<longleftrightarrow> bundle_keyOf x = bundle_keyOf input" for x
      by (auto simp: bundle_keyOf_def)
    have "find_row (\<lambda>x. bundle_keyOf x = bundle_keyOf input) (localizations t') = Some r"
      by (rule find_row_unique [OF loc_keys_distinct(1) [OF wf'] r(1,2)])
    with run c ex False calm' have "res = Inr r" "db' = db\<lparr>tabs := t'\<rparr>"
      by (cases c; cases st; simp add: CreateLocalization_def loc_unique_def
          GetLocalization_def loc_row_def loc_wrap_def same)+
    with insert_loc_want(2) [OF db(2) st] False r calm' show ?thesis by simp
  qed
  from * show "calm db'" by blast
  from * show "isl res \<Longrightarrow> loc_want (tabs db') = loc_want (tabs db)" by blast
  from * show "res = Inr u \<Longrightarrow> loc_want (tabs db')
        = (loc_want (tabs db))(bundle_keyOf u \<mapsto> loc_BundleJSON u)" by blast
qed

lemma loc_delete_db:
  assumes db: "calm db" "wf_tables (tabs db)" and run: "DeleteLocalization i db = (res, db')"
  shows "calm db'" "isl res \<Longrightarrow> loc_want (tabs db') = loc_want (tabs db)"
    "res = Inr u \<Longrightarrow> loc_want (tabs db') = (loc_want (tabs db))(bundle_keyOf u := None)"
proof -
  let ?t = "tabs db" and ?rs = "rows (localizations (tabs db))"
  note d = loc_keys_distinct [OF db(2)]
  have *: "calm db' \<and> (isl res \<longrightarrow> loc_want (tabs db') = loc_want ?t)
    \<and> (\<forall>u. res = Inr u \<longrightarrow> loc_want (tabs db') = (loc_want ?t)(bundle_keyOf u := None))"
  proof (cases "find_row (\<lambda>r. loc_ID r = i) (localizations ?t)")
    case None
    with run db(1) show ?thesis by (auto simp: DeleteLocalization_def GetLoc_calm)
  next
    case (Some r)
    then have r: "r \<in> set ?rs" "loc_ID r = i" by (auto dest: find_row_SomeD)
    then have "filter (\<lambda>r. loc_ID r = i) ?rs \<noteq> []" by (auto simp: filter_empty_conv)
    with run Some db(1) have "res = Inr r"
      and db': "db' = db\<lparr>tabs := ?t\<lparr>localizations := (localizations ?t)\<lparr>rows := filter (\<lambda>x. loc_ID x \<noteq> loc_ID r) ?rs\<rparr>\<rparr>\<rparr>"
      using r(2) by (auto simp: DeleteLocalization_def GetLoc_calm exec_calm loc_wrap_def
          delete_loc_stmt_def table_delete_def)
    moreover have "calm db'" using db(1) db' by (simp add: calm_def)
    ultimately show ?thesis using desired_remove [OF d r(1)] by (simp add: loc_want_def)
  qed
  from * show "calm db'" by blast
  from * show "isl res \<Longrightarrow> loc_want (tabs db') = loc_want (tabs db)" by blast
  from * show "res = Inr u \<Longrightarrow> loc_want (tabs db') = (loc_want (tabs db))(bundle_keyOf u := None)"
    by blast
qed

section \<open>The service and its bucket\<close>

lemma loc_publish_step:
  assumes laws: "kv_laws js view rely" and q: "quiet view rely"
    and b: "byName BucketLocalization (pl_buckets (app_pub a)) = Inr kv"
  shows "plane_step view BucketLocalization kv (\<lambda>m. m(bundle_keyOf v \<mapsto> loc_BundleJSON v))
    (app_pub a) (app_pub (loc_publish (Publisher js) v a))"
proof (cases "loc_Locale v = [] \<or> loc_BundleJSON v = []")
  case True
  obtain e where e: "publishLocalization js (loc_EnvironmentID v) (loc_MicroserviceID v) (loc_Locale v)
      (loc_BundleJSON v) (app_pub a) = (Inl e, app_pub a)"
    using True by (cases "loc_Locale v = []") (auto simp: publishLocalization_def)
  obtain r p' where run: "observePublish BucketLocalization (Inl e, app_pub a) = (r, p')" by fastforce
  have p': "app_pub (loc_publish (Publisher js) v a) = p'"
    using run e by (simp add: loc_publish_def best_effort_def Publisher_def)
  have "kv_errors BucketLocalization p' = kv_errors BucketLocalization (app_pub a) + 1"
    using observePublish_failures [OF run] observePublish_delete_failures [OF run, of BucketLocalization]
      observePublish_plane [OF run]
    by (simp add: kv_errors_def)
  then show ?thesis using observePublish_plane [OF run] by (simp add: plane_step_def p')
next
  case False
  obtain r p' where run: "observePublish BucketLocalization (with_bucket BucketLocalization
        (\<lambda>kv. publish js kv BucketLocalization (bundle_keyOf v) (raw (loc_BundleJSON v))) (app_pub a)) = (r, p')"
    by fastforce
  have "app_pub (loc_publish (Publisher js) v a) = p'"
    using run False
    by (simp add: loc_publish_def best_effort_def Publisher_def publishLocalization_def bundle_keyOf_def)
  with raw_publish_step [OF laws q b run] show ?thesis by simp
qed

lemma loc_purge_step:
  assumes laws: "kv_laws js view rely" and q: "quiet view rely"
    and b: "byName BucketLocalization (pl_buckets (app_pub a)) = Inr kv"
  shows "plane_step view BucketLocalization kv (\<lambda>m. m(key := None))
    (app_pub a) (app_pub (loc_purge (Publisher js) key a))"
  using DeleteKey_step [OF laws q b, of key] by (simp add: loc_purge_def best_effort_def prod_eq_iff)

lemma loc_publishes:
  "kv_laws js view rely \<Longrightarrow> quiet view rely \<Longrightarrow>
   publishes view BucketLocalization kv bundle_keyOf loc_BundleJSON
     (loc_publish (Publisher js)) (loc_purge (Publisher js))"
  by (simp add: publishes_def loc_publish_step loc_purge_step)

lemma loc_purgeMoved_eq: "loc_purgeMoved pub = move_purge bundle_keyOf (loc_purge pub)"
  by (intro ext) (simp add: loc_purgeMoved_def move_purge_def)

lemma loc_update_outcome:
  assumes db: "calm (app_db a)" "wf_tables (tabs (app_db a))"
    and run: "a' = loc_run Loc_PostgresRepository pub (UpdateBundle req) a"
  shows "a' = a
      \<or> (\<exists>db'. a' = a\<lparr>app_db := db'\<rparr> \<and> calm db' \<and> loc_want (tabs db') = loc_want (tabs (app_db a)))
      \<or> (\<exists>old v db'. a' = loc_purgeMoved pub old v (loc_publish pub v (a\<lparr>app_db := db'\<rparr>)) \<and> calm db'
            \<and> loc_want (tabs db') = (loc_want (tabs (app_db a)))
                  (bundle_keyOf old := None, bundle_keyOf v \<mapsto> loc_BundleJSON v))"
proof (cases "0 < loc_ID req \<and> 0 < loc_MicroserviceID req \<and> 0 < loc_EnvironmentID req
      \<and> validLocale (loc_Locale req) \<and> checkBundle (loc_BundleJSON req) = Inr ()")
  case False
  then have "a' = a"
    by (auto simp: run LocService_UpdateLocalization_def not_less split: sum.splits)
  then show ?thesis by blast
next
  case True
  note defs = LocService_UpdateLocalization_def Loc_PostgresRepository_def on_db_eq
  show ?thesis
  proof (cases "find_row (\<lambda>r. loc_ID r = loc_ID req) (localizations (tabs (app_db a)))")
    case None
    with True db(1) have "a' = a" by (simp add: run defs GetLoc_calm)
    then show ?thesis by blast
  next
    case (Some p)
    obtain res db' where upd: "UpdateLocalization req (app_db a) = (res, db')" by fastforce
    note u = loc_update_db [OF db Some upd]
    show ?thesis
    proof (cases res)
      case (Inl e)
      with True Some db(1) upd have "a' = a\<lparr>app_db := db'\<rparr>" by (simp add: run defs GetLoc_calm)
      with u(1,2) Inl show ?thesis by (metis isl_def)
    next
      case (Inr v)
      with True Some db(1) upd
      have "a' = loc_purgeMoved pub p v (loc_publish pub v (a\<lparr>app_db := db'\<rparr>))"
        by (simp add: run defs GetLoc_calm)
      with u(1) u(3) [OF Inr] show ?thesis by blast
    qed
  qed
qed

lemma loc_create_outcome:
  assumes db: "calm (app_db a)" "wf_tables (tabs (app_db a))"
    and run: "a' = loc_run Loc_PostgresRepository pub (NewBundle req) a"
  shows "a' = a
      \<or> (\<exists>db'. a' = a\<lparr>app_db := db'\<rparr> \<and> calm db' \<and> loc_want (tabs db') = loc_want (tabs (app_db a)))
      \<or> (\<exists>v db'. a' = loc_publish pub v (a\<lparr>app_db := db'\<rparr>) \<and> calm db'
            \<and> loc_want (tabs db') = (loc_want (tabs (app_db a)))(bundle_keyOf v \<mapsto> loc_BundleJSON v))"
proof (cases "0 < loc_MicroserviceID req \<and> 0 < loc_EnvironmentID req
      \<and> validLocale (loc_Locale req) \<and> checkBundle (loc_BundleJSON req) = Inr ()")
  case False
  then have "a' = a"
    by (auto simp: run LocService_CreateLocalization_def not_less split: sum.splits)
  then show ?thesis by blast
next
  case True
  obtain res db' where ins: "CreateLocalization req (app_db a) = (res, db')" by fastforce
  note u = loc_create_db [OF db ins]
  note defs = LocService_CreateLocalization_def Loc_PostgresRepository_def on_db_eq
  show ?thesis
  proof (cases res)
    case (Inl e)
    with True ins have "a' = a\<lparr>app_db := db'\<rparr>" by (simp add: run defs)
    with u(1,2) Inl show ?thesis by (metis isl_def)
  next
    case (Inr v)
    with True ins have "a' = loc_publish pub v (a\<lparr>app_db := db'\<rparr>)" by (simp add: run defs)
    with u(1) u(3) [OF Inr] show ?thesis by blast
  qed
qed

lemma loc_delete_outcome:
  assumes db: "calm (app_db a)" "wf_tables (tabs (app_db a))"
    and run: "a' = loc_run Loc_PostgresRepository pub (RemoveBundle i) a"
  shows "a' = a
      \<or> (\<exists>db'. a' = a\<lparr>app_db := db'\<rparr> \<and> calm db' \<and> loc_want (tabs db') = loc_want (tabs (app_db a)))
      \<or> (\<exists>k db'. a' = loc_purge pub k (a\<lparr>app_db := db'\<rparr>) \<and> calm db'
            \<and> loc_want (tabs db') = (loc_want (tabs (app_db a)))(k := None))"
proof (cases "i \<le> 0")
  case True
  then show ?thesis by (simp add: run LocService_DeleteLocalization_def)
next
  case False
  obtain res db' where del: "DeleteLocalization i (app_db a) = (res, db')" by fastforce
  note u = loc_delete_db [OF db del]
  note defs = LocService_DeleteLocalization_def Loc_PostgresRepository_def on_db_eq
  show ?thesis
  proof (cases res)
    case (Inl e)
    with False del have "a' = a\<lparr>app_db := db'\<rparr>" by (simp add: run defs)
    with u(1,2) Inl show ?thesis by (metis isl_def)
  next
    case (Inr v)
    with False del have "a' = loc_purge pub (bundle_keyOf v) (a\<lparr>app_db := db'\<rparr>)" by (simp add: run defs)
    with u(1) u(3) [OF Inr] show ?thesis by blast
  qed
qed

lemma loc_run_step:
  assumes laws: "kv_laws js view rely" and q: "quiet view rely"
    and db: "calm (app_db a)" "wf_tables (tabs (app_db a))"
    and b: "byName BucketLocalization (pl_buckets (app_pub a)) = Inr kv"
  shows "mirror_step view BucketLocalization kv loc_want a
    (loc_run Loc_PostgresRepository (Publisher js) c a)"
proof -
  have "holds wf_tables (app_db (loc_run Loc_PostgresRepository (Publisher js) c a))"
    using db by (intro wf_loc_store.run_call) (simp add: holds_calm)
  then have wf': "wf_tables (tabs (app_db (loc_run Loc_PostgresRepository (Publisher js) c a)))"
    by (simp add: holds_def)
  note pub = loc_publishes [OF laws q, of kv]
  show ?thesis
  proof (cases c)
    case (UpdateBundle req)
    then show ?thesis
      using loc_update_outcome [OF db, of _ "Publisher js" req] unfolding loc_purgeMoved_eq
      by (intro write_outcome [OF pub b db wf']) blast
  next
    case (NewBundle req)
    then show ?thesis
      using loc_create_outcome [OF db, of _ "Publisher js" req]
      by (intro write_outcome [OF pub b db wf']) blast
  next
    case (RemoveBundle i)
    then show ?thesis
      using loc_delete_outcome [OF db, of _ "Publisher js" i]
      by (intro write_outcome [OF pub b db wf']) blast
  qed
qed


section \<open>An instance\<close>

definition bundle_app :: "(string, mem_kv) plane app" where
  "bundle_app = \<lparr>app_db = \<lparr>tabs = demo_tables, clock = 2, script = []\<rparr>, app_pub = mem_plane []\<rparr>"

definition bundle_req :: "string \<Rightarrow> Localization" where
  "bundle_req l = \<lparr>loc_ID = 1, loc_MicroserviceID = 7, loc_EnvironmentID = 3, loc_Locale = l,
     loc_BundleJSON = ''{}'', loc_UpdatedAt = 0, loc_ExpectedUpdatedAt = None\<rparr>"

definition bundle_calls :: "loc_call list" where
  "bundle_calls = [NewBundle (bundle_req ''fr''), UpdateBundle (bundle_req ''de'')]"

definition bundle_run :: "loc_call list \<Rightarrow> (string, mem_kv) plane app" where
  "bundle_run cs = fold (loc_run Loc_PostgresRepository (Publisher solo_js)) cs bundle_app"

lemma bundle_locales: "validLocale ''fr''" "validLocale ''de''" "varchar 35 ''fr''" "varchar 35 ''de''"
  by (simp_all add: validLocale_iff plain_char_def char_between_def varchar_def RuneCount_def runes_ascii
      is_ascii_def)

lemmas loc_eval = LocService_CreateLocalization_def LocService_UpdateLocalization_def
  Loc_PostgresRepository_def on_db_eq CreateLocalization_def UpdateLocalization_def
  checkRefs_def loc_count_def loc_wrap_def loc_unique_def loc_row_def
  GetLocalization_def exec_calm insert_loc_stmt_def update_loc_stmt_def table_insert_def
  table_update_def loc_matches_def loc_write_def find_row_def

lemma bundle_quiet: "kv_errors BucketLocalization (app_pub (bundle_run bundle_calls))
    = kv_errors BucketLocalization (app_pub bundle_app)"
  by (simp add: bundle_run_def bundle_calls_def loc_eval bundle_app_def calm_def
    demo_tables_def bundle_req_def checkBundle_def check_document_empty bundle_locales
    loc_key_def loc_refs_def GetLoc_calm loc_purgeMoved_def bundle_keyOf_def
    loc_purge_def loc_publish_def best_effort_def
    plane_eval mem_eval publishLocalization_def raw_def delete_key_def purge_key_def
    kv_errors_def publish_failures_def delete_failures_def kv_instruments)


end
