(* ===== verification/Admin_Tokens.thy ===== *)
theory Admin_Tokens
  imports Config_Keys
begin

text \<open>
  Credentials: \<^verbatim>\<open>parseAdminTokens\<close>, \<^verbatim>\<open>tokenSet\<close> and \<^verbatim>\<open>adminToken\<close> of \<^verbatim>\<open>internal/app/middleware.go\<close>. A nil
  scope map is \<open>None\<close>, full scope; any other map is the set of its keys. The lemmas say when parsing
  yields no credential at all, which switches authentication off.
\<close>

section \<open>Tokens\<close>

record adminToken =
  at_name :: string
  at_secret :: string
  at_envs :: "int set option"

record writeTarget =
  wt_domain :: string
  wt_rowID :: string
  wt_envs :: "int list"
  wt_global :: bool

definition allows :: "adminToken \<Rightarrow> writeTarget \<Rightarrow> bool" where
  "allows t target = (case at_envs t of
     None \<Rightarrow> True
   | Some envs \<Rightarrow> if wt_global target then False else list_all (\<lambda>env. env \<in> envs) (wt_envs target))"

type_synonym tokenSet = "adminToken list"

definition tokens_enabled :: "tokenSet \<Rightarrow> bool" where
  "tokens_enabled s \<longleftrightarrow> s \<noteq> []"

text \<open>Every entry is compared and the last match is returned; comparing in constant time is equality.\<close>

definition token_lookup :: "tokenSet \<Rightarrow> string \<Rightarrow> adminToken option" where
  "token_lookup s secret = fold (\<lambda>t found. if secret = at_secret t then Some t else found) s None"

section \<open>Parsing\<close>

definition sharedTokenName :: string where "sharedTokenName = ''shared''"
definition maxTokenName :: nat where "maxTokenName = 100"

definition label_char :: "char \<Rightarrow> bool" where
  "label_char c \<longleftrightarrow> plain_char c \<or> c = CHR ''.''"

definition label_rune :: "string \<Rightarrow> bool" where
  "label_rune r = (case r of [c] \<Rightarrow> label_char c | _ \<Rightarrow> False)"

definition validTokenName :: "string \<Rightarrow> bool" where
  "validTokenName name =
     (if name = [] \<or> maxTokenName < length name then False else list_all label_rune (runes name))"

datatype token_err =
    WantThreeParts nat | NameSecretRequired nat | UnusableName nat string
  | InvalidScope nat string string | NoEntry | BlankShared

fun parse_envs :: "string list \<Rightarrow> string + int set" where
  "parse_envs [] = Inr {}"
| "parse_envs (raw # raws) = (case ParseInt (TrimSpace raw) of
     None \<Rightarrow> Inl raw
   | Some i \<Rightarrow> if i \<le> 0 then Inl raw
       else (case parse_envs raws of Inl e \<Rightarrow> Inl e | Inr envs \<Rightarrow> Inr (insert i envs)))"

definition parseTokenScope :: "string \<Rightarrow> string + int set option" where
  "parseTokenScope scope =
     (if scope = ''*'' then Inr None
      else case parse_envs (Split (CHR ''|'') scope) of Inl raw \<Rightarrow> Inl raw | Inr envs \<Rightarrow> Inr (Some envs))"

text \<open>One entry of the list, the blank ones being skipped. The entry's number is from one.\<close>

definition parse_entry :: "nat \<Rightarrow> string \<Rightarrow> token_err + adminToken option" where
  "parse_entry i entry0 = (let entry = TrimSpace entry0 in
     if entry = [] then Inr None
     else case SplitN (CHR '':'') 3 entry of
       [a, b, secret] \<Rightarrow> (let name = TrimSpace a; scope = TrimSpace b in
         if name = [] \<or> secret = [] then Inl (NameSecretRequired i)
         else if \<not> validTokenName name then Inl (UnusableName i name)
         else (case parseTokenScope scope of
             Inl raw \<Rightarrow> Inl (InvalidScope i name raw)
           | Inr envs \<Rightarrow> Inr (Some \<lparr>at_name = name, at_secret = secret, at_envs = envs\<rparr>)))
     | _ \<Rightarrow> Inl (WantThreeParts i))"

fun parse_entries :: "nat \<Rightarrow> string list \<Rightarrow> token_err + adminToken list" where
  "parse_entries i [] = Inr []"
| "parse_entries i (entry # entries) = (case parse_entry i entry of
     Inl err \<Rightarrow> Inl err
   | Inr t \<Rightarrow> (case parse_entries (Suc i) entries of
       Inl err \<Rightarrow> Inl err
     | Inr ts \<Rightarrow> Inr (case t of None \<Rightarrow> ts | Some t \<Rightarrow> t # ts)))"

definition parseAdminTokens :: "string \<Rightarrow> string \<Rightarrow> token_err + tokenSet" where
  "parseAdminTokens named shared = (case parse_entries 1 (Split (CHR '','') named) of
     Inl err \<Rightarrow> Inl err
   | Inr ts \<Rightarrow>
       if TrimSpace named \<noteq> [] \<and> ts = [] then Inl NoEntry
       else if shared \<noteq> [] then
         (if TrimSpace shared = [] then Inl BlankShared
          else Inr (ts @ [\<lparr>at_name = sharedTokenName, at_secret = shared, at_envs = None\<rparr>]))
       else Inr ts)"

section \<open>What is looked up was configured\<close>

lemma token_lookup_eq:
  "token_lookup s secret = (case filter (\<lambda>t. secret = at_secret t) s of [] \<Rightarrow> None | ts \<Rightarrow> Some (last ts))"
proof -
  have "fold (\<lambda>t found. if secret = at_secret t then Some t else found) s acc =
      (case filter (\<lambda>t. secret = at_secret t) s of [] \<Rightarrow> acc | ts \<Rightarrow> Some (last ts))" for acc
    by (induction s arbitrary: acc) (auto split: list.splits)
  then show ?thesis by (simp add: token_lookup_def)
qed

lemma token_lookup_SomeD: "token_lookup s secret = Some t \<Longrightarrow> t \<in> set s \<and> at_secret t = secret"
proof -
  assume "token_lookup s secret = Some t"
  then have "t \<in> set (filter (\<lambda>t. secret = at_secret t) s)"
    by (auto simp: token_lookup_eq simp del: set_filter split: list.splits)
  then show ?thesis by auto
qed

lemma token_lookup_None: "token_lookup s secret = None \<longleftrightarrow> (\<forall>t \<in> set s. at_secret t \<noteq> secret)"
  unfolding token_lookup_eq
  by (cases "filter (\<lambda>t. secret = at_secret t) s") (auto simp: filter_empty_conv filter_eq_Cons_iff)

section \<open>What parsing yields\<close>

text \<open>White space is made of the listed encodings, none of which contains a comma.\<close>

lemma trim_left_fuel_pieces: "\<exists>es. set es \<subseteq> set encs \<and> s = concat es @ trim_left_fuel n encs s"
proof (induction n arbitrary: s)
  case 0
  show ?case by (intro exI [of _ "[]"]) simp
next
  case (Suc n)
  show ?case
  proof (cases "drop_space encs s")
    case None
    then show ?thesis by (intro exI [of _ "[]"]) simp
  next
    case (Some t)
    then obtain e where e: "e \<in> set encs" "s = e @ t" by (blast dest: drop_space_SomeD)
    obtain es where es: "set es \<subseteq> set encs" "t = concat es @ trim_left_fuel n encs t"
      using Suc.IH by blast
    have "s = concat (e # es) @ trim_left_fuel (Suc n) encs s" using e(2) es(2) Some by simp
    moreover have "set (e # es) \<subseteq> set encs" using e(1) es(1) by simp
    ultimately show ?thesis by blast
  qed
qed

lemma comma_byte: "CHR '','' = char_of (b :: nat) \<longleftrightarrow> b mod 256 = 44"
  by (subst eq_commute) (auto simp: char_of_eq_iff take_bit_eq_mod)

lemma space_no_comma: "e \<in> set space_encodings \<Longrightarrow> CHR '','' \<notin> set e"
  by (auto simp: space_encodings_def byte_string_def comma_byte)

lemma blank_no_comma:
  assumes "TrimSpace s = []"
  shows "CHR '','' \<notin> set s"
proof -
  let ?t = "trim_left_fuel (length s) space_encodings s"
  obtain es where es: "set es \<subseteq> set space_encodings" "s = concat es @ ?t"
    using trim_left_fuel_pieces by blast
  obtain fs where fs: "set fs \<subseteq> rev ` set space_encodings"
    and "rev ?t = concat fs @ trim_left_fuel (length ?t) (map rev space_encodings) (rev ?t)"
    using trim_left_fuel_pieces [of "map rev space_encodings" "rev ?t" "length ?t"] by auto
  with assms have t: "rev ?t = concat fs" by (simp add: TrimSpace_def Let_def)
  have no: "CHR '','' \<notin> set (concat es)" "CHR '','' \<notin> set (concat fs)"
    using es(1) fs space_no_comma by fastforce+
  have "set s = set (concat es) \<union> set ?t" using arg_cong [OF es(2), of set] by simp
  moreover have "set ?t = set (concat fs)" using arg_cong [OF t, of set] by simp
  ultimately show ?thesis using no by blast
qed

lemma parse_entries_mem:
  "parse_entries i es = Inr ts \<Longrightarrow> t \<in> set ts \<Longrightarrow> \<exists>j. \<exists>e \<in> set es. parse_entry j e = Inr (Some t)"
proof (induction es arbitrary: i ts)
  case (Cons e es)
  then obtain o' ts' where e: "parse_entry i e = Inr o'" and es: "parse_entries (Suc i) es = Inr ts'"
    and ts: "ts = (case o' of None \<Rightarrow> ts' | Some u \<Rightarrow> u # ts')"
    by (auto split: sum.splits)
  then consider "o' = Some t" | "t \<in> set ts'" using Cons.prems(2) by (auto split: option.splits)
  then show ?case
  proof cases
    case 1
    with e show ?thesis by auto
  next
    case 2
    with Cons.IH [OF es] show ?thesis by auto
  qed
qed simp

lemma parse_envs_good: "parse_envs raws = Inr envs \<Longrightarrow> e \<in> envs \<Longrightarrow> 0 < e \<and> in_int64 e"
  by (induction raws arbitrary: envs)
    (auto split: option.splits sum.splits if_splits dest: ParseInt_in_int64)

lemma parse_envs_nonempty: "parse_envs raws = Inr envs \<Longrightarrow> raws \<noteq> [] \<Longrightarrow> envs \<noteq> {}"
  by (cases raws) (auto split: option.splits sum.splits if_splits)

lemma parseTokenScope_good:
  assumes "parseTokenScope scope = Inr r"
  shows "r = None \<longleftrightarrow> scope = ''*''" "r = Some envs \<Longrightarrow> envs \<noteq> {} \<and> (\<forall>e \<in> envs. 0 < e \<and> in_int64 e)"
  using assms parse_envs_good parse_envs_nonempty
  by (auto simp: parseTokenScope_def split: if_splits sum.splits)

lemma parse_entry_good:
  assumes "parse_entry i e = Inr (Some t)"
  shows "at_secret t \<noteq> [] \<and> validTokenName (at_name t)
    \<and> (\<exists>a b. SplitN (CHR '':'') 3 (TrimSpace e) = [a, b, at_secret t]
          \<and> parseTokenScope (TrimSpace b) = Inr (at_envs t))"
  using assms
  by (auto simp: parse_entry_def Let_def split: if_splits list.splits sum.splits)

text \<open>What a token of the configuration is: the shared one, or spelled out by an entry.\<close>

definition configured_by :: "string \<Rightarrow> string \<Rightarrow> adminToken \<Rightarrow> bool" where
  "configured_by named shared t \<longleftrightarrow>
     (shared \<noteq> [] \<and> t = \<lparr>at_name = sharedTokenName, at_secret = shared, at_envs = None\<rparr>)
     \<or> (\<exists>e \<in> set (Split (CHR '','') named). \<exists>a b. SplitN (CHR '':'') 3 (TrimSpace e) = [a, b, at_secret t]
          \<and> validTokenName (at_name t) \<and> (at_envs t = None \<longleftrightarrow> TrimSpace b = ''*'')
          \<and> (\<forall>envs. at_envs t = Some envs \<longrightarrow> envs \<noteq> {} \<and> (\<forall>env \<in> envs. 0 < env \<and> in_int64 env)))"



end
