(* ===== verification/Rate_Limit_Laws.thy ===== *)
theory Rate_Limit_Laws
  imports Rate_Limit
begin

text \<open>
  What the limiter promises. \<open>budget l K t\<close> is what the bucket \<open>K\<close> could spend at time \<open>t\<close>; dropping idle
  buckets never changes it, and a request changes it for the one bucket it is charged to. From that, a bucket
  admits no more than its capacity plus what it refills, and a caller whose bucket is in the map cannot be
  slowed down by anybody else. A caller whose bucket is not in the map can.
\<close>

section \<open>The invariant\<close>

definition bucket_ok :: "gotime \<Rightarrow> rateLimiter \<Rightarrow> bucket \<Rightarrow> bool" where
  "bucket_ok T l b \<longleftrightarrow> 0 \<le> tb_tokens b \<and> tb_tokens b \<le> rl_capacity l \<and> tb_last b \<le> T"

definition limiter_ok :: "gotime \<Rightarrow> rateLimiter \<Rightarrow> bool" where
  "limiter_ok T l \<longleftrightarrow> 0 < rl_capacity l \<and> rl_refill l = rl_capacity l / 60 \<and>
     finite (Mapping.keys (rl_buckets l)) \<and> card (Mapping.keys (rl_buckets l) - {overflowKey}) \<le> maxBuckets \<and>
     (\<forall>k b. Mapping.lookup (rl_buckets l) k = Some b \<longrightarrow> bucket_ok T l b)"

definition budget :: "rateLimiter \<Rightarrow> string \<Rightarrow> gotime \<Rightarrow> rat" where
  "budget l key t = (case Mapping.lookup (rl_buckets l) key of None \<Rightarrow> rl_capacity l | Some b \<Rightarrow> refilled t l b)"

lemma limiter_okD:
  assumes "limiter_ok T l"
  shows "0 < rl_capacity l" "rl_refill l = rl_capacity l / 60" "0 < rl_refill l"
    "finite (Mapping.keys (rl_buckets l))" "card (Mapping.keys (rl_buckets l) - {overflowKey}) \<le> maxBuckets"
    "Mapping.lookup (rl_buckets l) k = Some b \<Longrightarrow> 0 \<le> tb_tokens b \<and> tb_tokens b \<le> rl_capacity l \<and> tb_last b \<le> T"
  using assms by (auto simp: limiter_ok_def bucket_ok_def)

lemma limiter_ok_mono: "limiter_ok T l \<Longrightarrow> T \<le> T' \<Longrightarrow> limiter_ok T' l"
  by (fastforce simp: limiter_ok_def bucket_ok_def)

lemma newRateLimiter_ok: "newRateLimiter n = Some l \<Longrightarrow> limiter_ok T l"
  by (auto simp: newRateLimiter_def limiter_ok_def split: if_splits)

lemma seconds_nonneg: "0 \<le> d \<Longrightarrow> 0 \<le> seconds d"
  by (simp add: seconds_def second_def)

lemma seconds_mono: "d \<le> d' \<Longrightarrow> seconds d \<le> seconds d'"
  by (simp add: seconds_def second_def)

lemma seconds_diff: "seconds (t - a) = seconds (t - b) + seconds (b - a)"
  by (simp add: seconds_def second_def field_simps flip: of_int_add of_int_diff)

lemma refilled_nonneg:
  assumes "limiter_ok T l" "Mapping.lookup (rl_buckets l) k = Some b" "T \<le> t"
  shows "0 \<le> refilled t l b"
  using limiter_okD(1,3) [OF assms(1)] limiter_okD(6) [OF assms(1,2)] assms(3)
  by (simp add: refilled_def seconds_nonneg)

lemma budget_nonneg: "limiter_ok T l \<Longrightarrow> T \<le> t \<Longrightarrow> 0 \<le> budget l k t"
  using limiter_okD(1) [of T l] refilled_nonneg [of T l k]
  by (auto simp: budget_def less_imp_le split: option.splits)

lemma budget_le: "budget l k t \<le> rl_capacity l"
  by (simp add: budget_def refilled_def split: option.splits)

section \<open>A sweep changes no budget\<close>

lemma lookup_sweep: "Mapping.lookup (rl_buckets (sweep now l)) k =
    (case Mapping.lookup (rl_buckets l) k of
       Some b \<Rightarrow> if idleBucketTTL < now - tb_last b then None else Some b | None \<Rightarrow> None)"
  by (simp add: sweep_def lookup_filter split: option.splits)

lemma sweep_fields [simp]:
  "rl_capacity (sweep now l) = rl_capacity l" "rl_refill (sweep now l) = rl_refill l"
  by (simp_all add: sweep_def)

lemma idle_is_full:
  assumes ok: "limiter_ok T l" and b: "Mapping.lookup (rl_buckets l) k = Some b" and idle: "idleBucketTTL \<le> t - tb_last b"
  shows "refilled t l b = rl_capacity l"
proof -
  note d = limiter_okD(1,2) [OF ok] limiter_okD(6) [OF ok b]
  have "seconds idleBucketTTL * rl_refill l = 10 * rl_capacity l"
    using d(2) by (simp add: seconds_def idleBucketTTL_def minute_def second_def)
  moreover have "seconds idleBucketTTL * rl_refill l \<le> seconds (t - tb_last b) * rl_refill l"
    using limiter_okD(3) [OF ok] seconds_mono [OF idle] by (simp add: mult_right_mono)
  ultimately have "rl_capacity l \<le> tb_tokens b + seconds (t - tb_last b) * rl_refill l" using d by linarith
  then show ?thesis by (simp add: refilled_def)
qed

lemma budget_sweep:
  assumes "limiter_ok T l" "now \<le> t"
  shows "budget (sweep now l) k t = budget l k t"
  using assms idle_is_full [OF assms(1), of k _ t]
  by (auto simp: budget_def lookup_sweep refilled_def split: option.splits)

lemma keys_sweep: "Mapping.keys (rl_buckets (sweep now l)) \<subseteq> Mapping.keys (rl_buckets l)"
  by (auto simp: keys_is_none_rep lookup_sweep Option.is_none_def split: option.splits)

lemma sweep_ok: "limiter_ok T l \<Longrightarrow> limiter_ok T (sweep now l)"
proof -
  assume ok: "limiter_ok T l"
  have "card (Mapping.keys (rl_buckets (sweep now l)) - {overflowKey})
      \<le> card (Mapping.keys (rl_buckets l) - {overflowKey})"
    using limiter_okD(4) [OF ok] keys_sweep [of now l] by (intro card_mono) auto
  moreover have "finite (Mapping.keys (rl_buckets (sweep now l)))"
    using limiter_okD(4) [OF ok] keys_sweep by (rule rev_finite_subset)
  ultimately show ?thesis using ok
    by (auto simp: limiter_ok_def bucket_ok_def lookup_sweep split: option.splits if_splits)
qed

section \<open>Picking the bucket\<close>

definition tidied :: "gotime \<Rightarrow> rateLimiter \<Rightarrow> rateLimiter" where
  "tidied now l = (if sweepInterval \<le> now - rl_lastSweep l then (sweep now l)\<lparr>rl_lastSweep := now\<rparr> else l)"

lemma lastSweep_update [simp]:
  "limiter_ok T (l\<lparr>rl_lastSweep := s\<rparr>) = limiter_ok T l" "budget (l\<lparr>rl_lastSweep := s\<rparr>) k t = budget l k t"
  by (simp_all add: limiter_ok_def bucket_ok_def budget_def refilled_def cong: option.case_cong)

lemma tidied_ok: "limiter_ok T l \<Longrightarrow> limiter_ok T (tidied now l)"
  by (simp add: tidied_def sweep_ok)

lemma tidied_budget: "limiter_ok T l \<Longrightarrow> now \<le> t \<Longrightarrow> budget (tidied now l) k t = budget l k t"
  by (simp add: tidied_def budget_sweep)

lemma tidied_fields [simp]:
  "rl_capacity (tidied now l) = rl_capacity l" "rl_refill (tidied now l) = rl_refill l"
  by (simp_all add: tidied_def)

lemma pick_bucket_cases:
  assumes "pick_bucket now key l = (key1, b, l1)"
  obtains (known) "Mapping.lookup (rl_buckets l) key = Some b" "key1 = key" "l1 = l"
  | (room) "Mapping.lookup (rl_buckets l) key = None" "l1 = tidied now l"
      "Mapping.size (rl_buckets l1) < maxBuckets" "key1 = key"
      "b = (case Mapping.lookup (rl_buckets l1) key of Some b \<Rightarrow> b | None \<Rightarrow> \<lparr>tb_tokens = rl_capacity l, tb_last = now\<rparr>)"
  | (overflow) "Mapping.lookup (rl_buckets l) key = None" "l1 = tidied now l"
      "maxBuckets \<le> Mapping.size (rl_buckets l1)" "key1 = overflowKey"
      "b = (case Mapping.lookup (rl_buckets l1) overflowKey of Some b \<Rightarrow> b
            | None \<Rightarrow> \<lparr>tb_tokens = rl_capacity l, tb_last = now\<rparr>)"
  using assms
  by (cases "Mapping.lookup (rl_buckets l) key"; cases "maxBuckets \<le> Mapping.size (rl_buckets (tidied now l))")
    (auto simp: pick_bucket_def Let_def tidied_def [symmetric] not_le split: option.splits)

lemma pick_bucket_budget:
  assumes "limiter_ok T l" "T \<le> now" "pick_bucket now key l = (key1, b, l1)"
  shows "refilled now l1 b = budget l key1 now" "limiter_ok T l1" "bucket_ok now l1 b"
    "now \<le> t \<Longrightarrow> budget l1 k t = budget l k t" "rl_capacity l1 = rl_capacity l" "rl_refill l1 = rl_refill l"
    "card (Mapping.keys (rl_buckets l1) \<union> {key1} - {overflowKey}) \<le> maxBuckets"
proof -
  have new: "refilled now l' \<lparr>tb_tokens = rl_capacity l, tb_last = now\<rparr> = rl_capacity l"
    if "rl_capacity l' = rl_capacity l" for l'
    using that by (simp add: refilled_def seconds_def)
  have room: "card (Mapping.keys m \<union> {k} - {overflowKey}) \<le> maxBuckets"
    if "Mapping.size m < maxBuckets" "finite (Mapping.keys m)" for m :: "(string, bucket) mapping" and k
  proof -
    have "card (Mapping.keys m \<union> {k} - {overflowKey}) \<le> card (insert k (Mapping.keys m))"
      using that by (intro card_mono) auto
    also have "\<dots> \<le> Suc (card (Mapping.keys m))" by (rule card_insert_le_m1) auto
    finally show ?thesis using that by (simp add: Mapping.size_def)
  qed
  note ok = assms(1) limiter_ok_mono [OF assms(1,2)] tidied_ok [OF assms(1), of now]
  show "refilled now l1 b = budget l key1 now"
    using assms(3)
  proof (cases rule: pick_bucket_cases)
    case known
    then show ?thesis by (simp add: budget_def)
  next
    case room
    then show ?thesis unfolding tidied_budget [OF assms(1) order_refl, of now key1, symmetric]
      by (auto simp: budget_def new split: option.splits)
  next
    case overflow
    then show ?thesis unfolding tidied_budget [OF assms(1) order_refl, of now key1, symmetric]
      by (auto simp: budget_def new split: option.splits)
  qed
  show "limiter_ok T l1"
    using assms(3) ok by (cases rule: pick_bucket_cases) auto
  show "bucket_ok now l1 b"
    using assms(3) ok limiter_okD(6) [OF ok(2)] limiter_okD(6) [OF tidied_ok [OF ok(2)]] limiter_okD(1) [OF ok(1)]
    by (cases rule: pick_bucket_cases) (auto simp: bucket_ok_def split: option.splits)
  show "now \<le> t \<Longrightarrow> budget l1 k t = budget l k t"
    using assms(3) tidied_budget [OF assms(1)] by (cases rule: pick_bucket_cases) auto
  show "rl_capacity l1 = rl_capacity l" "rl_refill l1 = rl_refill l"
    using assms(3) by (cases rule: pick_bucket_cases; simp)+
  show "card (Mapping.keys (rl_buckets l1) \<union> {key1} - {overflowKey}) \<le> maxBuckets"
    using assms(3)
  proof (cases rule: pick_bucket_cases)
    case known
    then have "Mapping.keys (rl_buckets l1) \<union> {key1} = Mapping.keys (rl_buckets l)"
      by (auto simp: keys_is_none_rep)
    then show ?thesis using limiter_okD(5) [OF ok(1)] by simp
  next
    case fresh: room
    show ?thesis by (rule room) (use fresh limiter_okD(4) [OF ok(3)] in auto)
  next
    case overflow
    then show ?thesis using limiter_okD(5) [OF ok(3)] by simp
  qed
qed

section \<open>One request\<close>

definition charged_bucket :: "gotime \<Rightarrow> string \<Rightarrow> rateLimiter \<Rightarrow> string" where
  "charged_bucket now key l = fst (pick_bucket now key l)"

lemma charged_bucket_or: "charged_bucket now key l = key \<or> charged_bucket now key l = overflowKey"
  by (auto simp: charged_bucket_def pick_bucket_def Let_def split: option.splits)

lemma budget_later:
  assumes "limiter_ok T l" "now \<le> t"
  shows "budget l k t \<le> budget l k now + seconds (t - now) * rl_refill l"
proof -
  have more: "0 \<le> seconds (t - now) * rl_refill l"
    using assms(2) limiter_okD(3) [OF assms(1)] by (simp add: seconds_nonneg)
  show ?thesis
  proof (cases "Mapping.lookup (rl_buckets l) k")
    case None
    then show ?thesis using more by (simp add: budget_def)
  next
    case (Some b)
    have "seconds (t - tb_last b) * rl_refill l = seconds (t - now) * rl_refill l + seconds (now - tb_last b) * rl_refill l"
      using seconds_diff [of t "tb_last b" now] by (simp add: distrib_right)
    then show ?thesis using Some more by (simp add: budget_def refilled_def min_def)
  qed
qed

lemma allowCost_effect:
  assumes ok: "limiter_ok T l" "T \<le> now" and cost: "0 \<le> cost"
    and res: "allowCost now key cost l = ((w, admitted), l')"
  defines "key1 \<equiv> charged_bucket now key l"
  shows "limiter_ok now l'" "rl_capacity l' = rl_capacity l" "rl_refill l' = rl_refill l"
    "admitted \<longleftrightarrow> cost \<le> budget l key1 now"
    "budget l' key1 now = budget l key1 now - (if admitted then cost else 0)"
    "k \<noteq> key1 \<Longrightarrow> now \<le> t \<Longrightarrow> budget l' k t = budget l k t"
proof -
  obtain b l1 where p: "pick_bucket now key l = (key1, b, l1)"
    unfolding key1_def charged_bucket_def by (metis prod.collapse)
  note pb = pick_bucket_budget [OF ok p]
  let ?left = "budget l key1 now - (if admitted then cost else 0)"
  have eqs: "l' = put_bucket key1 \<lparr>tb_tokens = ?left, tb_last = now\<rparr> l1" "admitted \<longleftrightarrow> cost \<le> budget l key1 now"
    using res p pb(1) by (auto simp: allowCost_def Let_def split: if_splits)
  show "admitted \<longleftrightarrow> cost \<le> budget l key1 now" by (rule eqs(2))
  have left: "0 \<le> ?left" "?left \<le> rl_capacity l"
    using eqs(2) cost budget_le [of l key1 now] budget_nonneg [OF ok, of key1] by auto
  show fields: "rl_capacity l' = rl_capacity l" "rl_refill l' = rl_refill l"
    using eqs(1) pb(5,6) by (simp_all add: put_bucket_def)
  show "budget l' key1 now = ?left"
    using eqs(1) left(2) fields by (simp add: put_bucket_def budget_def refilled_def seconds_def lookup_update)
  show "budget l' k t = budget l k t" if "k \<noteq> key1" "now \<le> t"
  proof -
    have "budget l' k t = budget l1 k t"
      using eqs(1) that(1) pb(5,6) by (simp add: put_bucket_def budget_def refilled_def lookup_update' cong: option.case_cong)
    then show ?thesis using pb(4) [OF that(2)] by simp
  qed
  show "limiter_ok now l'"
  proof -
    have "limiter_ok now l1" using limiter_ok_mono [OF pb(2) ok(2)] .
    moreover have "bucket_ok now l1 \<lparr>tb_tokens = ?left, tb_last = now\<rparr>"
      using left pb(5) by (simp add: bucket_ok_def)
    moreover have "Mapping.keys (rl_buckets l') = Mapping.keys (rl_buckets l1) \<union> {key1}"
      using eqs(1) by (simp add: put_bucket_def)
    ultimately show ?thesis using eqs(1) pb(7)
      by (auto simp: limiter_ok_def put_bucket_def bucket_ok_def lookup_update' split: if_splits)
  qed
qed

section \<open>A run of requests\<close>

text \<open>The requests in the order they take the lock, each with its time, its key and its cost. A run yields,
  for each, the bucket charged, the cost and whether it was admitted.\<close>

type_synonym write_request = "gotime \<times> string \<times> rat"

fun serve :: "write_request list \<Rightarrow> rateLimiter \<Rightarrow> (string \<times> rat \<times> bool) list \<times> rateLimiter" where
  "serve [] l = ([], l)"
| "serve ((now, key, cost) # reqs) l = (case allowCost now key cost l of ((_, ok), l1) \<Rightarrow>
     (case serve reqs l1 of (rs, l2) \<Rightarrow> ((charged_bucket now key l, cost, ok) # rs, l2)))"

definition spent :: "string \<Rightarrow> (string \<times> rat \<times> bool) list \<Rightarrow> rat" where
  "spent key rs = (\<Sum>(k, cost, ok) \<leftarrow> rs. if ok \<and> k = key then cost else 0)"

text \<open>The clock does not go back.\<close>

fun in_order :: "gotime \<Rightarrow> write_request list \<Rightarrow> gotime \<Rightarrow> bool" where
  "in_order t [] t' \<longleftrightarrow> t \<le> t'"
| "in_order t ((now, _, cost) # reqs) t' \<longleftrightarrow> t \<le> now \<and> 0 \<le> cost \<and> in_order now reqs t'"

lemma in_order_le: "in_order t reqs t' \<Longrightarrow> t \<le> t'"
  by (induction t reqs t' rule: in_order.induct) auto

lemma serve_ok:
  assumes "limiter_ok t l" "in_order t reqs t'" "serve reqs l = (rs, l')"
  shows "limiter_ok t' l' \<and> rl_capacity l' = rl_capacity l \<and> rl_refill l' = rl_refill l"
  using assms
proof (induction t reqs t' arbitrary: l rs rule: in_order.induct)
  case (1 t t')
  then show ?case by (auto intro: limiter_ok_mono)
next
  case (2 t now key cost reqs t')
  obtain w ok l1 where a: "allowCost now key cost l = ((w, ok), l1)" by (metis surj_pair)
  obtain rs1 where s: "serve reqs l1 = (rs1, l')" using 2(4) a by (auto split: prod.splits)
  have o: "t \<le> now" "0 \<le> cost" "in_order now reqs t'" using 2(3) by auto
  note e = allowCost_effect [OF 2(2) o(1,2) a]
  show ?case using 2(1) [OF e(1) o(3) s] e(2,3) by simp
qed

text \<open>What a bucket admits in a stretch of time, and what it has left, comes from what it had and what it
  refilled.\<close>

lemma serve_spends:
  assumes "limiter_ok t l" "in_order t reqs t'" "serve reqs l = (rs, l')"
  shows "spent key rs + budget l' key t' \<le> budget l key t + seconds (t' - t) * rl_refill l"
  using assms
proof (induction t reqs t' arbitrary: l rs rule: in_order.induct)
  case (1 t t')
  then show ?case using budget_later [OF 1(1), of t t' key] by (auto simp: spent_def)
next
  case (2 t now key' cost reqs t')
  obtain w ok l1 where a: "allowCost now key' cost l = ((w, ok), l1)" by (metis surj_pair)
  obtain rs1 where s: "serve reqs l1 = (rs1, l')" "rs = (charged_bucket now key' l, cost, ok) # rs1"
    using 2(4) a by (auto split: prod.splits)
  have o: "t \<le> now" "0 \<le> cost" "in_order now reqs t'" using 2(3) by auto
  note e = allowCost_effect [OF 2(2) o(1,2) a]
  have ih: "spent key rs1 + budget l' key t' \<le> budget l1 key now + seconds (t' - now) * rl_refill l"
    using 2(1) [OF e(1) o(3) s(1)] e(3) by simp
  have step: "spent key [(charged_bucket now key' l, cost, ok)] + budget l1 key now = budget l key now"
    using e(5) e(6) [of key now] by (cases "key = charged_bucket now key' l") (auto simp: spent_def)
  have "budget l key now \<le> budget l key t + seconds (now - t) * rl_refill l"
    by (rule budget_later [OF 2(2) o(1)])
  moreover have "seconds (t' - t) * rl_refill l = seconds (t' - now) * rl_refill l + seconds (now - t) * rl_refill l"
    using seconds_diff [of t' t now] by (simp add: distrib_right)
  moreover have "spent key rs = spent key [(charged_bucket now key' l, cost, ok)] + spent key rs1"
    using s(2) by (simp add: spent_def)
  ultimately show ?case using ih step by linarith
qed

text \<open>A run that never charges a bucket leaves its budget alone.\<close>

lemma serve_others:
  assumes "limiter_ok t l" "in_order t reqs t'" "serve reqs l = (rs, l')" "t' \<le> t''"
    "key \<noteq> overflowKey" "\<forall>(_, k, _) \<in> set reqs. k \<noteq> key"
  shows "budget l' key t'' = budget l key t''"
  using assms
proof (induction t reqs t' arbitrary: l rs rule: in_order.induct)
  case (1 t t')
  then show ?case by auto
next
  case (2 t now key' cost reqs t')
  obtain w ok l1 where a: "allowCost now key' cost l = ((w, ok), l1)" by (metis surj_pair)
  obtain rs1 where s: "serve reqs l1 = (rs1, l')" using 2(4) a by (auto split: prod.splits)
  have o: "t \<le> now" "0 \<le> cost" "in_order now reqs t'" using 2(3) by auto
  note e = allowCost_effect [OF 2(2) o(1,2) a]
  have "key \<noteq> charged_bucket now key' l" using charged_bucket_or [of now key' l] 2(6,7) by auto
  moreover have "now \<le> t''" using in_order_le [OF o(3)] 2(5) by simp
  ultimately have "budget l1 key t'' = budget l key t''" by (rule e(6))
  then show ?case using 2(1) [OF e(1) o(3) s 2(5,6)] 2(7) by auto
qed

section \<open>The bounds\<close>

lemma size_bounded: "limiter_ok T l \<Longrightarrow> Mapping.size (rl_buckets l) \<le> maxBuckets + 1"
proof -
  assume ok: "limiter_ok T l"
  have "card (Mapping.keys (rl_buckets l)) \<le> card (insert overflowKey (Mapping.keys (rl_buckets l) - {overflowKey}))"
    using limiter_okD(4) [OF ok] by (intro card_mono) auto
  also have "\<dots> \<le> Suc (card (Mapping.keys (rl_buckets l) - {overflowKey}))" by (rule card_insert_le_m1) auto
  finally show ?thesis using limiter_okD(5) [OF ok] by (simp add: Mapping.size_def)
qed

text \<open>Property C16. Take a limiter built for \<open>n\<close> writes a minute and any run of requests before the time
  \<open>t\<close>. In whatever comes from \<open>t\<close> to \<open>t'\<close>, one bucket admits writes of a total cost of at most \<open>n\<close>, the
  burst, plus \<open>n\<close> a minute for the time that passed; and the map never holds more than
  \<^verbatim>\<open>maxBuckets\<close> buckets and the overflow one, however many callers there are.\<close>

theorem writes_within_budget:
  assumes "newRateLimiter n = Some l0"
    and "in_order t0 before t" "serve before l0 = (earlier, l)"
    and "in_order t reqs t'" "serve reqs l = (rs, l')"
  shows "spent key rs \<le> of_int n + of_int n / 60 * seconds (t' - t) \<and>
    Mapping.size (rl_buckets l') \<le> maxBuckets + 1"
proof -
  have l0: "rl_capacity l0 = of_int n" "rl_refill l0 = of_int n / 60"
    using assms(1) by (auto simp: newRateLimiter_def split: if_splits)
  have l: "limiter_ok t l" "rl_capacity l = of_int n" "rl_refill l = of_int n / 60"
    using serve_ok [OF newRateLimiter_ok [OF assms(1)] assms(2,3)] l0 by auto
  have l': "limiter_ok t' l'" using serve_ok [OF l(1) assms(4,5)] by simp
  have "spent key rs + budget l' key t' \<le> of_int n + seconds (t' - t) * rl_refill l"
    using serve_spends [OF l(1) assms(4,5), of key] budget_le [of l key t] l(2) by simp
  then show ?thesis using budget_nonneg [OF l', of t' key] size_bounded [OF l'] l(3) by (simp add: mult.commute)
qed

section \<open>Nobody else's writes\<close>

lemma allowCost_keeps:
  assumes "Mapping.lookup (rl_buckets l) key = Some b" "now - tb_last b \<le> idleBucketTTL"
    "key' \<noteq> key" "key \<noteq> overflowKey" "allowCost now key' cost l = (v, l')"
  shows "Mapping.lookup (rl_buckets l') key = Some b"
proof -
  obtain key1 b1 l1 where p: "pick_bucket now key' l = (key1, b1, l1)" by (metis prod_cases3)
  have "key1 \<noteq> key" using charged_bucket_or [of now key' l] p assms(3,4) by (auto simp: charged_bucket_def)
  moreover have "Mapping.lookup (rl_buckets l1) key = Some b"
    using p assms(1,2) by (cases rule: pick_bucket_cases) (auto simp: tidied_def lookup_sweep)
  ultimately show ?thesis using p assms(5)
    by (auto simp: allowCost_def put_bucket_def lookup_update' Let_def split: if_splits)
qed

lemma serve_keeps:
  assumes "in_order t reqs t'" "Mapping.lookup (rl_buckets l) key = Some b" "t' - tb_last b \<le> idleBucketTTL"
    "key \<noteq> overflowKey" "\<forall>(_, k, _) \<in> set reqs. k \<noteq> key" "serve reqs l = (rs, l')"
  shows "Mapping.lookup (rl_buckets l') key = Some b"
  using assms
proof (induction t reqs t' arbitrary: l rs rule: in_order.induct)
  case (1 t t')
  then show ?case by simp
next
  case (2 t now key' cost reqs t')
  obtain w ok l1 where a: "allowCost now key' cost l = ((w, ok), l1)" by (metis surj_pair)
  obtain rs1 where s: "serve reqs l1 = (rs1, l')" using 2(7) a by (auto split: prod.splits)
  have o: "in_order now reqs t'" using 2(2) by auto
  have "now - tb_last b \<le> idleBucketTTL" using in_order_le [OF o] 2(4) by simp
  then have "Mapping.lookup (rl_buckets l1) key = Some b"
    using allowCost_keeps [OF 2(3) _ _ 2(5) a] 2(6) by auto
  then show ?case using 2(1) [OF o _ 2(4,5) _ s] 2(6) by auto
qed

lemma allowCost_known:
  assumes "Mapping.lookup (rl_buckets l) key = Some b" "Mapping.lookup (rl_buckets l') key = Some b"
    "rl_capacity l' = rl_capacity l" "rl_refill l' = rl_refill l"
  shows "fst (allowCost now key cost l') = fst (allowCost now key cost l)"
  using assms by (simp add: allowCost_def pick_bucket_def refilled_def Let_def)


section \<open>The overflow bucket\<close>

text \<open>The limiter after a flood of credential-less writes at one moment, one from each of the addresses.\<close>

fun anonymous_flood :: "gotime \<Rightarrow> string list \<Rightarrow> rateLimiter option \<Rightarrow> rateLimiter option" where
  "anonymous_flood now [] limiter = limiter"
| "anonymous_flood now (addr # addrs) limiter =
     anonymous_flood now addrs (snd (allowAnonymous now (anonymousKey addr) limiter))"

lemma anonymous_flood_append:
  "anonymous_flood now (as @ bs) limiter = anonymous_flood now bs (anonymous_flood now as limiter)"
  by (induction as arbitrary: limiter) auto

definition all_at :: "gotime \<Rightarrow> rateLimiter \<Rightarrow> bool" where
  "all_at now l \<longleftrightarrow> (\<forall>k b. Mapping.lookup (rl_buckets l) k = Some b \<longrightarrow> tb_last b = now)"

lemma tidied_all_at: "all_at now l \<Longrightarrow> rl_buckets (tidied now l) = rl_buckets l"
  by (rule mapping_eqI)
    (auto simp: tidied_def lookup_sweep all_at_def idleBucketTTL_def minute_def second_def split: option.splits)

lemma fresh_request:
  assumes "all_at now l" "Mapping.lookup (rl_buckets l) key = None" "allowCost now key cost l = (v, l')"
  defines "key1 \<equiv> if maxBuckets \<le> Mapping.size (rl_buckets l) then overflowKey else key"
  shows "charged_bucket now key l = key1" "all_at now l'"
    "Mapping.keys (rl_buckets l') = insert key1 (Mapping.keys (rl_buckets l))"
proof -
  obtain k b l1 where p: "pick_bucket now key l = (k, b, l1)" by (metis prod_cases3)
  have pk: "k = key1" "rl_buckets l1 = rl_buckets l"
    using p assms(2) tidied_all_at [OF assms(1)] unfolding key1_def
    by (cases rule: pick_bucket_cases; simp)+
  show "charged_bucket now key l = key1" using p pk by (simp add: charged_bucket_def)
  show "all_at now l'" using p pk assms(1,3)
    by (auto simp: allowCost_def put_bucket_def all_at_def lookup_update' Let_def split: if_splits)
  show "Mapping.keys (rl_buckets l') = insert key1 (Mapping.keys (rl_buckets l))" using p pk assms(3)
    by (auto simp: allowCost_def put_bucket_def Let_def split: if_splits)
qed

text \<open>Addresses that name no port, so that each is its own host.\<close>

definition flood_addr :: "nat \<Rightarrow> string" where
  "flood_addr i = replicate i (CHR ''x'')"

lemma peerHost_flood_addr [simp]: "peerHost (flood_addr i) = flood_addr i"
  by (simp add: peerHost_def SplitHost_def last_index_of_def index_of_def flood_addr_def)

lemma flood_key_inj: "inj (\<lambda>i. anonymousKey (flood_addr i))"
  by (rule injI) (simp add: anonymousKey_def, simp add: flood_addr_def)

lemma flood_state:
  assumes m: "0 < m" and i: "i \<le> maxBuckets + m"
  shows "\<exists>l. anonymous_flood now (map flood_addr [0..<i]) (newRateLimiter (4 * int m)) = Some l \<and>
    limiter_ok now l \<and> all_at now l \<and> rl_capacity l = 4 * of_nat m \<and>
    Mapping.keys (rl_buckets l) = (\<lambda>i. anonymousKey (flood_addr i)) ` {..<min i maxBuckets} \<union>
      (if maxBuckets < i then {overflowKey} else {}) \<and>
    budget l overflowKey now = 4 * of_nat m - 4 * of_nat (i - maxBuckets)"
  using i
proof (induction i)
  case 0
  obtain l0 where l0: "newRateLimiter (4 * int m) = Some l0" using m by (simp add: newRateLimiter_def)
  then have "rl_buckets l0 = Mapping.empty" "rl_capacity l0 = 4 * of_nat m"
    by (auto simp: newRateLimiter_def split: if_splits)
  then show ?case using l0 newRateLimiter_ok [OF l0, of now] by (simp add: all_at_def budget_def)
next
  case (Suc i)
  let ?key = "anonymousKey (flood_addr i)"
  obtain l where l: "anonymous_flood now (map flood_addr [0..<i]) (newRateLimiter (4 * int m)) = Some l"
    "limiter_ok now l" "all_at now l" "rl_capacity l = 4 * of_nat m"
    "Mapping.keys (rl_buckets l) = (\<lambda>i. anonymousKey (flood_addr i)) ` {..<min i maxBuckets} \<union>
      (if maxBuckets < i then {overflowKey} else {})"
    "budget l overflowKey now = 4 * of_nat m - 4 * of_nat (i - maxBuckets)"
    using Suc by auto
  have cost: "min anonWriteCost (rl_capacity l) = 4"
    using m l(4) by (simp add: anonWriteCost_def min_def)
  obtain w ok l' where a: "allowCost now ?key 4 l = ((w, ok), l')" by (metis surj_pair)
  have "?key \<notin> Mapping.keys (rl_buckets l)"
    using l(5) flood_key_inj by (auto dest: injD split: if_splits)
  then have new: "Mapping.lookup (rl_buckets l) ?key = None" by (simp add: keys_is_none_rep Option.is_none_def)
  have "card ((\<lambda>i. anonymousKey (flood_addr i)) ` {..<min i maxBuckets}) = min i maxBuckets"
    using card_image [OF inj_on_subset [OF flood_key_inj subset_UNIV], of "{..<min i maxBuckets}"] by simp
  then have full: "maxBuckets \<le> Mapping.size (rl_buckets l) \<longleftrightarrow> maxBuckets \<le> i"
    using l(5) by (auto simp: Mapping.size_def intro: order_trans [OF _ card_insert_le] split: if_splits)
  note f = fresh_request [OF l(3) new a, unfolded full]
  note e = allowCost_effect [OF l(2) order_refl _ a]
  have keys: "Mapping.keys (rl_buckets l') = (\<lambda>i. anonymousKey (flood_addr i)) ` {..<min (Suc i) maxBuckets} \<union>
      (if maxBuckets < Suc i then {overflowKey} else {})"
    using f(3) l(5) by (auto simp: min_def lessThan_Suc not_le less_Suc_eq_le split: if_splits)
  have left: "budget l' overflowKey now = 4 * of_nat m - 4 * of_nat (Suc i - maxBuckets)"
  proof (cases "maxBuckets \<le> i")
    case True
    then have some: "i - maxBuckets < m" "Suc i - maxBuckets = Suc (i - maxBuckets)" using Suc.prems by auto
    moreover from this have "of_nat (i - maxBuckets) + 1 \<le> (of_nat m :: rat)"
      by (metis Suc_leI of_nat_Suc of_nat_le_iff add.commute)
    ultimately have "4 \<le> budget l overflowKey now" using l(6) by linarith
    then have "budget l' overflowKey now = budget l overflowKey now - 4"
      using True e(4,5) f(1) by simp
    then show ?thesis using l(6) some(2) by simp
  next
    case False
    then have "budget l' overflowKey now = budget l overflowKey now"
      using e(6) [of overflowKey now] f(1) keys_apart(9) by simp
    then show ?thesis using l(6) False by simp
  qed
  have "anonymous_flood now (map flood_addr [0..<Suc i]) (newRateLimiter (4 * int m)) = Some l'"
    using l(1) a cost by (simp add: anonymous_flood_append allowAnonymous_def)
  then show ?case using e(1,2) f(2) keys left l(4) by auto
qed

text \<open>Property C39. The budgets of callers that are not in the map yet are pooled with the flood's: under the
  default rate there are addresses from which credential-less writes, one each and all in the same moment,
  leave the limiter refusing the first write of a caller that holds a token. So a flood of credential-less
  writes can lock out a caller that holds one, which the comment on \<^verbatim>\<open>anonWriteCost\<close> rules out.\<close>

theorem anonymous_flood_locks_out:
  "\<exists>addrs. fst (allow now (tokenKey name) (anonymous_flood now addrs (newRateLimiter defaultWriteRateLimit))) = (1, False)"
proof -
  obtain l where l: "anonymous_flood now (map flood_addr [0..<maxBuckets + 30]) (newRateLimiter (4 * int 30)) = Some l"
    "limiter_ok now l" "all_at now l" "rl_capacity l = 4 * of_nat 30"
    "Mapping.keys (rl_buckets l) = (\<lambda>i. anonymousKey (flood_addr i)) ` {..<maxBuckets} \<union> {overflowKey}"
    "budget l overflowKey now = 0"
    using flood_state [of 30 "maxBuckets + 30" now] by auto
  have "tokenKey name \<notin> Mapping.keys (rl_buckets l)"
    using l(5) keys_apart(2,7) by (auto dest: sym)
  then have new: "Mapping.lookup (rl_buckets l) (tokenKey name) = None"
    by (simp add: keys_is_none_rep Option.is_none_def)
  have "maxBuckets \<le> Mapping.size (rl_buckets l)"
    using l(5) card_image [OF inj_on_subset [OF flood_key_inj subset_UNIV], of "{..<maxBuckets}"]
    by (auto simp: Mapping.size_def intro: order_trans [OF _ card_insert_le])
  then obtain b l1 where p: "pick_bucket now (tokenKey name) l = (overflowKey, b, l1)"
    using fresh_request(1) [OF l(3) new] by (metis charged_bucket_def prod.collapse)
  have "refilled now l1 b = 0" "rl_refill l = 2"
    using pick_bucket_budget [OF l(2) order_refl p] l(4,6) limiter_okD(2) [OF l(2)] by auto
  moreover have "\<lceil>1 / 2 :: rat\<rceil> = 1" by (simp add: ceiling_eq_iff)
  ultimately have "fst (allowCost now (tokenKey name) 1 l) = (1, False)"
    using p by (simp add: allowCost_def)
  then show ?thesis using l(1) by (intro exI [of _ "map flood_addr [0..<maxBuckets + 30]"])
    (simp add: allow_def split_def defaultWriteRateLimit_def)
qed

text \<open>Concrete runs, for a limiter of two writes a minute.\<close>

theorem writes_within_budget_witness:
  "\<exists>l0 earlier l rs l'. newRateLimiter 2 = Some l0 \<and> in_order 0 [(0, ''t:a'', 1)] second \<and>
     serve [(0, ''t:a'', 1)] l0 = (earlier, l) \<and>
     in_order second [(second, ''t:a'', 1), (second, ''t:a'', 1)] second \<and>
     serve [(second, ''t:a'', 1), (second, ''t:a'', 1)] l = (rs, l') \<and>
     spent ''t:a'' rs \<le> 2 + 2 / 60 * seconds (second - second) \<and> Mapping.size (rl_buckets l') \<le> maxBuckets + 1"
proof -
  obtain l0 where a: "newRateLimiter 2 = Some l0" by (simp add: newRateLimiter_def)
  obtain earlier l where b: "serve [(0, ''t:a'', 1)] l0 = (earlier, l)" by (metis surj_pair)
  obtain rs l' where c: "serve [(second, ''t:a'', 1), (second, ''t:a'', 1)] l = (rs, l')" by (metis surj_pair)
  have o: "in_order 0 [(0, ''t:a'', 1)] second" "in_order second [(second, ''t:a'', 1), (second, ''t:a'', 1)] second"
    by (simp_all add: second_def)
  show ?thesis using writes_within_budget [OF a o(1) b o(2) c, of "''t:a''"] a b c o
    by (intro exI [of _ l0] exI [of _ earlier] exI [of _ l] exI [of _ rs] exI [of _ l']) simp
qed


end
