(* ===== verification/Audit_Redact.thy ===== *)
theory Audit_Redact
  imports Go_Json_Rows "HOL-Library.AList" "HOL-Library.List_Lexorder" "HOL-Library.Char_ord"
begin

text \<open>
  What the audit trail keeps of a request body: \<^verbatim>\<open>Redact\<close> of \<^verbatim>\<open>internal/audit/audit.go\<close>. A body is decoded
  into a tree, the values of secret-looking members are masked, and the tree is marshalled and cut. How Go
  prints a decoded number is the parameter \<open>num\<close>: the text of the \<^verbatim>\<open>float64\<close> a literal denotes, \<open>None\<close>
  for one out of range.
\<close>

section \<open>Decoding into any\<close>

datatype jval = JNull | JBool bool | JNum string | JStr string | JArr "jval list" | JObj "(string \<times> jval) list"

text \<open>A Go map keeps the last value of a key; marshalling it sorts the keys by their bytes.\<close>

definition map_entries :: "(string \<times> 'a) list \<Rightarrow> (string \<times> 'a) list" where
  "map_entries ms = sort_key fst (AList.clearjunk (rev ms))"

text \<open>The tree of a valid value without white space around it. The fuel is the length of the text.\<close>

fun to_value :: "nat \<Rightarrow> bytes \<Rightarrow> jval" where
  "to_value 0 v = JNull"
| "to_value (Suc n) v = (case v of
     [] \<Rightarrow> JNull
   | c # t \<Rightarrow>
       if c = CHR ''{'' then
         (let u = skip_ws t in
          if (case u of [] \<Rightarrow> True | e # _ \<Rightarrow> e = CHR ''}'') then JObj []
          else case members (length u) max_nesting u of
            None \<Rightarrow> JNull
          | Some ms \<Rightarrow> JObj (map_entries (map (\<lambda>(k, x). (unquote k, to_value n x)) ms)))
       else if c = CHR ''['' then
         (let u = skip_ws t in
          if (case u of [] \<Rightarrow> True | e # _ \<Rightarrow> e = CHR '']'') then JArr []
          else case elements (length u) max_nesting u of
            None \<Rightarrow> JNull
          | Some xs \<Rightarrow> JArr (map (to_value n) xs))
       else if c = quote then (case scan_str t of None \<Rightarrow> JNull | Some (s, _) \<Rightarrow> JStr (unquote s))
       else if v = ''true'' then JBool True
       else if v = ''false'' then JBool False
       else if v = ''null'' then JNull
       else JNum v)"

fun numbers_ok :: "(string \<Rightarrow> string option) \<Rightarrow> jval \<Rightarrow> bool" where
  "numbers_ok num (JNum s) \<longleftrightarrow> num s \<noteq> None"
| "numbers_ok num (JArr vs) \<longleftrightarrow> list_all (numbers_ok num) vs"
| "numbers_ok num (JObj ms) \<longleftrightarrow> list_all (\<lambda>(k, v). numbers_ok num v) ms"
| "numbers_ok num v \<longleftrightarrow> True"

definition Unmarshal_any :: "(string \<Rightarrow> string option) \<Rightarrow> bytes \<Rightarrow> jval option" where
  "Unmarshal_any num body =
     (if \<not> json_Valid body then None
      else let s = skip_ws body in
        case scan_value (scan_fuel s) max_nesting s of
          None \<Rightarrow> None
        | Some t \<Rightarrow> (let v = to_value (length s) (take (length s - length t) s) in
            if numbers_ok num v then Some v else None))"

fun Marshal_any :: "(string \<Rightarrow> string option) \<Rightarrow> jval \<Rightarrow> bytes" where
  "Marshal_any num JNull = ''null''"
| "Marshal_any num (JBool b) = (if b then ''true'' else ''false'')"
| "Marshal_any num (JNum s) = (case num s of None \<Rightarrow> [] | Some t \<Rightarrow> t)"
| "Marshal_any num (JStr s) = json_string s"
| "Marshal_any num (JArr vs) = json_array (map (Marshal_any num) vs)"
| "Marshal_any num (JObj ms) = json_object (map (\<lambda>(k, v). (k, Marshal_any num v)) ms)"

section \<open>Masking\<close>

definition sensitiveKeys :: "string list" where
  "sensitiveKeys = [''password'', ''passwd'', ''pwd'', ''secret'', ''token'', ''apikey'', ''api_key'', ''credential'',
     ''privatekey'', ''private_key'', ''authorization'', ''connectionstring'', ''connection_string'',
     ''connstring'', ''conn_string'', ''dsn'', ''signingkey'', ''signing_key'', ''cert'', ''pem'',
     ''sessionid'', ''session_id'']"

text \<open>\<^verbatim>\<open>strings.ToLower\<close>, as far as an ASCII needle can tell: of the runes above ASCII only U+0130 and U+212A
  have an ASCII lower case.\<close>

definition lower_rune :: "string \<Rightarrow> string" where
  "lower_rune r =
     (if r = byte_string [196, 176] then ''i''
      else if r = byte_string [226, 132, 170] then ''k''
      else case r of [c] \<Rightarrow> [lower_char c] | _ \<Rightarrow> r)"

definition ToLower :: "string \<Rightarrow> string" where
  "ToLower s = concat (map lower_rune (runes s))"

fun str_contains :: "string \<Rightarrow> string \<Rightarrow> bool" where
  "str_contains [] n \<longleftrightarrow> n = []"
| "str_contains (c # s) n \<longleftrightarrow> HasPrefix (c # s) n \<or> str_contains s n"

definition isSensitiveKey :: "string \<Rightarrow> bool" where
  "isSensitiveKey name = (let lower = ToLower name in list_ex (str_contains lower) sensitiveKeys)"

fun redactValue :: "jval \<Rightarrow> jval" where
  "redactValue (JObj ms) =
     JObj (map (\<lambda>(k, v). (k, if isSensitiveKey k then JStr ''[redacted]'' else redactValue v)) ms)"
| "redactValue (JArr vs) = JArr (map redactValue vs)"
| "redactValue v = v"

definition MaxStoredBody :: nat where "MaxStoredBody = 3800"
definition bodyTruncated :: string where "bodyTruncated = ''...[truncated]''"
definition bodyNotJSON :: string where "bodyNotJSON = ''[non-JSON body omitted]''"

text \<open>\<^verbatim>\<open>strings.ToValidUTF8(s, "")\<close>.\<close>

definition drop_invalid :: "string \<Rightarrow> string" where
  "drop_invalid s = concat (filter (\<lambda>r. utf8_width r \<noteq> None) (runes s))"

definition Redact :: "(string \<Rightarrow> string option) \<Rightarrow> bytes \<Rightarrow> string" where
  "Redact num body =
     (if body = [] then []
      else case Unmarshal_any num body of
        None \<Rightarrow> bodyNotJSON
      | Some v \<Rightarrow> (let out = Marshal_any num (redactValue v) in
          if MaxStoredBody < length out then drop_invalid (take MaxStoredBody out) @ bodyTruncated else out))"

section \<open>Secrets do not matter\<close>

text \<open>Two bodies that differ only in what stands under secret-looking members, at any depth.\<close>

inductive same_but_secrets :: "jval \<Rightarrow> jval \<Rightarrow> bool" where
  refl: "same_but_secrets v v"
| arr: "list_all2 same_but_secrets us vs \<Longrightarrow> same_but_secrets (JArr us) (JArr vs)"
| obj: "list_all2 (\<lambda>x y. fst x = fst y \<and> (isSensitiveKey (fst x) \<or> same_but_secrets (snd x) (snd y))) us vs
    \<Longrightarrow> same_but_secrets (JObj us) (JObj vs)"

lemma same_but_secrets_redact: "same_but_secrets u v \<Longrightarrow> redactValue u = redactValue v"
proof (induction rule: same_but_secrets.induct)
  case (refl v)
  show ?case by simp
next
  case (arr us vs)
  then have "map redactValue us = map redactValue vs"
    by (induction rule: list_all2_induct) auto
  then show ?case by simp
next
  case (obj us vs)
  let ?f = "\<lambda>(k, v). (k, if isSensitiveKey k then JStr ''[redacted]'' else redactValue v)"
  have "map ?f us = map ?f vs"
    using obj by (induction rule: list_all2_induct) (auto split: prod.splits)
  then show ?case by simp
qed

text \<open>Property C24. What the trail keeps of a body does not depend on the values of its secret-looking
  members: two JSON bodies that differ only there, however deep, are stored as the same text.\<close>

theorem redact_hides_secrets:
  assumes "Unmarshal_any num body = Some u" "Unmarshal_any num body' = Some v" "same_but_secrets u v"
  shows "Redact num body = Redact num body'"
proof -
  have "body \<noteq> []" "body' \<noteq> []"
    using assms(1,2) by (auto simp: Unmarshal_any_def json_Valid_def scan_fuel_def numeral_2_eq_2)
  then show ?thesis using assms(1,2) same_but_secrets_redact [OF assms(3)] by (simp add: Redact_def)
qed

definition body_with :: "string \<Rightarrow> bytes" where
  "body_with s = json_object [(''pwd'', json_string s)]"

lemma Unmarshal_body_with:
  "Unmarshal_any (\<lambda>n. Some n) (body_with ''a'') = Some (JObj [(''pwd'', JStr ''a'')])"
  "Unmarshal_any (\<lambda>n. Some n) (body_with ''b'') = Some (JObj [(''pwd'', JStr ''b'')])"
  by code_simp+

theorem redact_hides_secrets_witness:
  "Redact (\<lambda>n. Some n) (body_with ''a'') = Redact (\<lambda>n. Some n) (body_with ''b'')"
proof (rule redact_hides_secrets [OF Unmarshal_body_with])
  have "isSensitiveKey ''pwd''" by code_simp
  then show "same_but_secrets (JObj [(''pwd'', JStr ''a'')])
      (JObj [(''pwd'', JStr ''b'')])"
    by (intro same_but_secrets.obj) (auto intro: same_but_secrets.refl)
qed

section \<open>What is stored fits\<close>

lemma length_drop_invalid: "length (drop_invalid s) \<le> length s"
proof -
  have "length (concat (filter P xs)) \<le> length (concat xs)" for P and xs :: "string list"
    by (induction xs) auto
  from this [of _ "runes s"] show ?thesis by (simp add: drop_invalid_def concat_runes)
qed

text \<open>The stored body is at most 3814 bytes long, which the 4000 characters of the column
  hold whatever the request carried.\<close>

theorem redact_fits_the_column:
  "length (Redact num body) \<le> 3814 \<and> RuneCount (Redact num body) \<le> 4000"
proof -
  have "length (drop_invalid (take MaxStoredBody out)) \<le> MaxStoredBody" for out
    by (rule order_trans [OF length_drop_invalid]) simp
  then have "length (Redact num body) \<le> 3814"
    by (simp add: Redact_def bodyNotJSON_def bodyTruncated_def MaxStoredBody_def Let_def split: option.split)
  then show ?thesis using RuneCount_le_length [of "Redact num body"] by simp
qed

end
