(* ===== verification/Go_Calendar.thy ===== *)
theory Go_Calendar
  imports Go_Time
begin

text \<open>
  The calendar behind \<^verbatim>\<open>time.Date\<close>: days from a civil date, and the proof that this undoes
  \<open>civil_of_days\<close> and that the dates it yields exist. It goes through the division of the 400 years of an
  era into centuries, leap cycles, years and days.
\<close>

section \<open>The calendar\<close>

definition leap :: "int \<Rightarrow> bool" where
  "leap y \<longleftrightarrow> 4 dvd y \<and> (\<not> 100 dvd y \<or> 400 dvd y)"

definition daysIn :: "int \<Rightarrow> int \<Rightarrow> int" where
  "daysIn m y = (if m = 2 then (if leap y then 29 else 28) else if m \<in> {4, 6, 9, 11} then 30 else 31)"

definition days_of_civil :: "int \<Rightarrow> int \<Rightarrow> int \<Rightarrow> int" where
  "days_of_civil y m d = (
     let y1 = (if m \<le> 2 then y - 1 else y);
         era = y1 div 400;
         yoe = y1 mod 400;
         mp = (if m \<le> 2 then m + 9 else m - 3);
         doy = (153 * mp + 2) div 5 + d - 1
     in era * 146097 + (yoe * 365 + yoe div 4 - yoe div 100 + doy) - 306)"

lemma era_split:
  fixes doe :: int
  assumes "0 \<le> doe" "doe < 146097"
  obtains c q k d where "doe = 36524 * c + 1461 * q + 365 * k + d"
    "0 \<le> c" "c \<le> 3" "0 \<le> q" "q \<le> 24" "0 \<le> k" "k \<le> 3" "0 \<le> d" "d \<le> 365"
    "d = 365 \<Longrightarrow> k = 3 \<and> (q < 24 \<or> c = 3)"
proof -
  define c where "c = min 3 (doe div 36524)"
  define r where "r = doe - 36524 * c"
  define q where "q = r div 1461"
  define s where "s = r mod 1461"
  define k where "k = min 3 (s div 365)"
  have c: "0 \<le> c" "c \<le> 3" "0 \<le> r" "r \<le> 36524" "r = 36524 \<Longrightarrow> c = 3"
  proof -
    show "0 \<le> c" "c \<le> 3" using assms by (auto simp: c_def)
    show "0 \<le> r" "r \<le> 36524" "r = 36524 \<Longrightarrow> c = 3"
      using assms unfolding r_def c_def by (cases "doe div 36524 \<le> 3"; simp add: min_def; linarith)+
  qed
  have r: "r = 1461 * q + s" "0 \<le> s" "s < 1461" "0 \<le> q" "q \<le> 24"
    using c by (auto simp: q_def s_def)
  have k: "0 \<le> k" "k \<le> 3" "0 \<le> s - 365 * k" "s - 365 * k \<le> 365" "s - 365 * k = 365 \<Longrightarrow> k = 3"
  proof -
    show "0 \<le> k" "k \<le> 3" using r by (auto simp: k_def)
    show "0 \<le> s - 365 * k" "s - 365 * k \<le> 365" "s - 365 * k = 365 \<Longrightarrow> k = 3"
      using r unfolding k_def by (cases "s div 365 \<le> 3"; simp add: min_def; linarith)+
  qed
  show ?thesis
  proof (rule that [of c q k "s - 365 * k"])
    show "doe = 36524 * c + 1461 * q + 365 * k + (s - 365 * k)" using r(1) by (simp add: r_def)
    show "k = 3 \<and> (q < 24 \<or> c = 3)" if "s - 365 * k = 365"
      using k(5) [OF that] that r c(5) by (cases "q = 24") auto
  qed (use c r k in auto)
qed

lemma div_of_parts: "0 \<le> e \<Longrightarrow> e < m \<Longrightarrow> (m * n + e) div m = n" for m n e :: int
  by simp

lemma year_of_era:
  fixes c q k d :: int
  assumes doe: "doe = 36524 * c + 1461 * q + 365 * k + d"
    and b: "0 \<le> c" "c \<le> 3" "0 \<le> q" "q \<le> 24" "0 \<le> k" "k \<le> 3" "0 \<le> d" "d \<le> 365"
    and last: "d = 365 \<Longrightarrow> k = 3 \<and> (q < 24 \<or> c = 3)"
  shows "(doe - doe div 1460 + doe div 36524 - doe div 146096) div 365 = 100 * c + 4 * q + k"
    "(100 * c + 4 * q + k) div 4 = 25 * c + q" "(100 * c + 4 * q + k) div 100 = c"
    "100 * c + 4 * q + k < 400"
proof -
  define \<delta> where "\<delta> = (if 1460 \<le> 24 * c + q + 365 * k + d then 1 else 0 :: int)"
  have "doe = 1460 * (25 * c + q) + (24 * c + q + 365 * k + d)" using doe by simp
  moreover have "24 * c + q + 365 * k + d < 2920" "0 \<le> 24 * c + q + 365 * k + d" using b by auto
  ultimately have q1: "doe div 1460 = 25 * c + q + \<delta>"
    by (auto simp: \<delta>_def)
  have q23: "doe div 36524 - doe div 146096 = c"
  proof (cases "doe = 146096")
    case True
    then show ?thesis using doe b last by auto
  next
    case False
    have "1461 * q + 365 * k + d < 36524"
    proof (rule ccontr)
      assume "\<not> 1461 * q + 365 * k + d < 36524"
      then have "q = 24 \<and> k = 3 \<and> d = 365" using b by auto
      then show False using last doe False by auto
    qed
    then have "doe div 36524 = c" "doe < 146096" using doe b by auto
    moreover have "0 \<le> doe" using doe b by auto
    ultimately show ?thesis by simp
  qed
  have "0 \<le> d - \<delta>" "d - \<delta> \<le> 364" using b last by (cases "d = 365"; auto simp: \<delta>_def)+
  moreover have N: "doe - doe div 1460 + doe div 36524 - doe div 146096 = 365 * (100 * c + 4 * q + k) + (d - \<delta>)"
    using q1 q23 doe by simp
  ultimately show "(doe - doe div 1460 + doe div 36524 - doe div 146096) div 365 = 100 * c + 4 * q + k"
    unfolding N by (intro div_of_parts) auto
  show "(100 * c + 4 * q + k) div 4 = 25 * c + q" "(100 * c + 4 * q + k) div 100 = c"
    "100 * c + 4 * q + k < 400" using b by auto
qed

lemma civil_roundtrip:
  assumes "civil_of_days z = (y, m, d)"
  shows "days_of_civil y m d = z" "1 \<le> m" "m \<le> 12" "1 \<le> d" "d \<le> daysIn m y"
proof -
  define era doe where "era = (z + 306) div 146097" and "doe = (z + 306) mod 146097"
  have "0 \<le> doe" "doe < 146097" by (auto simp: doe_def)
  then obtain c q k doy where s: "doe = 36524 * c + 1461 * q + 365 * k + doy"
    "0 \<le> c" "c \<le> 3" "0 \<le> q" "q \<le> 24" "0 \<le> k" "k \<le> 3" "0 \<le> doy" "doy \<le> 365"
    "doy = 365 \<Longrightarrow> k = 3 \<and> (q < 24 \<or> c = 3)"
    by (rule era_split) blast
  define yoe where "yoe = 100 * c + 4 * q + k"
  define mp where "mp = (5 * doy + 2) div 153"
  have ye: "(doe - doe div 1460 + doe div 36524 - doe div 146096) div 365 = yoe"
    "yoe div 4 = 25 * c + q" "yoe div 100 = c" "yoe < 400"
    using year_of_era [OF s(1-9)] s(10) unfolding yoe_def by blast+
  have doy: "doe - (365 * yoe + yoe div 4 - yoe div 100) = doy"
    unfolding ye(2,3) using s(1) by (simp add: yoe_def)
  have z: "z = era * 146097 + doe - 306" by (simp add: era_def doe_def)
  have ymd: "d = doy - (153 * mp + 2) div 5 + 1" "m = (if mp < 10 then mp + 3 else mp - 9)"
    "y = yoe + era * 400 + (if m \<le> 2 then 1 else 0)"
    using assms unfolding civil_of_days_def Let_def era_def [symmetric] doe_def [symmetric] ye(1) doy
      mp_def [symmetric] prod.inject by blast+
  have mp: "0 \<le> mp" "mp \<le> 11" using s(8,9) by (auto simp: mp_def)
  show m: "1 \<le> m" "m \<le> 12" using mp ymd(2) by auto
  have yoe: "0 \<le> yoe" "yoe < 400" using s ye(4) by (auto simp: yoe_def)
  have again: "(if m \<le> 2 then y - 1 else y) = yoe + era * 400" "(if m \<le> 2 then m + 9 else m - 3) = mp"
    using ymd(2,3) mp by auto
  show "days_of_civil y m d = z"
    unfolding days_of_civil_def again Let_def using yoe doy ymd(1) z by simp
  have leap: "leap (yoe + era * 400 + 1)" if "doy = 365"
  proof -
    have k: "k = 3" "q < 24 \<or> c = 3" using s(10) [OF that] by auto
    have y1: "yoe + era * 400 + 1 = 4 * (25 * c + q + 1 + 100 * era)" using k by (simp add: yoe_def)
    show ?thesis
    proof (cases "q = 24")
      case True
      then have "yoe + era * 400 + 1 = 400 * (1 + era)" using k by (simp add: yoe_def)
      then show ?thesis by (simp add: leap_def)
    next
      case False
      have "\<not> 100 dvd (4 * (q + 1) + 100 * (c + 4 * era))"
        using False s(4,5) by (simp add: dvd_add_left_iff zdvd_not_zless)
      moreover have "yoe + era * 400 + 1 = 4 * (q + 1) + 100 * (c + 4 * era)" using k by (simp add: yoe_def)
      ultimately have "\<not> 100 dvd (yoe + era * 400 + 1)" by (simp only: not_False_eq_True)
      moreover have "4 dvd (yoe + era * 400 + 1)" unfolding y1 by (rule dvd_triv_left)
      ultimately show ?thesis unfolding leap_def by blast
    qed
  qed
  have bounds: "153 * mp \<le> 5 * doy + 2" "5 * doy + 2 < 153 * mp + 153" by (auto simp: mp_def)
  have "mp \<in> {0, 1, 2, 3, 4, 5, 6, 7, 8, 9, 10, 11}" using mp by (simp, presburger)
  then show "1 \<le> d" "d \<le> daysIn m y"
    using bounds s(9) leap ymd by (cases "doy = 365"; auto simp: daysIn_def)+
qed

end
