(* ===== verification/Go_Rfc3339.thy ===== *)
theory Go_Rfc3339
  imports Go_Calendar
begin

text \<open>
  The times of the HTTP API: \<^verbatim>\<open>time.Time\<close> as \<^verbatim>\<open>encoding/json\<close> writes it, RFC 3339 with the trailing zeros
  of the fraction dropped, for a process that runs in UTC, and as it reads it, with any offset. What is
  written is read back exactly.
\<close>

section \<open>Printing and parsing\<close>

definition rtrim0 :: "string \<Rightarrow> string" where
  "rtrim0 s = rev (dropWhile (\<lambda>c. c = CHR ''0'') (rev s))"

definition nano_part :: "gotime \<Rightarrow> string" where
  "nano_part t = (if t mod second = 0 then [] else CHR ''.'' # rtrim0 (pad 9 (t mod second)))"

definition FormatRFC3339Nano :: "gotime \<Rightarrow> string" where
  "FormatRFC3339Nano t = (
     let secs = t div second; days = secs div 86400; s = secs mod 86400
     in case civil_of_days days of (y, m, d) \<Rightarrow>
          pad 4 y @ ''-'' @ pad 2 m @ ''-'' @ pad 2 d @ ''T''
          @ pad 2 (s div 3600) @ '':'' @ pad 2 ((s div 60) mod 60) @ '':'' @ pad 2 (s mod 60)
          @ nano_part t @ ''Z'')"

definition year_of :: "gotime \<Rightarrow> int" where
  "year_of t = fst (civil_of_days (t div second div 86400))"

text \<open>\<^verbatim>\<open>Time.MarshalJSON\<close> refuses a year that does not have four digits.\<close>

definition printable_time :: "gotime \<Rightarrow> bool" where
  "printable_time t \<longleftrightarrow> 0 \<le> year_of t \<and> year_of t \<le> 9999"

definition parse_uint :: "string \<Rightarrow> int \<Rightarrow> int \<Rightarrow> int option" where
  "parse_uint s lo hi = (case dec_val 0 s of
     None \<Rightarrow> None
   | Some n \<Rightarrow> if lo \<le> int n \<and> int n \<le> hi then Some (int n) else None)"

text \<open>The fraction of a second, nanoseconds at most, and what follows it.\<close>

definition parse_nanos :: "bool \<Rightarrow> string \<Rightarrow> int \<times> string" where
  "parse_nanos lax s = (case s of
     c # d # _ \<Rightarrow>
       if (c = CHR ''.'' \<or> lax \<and> c = CHR '','') \<and> digit_val d \<noteq> None then
         (let ds = takeWhile (\<lambda>x. digit_val x \<noteq> None) (tl s); k = min 9 (length ds)
          in case dec_val 0 (take k ds) of
               None \<Rightarrow> (0, s)
             | Some n \<Rightarrow> (int n * 10 ^ (9 - k), drop (length ds) (tl s)))
       else (0, s)
   | _ \<Rightarrow> (0, s))"

text \<open>The seconds the zone is ahead of UTC.\<close>

definition parse_zone :: "bool \<Rightarrow> string \<Rightarrow> int option" where
  "parse_zone lax s =
     (if s = ''Z'' then Some 0
      else if length s \<noteq> 6 \<or> (s ! 0 \<noteq> CHR ''+'' \<and> s ! 0 \<noteq> CHR ''-'') \<or> s ! 3 \<noteq> CHR '':'' then None
      else case (parse_uint (take 2 (drop 1 s)) 0 (if lax then 24 else 23), parse_uint (drop 4 s) 0 (if lax then 60 else 59)) of
        (Some h, Some m) \<Rightarrow> Some ((if s ! 0 = CHR ''-'' then - 1 else 1) * (h * 60 + m) * 60)
      | _ \<Rightarrow> None)"

definition separators_ok :: "string \<Rightarrow> bool" where
  "separators_ok s \<longleftrightarrow> s ! 4 = CHR ''-'' \<and> s ! 7 = CHR ''-'' \<and> s ! 10 = CHR ''T'' \<and>
     s ! 13 = CHR '':'' \<and> s ! 16 = CHR '':''"

definition parse_rfc :: "bool \<Rightarrow> string \<Rightarrow> gotime option" where
  "parse_rfc lax s =
     (if length s < 19 \<or> \<not> separators_ok s then None
      else case (parse_uint (take 4 s) 0 9999, parse_uint (take 2 (drop 5 s)) 1 12) of
        (Some y, Some m) \<Rightarrow>
          (case (parse_uint (take 2 (drop 8 s)) 1 (daysIn m y), parse_uint (take 2 (drop 11 s)) 0 23,
                 parse_uint (take 2 (drop 14 s)) 0 59, parse_uint (take 2 (drop 17 s)) 0 59) of
             (Some d, Some hh, Some mi, Some se) \<Rightarrow>
               (case parse_nanos lax (drop 19 s) of (ns, rest) \<Rightarrow>
                  map_option (\<lambda>ahead. (days_of_civil y m d * 86400 + hh * 3600 + mi * 60 + se - ahead) * second + ns)
                    (parse_zone lax rest))
           | _ \<Rightarrow> None)
      | _ \<Rightarrow> None)"

text \<open>\<^verbatim>\<open>Time.UnmarshalJSON\<close> is strict; \<^verbatim>\<open>time.Parse(time.RFC3339, s)\<close> also takes an hour of one digit, a comma
  before the fraction, and an offset of up to 24:60.\<close>

definition ParseRFC3339 :: "string \<Rightarrow> gotime option" where
  "ParseRFC3339 = parse_rfc False"

definition time_Parse_RFC3339 :: "string \<Rightarrow> gotime option" where
  "time_Parse_RFC3339 s = (case parse_rfc False s of
     Some t \<Rightarrow> Some t
   | None \<Rightarrow> parse_rfc True (if 12 < length s \<and> s ! 12 = CHR '':'' then take 11 s @ CHR ''0'' # drop 11 s else s))"

text \<open>\<^verbatim>\<open>time.Parse("2006-01-02", s)\<close>.\<close>

definition time_Parse_date :: "string \<Rightarrow> gotime option" where
  "time_Parse_date s =
     (if length s \<noteq> 10 \<or> s ! 4 \<noteq> CHR ''-'' \<or> s ! 7 \<noteq> CHR ''-'' then None
      else case (parse_uint (take 4 s) 0 9999, parse_uint (take 2 (drop 5 s)) 1 12) of
        (Some y, Some m) \<Rightarrow> map_option (\<lambda>d. days_of_civil y m d * 86400 * second)
          (parse_uint (drop 8 s) 1 (daysIn m y))
      | _ \<Rightarrow> None)"

section \<open>Padded numbers\<close>

lemma digit_0: "CHR ''0'' = digit_char 0"
  by (rule sym) (simp add: digit_char_def char_of_eq_iff)

lemma dec_val_zeros: "dec_val acc (replicate k (CHR ''0'')) = Some (acc * 10 ^ k)"
  by (induction k arbitrary: acc) (simp_all add: digit_0)

lemma length_nat_dec: "n < 10 ^ w \<Longrightarrow> 0 < w \<Longrightarrow> length (nat_dec n) \<le> w"
proof (induction w arbitrary: n)
  case (Suc w)
  then show ?case
    by (cases "n < 10"; cases w) (auto simp: nat_dec.simps [of n] less_mult_imp_div_less mult.commute)
qed simp

lemma pad_number:
  assumes "0 \<le> n" "n < 10 ^ w" "0 < w"
  shows "length (pad w n) = w" "dec_val 0 (pad w n) = Some (nat n)"
proof -
  have "nat n < 10 ^ w" using assms by (simp add: nat_less_iff)
  then show "length (pad w n) = w" using length_nat_dec [of "nat n" w] assms(3) by (simp add: pad_def Let_def)
  show "dec_val 0 (pad w n) = Some (nat n)"
    by (simp add: pad_def Let_def dec_val_append dec_val_zeros dec_val_nat_dec)
qed

lemma parse_uint_pad: "lo \<le> n \<Longrightarrow> n \<le> hi \<Longrightarrow> 0 \<le> n \<Longrightarrow> n < 10 ^ w \<Longrightarrow> 0 < w \<Longrightarrow>
    parse_uint (pad w n) lo hi = Some n"
  by (simp add: parse_uint_def pad_number)

lemma pad_digits: "c \<in> set (pad w n) \<Longrightarrow> digit_val c \<noteq> None"
  using nat_dec_digits [of c "nat n"] by (auto simp: pad_def Let_def digit_0)

lemma rtrim0_zeros: "\<exists>k. s = rtrim0 s @ replicate k (CHR ''0'')"
proof -
  have "rev s = takeWhile (\<lambda>c. c = CHR ''0'') (rev s) @ dropWhile (\<lambda>c. c = CHR ''0'') (rev s)" by simp
  moreover have "takeWhile (\<lambda>c. c = CHR ''0'') (rev s) =
      replicate (length (takeWhile (\<lambda>c. c = CHR ''0'') (rev s))) (CHR ''0'')"
    by (rule replicate_eqI) (auto dest: set_takeWhileD)
  ultimately have "s = rev (replicate (length (takeWhile (\<lambda>c. c = CHR ''0'') (rev s))) (CHR ''0'') @
      dropWhile (\<lambda>c. c = CHR ''0'') (rev s))"
    by (metis rev_rev_ident)
  then show ?thesis by (auto simp: rtrim0_def)
qed

lemma parse_nano_part: "parse_nanos lax (nano_part t @ ''Z'') = (t mod second, ''Z'')"
proof (cases "t mod second = 0")
  case True
  then show ?thesis by (simp add: nano_part_def parse_nanos_def)
next
  case False
  define n where "n = t mod second"
  have n: "0 < n" "n < 10 ^ 9" using False by (auto simp: n_def second_def order_less_le)
  have p: "length (pad 9 n) = 9" "dec_val 0 (pad 9 n) = Some (nat n)"
    using n by (simp_all add: pad_number)
  obtain k where k: "pad 9 n = rtrim0 (pad 9 n) @ replicate k (CHR ''0'')" using rtrim0_zeros by blast
  define ds where "ds = rtrim0 (pad 9 n)"
  have len: "length ds + k = 9" using k p(1) by (metis ds_def length_append length_replicate)
  have digits: "\<forall>c \<in> set ds. digit_val c \<noteq> None"
    using pad_digits [of _ 9 n] k by (metis Un_iff ds_def set_append)
  obtain m where m: "dec_val 0 ds = Some m" "nat n = m * 10 ^ k"
    using p(2) k by (cases "dec_val 0 ds") (auto simp: ds_def [symmetric] dec_val_append dec_val_zeros)
  have "ds \<noteq> []" using m n by auto
  then obtain c cs where c: "ds = c # cs" by (cases ds) auto
  have "takeWhile (\<lambda>x. digit_val x \<noteq> None) (ds @ ''Z'') = ds"
    using digits by (simp add: takeWhile_append2 digit_val_def)
  then have "parse_nanos lax (CHR ''.'' # ds @ ''Z'') = (int m * 10 ^ k, ''Z'')"
    using c digits m(1) len by (auto simp: parse_nanos_def Let_def min_def)
  moreover have "int m * 10 ^ k = n" using m(2) n by (simp add: nat_eq_iff)
  moreover have "nano_part t = CHR ''.'' # ds" using False by (simp add: nano_part_def n_def ds_def)
  ultimately show ?thesis by (simp add: n_def)
qed

section \<open>The round trip\<close>

lemma ParseRFC3339_Format:
  assumes "printable_time t"
  shows "ParseRFC3339 (FormatRFC3339Nano t) = Some t"
proof -
  define days s where "days = t div second div 86400" and "s = t div second mod 86400"
  obtain y m d where civ: "civil_of_days days = (y, m, d)" by (metis prod_cases3)
  note c = civil_roundtrip [OF civ]
  have y: "0 \<le> y" "y \<le> 9999" using assms civ by (auto simp: printable_time_def year_of_def days_def)
  have dd: "d \<le> 31" using c(5) by (auto simp: daysIn_def split: if_splits)
  have s: "0 \<le> s" "s < 86400" by (auto simp: s_def)
  define hh mi se where "hh = s div 3600" and "mi = (s div 60) mod 60" and "se = s mod 60"
  have hms: "0 \<le> hh" "hh \<le> 23" "0 \<le> mi" "mi \<le> 59" "0 \<le> se" "se \<le> 59" "hh * 3600 + mi * 60 + se = s"
  proof -
    have h: "hh = (s div 60) div 60" using zdiv_zmult2_eq [of 60 s 60] by (simp add: hh_def)
    show "0 \<le> hh" "hh \<le> 23" "0 \<le> mi" "mi \<le> 59" "0 \<le> se" "se \<le> 59"
      using s by (auto simp: hh_def mi_def se_def)
    show "hh * 3600 + mi * 60 + se = s" unfolding h mi_def se_def
      using div_mult_mod_eq [of s 60] div_mult_mod_eq [of "s div 60" 60] by linarith
  qed
  let ?tail = "nano_part t @ ''Z''"
  have f: "FormatRFC3339Nano t = pad 4 y @ CHR ''-'' # pad 2 m @ CHR ''-'' # pad 2 d @ CHR ''T''
      # pad 2 hh @ CHR '':'' # pad 2 mi @ CHR '':'' # pad 2 se @ ?tail"
    by (simp add: FormatRFC3339Nano_def Let_def civ days_def [symmetric] s_def [symmetric] hh_def mi_def se_def)
  have l: "length (pad 4 y) = 4" "length (pad 2 m) = 2" "length (pad 2 d) = 2" "length (pad 2 hh) = 2"
    "length (pad 2 mi) = 2" "length (pad 2 se) = 2"
    using y c dd hms by (simp_all add: pad_number)
  have n: "parse_uint (pad 4 y) 0 9999 = Some y" "parse_uint (pad 2 m) 1 12 = Some m"
    "parse_uint (pad 2 d) 1 (daysIn m y) = Some d" "parse_uint (pad 2 hh) 0 23 = Some hh"
    "parse_uint (pad 2 mi) 0 59 = Some mi" "parse_uint (pad 2 se) 0 59 = Some se"
    using y c dd hms by (simp_all add: parse_uint_pad)
  have "separators_ok (FormatRFC3339Nano t)"
    using l unfolding separators_ok_def f by (simp add: nth_append)
  moreover have "\<not> length (FormatRFC3339Nano t) < 19" using l unfolding f by simp
  moreover have "(days * 86400 + hh * 3600 + mi * 60 + se) * second + t mod second = t"
    using hms(7) by (simp add: days_def s_def algebra_simps flip: add.assoc)
  ultimately show ?thesis
    using l n c(1) by (simp add: ParseRFC3339_def parse_rfc_def f parse_nano_part parse_zone_def)
qed

end
