(* ===== verification/Web_Request.thy ===== *)
theory Web_Request
  imports Go_Json_Rows Go_Rfc3339 Config_Model
begin

text \<open>
  Requests and responses: \<^verbatim>\<open>internal/web\<close>, and what the models' JSON tags make \<^verbatim>\<open>encoding/json\<close> read and
  write. A request is what the router hands a handler: the path values it matched, the parsed query, the
  authorization header and the body. A response is its status and its bytes.
\<close>

section \<open>Requests and responses\<close>

record request =
  rq_Method :: string
  rq_PathValues :: "(string \<times> string) list"
  rq_Query :: "(string \<times> string) list"
  rq_Authorization :: string
  rq_RemoteAddr :: string
  rq_Body :: bytes

record response =
  rp_Status :: nat
  rp_RetryAfter :: "int option"
  rp_Body :: bytes

text \<open>\<^verbatim>\<open>r.PathValue\<close> and \<^verbatim>\<open>r.URL.Query().Get\<close>: empty when there is none.\<close>

definition PathValue :: "request \<Rightarrow> string \<Rightarrow> string" where
  "PathValue r name = (case map_of (rq_PathValues r) name of None \<Rightarrow> [] | Some v \<Rightarrow> v)"

definition QueryGet :: "request \<Rightarrow> string \<Rightarrow> string" where
  "QueryGet r name = (case map_of (rq_Query r) name of None \<Rightarrow> [] | Some v \<Rightarrow> v)"

definition MaxRequestBody :: nat where "MaxRequestBody = 1048576"
definition DefaultListLimit :: int where "DefaultListLimit = 100"
definition MaxListLimit :: int where "MaxListLimit = 500"

text \<open>
  The first value of a body behind \<^verbatim>\<open>http.MaxBytesReader\<close>. A literal that ends where the limit cuts the
  body off is not complete: the decoder still asks for the byte after it.
\<close>

definition body_value :: "bytes \<Rightarrow> bytes option" where
  "body_value body = (let b = take MaxRequestBody body in case first_value b of
     None \<Rightarrow> None
   | Some v \<Rightarrow>
       if MaxRequestBody < length body \<and> skip_ws b = v \<and> hd v \<noteq> CHR ''{'' \<and> hd v \<noteq> CHR ''['' \<and> hd v \<noteq> quote
       then None else Some v)"

definition DecodeJSON :: "(string \<Rightarrow> bytes \<Rightarrow> 'a \<Rightarrow> 'a option) \<Rightarrow> 'a \<Rightarrow> request \<Rightarrow> 'a option" where
  "DecodeJSON field x r = Option.bind (body_value (rq_Body r))
     (\<lambda>v. Option.bind (object_members v) (\<lambda>ms. decode_members field ms x))"

definition intParam :: "request \<Rightarrow> string \<Rightarrow> int \<Rightarrow> int option" where
  "intParam r name fallback = (let raw = QueryGet r name in
     if raw = [] then Some fallback
     else case ParseInt raw of None \<Rightarrow> None | Some v \<Rightarrow> if v < 0 then None else Some v)"

definition Int64Param :: "request \<Rightarrow> string \<Rightarrow> int option" where
  "Int64Param r name = (let raw = QueryGet r name in
     if raw = [] then Some 0
     else case ParseInt raw of None \<Rightarrow> None | Some v \<Rightarrow> if v < 0 then None else Some v)"

definition ParsePage :: "request \<Rightarrow> Page option" where
  "ParsePage r = (case intParam r ''limit'' DefaultListLimit of
     None \<Rightarrow> None
   | Some limit \<Rightarrow> (case intParam r ''offset'' 0 of
       None \<Rightarrow> None
     | Some offset \<Rightarrow>
         Some \<lparr>Limit = (if limit \<le> 0 \<or> MaxListLimit < limit then MaxListLimit else limit), Offset = offset\<rparr>))"

lemma ParsePage_bounds:
  "ParsePage r = Some p \<Longrightarrow> 0 < Limit p \<and> Limit p \<le> MaxListLimit \<and> 0 \<le> Offset p"
  by (auto simp: ParsePage_def intParam_def MaxListLimit_def Let_def split: option.splits if_splits)

text \<open>\<^verbatim>\<open>web.JSON\<close>: the status line is out before the body is encoded, so a value that does not encode leaves an
  empty body.\<close>

definition web_JSON :: "nat \<Rightarrow> bytes option \<Rightarrow> response" where
  "web_JSON status data = \<lparr>rp_Status = status, rp_RetryAfter = None,
     rp_Body = (case data of None \<Rightarrow> [] | Some b \<Rightarrow> b @ [CHR 0x0A])\<rparr>"

definition ErrorResponse :: "string \<Rightarrow> bytes" where
  "ErrorResponse message = json_object [(''error'', json_string message)]"

definition web_Error :: "nat \<Rightarrow> string \<Rightarrow> response" where
  "web_Error status message = web_JSON status (Some (ErrorResponse message))"

definition NoContent :: response where
  "NoContent = \<lparr>rp_Status = 204, rp_RetryAfter = None, rp_Body = []\<rparr>"

lemma web_status [simp]: "rp_Status (web_JSON n d) = n" "rp_Status (web_Error n m) = n" "rp_Status NoContent = 204"
  by (simp_all add: web_JSON_def web_Error_def NoContent_def)

section \<open>Scalars in structs\<close>

definition enc_time :: "gotime \<Rightarrow> bytes option" where
  "enc_time t = (if printable_time t then Some (quote # FormatRFC3339Nano t @ [quote]) else None)"

text \<open>\<^verbatim>\<open>Time.UnmarshalJSON\<close> works on the raw literal.\<close>

definition dec_time :: "gotime \<Rightarrow> bytes \<Rightarrow> gotime option" where
  "dec_time old raw =
     (if raw = ''null'' then Some old
      else if length raw < 2 \<or> hd raw \<noteq> quote \<or> last raw \<noteq> quote then None
      else ParseRFC3339 (butlast (tl raw)))"

definition dec_time_ptr :: "gotime option \<Rightarrow> bytes \<Rightarrow> gotime option option" where
  "dec_time_ptr old raw =
     (if raw = ''null'' then Some None
      else map_option Some (dec_time (case old of None \<Rightarrow> 0 | Some t \<Rightarrow> t) raw))"

lemma dec_time_enc: "enc_time t = Some raw \<Longrightarrow> dec_time old raw = Some t"
proof -
  assume "enc_time t = Some raw"
  then have p: "printable_time t" "raw = quote # FormatRFC3339Nano t @ [quote]"
    by (auto simp: enc_time_def split: if_splits)
  then show ?thesis using ParseRFC3339_Format [OF p(1)] by (simp add: dec_time_def quote_def butlast_append)
qed

lemma dec_time_ptr_enc: "enc_time t = Some raw \<Longrightarrow> dec_time_ptr old raw = Some (Some t)"
  using dec_time_enc [of t raw] by (auto simp: dec_time_ptr_def enc_time_def quote_def split: if_splits)

lemma dec_int64_FormatInt: "in_int64 n \<Longrightarrow> dec_int64 old (FormatInt n) = Some n"
proof -
  assume n: "in_int64 n"
  obtain c cs where nd: "nat_dec (nat \<bar>n\<bar>) = c # cs" by (metis list.exhaust nat_dec_not_Nil)
  have c: "is_digit c" using nat_dec_shape [OF nd] by blast
  then have "c \<noteq> CHR ''n''" by (auto simp: is_digit_def digit_val_def)
  then have "FormatInt n \<noteq> ''null''" "\<exists>x xs. FormatInt n = x # xs \<and> (is_digit x \<or> x = CHR ''-'')"
    using nd c by (auto simp: FormatInt_def abs_if split: if_splits)
  then have "dec_int64 old (FormatInt n) = ParseInt (FormatInt n)"
    by (auto simp: dec_int64_def split: list.splits)
  then show ?thesis using ParseInt_FormatInt [OF n] by simp
qed

text \<open>A raw message from the database is not nil, so an empty one does not encode.\<close>

definition enc_raw :: "bytes \<Rightarrow> bytes option" where
  "enc_raw v = (if json_Valid v then Some (compact_json False v) else None)"

definition enc_ptr :: "string \<Rightarrow> gotime option \<Rightarrow> (string \<times> bytes option) list" where
  "enc_ptr name t = (case t of None \<Rightarrow> [] | Some t \<Rightarrow> [(name, enc_time t)])"

text \<open>A struct encodes when all its fields do.\<close>

fun all_fields :: "(string \<times> bytes option) list \<Rightarrow> (string \<times> bytes) list option" where
  "all_fields [] = Some []"
| "all_fields ((k, v) # fs) = (case v of
     None \<Rightarrow> None
   | Some v \<Rightarrow> map_option ((#) (k, v)) (all_fields fs))"

definition enc_struct :: "(string \<times> bytes option) list \<Rightarrow> bytes option" where
  "enc_struct fs = map_option json_object (all_fields fs)"

fun all_some :: "'a option list \<Rightarrow> 'a list option" where
  "all_some [] = Some []"
| "all_some (x # xs) = (case x of None \<Rightarrow> None | Some x \<Rightarrow> map_option ((#) x) (all_some xs))"

text \<open>A slice: nil marshals as \<^verbatim>\<open>null\<close>, and the repositories leave an empty result nil.\<close>

definition enc_slice :: "('r \<Rightarrow> bytes option) \<Rightarrow> 'r list \<Rightarrow> bytes option" where
  "enc_slice enc rs = (if rs = [] then Some ''null'' else map_option json_array (all_some (map enc rs)))"

section \<open>The models\<close>

definition enc_Flag :: "Flag \<Rightarrow> bytes option" where
  "enc_Flag f = enc_struct [(''id'', Some (FormatInt (flag_ID f))), (''flagKey'', Some (json_string (flag_FlagKey f))),
     (''isActive'', Some (FormatInt (flag_IsActive f))), (''updatedAt'', enc_time (flag_UpdatedAt f))]"

definition field_Flag :: "string \<Rightarrow> bytes \<Rightarrow> Flag \<Rightarrow> Flag option" where
  "field_Flag k raw f =
     (if key_is k ''id'' then map_option (\<lambda>n. f\<lparr>flag_ID := n\<rparr>) (dec_int64 (flag_ID f) raw)
      else if key_is k ''flagKey'' then map_option (\<lambda>s. f\<lparr>flag_FlagKey := s\<rparr>) (dec_string (flag_FlagKey f) raw)
      else if key_is k ''isActive'' then map_option (\<lambda>n. f\<lparr>flag_IsActive := n\<rparr>) (dec_int64 (flag_IsActive f) raw)
      else if key_is k ''updatedAt'' then map_option (\<lambda>t. f\<lparr>flag_UpdatedAt := t\<rparr>) (dec_time (flag_UpdatedAt f) raw)
      else Some f)"

definition zero_Flag :: Flag where
  "zero_Flag = \<lparr>flag_ID = 0, flag_FlagKey = [], flag_IsActive = 0, flag_UpdatedAt = 0\<rparr>"

definition enc_FlagValue :: "FlagValue \<Rightarrow> bytes option" where
  "enc_FlagValue v = enc_struct ([(''id'', Some (FormatInt (fv_ID v))),
     (''environmentId'', Some (FormatInt (fv_EnvironmentID v))), (''flagId'', Some (FormatInt (fv_FlagId v))),
     (''value'', Some (json_string (fv_Value v))), (''enabled'', Some (FormatInt (fv_Enabled v))),
     (''updatedAt'', enc_time (fv_UpdatedAt v))] @ enc_ptr ''expectedUpdatedAt'' (fv_ExpectedUpdatedAt v))"

definition field_FlagValue :: "string \<Rightarrow> bytes \<Rightarrow> FlagValue \<Rightarrow> FlagValue option" where
  "field_FlagValue k raw v =
     (if key_is k ''id'' then map_option (\<lambda>n. v\<lparr>fv_ID := n\<rparr>) (dec_int64 (fv_ID v) raw)
      else if key_is k ''environmentId''
        then map_option (\<lambda>n. v\<lparr>fv_EnvironmentID := n\<rparr>) (dec_int64 (fv_EnvironmentID v) raw)
      else if key_is k ''flagId'' then map_option (\<lambda>n. v\<lparr>fv_FlagId := n\<rparr>) (dec_int64 (fv_FlagId v) raw)
      else if key_is k ''value'' then map_option (\<lambda>s. v\<lparr>fv_Value := s\<rparr>) (dec_string (fv_Value v) raw)
      else if key_is k ''enabled'' then map_option (\<lambda>n. v\<lparr>fv_Enabled := n\<rparr>) (dec_int64 (fv_Enabled v) raw)
      else if key_is k ''updatedAt'' then map_option (\<lambda>t. v\<lparr>fv_UpdatedAt := t\<rparr>) (dec_time (fv_UpdatedAt v) raw)
      else if key_is k ''expectedUpdatedAt''
        then map_option (\<lambda>t. v\<lparr>fv_ExpectedUpdatedAt := t\<rparr>) (dec_time_ptr (fv_ExpectedUpdatedAt v) raw)
      else Some v)"

definition zero_FlagValue :: FlagValue where
  "zero_FlagValue = \<lparr>fv_ID = 0, fv_EnvironmentID = 0, fv_FlagId = 0, fv_Value = [], fv_Enabled = 0,
     fv_UpdatedAt = 0, fv_ExpectedUpdatedAt = None\<rparr>"

definition enc_FlagValueRow :: "FlagValueRow \<Rightarrow> bytes option" where
  "enc_FlagValueRow v = enc_struct [(''id'', Some (FormatInt (fvr_ID v))),
     (''environmentId'', Some (FormatInt (fvr_EnvironmentID v))), (''flagId'', Some (FormatInt (fvr_FlagId v))),
     (''flagKey'', Some (json_string (fvr_FlagKey v))), (''value'', Some (json_string (fvr_Value v))),
     (''enabled'', Some (FormatInt (fvr_Enabled v))), (''updatedAt'', enc_time (fvr_UpdatedAt v))]"

definition enc_AppSettings :: "MicroserviceAppSettings \<Rightarrow> bytes option" where
  "enc_AppSettings s = enc_struct ([(''id'', Some (FormatInt (as_ID s))),
     (''microserviceId'', Some (FormatInt (as_MicroserviceID s))),
     (''environmentId'', Some (FormatInt (as_EnvironmentID s))), (''settingsJson'', enc_raw (as_SettingsJSON s)),
     (''updatedAt'', enc_time (as_UpdatedAt s))] @ enc_ptr ''expectedUpdatedAt'' (as_ExpectedUpdatedAt s))"

definition field_AppSettings ::
  "string \<Rightarrow> bytes \<Rightarrow> MicroserviceAppSettings \<Rightarrow> MicroserviceAppSettings option" where
  "field_AppSettings k raw s =
     (if key_is k ''id'' then map_option (\<lambda>n. s\<lparr>as_ID := n\<rparr>) (dec_int64 (as_ID s) raw)
      else if key_is k ''microserviceId''
        then map_option (\<lambda>n. s\<lparr>as_MicroserviceID := n\<rparr>) (dec_int64 (as_MicroserviceID s) raw)
      else if key_is k ''environmentId''
        then map_option (\<lambda>n. s\<lparr>as_EnvironmentID := n\<rparr>) (dec_int64 (as_EnvironmentID s) raw)
      else if key_is k ''settingsJson'' then Some (s\<lparr>as_SettingsJSON := raw\<rparr>)
      else if key_is k ''updatedAt'' then map_option (\<lambda>t. s\<lparr>as_UpdatedAt := t\<rparr>) (dec_time (as_UpdatedAt s) raw)
      else if key_is k ''expectedUpdatedAt''
        then map_option (\<lambda>t. s\<lparr>as_ExpectedUpdatedAt := t\<rparr>) (dec_time_ptr (as_ExpectedUpdatedAt s) raw)
      else Some s)"

definition zero_AppSettings :: MicroserviceAppSettings where
  "zero_AppSettings = \<lparr>as_ID = 0, as_MicroserviceID = 0, as_EnvironmentID = 0, as_SettingsJSON = [],
     as_UpdatedAt = 0, as_ExpectedUpdatedAt = None\<rparr>"

definition enc_Microservice :: "Microservice \<Rightarrow> bytes option" where
  "enc_Microservice m = enc_struct [(''id'', Some (FormatInt (ms_ID m))), (''name'', Some (json_string (ms_Microservice m))),
     (''updatedAt'', enc_time (ms_UpdatedAt m))]"

definition field_Microservice :: "string \<Rightarrow> bytes \<Rightarrow> Microservice \<Rightarrow> Microservice option" where
  "field_Microservice k raw m =
     (if key_is k ''id'' then map_option (\<lambda>n. m\<lparr>ms_ID := n\<rparr>) (dec_int64 (ms_ID m) raw)
      else if key_is k ''name'' then map_option (\<lambda>s. m\<lparr>ms_Microservice := s\<rparr>) (dec_string (ms_Microservice m) raw)
      else if key_is k ''updatedAt'' then map_option (\<lambda>t. m\<lparr>ms_UpdatedAt := t\<rparr>) (dec_time (ms_UpdatedAt m) raw)
      else Some m)"

definition zero_Microservice :: Microservice where
  "zero_Microservice = \<lparr>ms_ID = 0, ms_Microservice = [], ms_UpdatedAt = 0\<rparr>"

definition enc_Environment :: "Environment \<Rightarrow> bytes option" where
  "enc_Environment e = enc_struct [(''id'', Some (FormatInt (env_ID e))), (''name'', Some (json_string (env_Environment e))),
     (''updatedAt'', enc_time (env_UpdatedAt e))]"

definition field_Environment :: "string \<Rightarrow> bytes \<Rightarrow> Environment \<Rightarrow> Environment option" where
  "field_Environment k raw e =
     (if key_is k ''id'' then map_option (\<lambda>n. e\<lparr>env_ID := n\<rparr>) (dec_int64 (env_ID e) raw)
      else if key_is k ''name'' then map_option (\<lambda>s. e\<lparr>env_Environment := s\<rparr>) (dec_string (env_Environment e) raw)
      else if key_is k ''updatedAt'' then map_option (\<lambda>t. e\<lparr>env_UpdatedAt := t\<rparr>) (dec_time (env_UpdatedAt e) raw)
      else Some e)"

definition zero_Environment :: Environment where
  "zero_Environment = \<lparr>env_ID = 0, env_Environment = [], env_UpdatedAt = 0\<rparr>"

definition enc_Localization :: "Localization \<Rightarrow> bytes option" where
  "enc_Localization l = enc_struct ([(''id'', Some (FormatInt (loc_ID l))),
     (''microserviceId'', Some (FormatInt (loc_MicroserviceID l))),
     (''environmentId'', Some (FormatInt (loc_EnvironmentID l))), (''locale'', Some (json_string (loc_Locale l))),
     (''bundleJson'', enc_raw (loc_BundleJSON l)),
     (''updatedAt'', enc_time (loc_UpdatedAt l))] @ enc_ptr ''expectedUpdatedAt'' (loc_ExpectedUpdatedAt l))"

definition field_Localization :: "string \<Rightarrow> bytes \<Rightarrow> Localization \<Rightarrow> Localization option" where
  "field_Localization k raw l =
     (if key_is k ''id'' then map_option (\<lambda>n. l\<lparr>loc_ID := n\<rparr>) (dec_int64 (loc_ID l) raw)
      else if key_is k ''microserviceId''
        then map_option (\<lambda>n. l\<lparr>loc_MicroserviceID := n\<rparr>) (dec_int64 (loc_MicroserviceID l) raw)
      else if key_is k ''environmentId''
        then map_option (\<lambda>n. l\<lparr>loc_EnvironmentID := n\<rparr>) (dec_int64 (loc_EnvironmentID l) raw)
      else if key_is k ''locale'' then map_option (\<lambda>s. l\<lparr>loc_Locale := s\<rparr>) (dec_string (loc_Locale l) raw)
      else if key_is k ''bundleJson'' then Some (l\<lparr>loc_BundleJSON := raw\<rparr>)
      else if key_is k ''updatedAt'' then map_option (\<lambda>t. l\<lparr>loc_UpdatedAt := t\<rparr>) (dec_time (loc_UpdatedAt l) raw)
      else if key_is k ''expectedUpdatedAt''
        then map_option (\<lambda>t. l\<lparr>loc_ExpectedUpdatedAt := t\<rparr>) (dec_time_ptr (loc_ExpectedUpdatedAt l) raw)
      else Some l)"

definition zero_Localization :: Localization where
  "zero_Localization = \<lparr>loc_ID = 0, loc_MicroserviceID = 0, loc_EnvironmentID = 0, loc_Locale = [],
     loc_BundleJSON = [], loc_UpdatedAt = 0, loc_ExpectedUpdatedAt = None\<rparr>"

end
