(* ===== verification/Audit_Trail.thy ===== *)
theory Audit_Trail
  imports Audit_Redact Web_Request Rate_Limit Config_Db
begin

text \<open>
  The audit store: \<^verbatim>\<open>internal/audit\<close> and the truncations of \<^verbatim>\<open>internal/app/audit_middleware.go\<close>. The table
  stands beside the configuration tables and shares their connection. An insert fails with the connection,
  and when Postgres refuses a column: text that is not UTF-8 or holds a zero byte, or is longer than its
  column. An absent optional column is the empty string, or environment 0.
\<close>

section \<open>Entries\<close>

record Entry =
  ae_ID :: int
  ae_OccurredAt :: gotime
  ae_Actor :: string
  ae_Method :: string
  ae_Path :: string
  ae_Domain :: string
  ae_TargetID :: string
  ae_EnvironmentID :: int
  ae_StatusCode :: int
  ae_RemoteAddr :: string
  ae_RequestBody :: string

definition maxAuditPath :: nat where "maxAuditPath = 400"
definition maxAuditTargetID :: nat where "maxAuditTargetID = 64"

definition truncate_bytes :: "string \<Rightarrow> nat \<Rightarrow> string" where
  "truncate_bytes s limit = (if length s \<le> limit then s else take limit s)"

definition remoteHost :: "string \<Rightarrow> string" where
  "remoteHost remoteAddr = truncate_bytes (peerHost remoteAddr) 64"

definition pg_text :: "nat \<Rightarrow> string \<Rightarrow> bool" where
  "pg_text n s \<longleftrightarrow> ValidString s \<and> char_of (0 :: nat) \<notin> set s \<and> RuneCount s \<le> n"

definition entry_fits :: "Entry \<Rightarrow> bool" where
  "entry_fits e \<longleftrightarrow> pg_text 100 (ae_Actor e) \<and> pg_text 10 (ae_Method e) \<and> pg_text 400 (ae_Path e) \<and>
     pg_text 40 (ae_Domain e) \<and> pg_text 64 (ae_TargetID e) \<and> pg_text 64 (ae_RemoteAddr e) \<and>
     pg_text 4000 (ae_RequestBody e)"

section \<open>The store\<close>

definition audit_Insert :: "Entry \<Rightarrow> dbconn \<times> Entry table \<Rightarrow> bool \<times> dbconn \<times> Entry table" where
  "audit_Insert e w = (case w of (db, trail) \<Rightarrow> (case begin_stmt db of
     (False, db) \<Rightarrow> (False, db, trail)
   | (True, db) \<Rightarrow>
       if entry_fits e
       then (True, db, trail\<lparr>rows := rows trail @ [e\<lparr>ae_ID := seq trail\<rparr>], seq := seq trail + 1\<rparr>)
       else (False, db, trail)))"

record audit_filter =
  af_Actor :: string
  af_From :: gotime
  af_To :: gotime
  af_Environments :: "int list option"
  af_Page :: Page

definition audit_selects :: "audit_filter \<Rightarrow> Entry \<Rightarrow> bool" where
  "audit_selects f e \<longleftrightarrow> (af_Actor f = [] \<or> ae_Actor e = af_Actor f) \<and>
     (IsZero (af_From f) \<or> af_From f \<le> ae_OccurredAt e) \<and> (IsZero (af_To f) \<or> ae_OccurredAt e \<le> af_To f) \<and>
     (case af_Environments f of None \<Rightarrow> True
      | Some envs \<Rightarrow> ae_EnvironmentID e \<noteq> 0 \<and> ae_EnvironmentID e \<in> set envs)"

definition audit_List :: "audit_filter \<Rightarrow> dbconn \<times> Entry table \<Rightarrow> (unit + Entry list) \<times> dbconn" where
  "audit_List f w = (case w of (db, trail) \<Rightarrow>
     if af_Environments f = Some [] then (Inr [], db)
     else case begin_stmt db of
       (False, db) \<Rightarrow> (Inl (), db)
     | (True, db) \<Rightarrow>
         (Inr (limit_offset (af_Page f) (order_by (\<lambda>e. - ae_ID e) (filter (audit_selects f) (rows trail)))), db))"

section \<open>Reading the trail\<close>

definition timeParam :: "request \<Rightarrow> string \<Rightarrow> gotime option" where
  "timeParam r name = (let s = QueryGet r name in
     if s = [] then Some 0
     else case time_Parse_RFC3339 s of Some t \<Rightarrow> Some t | None \<Rightarrow> time_Parse_date s)"

text \<open>The environments to filter by, \<open>Some None\<close> for all of them, or that the answer is empty.\<close>

datatype env_choice = FilterBy "int list option" | AnswerEmpty | BadEnvironment

definition environmentFilter :: "int list option \<Rightarrow> request \<Rightarrow> env_choice" where
  "environmentFilter scope r = (let s = QueryGet r ''environmentId'' in
     if s = [] then FilterBy scope
     else case ParseInt s of
       None \<Rightarrow> BadEnvironment
     | Some i \<Rightarrow>
         if i < 1 then BadEnvironment
         else if (case scope of None \<Rightarrow> False | Some envs \<Rightarrow> envs \<noteq> [] \<and> i \<notin> set envs) then AnswerEmpty
         else FilterBy (Some [i]))"

definition omit_string :: "string \<Rightarrow> string \<Rightarrow> (string \<times> bytes option) list" where
  "omit_string name s = (if s = [] then [] else [(name, Some (json_string s))])"

definition enc_Entry :: "Entry \<Rightarrow> bytes option" where
  "enc_Entry e = enc_struct ([(''id'', Some (FormatInt (ae_ID e))), (''occurredAt'', enc_time (ae_OccurredAt e)),
     (''actor'', Some (json_string (ae_Actor e))), (''method'', Some (json_string (ae_Method e))),
     (''path'', Some (json_string (ae_Path e)))] @ omit_string ''domain'' (ae_Domain e)
     @ omit_string ''targetId'' (ae_TargetID e)
     @ (if ae_EnvironmentID e = 0 then [] else [(''environmentId'', Some (FormatInt (ae_EnvironmentID e)))])
     @ [(''statusCode'', Some (FormatInt (ae_StatusCode e)))] @ omit_string ''remoteAddr'' (ae_RemoteAddr e)
     @ omit_string ''requestBody'' (ae_RequestBody e))"

definition enc_entries :: "Entry list \<Rightarrow> bytes option" where
  "enc_entries es = map_option json_array (all_some (map enc_Entry es))"

definition audit_handler ::
  "int list option \<Rightarrow> request \<Rightarrow> dbconn \<times> Entry table \<Rightarrow> response \<times> dbconn" where
  "audit_handler scope r w = (case ParsePage r of
     None \<Rightarrow> (web_Error 400 ''invalid query parameter'', fst w)
   | Some page \<Rightarrow> (case timeParam r ''from'' of
       None \<Rightarrow> (web_Error 400 ''invalid from'', fst w)
     | Some from_t \<Rightarrow> (case timeParam r ''to'' of
         None \<Rightarrow> (web_Error 400 ''invalid to'', fst w)
       | Some to_t \<Rightarrow> (case environmentFilter scope r of
           BadEnvironment \<Rightarrow> (web_Error 400 ''invalid environmentId'', fst w)
         | AnswerEmpty \<Rightarrow> (web_JSON 200 (Some ''[]''), fst w)
         | FilterBy envs \<Rightarrow>
             (case audit_List \<lparr>af_Actor = QueryGet r ''actor'', af_From = from_t, af_To = to_t,
                      af_Environments = envs, af_Page = page\<rparr> w of
                (Inl _, db) \<Rightarrow> (web_Error 500 ''internal server error'', db)
              | (Inr es, db) \<Rightarrow> (web_JSON 200 (enc_entries es), db))))))"

section \<open>What a scoped reader sees\<close>

lemma environmentFilter_scope:
  assumes "environmentFilter (Some envs) r = FilterBy choice" "envs \<noteq> []"
  shows "\<exists>es. choice = Some es \<and> set es \<subseteq> set envs"
  using assms by (auto simp: environmentFilter_def Let_def split: if_splits option.splits)

lemma audit_List_selected:
  assumes "audit_List f (db, trail) = (Inr es, db')"
  shows "set es \<subseteq> {e \<in> set (rows trail). audit_selects f e}"
proof -
  have "set (limit_offset p xs) \<subseteq> set xs" for p :: Page and xs :: "Entry list"
    by (auto simp: limit_offset_def dest: in_set_takeD in_set_dropD)
  then show ?thesis using assms
    by (fastforce simp: audit_List_def order_by_def split: if_splits prod.splits bool.splits)
qed

end
