(* ===== verification/Web_Handlers.thy ===== *)
theory Web_Handlers
  imports Web_Request Settings_Service
begin

text \<open>
  The HTTP handlers of the three domains: \<^verbatim>\<open>internal/flagsconfig/handler.go\<close>,
  \<^verbatim>\<open>internal/servicesettings/handler.go\<close> and \<^verbatim>\<open>internal/localization/handler.go\<close>. A handler decodes the
  request, calls its service and answers; its state is the service's.
\<close>

section \<open>Shared steps\<close>

definition reply :: "('e \<Rightarrow> response) \<Rightarrow> ('a \<Rightarrow> response) \<Rightarrow> ('e + 'a) \<times> 'w app \<Rightarrow> response \<times> 'w app" where
  "reply bad ok res = (case res of (Inl err, a) \<Rightarrow> (bad err, a) | (Inr x, a) \<Rightarrow> (ok x, a))"

definition with_id :: "string \<Rightarrow> string \<Rightarrow> request \<Rightarrow> (int \<Rightarrow> 'w app \<Rightarrow> response \<times> 'w app) \<Rightarrow> 'w app \<Rightarrow> response \<times> 'w app" where
  "with_id name message r f a = (case ParseInt (PathValue r name) of
     None \<Rightarrow> (web_Error 400 message, a)
   | Some i \<Rightarrow> f i a)"

definition with_body :: "(string \<Rightarrow> bytes \<Rightarrow> 'r \<Rightarrow> 'r option) \<Rightarrow> 'r \<Rightarrow> request \<Rightarrow>
    ('r \<Rightarrow> 'w app \<Rightarrow> response \<times> 'w app) \<Rightarrow> 'w app \<Rightarrow> response \<times> 'w app" where
  "with_body field zero r f a = (case DecodeJSON field zero r of
     None \<Rightarrow> (web_Error 400 ''invalid request body'', a)
   | Some req \<Rightarrow> f req a)"

definition with_page :: "request \<Rightarrow> (Page \<Rightarrow> 'w app \<Rightarrow> response \<times> 'w app) \<Rightarrow> 'w app \<Rightarrow> response \<times> 'w app" where
  "with_page r f a = (case ParsePage r of
     None \<Rightarrow> (web_Error 400 ''invalid query parameter'', a)
   | Some page \<Rightarrow> f page a)"

definition with_filter :: "string \<Rightarrow> string \<Rightarrow> request \<Rightarrow> (int \<Rightarrow> 'w app \<Rightarrow> response \<times> 'w app) \<Rightarrow> 'w app \<Rightarrow> response \<times> 'w app" where
  "with_filter name message r f a = (case Int64Param r name of
     None \<Rightarrow> (web_Error 400 message, a)
   | Some i \<Rightarrow> f i a)"

definition created :: "('r \<Rightarrow> bytes option) \<Rightarrow> 'r \<Rightarrow> response" where
  "created enc x = web_JSON 201 (enc x)"

definition answered :: "('r \<Rightarrow> bytes option) \<Rightarrow> 'r \<Rightarrow> response" where
  "answered enc x = web_JSON 200 (enc x)"

definition internal_error :: response where
  "internal_error = web_Error 500 ''internal server error''"

section \<open>Flags\<close>

definition flags_writeErr :: "flags_error \<Rightarrow> response" where
  "flags_writeErr err = (case err of
     flags_error.ErrInvalidFlagID \<Rightarrow> web_Error 400 ''invalid flag id''
   | flags_error.ErrInvalidEnvironmentID \<Rightarrow> web_Error 400 ''invalid environment id''
   | flags_error.ErrInvalidFlagKey \<Rightarrow> web_Error 400 ''invalid flag key''
   | flags_error.ErrInvalidFlagValue \<Rightarrow> web_Error 400 ''flag value must not be empty''
   | flags_error.ErrFlagValueTooLarge \<Rightarrow> web_Error 400 ''flag value exceeds the maximum length''
   | flags_error.ErrInvalidEnabled \<Rightarrow> web_Error 400 ''enabled must be 0 or 1''
   | flags_error.ErrInvalidIsActive \<Rightarrow> web_Error 400 ''isActive must be 0 or 1''
   | flags_error.ErrFlagNotFound \<Rightarrow> web_Error 404 ''flag not found''
   | flags_error.ErrEnvironmentNotFound \<Rightarrow> web_Error 404 ''environment not found''
   | flags_error.ErrConflict \<Rightarrow> web_Error 409 ''flag value was modified by someone else''
   | flags_error.ErrFlagExists \<Rightarrow> web_Error 409 ''flag with this key already exists''
   | flags_error.ErrFlagValueExists \<Rightarrow> web_Error 409 ''flag value for this environment already exists''
   | FlagsWrapped _ \<Rightarrow> internal_error)"

definition Flags_GetFlagsByID :: "flags_repository \<Rightarrow> request \<Rightarrow> 'w app \<Rightarrow> response \<times> 'w app" where
  "Flags_GetFlagsByID repo r = with_id ''id'' ''invalid id'' r (\<lambda>i a.
     reply flags_writeErr (answered enc_Flag) (FlagService_GetFlagByID repo i a))"

definition Flags_GetFlagsValueByID :: "flags_repository \<Rightarrow> request \<Rightarrow> 'w app \<Rightarrow> response \<times> 'w app" where
  "Flags_GetFlagsValueByID repo r = with_id ''id'' ''invalid id'' r (\<lambda>i a.
     reply flags_writeErr (answered enc_FlagValue) (FlagService_GetFlagValueByID repo i a))"

definition Flags_ListFlags :: "flags_repository \<Rightarrow> request \<Rightarrow> 'w app \<Rightarrow> response \<times> 'w app" where
  "Flags_ListFlags repo r = with_page r (\<lambda>page a.
     reply flags_writeErr (answered (enc_slice enc_Flag))
       (FlagService_ListFlags repo \<lparr>ff_Page = page, ff_FlagKey = QueryGet r ''flagKey''\<rparr> a))"

definition Flags_ListFlagValues :: "flags_repository \<Rightarrow> request \<Rightarrow> 'w app \<Rightarrow> response \<times> 'w app" where
  "Flags_ListFlagValues repo r = with_page r (\<lambda>page. with_filter ''environmentId'' ''invalid environmentId'' r (\<lambda>env a.
     reply flags_writeErr (answered (enc_slice enc_FlagValueRow))
       (FlagService_ListFlagValues repo
          \<lparr>fvf_Page = page, fvf_EnvironmentID = env, fvf_FlagKey = QueryGet r ''flagKey''\<rparr> a)))"

definition Flags_CreateFlag :: "flags_repository \<Rightarrow> request \<Rightarrow> 'w app \<Rightarrow> response \<times> 'w app" where
  "Flags_CreateFlag repo r = with_body field_Flag zero_Flag r (\<lambda>req a.
     reply flags_writeErr (created enc_Flag) (FlagService_CreateFlag repo req a))"

definition Flags_DeleteFlag :: "flags_repository \<Rightarrow> 'w config_publisher \<Rightarrow> request \<Rightarrow> 'w app \<Rightarrow> response \<times> 'w app" where
  "Flags_DeleteFlag repo pub r = with_id ''id'' ''invalid id'' r (\<lambda>i a.
     reply flags_writeErr (\<lambda>_. NoContent) (FlagService_DeleteFlag repo pub i a))"

definition Flags_CreateFlagValue :: "flags_repository \<Rightarrow> 'w config_publisher \<Rightarrow> request \<Rightarrow> 'w app \<Rightarrow> response \<times> 'w app" where
  "Flags_CreateFlagValue repo pub r = with_body field_FlagValue zero_FlagValue r (\<lambda>req a.
     reply flags_writeErr (created enc_FlagValue) (FlagService_CreateFlagValue repo pub req a))"

definition Flags_DeleteFlagValue :: "flags_repository \<Rightarrow> 'w config_publisher \<Rightarrow> request \<Rightarrow> 'w app \<Rightarrow> response \<times> 'w app" where
  "Flags_DeleteFlagValue repo pub r = with_id ''id'' ''invalid id'' r (\<lambda>i a.
     reply flags_writeErr (\<lambda>_. NoContent) (FlagService_DeleteFlagValue repo pub i a))"

definition Flags_UpdateFlagValue :: "flags_repository \<Rightarrow> 'w config_publisher \<Rightarrow> request \<Rightarrow> 'w app \<Rightarrow> response \<times> 'w app" where
  "Flags_UpdateFlagValue repo pub r = with_body field_FlagValue zero_FlagValue r (\<lambda>req a.
     reply flags_writeErr (answered enc_FlagValue) (FlagService_UpdateFlagValue repo pub req a))"

section \<open>Service settings\<close>

definition settings_writeErr :: "settings_error \<Rightarrow> response" where
  "settings_writeErr err = (case err of
     settings_error.ErrInvalidConfigID \<Rightarrow> web_Error 400 ''invalid config id''
   | settings_error.ErrInvalidMicroserviceID \<Rightarrow> web_Error 400 ''invalid microservice id''
   | settings_error.ErrInvalidEnvironmentID \<Rightarrow> web_Error 400 ''invalid environment id''
   | settings_error.ErrInvalidSettingsJSON \<Rightarrow> web_Error 400 ''invalid settings json''
   | settings_error.ErrSettingsTooLarge \<Rightarrow> web_Error 400 ''settings json exceeds the maximum value size''
   | settings_error.ErrInvalidMicroserviceName \<Rightarrow> web_Error 400 ''invalid microservice name''
   | settings_error.ErrInvalidEnvironmentName \<Rightarrow> web_Error 400 ''invalid environment name''
   | settings_error.ErrConfigNotFound \<Rightarrow> web_Error 404 ''config not found''
   | settings_error.ErrMicroserviceNotFound \<Rightarrow> web_Error 404 ''microservice not found''
   | settings_error.ErrEnvironmentNotFound \<Rightarrow> web_Error 404 ''environment not found''
   | settings_error.ErrConflict \<Rightarrow> web_Error 409 ''config was modified by someone else''
   | settings_error.ErrConfigExists \<Rightarrow> web_Error 409 ''appsettings for this microservice and environment already exist''
   | settings_error.ErrMicroserviceExists \<Rightarrow> web_Error 409 ''microservice with this name already exists''
   | settings_error.ErrEnvironmentExists \<Rightarrow> web_Error 409 ''environment with this name already exists''
   | settings_error.ErrMicroserviceInUse \<Rightarrow> web_Error 409 ''microservice still has appsettings or localization rows''
   | settings_error.ErrEnvironmentInUse \<Rightarrow> web_Error 409 ''environment still has flag, appsettings or localization rows''
   | SettingsWrapped _ \<Rightarrow> internal_error)"

definition Settings_GetMicroserviceConfig :: "settings_repository \<Rightarrow> request \<Rightarrow> 'w app \<Rightarrow> response \<times> 'w app" where
  "Settings_GetMicroserviceConfig repo r = with_id ''id'' ''invalid id'' r (\<lambda>i a.
     reply settings_writeErr (answered enc_AppSettings) (SettingsService_GetMicroserviceConfigByID repo i a))"

definition Settings_GetMicroservice :: "settings_repository \<Rightarrow> request \<Rightarrow> 'w app \<Rightarrow> response \<times> 'w app" where
  "Settings_GetMicroservice repo r = with_id ''id'' ''invalid id'' r (\<lambda>i a.
     reply settings_writeErr (answered enc_Microservice) (SettingsService_GetMicroserviceByID repo i a))"

definition Settings_UpdateMicroserviceConfig :: "settings_repository \<Rightarrow> 'w config_publisher \<Rightarrow> request \<Rightarrow> 'w app \<Rightarrow> response \<times> 'w app" where
  "Settings_UpdateMicroserviceConfig repo pub r = with_body field_AppSettings zero_AppSettings r (\<lambda>req a.
     reply settings_writeErr (answered enc_AppSettings) (SettingsService_UpdateMicroserviceConfig repo pub req a))"

definition Settings_ListMicroserviceConfigs :: "settings_repository \<Rightarrow> request \<Rightarrow> 'w app \<Rightarrow> response \<times> 'w app" where
  "Settings_ListMicroserviceConfigs repo r = with_page r (\<lambda>page.
     with_filter ''microserviceId'' ''invalid microserviceId'' r (\<lambda>ms.
     with_filter ''environmentId'' ''invalid environmentId'' r (\<lambda>env a.
     reply settings_writeErr (answered (enc_slice enc_AppSettings)) (SettingsService_ListMicroserviceConfigs repo
       \<lparr>asf_Page = page, asf_MicroserviceID = ms, asf_EnvironmentID = env\<rparr> a))))"

definition Settings_CreateMicroserviceConfig :: "settings_repository \<Rightarrow> 'w config_publisher \<Rightarrow> request \<Rightarrow> 'w app \<Rightarrow> response \<times> 'w app" where
  "Settings_CreateMicroserviceConfig repo pub r = with_body field_AppSettings zero_AppSettings r (\<lambda>req a.
     reply settings_writeErr (created enc_AppSettings) (SettingsService_CreateMicroserviceConfig repo pub req a))"

definition Settings_DeleteMicroserviceConfig :: "settings_repository \<Rightarrow> 'w config_publisher \<Rightarrow> request \<Rightarrow> 'w app \<Rightarrow> response \<times> 'w app" where
  "Settings_DeleteMicroserviceConfig repo pub r = with_id ''id'' ''invalid id'' r (\<lambda>i a.
     reply settings_writeErr (\<lambda>_. NoContent) (SettingsService_DeleteMicroserviceConfig repo pub i a))"

definition Settings_ListMicroservices :: "settings_repository \<Rightarrow> request \<Rightarrow> 'w app \<Rightarrow> response \<times> 'w app" where
  "Settings_ListMicroservices repo r = with_page r (\<lambda>page a.
     reply settings_writeErr (answered (enc_slice enc_Microservice)) (SettingsService_ListMicroservices repo page a))"

definition Settings_CreateMicroservice :: "settings_repository \<Rightarrow> request \<Rightarrow> 'w app \<Rightarrow> response \<times> 'w app" where
  "Settings_CreateMicroservice repo r = with_body field_Microservice zero_Microservice r (\<lambda>req a.
     reply settings_writeErr (created enc_Microservice) (SettingsService_CreateMicroservice repo req a))"

definition Settings_DeleteMicroservice :: "settings_repository \<Rightarrow> request \<Rightarrow> 'w app \<Rightarrow> response \<times> 'w app" where
  "Settings_DeleteMicroservice repo r = with_id ''id'' ''invalid id'' r (\<lambda>i a.
     reply settings_writeErr (\<lambda>_. NoContent) (SettingsService_DeleteMicroservice repo i a))"

definition Settings_ListEnvironments :: "settings_repository \<Rightarrow> request \<Rightarrow> 'w app \<Rightarrow> response \<times> 'w app" where
  "Settings_ListEnvironments repo r = with_page r (\<lambda>page a.
     reply settings_writeErr (answered (enc_slice enc_Environment)) (SettingsService_ListEnvironments repo page a))"

definition Settings_CreateEnvironment :: "settings_repository \<Rightarrow> request \<Rightarrow> 'w app \<Rightarrow> response \<times> 'w app" where
  "Settings_CreateEnvironment repo r = with_body field_Environment zero_Environment r (\<lambda>req a.
     reply settings_writeErr (created enc_Environment) (SettingsService_CreateEnvironment repo req a))"

definition Settings_DeleteEnvironment :: "settings_repository \<Rightarrow> request \<Rightarrow> 'w app \<Rightarrow> response \<times> 'w app" where
  "Settings_DeleteEnvironment repo r = with_id ''id'' ''invalid id'' r (\<lambda>i a.
     reply settings_writeErr (\<lambda>_. NoContent) (SettingsService_DeleteEnvironment repo i a))"

section \<open>Localization\<close>

definition loc_writeErr :: "loc_error \<Rightarrow> response" where
  "loc_writeErr err = (case err of
     loc_error.ErrInvalidLocalizationID \<Rightarrow> web_Error 400 ''invalid localization id''
   | loc_error.ErrInvalidMicroserviceID \<Rightarrow> web_Error 400 ''invalid microservice id''
   | loc_error.ErrInvalidEnvironmentID \<Rightarrow> web_Error 400 ''invalid environment id''
   | loc_error.ErrInvalidLocale \<Rightarrow> web_Error 400 ''invalid locale''
   | loc_error.ErrInvalidBundleJSON \<Rightarrow> web_Error 400 ''invalid bundle json''
   | loc_error.ErrBundleTooLarge \<Rightarrow> web_Error 400 ''bundle json exceeds the maximum value size''
   | loc_error.ErrLocalizationNotFound \<Rightarrow> web_Error 404 ''localization not found''
   | loc_error.ErrMicroserviceNotFound \<Rightarrow> web_Error 404 ''microservice not found''
   | loc_error.ErrEnvironmentNotFound \<Rightarrow> web_Error 404 ''environment not found''
   | loc_error.ErrConflict \<Rightarrow> web_Error 409 ''localization was modified by someone else''
   | loc_error.ErrLocalizationExists \<Rightarrow> web_Error 409 ''localization for this microservice, environment and locale already exists''
   | LocWrapped _ \<Rightarrow> internal_error)"

definition Loc_GetLocalizationByID :: "loc_repository \<Rightarrow> request \<Rightarrow> 'w app \<Rightarrow> response \<times> 'w app" where
  "Loc_GetLocalizationByID repo r = with_id ''id'' ''invalid id'' r (\<lambda>i a.
     reply loc_writeErr (answered enc_Localization) (LocService_GetLocalizationByID repo i a))"

definition Loc_GetLocalization :: "loc_repository \<Rightarrow> request \<Rightarrow> 'w app \<Rightarrow> response \<times> 'w app" where
  "Loc_GetLocalization repo r = with_id ''msId'' ''invalid msId'' r (\<lambda>ms.
     with_id ''envId'' ''invalid envId'' r (\<lambda>env a.
     reply loc_writeErr (answered enc_Localization) (LocService_GetLocalization repo ms env (PathValue r ''locale'') a)))"

definition Loc_UpdateLocalization :: "loc_repository \<Rightarrow> 'w config_publisher \<Rightarrow> request \<Rightarrow> 'w app \<Rightarrow> response \<times> 'w app" where
  "Loc_UpdateLocalization repo pub r = with_body field_Localization zero_Localization r (\<lambda>req a.
     reply loc_writeErr (answered enc_Localization) (LocService_UpdateLocalization repo pub req a))"

definition Loc_ListLocalizations :: "loc_repository \<Rightarrow> request \<Rightarrow> 'w app \<Rightarrow> response \<times> 'w app" where
  "Loc_ListLocalizations repo r = with_page r (\<lambda>page.
     with_filter ''microserviceId'' ''invalid microserviceId'' r (\<lambda>ms.
     with_filter ''environmentId'' ''invalid environmentId'' r (\<lambda>env a.
     reply loc_writeErr (answered (enc_slice enc_Localization)) (LocService_ListLocalizations repo
       \<lparr>lf_Page = page, lf_MicroserviceID = ms, lf_EnvironmentID = env, lf_Locale = QueryGet r ''locale''\<rparr> a))))"

definition Loc_CreateLocalization :: "loc_repository \<Rightarrow> 'w config_publisher \<Rightarrow> request \<Rightarrow> 'w app \<Rightarrow> response \<times> 'w app" where
  "Loc_CreateLocalization repo pub r = with_body field_Localization zero_Localization r (\<lambda>req a.
     reply loc_writeErr (created enc_Localization) (LocService_CreateLocalization repo pub req a))"

definition Loc_DeleteLocalization :: "loc_repository \<Rightarrow> 'w config_publisher \<Rightarrow> request \<Rightarrow> 'w app \<Rightarrow> response \<times> 'w app" where
  "Loc_DeleteLocalization repo pub r = with_id ''id'' ''invalid id'' r (\<lambda>i a.
     reply loc_writeErr (\<lambda>_. NoContent) (LocService_DeleteLocalization repo pub i a))"

end
