(* ===== verification/Write_Guard.thy ===== *)
theory Write_Guard
  imports Admin_Tokens Audit_Trail Web_Handlers
begin

text \<open>
  Who may call what: \<^verbatim>\<open>security\<close> of \<^verbatim>\<open>internal/app/middleware.go\<close>. The write guard authenticates, charges
  the credential's budget, finds the environments a write reaches and checks them against the token's
  scope; the read guard authenticates and narrows what comes back. The state is the service's, the limiter
  and the audit trail; the audit sink a request carries in its context is threaded through.
\<close>

section \<open>The server's state\<close>

record auditSink =
  sink_actor :: string
  sink_domain :: string
  sink_rowID :: string
  sink_envID :: int

definition empty_sink :: auditSink where
  "empty_sink = \<lparr>sink_actor = [], sink_domain = [], sink_rowID = [], sink_envID = 0\<rparr>"

record 'w server =
  sv_app :: "'w app"
  sv_limiter :: "rateLimiter option"
  sv_trail :: "Entry table"

type_synonym 'w handler = "request \<Rightarrow> 'w server \<Rightarrow> response \<times> 'w server"

text \<open>A domain handler works on the service's part of the state.\<close>

definition on_app :: "(request \<Rightarrow> 'w app \<Rightarrow> response \<times> 'w app) \<Rightarrow> 'w handler" where
  "on_app h r sv = (case h r (sv_app sv) of (p, a) \<Rightarrow> (p, sv\<lparr>sv_app := a\<rparr>))"

section \<open>Targets\<close>

datatype targetClass =
    classGlobal | classNeutral | classEnvBody | classEnvPath
  | classRowFlagValue | classRowServiceSettings | classRowLocalization

definition class_table :: "targetClass \<Rightarrow> string" where
  "class_table c = (case c of
     classRowFlagValue \<Rightarrow> ''CONFIG_FLAG_VALUE''
   | classRowServiceSettings \<Rightarrow> ''CONFIG_MICROSERVICE_APPSETTINGS''
   | classRowLocalization \<Rightarrow> ''CONFIG_LOCALIZATION''
   | _ \<Rightarrow> [])"

definition movesEnvironment :: "targetClass \<Rightarrow> bool" where
  "movesEnvironment c \<longleftrightarrow> c = classRowServiceSettings \<or> c = classRowLocalization"

text \<open>The ids of a table's rows with their environments, by the table's name.\<close>

definition table_environments :: "string \<Rightarrow> tables \<Rightarrow> (int \<times> int) list" where
  "table_environments name t =
     (if name = ''CONFIG_FLAG_VALUE'' then map (\<lambda>r. (fv_ID r, fv_EnvironmentID r)) (rows (flag_values t))
      else if name = ''CONFIG_MICROSERVICE_APPSETTINGS'' then map (\<lambda>r. (as_ID r, as_EnvironmentID r)) (rows (appsettings t))
      else if name = ''CONFIG_LOCALIZATION'' then map (\<lambda>r. (loc_ID r, loc_EnvironmentID r)) (rows (localizations t))
      else [])"

definition lookupRowEnvironment :: "string \<Rightarrow> int \<Rightarrow> dbconn \<Rightarrow> int option \<times> dbconn" where
  "lookupRowEnvironment name i db =
     (if name = [] then (None, db)
      else case query (\<lambda>t. map_of (table_environments name t) i) db of
        (Inl _, db) \<Rightarrow> (None, db)
      | (Inr env, db) \<Rightarrow> (env, db))"

record bodyFields =
  bf_ID :: int
  bf_EnvironmentID :: int

definition zero_bodyFields :: bodyFields where
  "zero_bodyFields = \<lparr>bf_ID = 0, bf_EnvironmentID = 0\<rparr>"

definition field_bodyFields :: "string \<Rightarrow> bytes \<Rightarrow> bodyFields \<Rightarrow> bodyFields option" where
  "field_bodyFields k v f =
     (if key_is k ''id'' then map_option (\<lambda>n. f\<lparr>bf_ID := n\<rparr>) (dec_int64 (bf_ID f) v)
      else if key_is k ''environmentId''
        then map_option (\<lambda>n. f\<lparr>bf_EnvironmentID := n\<rparr>) (dec_int64 (bf_EnvironmentID f) v)
      else Some f)"

text \<open>\<^verbatim>\<open>bufferBody\<close> reads one byte past what a handler accepts and puts what it read back.\<close>

definition bufferBody :: "request \<Rightarrow> request" where
  "bufferBody r = r\<lparr>rq_Body := take (MaxRequestBody + 1) (rq_Body r)\<rparr>"

definition decodeBodyFields :: "request \<Rightarrow> bodyFields" where
  "decodeBodyFields r = (let body = rq_Body (bufferBody r) in
     if body = [] then zero_bodyFields
     else case Option.bind (object_members body) (\<lambda>ms. decode_members field_bodyFields ms zero_bodyFields) of
       None \<Rightarrow> zero_bodyFields
     | Some f \<Rightarrow> f)"

definition target_of :: "string \<Rightarrow> string \<Rightarrow> writeTarget" where
  "target_of domain rowID = \<lparr>wt_domain = domain, wt_rowID = rowID, wt_envs = [], wt_global = False\<rparr>"

definition positive_id :: "string \<Rightarrow> int option" where
  "positive_id s = (case ParseInt s of None \<Rightarrow> None | Some i \<Rightarrow> if i \<le> 0 then None else Some i)"

text \<open>The row classes: the row's own environment, and the one the body moves it to.\<close>

definition resolveRow :: "targetClass \<Rightarrow> bodyFields \<Rightarrow> writeTarget \<Rightarrow> dbconn \<Rightarrow> writeTarget \<times> dbconn" where
  "resolveRow class bf target0 db = (
     let target = (if wt_rowID target0 = [] \<and> 0 < bf_ID bf then target0\<lparr>wt_rowID := FormatInt (bf_ID bf)\<rparr> else target0)
     in case positive_id (wt_rowID target) of
          None \<Rightarrow> (target\<lparr>wt_global := True\<rparr>, db)
        | Some i \<Rightarrow> (case lookupRowEnvironment (class_table class) i db of
            (None, db) \<Rightarrow> (target\<lparr>wt_global := True\<rparr>, db)
          | (Some env, db) \<Rightarrow>
              (target\<lparr>wt_envs := env #
                 (if movesEnvironment class \<and> 0 < bf_EnvironmentID bf \<and> bf_EnvironmentID bf \<noteq> env
                  then [bf_EnvironmentID bf] else [])\<rparr>, db)))"

definition resolveTarget :: "targetClass \<Rightarrow> string \<Rightarrow> request \<Rightarrow> dbconn \<Rightarrow> writeTarget \<times> dbconn" where
  "resolveTarget class domain r db = (let target = target_of domain (PathValue r ''id'') in
     case class of
       classNeutral \<Rightarrow> (target, db)
     | classGlobal \<Rightarrow> (target\<lparr>wt_global := True\<rparr>, db)
     | classEnvPath \<Rightarrow> (case positive_id (wt_rowID target) of
           None \<Rightarrow> (target\<lparr>wt_global := True\<rparr>, db)
         | Some i \<Rightarrow> (target\<lparr>wt_envs := [i]\<rparr>, db))
     | classEnvBody \<Rightarrow> (let bf = decodeBodyFields r in
         if bf_EnvironmentID bf \<le> 0 then (target\<lparr>wt_global := True\<rparr>, db)
         else (target\<lparr>wt_envs := [bf_EnvironmentID bf]\<rparr>, db))
     | _ \<Rightarrow> resolveRow class (decodeBodyFields r) target db)"

section \<open>Authentication and budgets\<close>

definition zero_token :: adminToken where
  "zero_token = \<lparr>at_name = [], at_secret = [], at_envs = None\<rparr>"

definition authenticate :: "tokenSet \<Rightarrow> request \<Rightarrow> response + adminToken" where
  "authenticate tokens r =
     (if \<not> tokens_enabled tokens then Inr zero_token
      else case CutPrefix (rq_Authorization r) ''Bearer '' of (got, prefixed) \<Rightarrow>
        (case token_lookup tokens got of
           None \<Rightarrow> Inl (web_Error 401 ''unauthorized'')
         | Some t \<Rightarrow> if \<not> prefixed then Inl (web_Error 401 ''unauthorized'') else Inr t))"

definition charged :: "int \<times> bool \<Rightarrow> response option" where
  "charged verdict = (case verdict of (retry, ok) \<Rightarrow>
     if ok then None else Some ((web_Error 429 ''too many write requests'')\<lparr>rp_RetryAfter := Some retry\<rparr>))"

definition spend :: "gotime \<Rightarrow> string \<Rightarrow> 'w server \<Rightarrow> response option \<times> 'w server" where
  "spend now key sv = (case allow now key (sv_limiter sv) of (v, l) \<Rightarrow> (charged v, sv\<lparr>sv_limiter := l\<rparr>))"

definition spendAnonymous :: "gotime \<Rightarrow> string \<Rightarrow> 'w server \<Rightarrow> response option \<times> 'w server" where
  "spendAnonymous now key sv =
     (case allowAnonymous now key (sv_limiter sv) of (v, l) \<Rightarrow> (charged v, sv\<lparr>sv_limiter := l\<rparr>))"

definition presentsCredential :: "tokenSet \<Rightarrow> request \<Rightarrow> bool" where
  "presentsCredential tokens r =
     (if \<not> tokens_enabled tokens then True
      else case CutPrefix (rq_Authorization r) ''Bearer '' of (secret, prefixed) \<Rightarrow>
        if \<not> prefixed then False else token_lookup tokens secret \<noteq> None)"

definition isMutating :: "string \<Rightarrow> bool" where
  "isMutating m \<longleftrightarrow> m \<in> {''POST'', ''PUT'', ''PATCH'', ''DELETE''}"

section \<open>The write guard\<close>

definition guard ::
  "tokenSet \<Rightarrow> gotime \<Rightarrow> targetClass \<Rightarrow> string \<Rightarrow> 'w handler \<Rightarrow> request \<Rightarrow> auditSink \<Rightarrow> 'w server
     \<Rightarrow> response \<times> auditSink \<times> 'w server" where
  "guard tokens now class domain h r sink sv = (case authenticate tokens r of
     Inl refusal \<Rightarrow> (refusal, sink, sv)
   | Inr token \<Rightarrow>
       let sink1 = (if tokens_enabled tokens then sink\<lparr>sink_actor := at_name token\<rparr> else sink)
       in case (if tokens_enabled tokens then spend now (tokenKey (at_name token)) sv else (None, sv)) of
            (Some refusal, sv1) \<Rightarrow> (refusal, sink1, sv1)
          | (None, sv1) \<Rightarrow>
              (case resolveTarget class domain r (app_db (sv_app sv1)) of (target, db) \<Rightarrow>
                 let sv2 = sv1\<lparr>sv_app := (sv_app sv1)\<lparr>app_db := db\<rparr>\<rparr>;
                     sink2 = sink1\<lparr>sink_domain := wt_domain target, sink_rowID := wt_rowID target,
                       sink_envID := (case wt_envs target of [env] \<Rightarrow> env | _ \<Rightarrow> sink_envID sink1)\<rparr>
                 in if \<not> allows token target
                    then (web_Error 403 ''token is not scoped to this environment'', sink2, sv2)
                    else (case h (bufferBody r) sv2 of (p, sv3) \<Rightarrow> (p, sink2, sv3))))"

text \<open>The outermost gate on a write, ahead of the audit trail.\<close>

definition limitWrites ::
  "tokenSet \<Rightarrow> gotime \<Rightarrow> (request \<Rightarrow> auditSink \<Rightarrow> 'w server \<Rightarrow> response \<times> auditSink \<times> 'w server)
     \<Rightarrow> request \<Rightarrow> auditSink \<Rightarrow> 'w server \<Rightarrow> response \<times> auditSink \<times> 'w server" where
  "limitWrites tokens now next r sink sv =
     (if \<not> isMutating (rq_Method r) then next r sink sv
      else case (if presentsCredential tokens r then spend now (addressKey (rq_RemoteAddr r)) sv
                 else spendAnonymous now (anonymousKey (rq_RemoteAddr r)) sv) of
        (Some refusal, sv) \<Rightarrow> (refusal, sink, sv)
      | (None, sv) \<Rightarrow> next r sink sv)"

section \<open>The read guard\<close>

datatype readClass = classReadNeutral | classReadEnvRows | classReadEnvs | classReadAudit | classReadInventory

definition scopeField :: "readClass \<Rightarrow> string" where
  "scopeField c = (case c of classReadEnvRows \<Rightarrow> ''environmentId'' | classReadEnvs \<Rightarrow> ''id'' | _ \<Rightarrow> [])"

text \<open>The last member under exactly that name, as a Go map keeps it, decoded as an integer.\<close>

definition rowEnvironment :: "bytes \<Rightarrow> string \<Rightarrow> int option" where
  "rowEnvironment row field = (case object_members row of
     None \<Rightarrow> None
   | Some ms \<Rightarrow> (case map_of (rev ms) field of None \<Rightarrow> None | Some v \<Rightarrow> dec_int64 0 v))"

definition row_in :: "int set \<Rightarrow> string \<Rightarrow> bytes \<Rightarrow> bool" where
  "row_in envs field row = (case rowEnvironment row field of None \<Rightarrow> False | Some env \<Rightarrow> env \<in> envs)"

definition scopeFilter :: "bytes \<Rightarrow> int set \<Rightarrow> string \<Rightarrow> nat \<times> bytes" where
  "scopeFilter body envs field = (let trimmed = TrimSpace body in
     case trimmed of
       [] \<Rightarrow> (200, body)
     | c # _ \<Rightarrow>
         if trimmed = ''null'' then (200, ''[]'' @ [CHR 0x0A])
         else if c = CHR ''['' then
           (case array_elements trimmed of
              None \<Rightarrow> (500, [])
            | Some rs \<Rightarrow> (200, json_array (map (compact_json False) (filter (row_in envs field) rs)) @ [CHR 0x0A]))
         else if c = CHR ''{'' then (if row_in envs field trimmed then (200, body) else (404, []))
         else (500, []))"

text \<open>A buffered 200 is narrowed; every other answer of a handler goes through as it is.\<close>

definition narrowed :: "int set \<Rightarrow> string \<Rightarrow> response \<Rightarrow> response" where
  "narrowed envs field p =
     (if rp_Status p \<noteq> 200 then p
      else case scopeFilter (rp_Body p) envs field of (status, body) \<Rightarrow>
        if status = 200 then p\<lparr>rp_Body := body\<rparr>
        else if status = 404 then web_Error 404 ''not found''
        else web_Error 500 ''internal server error'')"

text \<open>
  A read handler is told the caller's scope, \<open>None\<close> for an unnarrowed request; the domain handlers ignore
  it.
\<close>

type_synonym 'w reader = "int set option \<Rightarrow> 'w handler"

definition read_guard ::
  "tokenSet \<Rightarrow> gotime \<Rightarrow> readClass \<Rightarrow> 'w reader \<Rightarrow> request \<Rightarrow> 'w server \<Rightarrow> response \<times> 'w server" where
  "read_guard tokens now class h r sv = (case authenticate tokens r of
     Inl refusal \<Rightarrow> (refusal, sv)
   | Inr token \<Rightarrow>
       (case (if class = classReadInventory then spend now (inventoryKey (at_name token) (rq_RemoteAddr r)) sv
              else (None, sv)) of
          (Some refusal, sv) \<Rightarrow> (refusal, sv)
        | (None, sv) \<Rightarrow>
            (case at_envs token of
               None \<Rightarrow> h None r sv
             | Some envs \<Rightarrow>
                 (case h (Some envs) r sv of (p, sv) \<Rightarrow>
                    (if scopeField class = [] then p else narrowed envs (scopeField class) p, sv)))))"

definition app_inScope :: "int set option \<Rightarrow> int \<Rightarrow> bool" where
  "app_inScope scope env = (case scope of None \<Rightarrow> True | Some envs \<Rightarrow> env \<in> envs)"

definition scopeList :: "int set \<Rightarrow> int list" where
  "scopeList envs = sorted_list_of_set envs"

end
