(* ===== verification/App_Inventory.thy ===== *)
theory App_Inventory
  imports Write_Guard
begin

text \<open>
  \<^verbatim>\<open>internal/app/inventory.go\<close>: every editable row a caller may see, each of the three collections paged by
  the same window. The rows come from the reconciler's list queries and the page is taken here.
\<close>

section \<open>Paging\<close>

record pager =
  pg_limit :: int
  pg_offset :: int
  pg_seen :: int
  pg_taken :: int

definition pager_reset :: "pager \<Rightarrow> pager" where
  "pager_reset p = \<lparr>pg_limit = pg_limit p, pg_offset = pg_offset p, pg_seen = 0, pg_taken = 0\<rparr>"

definition pager_take :: "pager \<Rightarrow> bool \<times> pager" where
  "pager_take p =
     (if pg_seen p < pg_offset p then (False, p\<lparr>pg_seen := pg_seen p + 1\<rparr>)
      else if pg_limit p \<le> pg_taken p then (False, p)
      else (True, p\<lparr>pg_seen := pg_seen p + 1, pg_taken := pg_taken p + 1\<rparr>))"

text \<open>The loop over one collection.\<close>

fun paged :: "('r \<Rightarrow> bool) \<Rightarrow> 'r list \<Rightarrow> pager \<Rightarrow> 'r list" where
  "paged visible [] p = []"
| "paged visible (r # rs) p =
     (if \<not> visible r then paged visible rs p
      else case pager_take p of (on_page, p) \<Rightarrow>
        if on_page then r # paged visible rs p else paged visible rs p)"

text \<open>The counting loop is \<^verbatim>\<open>LIMIT\<close> and \<^verbatim>\<open>OFFSET\<close> over the rows the caller may see.\<close>

lemma paged_from:
  assumes "pg_taken p = 0 \<and> pg_seen p \<le> pg_offset p \<or> pg_seen p = pg_offset p + pg_taken p"
    "0 \<le> pg_taken p" "pg_taken p \<le> pg_limit p"
  shows "paged visible rs p =
    take (nat (pg_limit p - pg_taken p)) (drop (nat (pg_offset p - pg_seen p)) (filter visible rs))"
  using assms
proof (induction rs arbitrary: p)
  case Nil
  show ?case by simp
next
  case (Cons r rs)
  show ?case
  proof (cases "visible r")
    case False
    then show ?thesis using Cons by simp
  next
    case True
    consider "pg_seen p < pg_offset p" | "pg_offset p \<le> pg_seen p" "pg_limit p \<le> pg_taken p"
      | "pg_offset p \<le> pg_seen p" "pg_taken p < pg_limit p" by linarith
    then show ?thesis
    proof cases
      case 1
      then obtain m where "nat (pg_offset p - pg_seen p) = Suc m" by (metis nat_eq_iff2 zero_less_nat_eq
            diff_gt_0_iff_gt not0_implies_Suc less_numeral_extra(3))
      moreover from this have "nat (pg_offset p - (pg_seen p + 1)) = m" by simp
      ultimately show ?thesis using True 1 Cons.IH [of "p\<lparr>pg_seen := pg_seen p + 1\<rparr>"] Cons.prems
        by (simp add: pager_take_def)
    next
      case 2
      then show ?thesis using True Cons.IH [of p] Cons.prems by (simp add: pager_take_def)
    next
      case 3
      then obtain m where "nat (pg_limit p - pg_taken p) = Suc m" by (metis nat_eq_iff2 zero_less_nat_eq
            diff_gt_0_iff_gt not0_implies_Suc less_numeral_extra(3))
      moreover from this have "nat (pg_limit p - (pg_taken p + 1)) = m" by simp
      moreover have "pg_seen p = pg_offset p + pg_taken p" using 3 Cons.prems by auto
      ultimately show ?thesis using True 3 Cons.prems
          Cons.IH [of "p\<lparr>pg_seen := pg_seen p + 1, pg_taken := pg_taken p + 1\<rparr>"]
        by (simp add: pager_take_def)
    qed
  qed
qed

section \<open>The response\<close>

definition enc_InventoryFlag :: "ReconcileRow \<Rightarrow> bytes option" where
  "enc_InventoryFlag v = enc_struct [(''id'', Some (FormatInt (rr_ID v))),
     (''environmentId'', Some (FormatInt (rr_EnvironmentID v))), (''flagKey'', Some (json_string (rr_FlagKey v))),
     (''enabled'', Some (FormatInt (rr_Enabled v))), (''value'', Some (json_string (rr_Value v)))]"

definition enc_InventorySettings :: "MicroserviceAppSettings \<Rightarrow> bytes option" where
  "enc_InventorySettings s = enc_struct [(''id'', Some (FormatInt (as_ID s))),
     (''microserviceId'', Some (FormatInt (as_MicroserviceID s))),
     (''environmentId'', Some (FormatInt (as_EnvironmentID s))), (''settingsJson'', enc_raw (as_SettingsJSON s))]"

definition enc_InventoryLoc :: "Localization \<Rightarrow> bytes option" where
  "enc_InventoryLoc l = enc_struct [(''id'', Some (FormatInt (loc_ID l))),
     (''microserviceId'', Some (FormatInt (loc_MicroserviceID l))),
     (''environmentId'', Some (FormatInt (loc_EnvironmentID l))), (''locale'', Some (json_string (loc_Locale l))),
     (''bundleJson'', enc_raw (loc_BundleJSON l))]"

text \<open>The handler on the three listers.\<close>

definition inventory_handler ::
  "(gotime \<Rightarrow> dbconn \<Rightarrow> ReconcileRow list flags_result) \<Rightarrow>
   (gotime \<Rightarrow> dbconn \<Rightarrow> MicroserviceAppSettings list settings_result) \<Rightarrow>
   (gotime \<Rightarrow> dbconn \<Rightarrow> Localization list loc_result) \<Rightarrow>
   int set option \<Rightarrow> request \<Rightarrow> 'w app \<Rightarrow> response \<times> 'w app" where
  "inventory_handler flags_lister micro_lister loc_lister scope r a = (case ParsePage r of
     None \<Rightarrow> (web_Error 400 ''invalid query parameter'', a)
   | Some page \<Rightarrow>
       let p = \<lparr>pg_limit = Limit page, pg_offset = Offset page, pg_seen = 0, pg_taken = 0\<rparr>
       in case on_db (flags_lister 0) a of
            (Inl _, a) \<Rightarrow> (internal_error, a)
          | (Inr flag_rows, a) \<Rightarrow> (case on_db (micro_lister 0) a of
              (Inl _, a) \<Rightarrow> (internal_error, a)
            | (Inr micro_rows, a) \<Rightarrow> (case on_db (loc_lister 0) a of
                (Inl _, a) \<Rightarrow> (internal_error, a)
              | (Inr loc_rows, a) \<Rightarrow>
                  (web_JSON 200 (enc_struct
                     [(''flags'', enc_slice enc_InventoryFlag
                        (paged (\<lambda>v. app_inScope scope (rr_EnvironmentID v)) flag_rows (pager_reset p))),
                      (''serviceSettings'', enc_slice enc_InventorySettings
                        (paged (\<lambda>s. app_inScope scope (as_EnvironmentID s)) micro_rows (pager_reset p))),
                      (''localization'', enc_slice enc_InventoryLoc
                        (paged (\<lambda>l. app_inScope scope (loc_EnvironmentID l)) loc_rows (pager_reset p)))]), a))))"

end
