(* ===== verification/App_Routes.thy ===== *)
theory App_Routes
  imports App_Inventory
begin

text \<open>
  The API as \<^verbatim>\<open>NewRouter\<close> of \<^verbatim>\<open>internal/app/config.go\<close> registers it, and the chain \<^verbatim>\<open>NewApp\<close> puts around it:
  the address limiter, then the audit trail, then the router with its guards. The table of routes is data, so
  statements can range over all of them. \<^verbatim>\<open>http.ServeMux\<close> is modelled for clean paths, as the list of their
  decoded segments; its own answers to a request no pattern matches are the parameter \<open>unmatched\<close>, and the
  probe and metrics routes the parameter \<open>open_route\<close>.
\<close>

section \<open>Routes\<close>

datatype route =
    RHealth | RLivez | RMetrics | RInventory | RAudit | RListEnvironments | RCreateEnvironment
  | RDeleteEnvironment | RListMicroservices | RCreateMicroservice | RDeleteMicroservice
  | RGetMicroservice | RListConfigs | RGetConfig | RCreateConfig | RDeleteConfig | RUpdateConfig
  | RListFlags | RGetFlag | RCreateFlag | RDeleteFlag | RListFlagValues | RGetFlagValue
  | RCreateFlagValue | RDeleteFlagValue | RUpdateFlagValue | RListLocalizations | RGetLocalization
  | RLookupLocalization | RCreateLocalization | RDeleteLocalization | RUpdateLocalization

text \<open>Patterns: a segment in braces is a wildcard that binds one segment.\<close>

datatype segment = Lit string | Wild string

fun match_segments :: "segment list \<Rightarrow> string list \<Rightarrow> (string \<times> string) list option" where
  "match_segments [] [] = Some []"
| "match_segments (Lit l # ps) (s # ss) = (if l = s then match_segments ps ss else None)"
| "match_segments (Wild w # ps) (s # ss) = (if s = [] then None else map_option ((#) (w, s)) (match_segments ps ss))"
| "match_segments _ _ = None"

text \<open>In the order of precedence: where two patterns match, the one with the literal segment comes first.\<close>

definition patterns :: "(string \<times> segment list \<times> route) list" where
  "patterns = [
     (''GET'', [Lit ''health''], RHealth),
     (''GET'', [Lit ''livez''], RLivez),
     (''GET'', [Lit ''metrics''], RMetrics),
     (''GET'', [Lit ''inventory''], RInventory),
     (''GET'', [Lit ''audit''], RAudit),
     (''GET'', [Lit ''environments''], RListEnvironments),
     (''POST'', [Lit ''environments''], RCreateEnvironment),
     (''GET'', [Lit ''microservices''], RListMicroservices),
     (''POST'', [Lit ''microservices''], RCreateMicroservice),
     (''GET'', [Lit ''flags''], RListFlags),
     (''POST'', [Lit ''flags''], RCreateFlag),
     (''GET'', [Lit ''localization''], RListLocalizations),
     (''POST'', [Lit ''localization''], RCreateLocalization),
     (''GET'', [Lit ''configs'', Lit ''values''], RListConfigs),
     (''POST'', [Lit ''configs'', Lit ''values''], RCreateConfig),
     (''PUT'', [Lit ''configs'', Lit ''values''], RUpdateConfig),
     (''GET'', [Lit ''flags'', Lit ''values''], RListFlagValues),
     (''POST'', [Lit ''flags'', Lit ''values''], RCreateFlagValue),
     (''PUT'', [Lit ''flags'', Lit ''values''], RUpdateFlagValue),
     (''PUT'', [Lit ''localization'', Lit ''values''], RUpdateLocalization),
     (''DELETE'', [Lit ''environments'', Wild ''id''], RDeleteEnvironment),
     (''DELETE'', [Lit ''microservices'', Wild ''id''], RDeleteMicroservice),
     (''GET'', [Lit ''configs'', Wild ''id''], RGetMicroservice),
     (''GET'', [Lit ''flags'', Wild ''id''], RGetFlag),
     (''DELETE'', [Lit ''flags'', Wild ''id''], RDeleteFlag),
     (''GET'', [Lit ''localization'', Wild ''id''], RGetLocalization),
     (''DELETE'', [Lit ''localization'', Wild ''id''], RDeleteLocalization),
     (''GET'', [Lit ''configs'', Lit ''values'', Wild ''id''], RGetConfig),
     (''DELETE'', [Lit ''configs'', Lit ''values'', Wild ''id''], RDeleteConfig),
     (''GET'', [Lit ''flags'', Lit ''values'', Wild ''id''], RGetFlagValue),
     (''DELETE'', [Lit ''flags'', Lit ''values'', Wild ''id''], RDeleteFlagValue),
     (''GET'', [Lit ''localization'', Lit ''lookup'', Wild ''msId'', Wild ''envId'', Wild ''locale''], RLookupLocalization)]"

definition method_matches :: "string \<Rightarrow> string \<Rightarrow> bool" where
  "method_matches pattern m \<longleftrightarrow> m = pattern \<or> pattern = ''GET'' \<and> m = ''HEAD''"

fun find_route ::
  "(string \<times> segment list \<times> route) list \<Rightarrow> string \<Rightarrow> string list \<Rightarrow> (route \<times> (string \<times> string) list) option" where
  "find_route [] m segs = None"
| "find_route ((pm, ps, rt) # rest) m segs = (case match_segments ps segs of
     Some values \<Rightarrow> if method_matches pm m then Some (rt, values) else find_route rest m segs
   | None \<Rightarrow> find_route rest m segs)"

definition route_of :: "string \<Rightarrow> string list \<Rightarrow> (route \<times> (string \<times> string) list) option" where
  "route_of = find_route patterns"

section \<open>The table\<close>

record 'w api =
  api_tokens :: tokenSet
  api_flags :: flags_repository
  api_settings :: settings_repository
  api_loc :: loc_repository
  api_pub :: "'w config_publisher"
  api_flags_lister :: "gotime \<Rightarrow> dbconn \<Rightarrow> ReconcileRow list flags_result"
  api_settings_lister :: "gotime \<Rightarrow> dbconn \<Rightarrow> MicroserviceAppSettings list settings_result"
  api_loc_lister :: "gotime \<Rightarrow> dbconn \<Rightarrow> Localization list loc_result"

definition domain_reader :: "(request \<Rightarrow> 'w app \<Rightarrow> response \<times> 'w app) \<Rightarrow> 'w reader" where
  "domain_reader h scope = on_app h"

text \<open>The read guard hands the audit handler the sorted list of the caller's environments.\<close>

definition audit_reader :: "'w reader" where
  "audit_reader scope r sv =
     (case audit_handler (map_option scopeList scope) r (app_db (sv_app sv), sv_trail sv) of
        (p, db) \<Rightarrow> (p, sv\<lparr>sv_app := (sv_app sv)\<lparr>app_db := db\<rparr>\<rparr>))"

definition read_route :: "'w api \<Rightarrow> route \<Rightarrow> (readClass \<times> 'w reader) option" where
  "read_route api rt = (case rt of
     RInventory \<Rightarrow> Some (classReadInventory, (\<lambda>scope. on_app (inventory_handler (api_flags_lister api) (api_settings_lister api) (api_loc_lister api) scope)))
   | RAudit \<Rightarrow> Some (classReadAudit, audit_reader)
   | RListEnvironments \<Rightarrow> Some (classReadEnvs, domain_reader (Settings_ListEnvironments (api_settings api)))
   | RListMicroservices \<Rightarrow> Some (classReadNeutral, domain_reader (Settings_ListMicroservices (api_settings api)))
   | RGetMicroservice \<Rightarrow> Some (classReadNeutral, domain_reader (Settings_GetMicroservice (api_settings api)))
   | RListConfigs \<Rightarrow> Some (classReadEnvRows, domain_reader (Settings_ListMicroserviceConfigs (api_settings api)))
   | RGetConfig \<Rightarrow> Some (classReadEnvRows, domain_reader (Settings_GetMicroserviceConfig (api_settings api)))
   | RListFlags \<Rightarrow> Some (classReadNeutral, domain_reader (Flags_ListFlags (api_flags api)))
   | RGetFlag \<Rightarrow> Some (classReadNeutral, domain_reader (Flags_GetFlagsByID (api_flags api)))
   | RListFlagValues \<Rightarrow> Some (classReadEnvRows, domain_reader (Flags_ListFlagValues (api_flags api)))
   | RGetFlagValue \<Rightarrow> Some (classReadEnvRows, domain_reader (Flags_GetFlagsValueByID (api_flags api)))
   | RListLocalizations \<Rightarrow> Some (classReadEnvRows, domain_reader (Loc_ListLocalizations (api_loc api)))
   | RGetLocalization \<Rightarrow> Some (classReadEnvRows, domain_reader (Loc_GetLocalizationByID (api_loc api)))
   | RLookupLocalization \<Rightarrow> Some (classReadEnvRows, domain_reader (Loc_GetLocalization (api_loc api)))
   | _ \<Rightarrow> None)"

definition write_route :: "'w api \<Rightarrow> route \<Rightarrow> (targetClass \<times> string \<times> 'w handler) option" where
  "write_route api rt = (case rt of
     RCreateEnvironment \<Rightarrow> Some (classGlobal, ''environments'', on_app (Settings_CreateEnvironment (api_settings api)))
   | RDeleteEnvironment \<Rightarrow> Some (classEnvPath, ''environments'', on_app (Settings_DeleteEnvironment (api_settings api)))
   | RCreateMicroservice \<Rightarrow> Some (classNeutral, ''microservices'', on_app (Settings_CreateMicroservice (api_settings api)))
   | RDeleteMicroservice \<Rightarrow> Some (classGlobal, ''microservices'', on_app (Settings_DeleteMicroservice (api_settings api)))
   | RCreateConfig \<Rightarrow> Some (classEnvBody, ''servicesettings'', on_app (Settings_CreateMicroserviceConfig (api_settings api) (api_pub api)))
   | RDeleteConfig \<Rightarrow> Some (classRowServiceSettings, ''servicesettings'', on_app (Settings_DeleteMicroserviceConfig (api_settings api) (api_pub api)))
   | RUpdateConfig \<Rightarrow> Some (classRowServiceSettings, ''servicesettings'', on_app (Settings_UpdateMicroserviceConfig (api_settings api) (api_pub api)))
   | RCreateFlag \<Rightarrow> Some (classNeutral, ''flags'', on_app (Flags_CreateFlag (api_flags api)))
   | RDeleteFlag \<Rightarrow> Some (classGlobal, ''flags'', on_app (Flags_DeleteFlag (api_flags api) (api_pub api)))
   | RCreateFlagValue \<Rightarrow> Some (classEnvBody, ''flagvalues'', on_app (Flags_CreateFlagValue (api_flags api) (api_pub api)))
   | RDeleteFlagValue \<Rightarrow> Some (classRowFlagValue, ''flagvalues'', on_app (Flags_DeleteFlagValue (api_flags api) (api_pub api)))
   | RUpdateFlagValue \<Rightarrow> Some (classRowFlagValue, ''flagvalues'', on_app (Flags_UpdateFlagValue (api_flags api) (api_pub api)))
   | RCreateLocalization \<Rightarrow> Some (classEnvBody, ''localization'', on_app (Loc_CreateLocalization (api_loc api) (api_pub api)))
   | RDeleteLocalization \<Rightarrow> Some (classRowLocalization, ''localization'', on_app (Loc_DeleteLocalization (api_loc api) (api_pub api)))
   | RUpdateLocalization \<Rightarrow> Some (classRowLocalization, ''localization'', on_app (Loc_UpdateLocalization (api_loc api) (api_pub api)))
   | _ \<Rightarrow> None)"

section \<open>The chain\<close>

text \<open>The moments the clock is read at: by the address limiter, by a guard, by the audit trail.\<close>

record times =
  at_edge :: gotime
  at_guard :: gotime
  at_audit :: gotime

definition serve_route ::
  "'w api \<Rightarrow> 'w handler \<Rightarrow> times \<Rightarrow> route \<Rightarrow> request \<Rightarrow> auditSink \<Rightarrow> 'w server
     \<Rightarrow> response \<times> auditSink \<times> 'w server" where
  "serve_route api open_route ts rt r sink sv = (case write_route api rt of
     Some (class, domain, h) \<Rightarrow> guard (api_tokens api) (at_guard ts) class domain h r sink sv
   | None \<Rightarrow> (case (case read_route api rt of
         Some (class, h) \<Rightarrow> read_guard (api_tokens api) (at_guard ts) class h r sv
       | None \<Rightarrow> open_route r sv) of (p, sv) \<Rightarrow> (p, sink, sv)))"

definition auditWrites ::
  "(string \<Rightarrow> string option) \<Rightarrow> gotime \<Rightarrow> bool \<Rightarrow> string \<Rightarrow>
   (request \<Rightarrow> auditSink \<Rightarrow> 'w server \<Rightarrow> response \<times> auditSink \<times> 'w server)
     \<Rightarrow> request \<Rightarrow> auditSink \<Rightarrow> 'w server \<Rightarrow> response \<times> auditSink \<times> 'w server" where
  "auditWrites num now routed path next r sink sv =
     (if \<not> isMutating (rq_Method r) \<or> \<not> routed then next r sink sv
      else let r1 = bufferBody r in case next r1 sink sv of (p, sink, sv) \<Rightarrow>
        let entry = \<lparr>ae_ID = 0, ae_OccurredAt = now, ae_Actor = sink_actor sink, ae_Method = rq_Method r,
              ae_Path = truncate_bytes path maxAuditPath, ae_Domain = sink_domain sink,
              ae_TargetID = truncate_bytes (sink_rowID sink) maxAuditTargetID, ae_EnvironmentID = sink_envID sink,
              ae_StatusCode = int (rp_Status p), ae_RemoteAddr = remoteHost (rq_RemoteAddr r),
              ae_RequestBody = Redact num (rq_Body r1)\<rparr>
        in case audit_Insert entry (app_db (sv_app sv), sv_trail sv) of (_, db, trail) \<Rightarrow>
             (p, sink, sv\<lparr>sv_app := (sv_app sv)\<lparr>app_db := db\<rparr>, sv_trail := trail\<rparr>))"

text \<open>A request as the server gets it: the path as its decoded segments, and their concatenation for the trail.\<close>

definition url_path :: "string list \<Rightarrow> string" where
  "url_path segs = concat (map (\<lambda>s. CHR ''/'' # s) segs)"

definition serve_request ::
  "'w api \<Rightarrow> (string \<Rightarrow> string option) \<Rightarrow> 'w handler \<Rightarrow> (request \<Rightarrow> response) \<Rightarrow> times \<Rightarrow> string list \<Rightarrow> request
     \<Rightarrow> 'w server \<Rightarrow> response \<times> auditSink \<times> 'w server" where
  "serve_request api num open_route unmatched ts segs r sv = (let found = route_of (rq_Method r) segs in
     limitWrites (api_tokens api) (at_edge ts)
       (auditWrites num (at_audit ts) (found \<noteq> None) (url_path segs)
         (\<lambda>r sink sv. case found of
            None \<Rightarrow> (unmatched r, sink, sv)
          | Some (rt, values) \<Rightarrow> serve_route api open_route ts rt (r\<lparr>rq_PathValues := values\<rparr>) sink sv))
       r empty_sink sv)"

end
