(* ===== verification/Scope_Writes.thy ===== *)
theory Scope_Writes
  imports System_Invariant
begin

text \<open>
  What a write outside some environments means for the tables, and which statements stay inside: the rows
  of the environments not in a scope, the flags and the microservices are the frame; a statement aimed at
  rows and environments of the scope keeps it.
\<close>

section \<open>Rows outside a scope\<close>

definition outside :: "('r \<Rightarrow> int) \<Rightarrow> int set \<Rightarrow> 'r table \<Rightarrow> 'r list" where
  "outside env E T = filter (\<lambda>r. env r \<notin> E) (rows T)"

text \<open>
  The tables \<open>t\<close> still hold, in the same order, every row of \<open>t0\<close> whose environment is not in the scope,
  and every flag and microservice of \<open>t0\<close>.
\<close>

definition frame :: "int set \<Rightarrow> tables \<Rightarrow> tables \<Rightarrow> bool" where
  "frame E t0 t \<longleftrightarrow>
       outside env_ID E (environments t) = outside env_ID E (environments t0)
     \<and> outside fv_EnvironmentID E (flag_values t) = outside fv_EnvironmentID E (flag_values t0)
     \<and> outside as_EnvironmentID E (appsettings t) = outside as_EnvironmentID E (appsettings t0)
     \<and> outside loc_EnvironmentID E (localizations t) = outside loc_EnvironmentID E (localizations t0)
     \<and> set (rows (flags t0)) \<subseteq> set (rows (flags t))
     \<and> set (rows (microservices t0)) \<subseteq> set (rows (microservices t))"

definition untouched :: "int set \<Rightarrow> tables \<Rightarrow> tables \<Rightarrow> bool" where
  "untouched E t0 t \<longleftrightarrow> wf_tables t \<and> frame E t0 t"

lemma frame_refl [simp]: "frame E t t"
  by (simp add: frame_def)

lemma untouched_refl: "wf_tables t \<Longrightarrow> untouched E t t"
  by (simp add: untouched_def)

lemma frame_trans: "frame E t0 t1 \<Longrightarrow> frame E t1 t2 \<Longrightarrow> frame E t0 t2"
  by (auto simp: frame_def)

lemma outside_map:
  assumes "\<And>r. r \<in> set (rows T) \<Longrightarrow> P r \<Longrightarrow> env r \<in> E \<and> env (f r) \<in> E"
  shows "filter (\<lambda>r. env r \<notin> E) (map (\<lambda>r. if P r then f r else r) (rows T)) = outside env E T"
proof -
  have "\<forall>r \<in> set rs. P r \<longrightarrow> env r \<in> E \<and> env (f r) \<in> E \<Longrightarrow>
    filter (\<lambda>r. env r \<notin> E) (map (\<lambda>r. if P r then f r else r) rs) = filter (\<lambda>r. env r \<notin> E) rs" for rs
    by (induction rs) auto
  then show ?thesis using assms by (simp add: outside_def)
qed

lemma outside_update:
  assumes "table_update uk P f T = (res, T')"
    and "\<And>r. r \<in> set (rows T) \<Longrightarrow> P r \<Longrightarrow> env r \<in> E \<and> env (f r) \<in> E"
  shows "outside env E T' = outside env E T"
  using assms outside_map [of T P env E f]
  by (auto simp: table_update_def Let_def outside_def split: if_splits)

lemma outside_insert:
  assumes "table_insert pk uk mk T = (res, T')" and "\<And>n. env (mk n) \<in> E"
  shows "outside env E T' = outside env E T"
  using assms by (auto simp: table_insert_def Let_def outside_def split: if_splits)

lemma outside_delete:
  assumes "table_delete P T = (n, T')" and "\<And>r. r \<in> set (rows T) \<Longrightarrow> P r \<Longrightarrow> env r \<in> E"
  shows "outside env E T' = outside env E T"
proof -
  have "filter (\<lambda>r. \<not> P r \<and> env r \<notin> E) (rows T) = filter (\<lambda>r. env r \<notin> E) (rows T)"
    using assms(2) by (intro filter_cong) auto
  then show ?thesis using assms(1) by (auto simp: table_delete_def outside_def)
qed

lemma outside_seq: "outside env E (T\<lparr>seq := n\<rparr>) = outside env E T"
  by (simp add: outside_def)

text \<open>
  Whether the row of an id may be written is settled by the rows outside the scope, so it stays settled
  while those do not change.
\<close>

definition writable :: "('r \<Rightarrow> int) \<Rightarrow> ('r \<Rightarrow> int) \<Rightarrow> int set \<Rightarrow> 'r table \<Rightarrow> int \<Rightarrow> bool" where
  "writable pk env E T i \<longleftrightarrow> (\<forall>r \<in> set (outside env E T). pk r \<noteq> i)"

lemma writableD: "writable pk env E T i \<Longrightarrow> r \<in> set (rows T) \<Longrightarrow> pk r = i \<Longrightarrow> env r \<in> E"
  by (auto simp: writable_def outside_def)

lemma writable_same: "outside env E T = outside env E T' \<Longrightarrow> writable pk env E T i \<longleftrightarrow> writable pk env E T' i"
  by (simp add: writable_def)

lemma writable_lookup:
  assumes "distinct (map pk (rows T))" and "map_of (map (\<lambda>r. (pk r, env r)) (rows T)) i = Some e" and "e \<in> E"
  shows "writable pk env E T i"
proof -
  have "env r = e" if "r \<in> set (rows T)" "pk r = i" for r
  proof -
    have "map_of (map (\<lambda>r. (pk r, env r)) (rows T)) (pk r) = Some (env r)"
      using assms(1) that(1) by (intro map_of_is_SomeI) (auto simp: comp_def)
    then show ?thesis using assms(2) that(2) by simp
  qed
  then show ?thesis using assms(3) by (auto simp: writable_def outside_def)
qed

section \<open>Statements inside a scope\<close>

lemma keeps_untouched:
  assumes "keeps wf_tables st" and "\<And>now t. untouched E t0 t \<Longrightarrow> frame E t (snd (st now t))"
  shows "keeps (untouched E t0) st"
  using assms frame_trans by (fastforce simp: keeps_def untouched_def)

lemma untouched_writable:
  assumes "untouched E t0 t"
  shows "writable fv_ID fv_EnvironmentID E (flag_values t) i \<longleftrightarrow> writable fv_ID fv_EnvironmentID E (flag_values t0) i"
    and "writable as_ID as_EnvironmentID E (appsettings t) i \<longleftrightarrow> writable as_ID as_EnvironmentID E (appsettings t0) i"
    and "writable loc_ID loc_EnvironmentID E (localizations t) i \<longleftrightarrow> writable loc_ID loc_EnvironmentID E (localizations t0) i"
  using assms by (simp_all add: untouched_def frame_def writable_def)

lemma update_fv_scope:
  assumes "writable fv_ID fv_EnvironmentID E (flag_values t0) (fv_ID v)"
  shows "keeps (untouched E t0) (update_fv_stmt v)"
proof (rule keeps_untouched)
  show "keeps wf_tables (update_fv_stmt v)" by (simp add: wf_flags.update)
  fix now t assume t: "untouched E t0 t"
  have w: "writable fv_ID fv_EnvironmentID E (flag_values t) (fv_ID v)" using assms untouched_writable(1) [OF t] by simp
  obtain res T where T: "table_update fv_key (fv_matches v) (fv_write v now) (flag_values t) = (res, T)" by fastforce
  have "outside fv_EnvironmentID E T = outside fv_EnvironmentID E (flag_values t)"
    by (rule outside_update [OF T]) (use writableD [OF w] in \<open>auto simp: fv_matches_def fv_write_def\<close>)
  then show "frame E t (snd (update_fv_stmt v now t))" using T by (simp add: update_fv_stmt_def frame_def)
qed

lemma update_as_scope:
  assumes "writable as_ID as_EnvironmentID E (appsettings t0) (as_ID v)" and "as_EnvironmentID v \<in> E"
  shows "keeps (untouched E t0) (update_as_stmt v)"
proof (rule keeps_untouched)
  show "keeps wf_tables (update_as_stmt v)" by (simp add: wf_settings.update)
  fix now t assume t: "untouched E t0 t"
  have w: "writable as_ID as_EnvironmentID E (appsettings t) (as_ID v)" using assms(1) untouched_writable(2) [OF t] by simp
  obtain res T where T: "table_update as_key (as_matches v) (as_write v now) (appsettings t) = (res, T)" by fastforce
  have "outside as_EnvironmentID E T = outside as_EnvironmentID E (appsettings t)"
    by (rule outside_update [OF T]) (use writableD [OF w] assms(2) in \<open>auto simp: as_matches_def as_write_def\<close>)
  then show "frame E t (snd (update_as_stmt v now t))" using T
    by (cases res) (simp_all add: update_as_stmt_def frame_def)
qed

lemma update_loc_scope:
  assumes "writable loc_ID loc_EnvironmentID E (localizations t0) (loc_ID v)" and "loc_EnvironmentID v \<in> E"
  shows "keeps (untouched E t0) (update_loc_stmt v)"
proof (rule keeps_untouched)
  show "keeps wf_tables (update_loc_stmt v)" by (simp add: wf_loc.update)
  fix now t assume t: "untouched E t0 t"
  have w: "writable loc_ID loc_EnvironmentID E (localizations t) (loc_ID v)" using assms(1) untouched_writable(3) [OF t] by simp
  obtain res T where T: "table_update loc_key (loc_matches v) (loc_write v now) (localizations t) = (res, T)" by fastforce
  have "outside loc_EnvironmentID E T = outside loc_EnvironmentID E (localizations t)"
    by (rule outside_update [OF T]) (use writableD [OF w] assms(2) in \<open>auto simp: loc_matches_def loc_write_def\<close>)
  then show "frame E t (snd (update_loc_stmt v now t))" using T
    by (cases res) (simp_all add: update_loc_stmt_def frame_def)
qed

lemma insert_fv_scope:
  assumes "fv_EnvironmentID v \<in> E"
  shows "keeps (untouched E t0) (insert_fv_stmt v)"
proof (rule keeps_untouched)
  show "keeps wf_tables (insert_fv_stmt v)" by (simp add: wf_flags.insert_value)
  fix now and t :: tables
  let ?mk = "\<lambda>n. \<lparr>fv_ID = n, fv_EnvironmentID = fv_EnvironmentID v, fv_FlagId = fv_FlagId v,
    fv_Value = fv_Value v, fv_Enabled = fv_Enabled v, fv_UpdatedAt = now, fv_ExpectedUpdatedAt = None\<rparr>"
  obtain res T where T: "table_insert fv_ID fv_key ?mk (flag_values t) = (res, T)" by fastforce
  have "outside fv_EnvironmentID E T = outside fv_EnvironmentID E (flag_values t)"
    by (rule outside_insert [OF T]) (simp add: assms)
  then show "frame E t (snd (insert_fv_stmt v now t))" using T
    by (cases res) (simp_all add: insert_fv_stmt_def frame_def outside_seq)
qed

lemma insert_as_scope:
  assumes "as_EnvironmentID v \<in> E"
  shows "keeps (untouched E t0) (insert_as_stmt v)"
proof (rule keeps_untouched)
  show "keeps wf_tables (insert_as_stmt v)" by (simp add: wf_settings.insert)
  fix now and t :: tables
  let ?mk = "\<lambda>n. \<lparr>as_ID = n, as_MicroserviceID = as_MicroserviceID v, as_EnvironmentID = as_EnvironmentID v,
    as_SettingsJSON = as_SettingsJSON v, as_UpdatedAt = now, as_ExpectedUpdatedAt = None\<rparr>"
  obtain res T where T: "table_insert as_ID as_key ?mk (appsettings t) = (res, T)" by fastforce
  have "outside as_EnvironmentID E T = outside as_EnvironmentID E (appsettings t)"
    by (rule outside_insert [OF T]) (simp add: assms)
  then show "frame E t (snd (insert_as_stmt v now t))" using T
    by (cases res) (simp_all add: insert_as_stmt_def frame_def outside_seq)
qed

lemma insert_loc_scope:
  assumes "loc_EnvironmentID v \<in> E"
  shows "keeps (untouched E t0) (insert_loc_stmt v)"
proof (rule keeps_untouched)
  show "keeps wf_tables (insert_loc_stmt v)" by (simp add: wf_loc.insert)
  fix now and t :: tables
  let ?mk = "\<lambda>n. \<lparr>loc_ID = n, loc_MicroserviceID = loc_MicroserviceID v, loc_EnvironmentID = loc_EnvironmentID v,
    loc_Locale = loc_Locale v, loc_BundleJSON = loc_BundleJSON v, loc_UpdatedAt = now, loc_ExpectedUpdatedAt = None\<rparr>"
  obtain res T where T: "table_insert loc_ID loc_key ?mk (localizations t) = (res, T)" by fastforce
  have "outside loc_EnvironmentID E T = outside loc_EnvironmentID E (localizations t)"
    by (rule outside_insert [OF T]) (simp add: assms)
  then show "frame E t (snd (insert_loc_stmt v now t))" using T
    by (cases res) (simp_all add: insert_loc_stmt_def frame_def outside_seq)
qed

lemma insert_flag_scope: "keeps (untouched E t0) (insert_flag_stmt f)"
  by (rule keeps_untouched)
    (auto simp: wf_flags.insert_flag insert_flag_stmt_def frame_def table_insert_def Let_def split: prod.splits)

lemma insert_ms_scope: "keeps (untouched E t0) (insert_ms_stmt name)"
  by (rule keeps_untouched)
    (auto simp: wf_settings.insert_ms insert_ms_stmt_def frame_def table_insert_def Let_def split: prod.splits)

lemma delete_fv_scope:
  assumes "writable fv_ID fv_EnvironmentID E (flag_values t0) i"
  shows "keeps (untouched E t0) (delete_fv_stmt i)"
proof (rule keeps_untouched)
  show "keeps wf_tables (delete_fv_stmt i)" by (simp add: wf_flags.delete_value)
  fix now t assume t: "untouched E t0 t"
  have w: "writable fv_ID fv_EnvironmentID E (flag_values t) i" using assms untouched_writable(1) [OF t] by simp
  obtain n T where T: "table_delete (\<lambda>r. fv_ID r = i) (flag_values t) = (n, T)" by fastforce
  have "outside fv_EnvironmentID E T = outside fv_EnvironmentID E (flag_values t)"
    by (rule outside_delete [OF T]) (rule writableD [OF w])
  then show "frame E t (snd (delete_fv_stmt i now t))" using T by (simp add: delete_fv_stmt_def frame_def)
qed

lemma delete_as_scope:
  assumes "writable as_ID as_EnvironmentID E (appsettings t0) i"
  shows "keeps (untouched E t0) (delete_as_stmt i)"
proof (rule keeps_untouched)
  show "keeps wf_tables (delete_as_stmt i)" by (simp add: wf_settings.delete)
  fix now t assume t: "untouched E t0 t"
  have w: "writable as_ID as_EnvironmentID E (appsettings t) i" using assms untouched_writable(2) [OF t] by simp
  obtain n T where T: "table_delete (\<lambda>r. as_ID r = i) (appsettings t) = (n, T)" by fastforce
  have "outside as_EnvironmentID E T = outside as_EnvironmentID E (appsettings t)"
    by (rule outside_delete [OF T]) (rule writableD [OF w])
  then show "frame E t (snd (delete_as_stmt i now t))" using T by (simp add: delete_as_stmt_def frame_def)
qed

lemma delete_loc_scope:
  assumes "writable loc_ID loc_EnvironmentID E (localizations t0) i"
  shows "keeps (untouched E t0) (delete_loc_stmt i)"
proof (rule keeps_untouched)
  show "keeps wf_tables (delete_loc_stmt i)" by (simp add: wf_loc.delete)
  fix now t assume t: "untouched E t0 t"
  have w: "writable loc_ID loc_EnvironmentID E (localizations t) i" using assms untouched_writable(3) [OF t] by simp
  obtain n T where T: "table_delete (\<lambda>r. loc_ID r = i) (localizations t) = (n, T)" by fastforce
  have "outside loc_EnvironmentID E T = outside loc_EnvironmentID E (localizations t)"
    by (rule outside_delete [OF T]) (rule writableD [OF w])
  then show "frame E t (snd (delete_loc_stmt i now t))" using T by (simp add: delete_loc_stmt_def frame_def)
qed

lemma delete_env_scope:
  assumes "i \<in> E"
  shows "keeps (untouched E t0) (delete_env_stmt i)"
proof (rule keeps_untouched)
  show "keeps wf_tables (delete_env_stmt i)" by (simp add: wf_settings.delete_env)
  fix now and t :: tables
  obtain n T where T: "table_delete (\<lambda>r. env_ID r = i) (environments t) = (n, T)" by fastforce
  have "outside env_ID E T = outside env_ID E (environments t)"
    by (rule outside_delete [OF T]) (simp add: assms)
  then show "frame E t (snd (delete_env_stmt i now t))" using T by (simp add: delete_env_stmt_def frame_def)
qed

end
