(* ===== verification/Go_Json_Local.thy ===== *)
theory Go_Json_Local
  imports Go_Json_Rows
begin

text \<open>
  Scanning is local: what the scanner takes of a text is a value by itself, and stays one whatever follows
  it, as long as a number is not followed by something that continues it. So the first value of a stream,
  the value an array or an object holds, and a whole body are read the same way.
\<close>

section \<open>White space and strings\<close>

lemma skip_ws_split: "\<exists>w. s = w @ skip_ws s \<and> list_all is_ws w"
  unfolding skip_ws_def by (metis takeWhile_dropWhile_id list_all_iff set_takeWhileD)

lemma skip_ws_over: "list_all is_ws w \<Longrightarrow> \<not> is_ws c \<Longrightarrow> skip_ws (w @ c # q) = c # q"
  unfolding skip_ws_def by (induction w) auto

lemma skip_ws_head: "skip_ws s = c # t \<Longrightarrow> \<not> is_ws c"
  unfolding skip_ws_def by (metis dropWhile_eq_Cons_conv)

lemma skip_ws_all: "list_all is_ws w \<Longrightarrow> skip_ws w = []"
  unfolding skip_ws_def by (induction w) auto

lemma skip_ws_idem [simp]: "skip_ws (skip_ws s) = skip_ws s"
  unfolding skip_ws_def by (rule dropWhile_idem)

lemma scan_str_local: "scan_str s = Some (k, t) \<Longrightarrow> s = k @ quote # t \<and> scan_str (k @ quote # q) = Some (k, q)"
proof (induction s arbitrary: k t rule: scan_str.induct)
  case 1
  then show ?case by simp
next
  case (2 c s)
  show ?case
  proof (cases "c = quote")
    case True
    then show ?thesis using 2 by simp
  next
    case nq: False
    show ?thesis
    proof (cases "c = backslash")
      case True
      then obtain e s1 where s: "s = e # s1" using 2(4) nq by (cases s) auto
      show ?thesis
      proof (cases "e = CHR ''u''")
        case u: True
        then obtain a b x d s2 where s1: "s1 = a # b # x # d # s2" "hex4 [a, b, x, d] \<noteq> None"
          using 2(4) True nq s by (auto split: list.splits if_splits)
        then obtain r where r: "scan_str s2 = Some (r, t)" "k = c # e # a # b # x # d # r"
          using 2(4) True nq s u by (auto split: if_splits)
        show ?thesis using 2(1) [OF nq True s u s1(1)] r s1 True nq s u by auto
      next
        case False
        then obtain r where "scan_str s1 = Some (r, t)" "k = c # e # r" "simple_escape e \<noteq> None"
          using 2(4) True nq s by (auto split: if_splits)
        then show ?thesis using 2(2) [OF nq True s False] True nq s False by auto
      qed
    next
      case False
      then obtain r where "scan_str s = Some (r, t)" "k = c # r" "\<not> (of_char c :: nat) < 32"
        using 2(4) nq by (auto split: if_splits)
      then show ?thesis using 2(3) [OF nq False] nq False by auto
    qed
  qed
qed

section \<open>Numbers\<close>

definition after_frac :: "string \<Rightarrow> bool" where
  "after_frac q \<longleftrightarrow> (case q of [] \<Rightarrow> True | c # _ \<Rightarrow> \<not> is_digit c \<and> c \<noteq> CHR ''.'')"

definition after_exp :: "string \<Rightarrow> bool" where
  "after_exp q \<longleftrightarrow> (case q of [] \<Rightarrow> True | c # _ \<Rightarrow> \<not> is_digit c \<and> c \<noteq> CHR ''e'' \<and> c \<noteq> CHR ''E'')"

definition after_number :: "string \<Rightarrow> bool" where
  "after_number q \<longleftrightarrow> after_frac q \<and> after_exp q"

lemma drop_digits_local:
  "\<exists>ds. s = ds @ dropWhile is_digit s \<and>
    (\<forall>q. (case q of [] \<Rightarrow> True | c # _ \<Rightarrow> \<not> is_digit c) \<longrightarrow> dropWhile is_digit (ds @ q) = q)"
proof (induction s)
  case Nil
  show ?case by (rule exI [of _ "[]"]) (auto split: list.splits)
next
  case (Cons c s)
  show ?case
  proof (cases "is_digit c")
    case True
    obtain ds where "s = ds @ dropWhile is_digit s"
      "\<forall>q. (case q of [] \<Rightarrow> True | c # _ \<Rightarrow> \<not> is_digit c) \<longrightarrow> dropWhile is_digit (ds @ q) = q"
      using Cons.IH by blast
    then show ?thesis using True by (intro exI [of _ "c # ds"]) simp
  next
    case False
    then show ?thesis by (intro exI [of _ "[]"]) (auto split: list.splits)
  qed
qed

lemma scan_digits1_local:
  assumes "scan_digits1 s = Some t"
  shows "\<exists>v. s = v @ t \<and> v \<noteq> [] \<and> is_digit (hd v) \<and>
    (\<forall>q. (case q of [] \<Rightarrow> True | c # _ \<Rightarrow> \<not> is_digit c) \<longrightarrow> scan_digits1 (v @ q) = Some q)"
proof -
  obtain c s' where s: "s = c # s'" "is_digit c" "t = dropWhile is_digit s'"
    using assms by (auto simp: scan_digits1_def split: list.splits if_splits)
  obtain ds where "s' = ds @ t" "\<forall>q. (case q of [] \<Rightarrow> True | c # _ \<Rightarrow> \<not> is_digit c) \<longrightarrow> dropWhile is_digit (ds @ q) = q"
    using drop_digits_local [of s'] s(3) by auto
  then show ?thesis using s(1,2) by (intro exI [of _ "c # ds"]) (auto simp: scan_digits1_def)
qed

lemma scan_frac_local:
  assumes "scan_frac s = Some t"
  shows "\<exists>v. s = v @ t \<and> (v = [] \<or> hd v = CHR ''.'') \<and> (\<forall>q. after_frac q \<longrightarrow> scan_frac (v @ q) = Some q)"
proof (cases "s \<noteq> [] \<and> hd s = CHR ''.''")
  case True
  then obtain s' where s: "s = CHR ''.'' # s'" by (cases s) auto
  then obtain v where "s' = v @ t" "\<forall>q. (case q of [] \<Rightarrow> True | c # _ \<Rightarrow> \<not> is_digit c) \<longrightarrow> scan_digits1 (v @ q) = Some q"
    using assms scan_digits1_local [of s' t] by (auto simp: scan_frac_def)
  then show ?thesis using s
    by (intro exI [of _ "CHR ''.'' # v"]) (auto simp: scan_frac_def after_frac_def split: list.splits)
next
  case False
  then have "t = s" using assms by (cases s) (auto simp: scan_frac_def)
  then show ?thesis by (intro exI [of _ "[]"]) (auto simp: scan_frac_def after_frac_def split: list.splits)
qed

lemma scan_exp_local:
  assumes "scan_exp s = Some t"
  shows "\<exists>v. s = v @ t \<and> (v = [] \<or> hd v = CHR ''e'' \<or> hd v = CHR ''E'') \<and>
    (\<forall>q. after_exp q \<longrightarrow> scan_exp (v @ q) = Some q)"
proof (cases "s \<noteq> [] \<and> (hd s = CHR ''e'' \<or> hd s = CHR ''E'')")
  case True
  then obtain e s' where s: "s = e # s'" "e = CHR ''e'' \<or> e = CHR ''E''" by (cases s) auto
  then obtain d u where s': "s' = d # u" using assms by (cases s') (auto simp: scan_exp_def)
  have stop: "after_exp q \<Longrightarrow> (case q of [] \<Rightarrow> True | c # _ \<Rightarrow> \<not> is_digit c)" for q
    by (auto simp: after_exp_def split: list.splits)
  show ?thesis
  proof (cases "d = CHR ''+'' \<or> d = CHR ''-''")
    case sign: True
    then obtain v where "u = v @ t" "\<forall>q. (case q of [] \<Rightarrow> True | c # _ \<Rightarrow> \<not> is_digit c) \<longrightarrow> scan_digits1 (v @ q) = Some q"
      using assms s s' scan_digits1_local [of u t] by (auto simp: scan_exp_def)
    then show ?thesis using s s' sign stop
      by (intro exI [of _ "e # d # v"]) (auto simp: scan_exp_def)
  next
    case False
    then obtain v where v: "s' = v @ t" "v \<noteq> []" "\<forall>q. (case q of [] \<Rightarrow> True | c # _ \<Rightarrow> \<not> is_digit c) \<longrightarrow> scan_digits1 (v @ q) = Some q"
      using assms s s' scan_digits1_local [of s' t] by (auto simp: scan_exp_def)
    then obtain v' where "v = d # v'" using s' by (cases v) auto
    then show ?thesis using s v False stop
      by (intro exI [of _ "e # v"]) (auto simp: scan_exp_def)
  qed
next
  case False
  then have "t = s" using assms by (cases s) (auto simp: scan_exp_def)
  then show ?thesis by (intro exI [of _ "[]"]) (auto simp: scan_exp_def after_exp_def split: list.splits)
qed

lemma scan_tail_local:
  assumes "Option.bind (scan_frac s) scan_exp = Some t"
  shows "\<exists>v. s = v @ t \<and> (v = [] \<or> \<not> is_digit (hd v)) \<and>
    (\<forall>q. after_number q \<longrightarrow> Option.bind (scan_frac (v @ q)) scan_exp = Some q)"
proof -
  obtain t1 where t1: "scan_frac s = Some t1" "scan_exp t1 = Some t" using assms by (cases "scan_frac s") auto
  obtain v1 where v1: "s = v1 @ t1" "v1 = [] \<or> hd v1 = CHR ''.''"
    "\<And>q. after_frac q \<Longrightarrow> scan_frac (v1 @ q) = Some q" using scan_frac_local [OF t1(1)] by blast
  obtain v2 where v2: "t1 = v2 @ t" "v2 = [] \<or> hd v2 = CHR ''e'' \<or> hd v2 = CHR ''E''"
    "\<And>q. after_exp q \<Longrightarrow> scan_exp (v2 @ q) = Some q" using scan_exp_local [OF t1(2)] by blast
  have nd: "\<not> is_digit (CHR ''.'')" "\<not> is_digit (CHR ''e'')" "\<not> is_digit (CHR ''E'')"
    by (simp_all add: is_digit_def digit_val_def)
  have "after_frac (v2 @ q)" if "after_number q" for q
    using v2(2) that nd by (cases v2) (auto simp: after_number_def after_frac_def)
  then have "Option.bind (scan_frac ((v1 @ v2) @ q)) scan_exp = Some q" if "after_number q" for q
    using v1(3) [of "v2 @ q"] v2(3) [of q] that by (simp add: after_number_def)
  moreover have "v1 @ v2 = [] \<or> \<not> is_digit (hd (v1 @ v2))"
    using v1(2) v2(2) nd by (cases v1; cases v2) auto
  ultimately show ?thesis using v1(1) v2(1) by (intro exI [of _ "v1 @ v2"]) auto
qed

lemma scan_number_cases:
  assumes "scan_number s = Some t"
  obtains neg c r where "s = neg @ c # r" "neg = ''-'' \<or> neg = [] \<and> c \<noteq> CHR ''-''"
    "c = CHR ''0'' \<or> is_digit c" "t \<in> set_option (if c = CHR ''0'' then Option.bind (scan_frac r) scan_exp
      else Option.bind (scan_frac (dropWhile is_digit r)) scan_exp)"
proof (cases s)
  case Nil
  then show ?thesis using assms by (simp add: scan_number_def)
next
  case (Cons a s')
  show ?thesis
  proof (cases "a = CHR ''-''")
    case True
    then obtain c r where "s' = c # r" using assms Cons by (cases s') (auto simp: scan_number_def)
    then show ?thesis using assms Cons True that [of "''-''" c r]
      by (simp add: scan_number_def split: if_splits)
  next
    case False
    then show ?thesis using assms Cons that [of "[]" a s']
      by (simp add: scan_number_def split: if_splits)
  qed
qed

lemma scan_number_zero:
  "neg = ''-'' \<or> neg = [] \<Longrightarrow> scan_number (neg @ CHR ''0'' # r) = Option.bind (scan_frac r) scan_exp"
  by (auto simp: scan_number_def)

lemma scan_number_digit:
  "neg = ''-'' \<or> neg = [] \<and> c \<noteq> CHR ''-'' \<Longrightarrow> is_digit c \<Longrightarrow> c \<noteq> CHR ''0'' \<Longrightarrow>
    scan_number (neg @ c # r) = Option.bind (scan_frac (dropWhile is_digit r)) scan_exp"
  by (auto simp: scan_number_def)

lemma digit_not_sign: "is_digit c \<Longrightarrow> c \<noteq> CHR ''-''"
  by (auto simp: is_digit_def digit_val_def)

lemma scan_number_local:
  assumes "scan_number s = Some t"
  shows "\<exists>v. s = v @ t \<and> v \<noteq> [] \<and> (\<forall>q. after_number q \<longrightarrow> scan_number (v @ q) = Some q)"
proof -
  obtain neg c r where s: "s = neg @ c # r" and neg: "neg = ''-'' \<or> neg = [] \<and> c \<noteq> CHR ''-''"
    and c: "c = CHR ''0'' \<or> is_digit c" and t: "t \<in> set_option (if c = CHR ''0'' then Option.bind (scan_frac r) scan_exp
      else Option.bind (scan_frac (dropWhile is_digit r)) scan_exp)"
    using scan_number_cases [OF assms] by metis
  have neg': "neg = ''-'' \<or> neg = []" using neg by blast
  show ?thesis
  proof (cases "c = CHR ''0''")
    case True
    then obtain v where v: "r = v @ t" "\<And>q. after_number q \<Longrightarrow> Option.bind (scan_frac (v @ q)) scan_exp = Some q"
      using t scan_tail_local [of r t] by auto
    then show ?thesis using s True
      by (intro exI [of _ "neg @ c # v"]) (simp add: scan_number_zero [OF neg'])
  next
    case False
    then have d: "is_digit c" using c by simp
    obtain ds where ds: "r = ds @ dropWhile is_digit r"
      "\<And>q. (case q of [] \<Rightarrow> True | c # _ \<Rightarrow> \<not> is_digit c) \<Longrightarrow> dropWhile is_digit (ds @ q) = q"
      using drop_digits_local [of r] by blast
    obtain v where v: "dropWhile is_digit r = v @ t" "v = [] \<or> \<not> is_digit (hd v)"
      "\<And>q. after_number q \<Longrightarrow> Option.bind (scan_frac (v @ q)) scan_exp = Some q"
      using t False scan_tail_local [of "dropWhile is_digit r" t] by auto
    have "dropWhile is_digit (ds @ v @ q) = v @ q" if "after_number q" for q
      using v(2) that by (intro ds(2)) (cases v; auto simp: after_number_def after_frac_def split: list.splits)
    then have "scan_number (neg @ c # ds @ v @ q) = Some q" if "after_number q" for q
      using scan_number_digit [OF neg d False, of "ds @ v @ q"] v(3) that by simp
    moreover have "s = (neg @ c # ds @ v) @ t" using s ds(1) v(1) by simp
    ultimately show ?thesis by (intro exI [of _ "neg @ c # ds @ v"]) simp
  qed
qed

section \<open>Values\<close>

definition number_start :: "char \<Rightarrow> bool" where
  "number_start c \<longleftrightarrow> is_digit c \<or> c = CHR ''-''"

lemma skip_ws_at:
  assumes "skip_ws u = v @ t" and "v \<noteq> []"
  shows "\<exists>w. u = w @ v @ t \<and> (\<forall>q. skip_ws (w @ v @ q) = v @ q) \<and> list_all is_ws w"
proof -
  obtain w where w: "u = w @ skip_ws u" "list_all is_ws w" using skip_ws_split by blast
  obtain c v' where v: "v = c # v'" using assms(2) by (cases v) auto
  have "\<not> is_ws c" using skip_ws_head [of u c "v' @ t"] assms(1) v by simp
  then have "skip_ws (w @ v @ q) = v @ q" for q using skip_ws_over [OF w(2)] v by simp
  then show ?thesis using w assms(1) by (intro exI [of _ w]) simp
qed

lemma skip_ws_char:
  assumes "skip_ws u = e # t"
  shows "\<exists>w. u = w @ e # t \<and> (\<forall>q. skip_ws (w @ e # q) = e # q) \<and> list_all is_ws w"
  using skip_ws_at [of u "[e]" t] assms by simp

lemma after_number_punct:
  "list_all is_ws w \<Longrightarrow> e = CHR '','' \<or> e = CHR '']'' \<or> e = CHR ''}'' \<Longrightarrow> after_number (w @ e # q)"
  by (cases w) (auto simp: after_number_def after_frac_def after_exp_def is_ws_def is_digit_def digit_val_def)

lemma scan_number_start: "scan_number (c # s) = Some t \<Longrightarrow> number_start c"
  by (auto simp: scan_number_def number_start_def is_digit_def digit_val_def split: if_splits)

lemma number_start_facts:
  assumes "number_start c"
  shows "c \<noteq> CHR ''{''" "c \<noteq> CHR ''[''" "c \<noteq> quote" "c \<noteq> CHR ''t''" "c \<noteq> CHR ''f''" "c \<noteq> CHR ''n''"
  using assms by (auto simp: number_start_def is_digit_def digit_val_def quote_def)

lemma HasPrefix_drop: "HasPrefix (c # s) (c' # p) \<longleftrightarrow> c = c' \<and> (\<exists>r. s = p @ r)"
  by (auto simp: HasPrefix_iff)

lemma scan_word:
  assumes "w \<in> {''true'', ''false'', ''null''}"
  shows "scan_value (Suc n) d (w @ q) = Some q"
  using assms by (auto simp: HasPrefix_drop quote_def)

lemma scan_value_number:
  "number_start c \<Longrightarrow> scan_value (Suc n) d (c # s) = scan_number (c # s)"
  using number_start_facts [of c] by (simp add: HasPrefix_drop)

text \<open>How a value can start.\<close>

lemma scan_value_cases:
  assumes "scan_value (Suc n) d s = Some t"
  obtains (object) s1 where "s = CHR ''{'' # s1" "d \<noteq> 0"
  | (array) s1 where "s = CHR ''['' # s1" "d \<noteq> 0"
  | (string) s1 k where "s = quote # s1" "scan_str s1 = Some (k, t)"
  | (const) w where "w \<in> {''true'', ''false'', ''null''}" "s = w @ t"
  | (number) c s1 where "s = c # s1" "number_start c" "scan_number s = Some t"
proof (cases s)
  case Nil
  then show ?thesis using assms by simp
next
  case (Cons c s1)
  consider "c = CHR ''{''" | "c = CHR ''[''" | "c = quote"
    | "HasPrefix s ''true'' \<or> HasPrefix s ''false'' \<or> HasPrefix s ''null''"
    | "c \<noteq> CHR ''{''" "c \<noteq> CHR ''[''" "c \<noteq> quote"
      "\<not> (HasPrefix s ''true'' \<or> HasPrefix s ''false'' \<or> HasPrefix s ''null'')" by blast
  then show ?thesis
  proof cases
    case 1
    then show ?thesis using assms Cons object [of s1] by (simp split: if_splits)
  next
    case 2
    then show ?thesis using assms Cons array [of s1] by (simp split: if_splits)
  next
    case 3
    then show ?thesis using assms Cons string [of s1] by (auto simp: quote_def)
  next
    case 4
    then obtain w where "w \<in> {''true'', ''false'', ''null''}" "HasPrefix s w" by blast
    then obtain r where w: "w \<in> {''true'', ''false'', ''null''}" "s = w @ r" by (auto simp: HasPrefix_iff)
    then have "t = r" using assms scan_word [of w n d r] by simp
    then show ?thesis using w const by blast
  next
    case 5
    then have "scan_number s = Some t" using assms Cons by simp
    then show ?thesis using Cons scan_number_start number by blast
  qed
qed

text \<open>What a scanner takes, alone and with anything after it.\<close>

definition alone :: "(string \<Rightarrow> string option) \<Rightarrow> bool \<Rightarrow> string \<Rightarrow> string \<Rightarrow> bool" where
  "alone scan numbers s t \<longleftrightarrow> (\<exists>v. s = v @ t \<and> v \<noteq> [] \<and>
     (\<forall>q. (numbers \<longrightarrow> after_number q \<or> \<not> number_start (hd v)) \<longrightarrow> scan (v @ q) = Some q))"

lemma aloneI:
  assumes "s = v @ t" and "v \<noteq> []"
    and "\<And>q. (numbers \<longrightarrow> after_number q \<or> \<not> number_start (hd v)) \<Longrightarrow> scan (v @ q) = Some q"
  shows "alone scan numbers s t"
  using assms unfolding alone_def by blast

lemma value_step_local:
  assumes val: "scan_value (Suc n) d s = Some t"
    and elems: "\<And>d s t. scan_elems n d s = Some t \<Longrightarrow> alone (scan_elems n d) False s t"
    and members: "\<And>d s t. scan_members n d s = Some t \<Longrightarrow> alone (scan_members n d) False s t"
  shows "alone (scan_value (Suc n) d) True s t"
  using val
proof (cases rule: scan_value_cases)
  case (object s1)
  then obtain e r where r: "skip_ws s1 = e # r" using val by (auto split: list.splits)
  show ?thesis
  proof (cases "e = CHR ''}''")
    case True
    then have t: "t = r" using val object r by simp
    obtain w where "s1 = w @ e # r" "\<And>q. skip_ws (w @ e # q) = e # q" using skip_ws_char [OF r] by blast
    then show ?thesis using object True t by (intro aloneI [of _ "CHR ''{'' # w @ [e]"]) auto
  next
    case False
    then have "scan_members n (d - 1) (skip_ws s1) = Some t" using val object r by simp
    then obtain v where v: "skip_ws s1 = v @ t" "v \<noteq> []" "\<And>q. scan_members n (d - 1) (v @ q) = Some q"
      using members unfolding alone_def by blast
    obtain w where w: "s1 = w @ v @ t" "\<And>q. skip_ws (w @ v @ q) = v @ q" using skip_ws_at [OF v(1,2)] by blast
    obtain v' where "v = e # v'" using v(1,2) r by (cases v) auto
    then show ?thesis using object False v w by (intro aloneI [of _ "CHR ''{'' # w @ v"]) auto
  qed
next
  case (array s1)
  then obtain e r where r: "skip_ws s1 = e # r" using val by (auto split: list.splits)
  show ?thesis
  proof (cases "e = CHR '']''")
    case True
    then have t: "t = r" using val array r by simp
    obtain w where "s1 = w @ e # r" "\<And>q. skip_ws (w @ e # q) = e # q" using skip_ws_char [OF r] by blast
    then show ?thesis using array True t by (intro aloneI [of _ "CHR ''['' # w @ [e]"]) auto
  next
    case False
    then have "scan_elems n (d - 1) (skip_ws s1) = Some t" using val array r by simp
    then obtain v where v: "skip_ws s1 = v @ t" "v \<noteq> []" "\<And>q. scan_elems n (d - 1) (v @ q) = Some q"
      using elems unfolding alone_def by blast
    obtain w where w: "s1 = w @ v @ t" "\<And>q. skip_ws (w @ v @ q) = v @ q" using skip_ws_at [OF v(1,2)] by blast
    obtain v' where "v = e # v'" using v(1,2) r by (cases v) auto
    then show ?thesis using array False v w by (intro aloneI [of _ "CHR ''['' # w @ v"]) auto
  qed
next
  case (string s1 k)
  then show ?thesis using scan_str_local [OF string(2)]
    by (intro aloneI [of _ "quote # k @ [quote]"]) (auto simp: quote_def)
next
  case (const w)
  then show ?thesis using scan_word by (intro aloneI [of _ w]) auto
next
  case (number c s1)
  obtain v where v: "s = v @ t" "v \<noteq> []" "\<And>q. after_number q \<Longrightarrow> scan_number (v @ q) = Some q"
    using scan_number_local [OF number(3)] by blast
  obtain v' where v': "v = c # v'" using v number(1) by (cases v) auto
  show ?thesis using v v' number(2) scan_value_number [OF number(2)] by (intro aloneI [of _ v]) auto
qed

lemma elems_step_local:
  assumes scan: "scan_elems (Suc n) d s = Some t"
    and val: "\<And>d s t. scan_value n d s = Some t \<Longrightarrow> alone (scan_value n d) True s t"
    and elems: "\<And>d s t. scan_elems n d s = Some t \<Longrightarrow> alone (scan_elems n d) False s t"
  shows "alone (scan_elems (Suc n) d) False s t"
proof -
  obtain t1 e u where t1: "scan_value n d s = Some t1" "skip_ws t1 = e # u" "e = CHR '']'' \<or> e = CHR '',''"
    using scan by (auto split: option.splits list.splits if_splits)
  obtain v1 where v1: "s = v1 @ t1" "v1 \<noteq> []" "\<And>q. after_number q \<Longrightarrow> scan_value n d (v1 @ q) = Some q"
    using val [OF t1(1)] unfolding alone_def by blast
  obtain w where w: "t1 = w @ e # u" "\<And>q. skip_ws (w @ e # q) = e # q" "list_all is_ws w"
    using skip_ws_char [OF t1(2)] by blast
  have first: "scan_value n d (v1 @ w @ e # q) = Some (w @ e # q)" for q
    using v1(3) after_number_punct [OF w(3)] t1(3) by blast
  show ?thesis
  proof (cases "e = CHR '']''")
    case True
    then have "t = u" using scan t1 by simp
    then show ?thesis using v1(1,2) w first True by (intro aloneI [of _ "v1 @ w @ [e]"]) auto
  next
    case False
    then have e: "e = CHR '',''" using t1(3) by simp
    then have "scan_elems n d (skip_ws u) = Some t" using scan t1 by simp
    then obtain v2 where v2: "skip_ws u = v2 @ t" "v2 \<noteq> []" "\<And>q. scan_elems n d (v2 @ q) = Some q"
      using elems unfolding alone_def by blast
    obtain w2 where "u = w2 @ v2 @ t" "\<And>q. skip_ws (w2 @ v2 @ q) = v2 @ q" using skip_ws_at [OF v2(1,2)] by blast
    then show ?thesis using v1(1,2) w first e v2(3) by (intro aloneI [of _ "v1 @ w @ e # w2 @ v2"]) auto
  qed
qed

text \<open>The parts of a member, each with what follows it left open.\<close>

lemma scan_members_cases:
  assumes scan: "scan_members (Suc n) d s = Some t"
    and val: "\<And>d s t. scan_value n d s = Some t \<Longrightarrow> alone (scan_value n d) True s t"
  obtains k w1 w2 v1 w3 f u rest where "s = quote # k @ quote # w1 @ CHR '':'' # w2 @ v1 @ w3 @ f # u"
    "\<And>q. scan_str (k @ quote # q) = Some (k, q)"
    "\<And>q. skip_ws (w1 @ CHR '':'' # q) = CHR '':'' # q"
    "v1 \<noteq> []" "\<And>q. skip_ws (w2 @ v1 @ q) = v1 @ q"
    "\<And>q. scan_value n d (v1 @ w3 @ f # q) = Some (w3 @ f # q)"
    "\<And>q. skip_ws (w3 @ f # q) = f # q"
    "f = CHR ''}'' \<and> t = u \<or> f = CHR '','' \<and> scan_members n d (skip_ws u) = Some t"
proof -
  obtain s1 k t1 u1 v2 f u where s: "s = quote # s1" and k: "scan_str s1 = Some (k, t1)"
    and colon: "skip_ws t1 = CHR '':'' # u1" and v: "scan_value n d (skip_ws u1) = Some v2"
    and f: "skip_ws v2 = f # u"
      "f = CHR ''}'' \<and> t = u \<or> f = CHR '','' \<and> scan_members n d (skip_ws u) = Some t"
    using scan by (auto split: option.splits list.splits if_splits)
  obtain w1 where w1: "t1 = w1 @ CHR '':'' # u1" "\<And>q. skip_ws (w1 @ CHR '':'' # q) = CHR '':'' # q"
    using skip_ws_char [OF colon] by blast
  obtain v1 where v1: "skip_ws u1 = v1 @ v2" "v1 \<noteq> []" "\<And>q. after_number q \<Longrightarrow> scan_value n d (v1 @ q) = Some q"
    using val [OF v] unfolding alone_def by blast
  obtain w2 where w2: "u1 = w2 @ v1 @ v2" "\<And>q. skip_ws (w2 @ v1 @ q) = v1 @ q"
    using skip_ws_at [OF v1(1,2)] by blast
  obtain w3 where w3: "v2 = w3 @ f # u" "\<And>q. skip_ws (w3 @ f # q) = f # q" "list_all is_ws w3"
    using skip_ws_char [OF f(1)] by blast
  have "scan_value n d (v1 @ w3 @ f # q) = Some (w3 @ f # q)" for q
    using v1(3) after_number_punct [OF w3(3)] f(2) by blast
  moreover have "s = quote # k @ quote # w1 @ CHR '':'' # w2 @ v1 @ w3 @ f # u"
    using s scan_str_local [OF k] w1(1) w2(1) w3(1) by simp
  moreover have "scan_str (k @ quote # q) = Some (k, q)" for q using scan_str_local [OF k] by blast
  ultimately show ?thesis using that w1(2) v1(2) w2(2) w3(2) f(2) by metis
qed

lemma members_step_local:
  assumes scan: "scan_members (Suc n) d s = Some t"
    and val: "\<And>d s t. scan_value n d s = Some t \<Longrightarrow> alone (scan_value n d) True s t"
    and members: "\<And>d s t. scan_members n d s = Some t \<Longrightarrow> alone (scan_members n d) False s t"
  shows "alone (scan_members (Suc n) d) False s t"
proof (rule scan_members_cases [OF scan val], assumption)
  fix k w1 w2 v1 w3 f u
  assume s: "s = quote # k @ quote # w1 @ CHR '':'' # w2 @ v1 @ w3 @ f # u"
    and parts: "\<And>q. scan_str (k @ quote # q) = Some (k, q)"
      "\<And>q. skip_ws (w1 @ CHR '':'' # q) = CHR '':'' # q" "\<And>q. skip_ws (w2 @ v1 @ q) = v1 @ q"
      "\<And>q. scan_value n d (v1 @ w3 @ f # q) = Some (w3 @ f # q)" "\<And>q. skip_ws (w3 @ f # q) = f # q"
    and f: "f = CHR ''}'' \<and> t = u \<or> f = CHR '','' \<and> scan_members n d (skip_ws u) = Some t"
  let ?head = "quote # k @ quote # w1 @ CHR '':'' # w2 @ v1 @ w3 @ [f]"
  from f show ?thesis
  proof
    assume "f = CHR ''}'' \<and> t = u"
    then show ?thesis using s parts by (intro aloneI [of _ ?head]) auto
  next
    assume f: "f = CHR '','' \<and> scan_members n d (skip_ws u) = Some t"
    then obtain v2 where v2: "skip_ws u = v2 @ t" "v2 \<noteq> []" "\<And>q. scan_members n d (v2 @ q) = Some q"
      using members unfolding alone_def by blast
    obtain w4 where "u = w4 @ v2 @ t" "\<And>q. skip_ws (w4 @ v2 @ q) = v2 @ q" using skip_ws_at [OF v2(1,2)] by blast
    then show ?thesis using s parts f v2(3) by (intro aloneI [of _ "?head @ w4 @ v2"]) auto
  qed
qed

lemma scan_local:
  "scan_value n d s = Some t \<Longrightarrow> alone (scan_value n d) True s t"
  "scan_elems n d s = Some t \<Longrightarrow> alone (scan_elems n d) False s t"
  "scan_members n d s = Some t \<Longrightarrow> alone (scan_members n d) False s t"
proof (induction n arbitrary: d s t)
  case 0
  case 1 then show ?case by simp
next
  case 0
  case 2 then show ?case by simp
next
  case 0
  case 3 then show ?case by simp
next
  case (Suc n)
  case 1 show ?case by (rule value_step_local [OF 1 Suc(2,3)])
next
  case (Suc n)
  case 2 show ?case by (rule elems_step_local [OF 2 Suc(1,2)])
next
  case (Suc n)
  case 3 show ?case by (rule members_step_local [OF 3 Suc(1,3)])
qed

section \<open>The members of the first value\<close>

lemma members_scanned:
  assumes "scan_members n d s = Some t"
  shows "\<exists>v ms. s = v @ t \<and> v \<noteq> [] \<and> (\<forall>q m. length v \<le> m \<longrightarrow> members m d (v @ q) = Some ms)"
  using assms
proof (induction n arbitrary: s t)
  case 0
  then show ?case by simp
next
  case (Suc n)
  show ?case
  proof (rule scan_members_cases [OF Suc.prems scan_local(1)], assumption)
    fix k w1 w2 v1 w3 f u
    assume s: "s = quote # k @ quote # w1 @ CHR '':'' # w2 @ v1 @ w3 @ f # u"
      and parts: "\<And>q. scan_str (k @ quote # q) = Some (k, q)"
        "\<And>q. skip_ws (w1 @ CHR '':'' # q) = CHR '':'' # q" "\<And>q. skip_ws (w2 @ v1 @ q) = v1 @ q"
        "\<And>q. scan_value n d (v1 @ w3 @ f # q) = Some (w3 @ f # q)" "\<And>q. skip_ws (w3 @ f # q) = f # q"
      and f: "f = CHR ''}'' \<and> t = u \<or> f = CHR '','' \<and> scan_members n d (skip_ws u) = Some t"
    let ?head = "quote # k @ quote # w1 @ CHR '':'' # w2 @ v1 @ w3 @ [f]"
    have enough: "scan_value (scan_fuel (v1 @ w3 @ f # q)) d (v1 @ w3 @ f # q) = Some (w3 @ f # q)" for q
      by (rule scan_value_enough [OF parts(4)])
    have step: "members (Suc m) d (?head @ q) =
        (if f = CHR ''}'' then Some [(k, v1)]
         else if f = CHR '','' then map_option ((#) (k, v1)) (members m d (skip_ws q)) else None)" for m q
      using parts enough [of q] by (simp add: Let_def)
    from f show ?thesis
    proof
      assume f: "f = CHR ''}'' \<and> t = u"
      have "members m d (?head @ q) = Some [(k, v1)]" if "length ?head \<le> m" for m q
        using that step [of "m - 1" q] f by (cases m) auto
      then show ?thesis using s f by (intro exI [of _ ?head] exI [of _ "[(k, v1)]"]) auto
    next
      assume f: "f = CHR '','' \<and> scan_members n d (skip_ws u) = Some t"
      then obtain v2 ms where v2: "skip_ws u = v2 @ t" "v2 \<noteq> []"
        "\<And>q m. length v2 \<le> m \<Longrightarrow> members m d (v2 @ q) = Some ms" using Suc.IH by blast
      obtain w4 where w4: "u = w4 @ v2 @ t" "\<And>q. skip_ws (w4 @ v2 @ q) = v2 @ q"
        using skip_ws_at [OF v2(1,2)] by blast
      have "members m d ((?head @ w4 @ v2) @ q) = Some ((k, v1) # ms)" if long: "length (?head @ w4 @ v2) \<le> m" for m q
      proof -
        obtain m' where m: "m = Suc m'" "length v2 \<le> m'" using long by (cases m) simp_all
        have "members m d (?head @ w4 @ v2 @ q) = Some ((k, v1) # ms)"
          unfolding m(1) step using f w4(2) v2(3) [OF m(2)] by simp
        then show ?thesis by simp
      qed
      then show ?thesis using s w4(1) v2(2)
        by (intro exI [of _ "?head @ w4 @ v2"] exI [of _ "(k, v1) # ms"]) auto
    qed
  qed
qed

text \<open>What \<open>object_members\<close> makes of the text after an opening brace.\<close>

definition object_rest :: "nat \<Rightarrow> string \<Rightarrow> (string \<times> bytes) list option" where
  "object_rest d r = (let u = skip_ws r in
     if (case u of [] \<Rightarrow> False | e # _ \<Rightarrow> e = CHR ''}'') then Some []
     else map_option (map (\<lambda>(k, v). (unquote k, v))) (members (length u) (d - 1) u))"

lemma scan_object_members:
  assumes "scan_value n d (CHR ''{'' # s) = Some t"
  shows "\<exists>v ms. CHR ''{'' # s = v @ t \<and>
    (\<forall>q. (\<exists>m. scan_value m d (v @ q) = Some q) \<and>
      object_rest d (tl (v @ q)) = Some ms)"
proof -
  obtain n' where n: "n = Suc n'" using assms by (cases n) auto
  have d: "d \<noteq> 0" using assms n by (auto split: if_splits)
  obtain v where v: "CHR ''{'' # s = v @ t" "v \<noteq> []" and all: "\<And>q. scan_value n d (v @ q) = Some q"
    using scan_local(1) [OF assms] number_start_facts(1) unfolding alone_def
    by (metis append_Cons hd_append2 list.sel(1))
  obtain v' where v': "v = CHR ''{'' # v'" using v by (cases v) auto
  obtain e r where r: "skip_ws s = e # r" using assms n d by (auto split: list.splits)
  have s: "s = v' @ t" using v(1) v' by simp
  show ?thesis
  proof (cases "e = CHR ''}''")
    case True
    then have "t = r" using assms n d r by simp
    then obtain w where w: "s = w @ e # t" "\<And>q. skip_ws (w @ e # q) = e # q"
      using skip_ws_char [OF r] by blast
    then have "v' = w @ [e]" using s by simp
    then show ?thesis using v(1) v' all w(2) True
      by (intro exI [of _ v] exI [of _ "[]"]) (auto simp: object_rest_def)
  next
    case False
    then have "scan_members n' (d - 1) (skip_ws s) = Some t" using assms n d r by simp
    then obtain v1 ms where v1: "skip_ws s = v1 @ t" "v1 \<noteq> []"
      "\<And>q m. length v1 \<le> m \<Longrightarrow> members m (d - 1) (v1 @ q) = Some ms" using members_scanned by blast
    obtain w where w: "s = w @ v1 @ t" "\<And>q. skip_ws (w @ v1 @ q) = v1 @ q" using skip_ws_at [OF v1(1,2)] by blast
    have v'': "v' = w @ v1" using s w(1) by simp
    have "\<not> (case v1 @ q of [] \<Rightarrow> False | e # _ \<Rightarrow> e = CHR ''}'')" for q
      using v1(1,2) r False by (cases v1) auto
    then show ?thesis using v(1) v' v'' all w(2) v1(3)
      by (intro exI [of _ v] exI [of _ "map (\<lambda>(k, v). (unquote k, v)) ms"]) (auto simp: object_rest_def Let_def)
  qed
qed

text \<open>
  The object at the start of a text has the members of the whole text, when that is valid too: a decoder
  that stops after the first value and one that insists on reading everything agree.
\<close>

lemma object_members_object:
  assumes "json_Valid s" and "skip_ws s = CHR ''{'' # r"
  shows "object_members s = object_rest max_nesting r"
  using assms by (simp add: object_members_def object_rest_def Let_def)

lemma first_value_members:
  assumes first: "first_value b = Some v" and members: "object_members v = Some ms" and "json_Valid (b @ rest)"
  shows "object_members (b @ rest) = Some ms"
proof -
  have valid: "json_Valid v" using members by (auto simp: object_members_def split: if_splits)
  obtain t where t: "scan_value (scan_fuel (skip_ws b)) max_nesting (skip_ws b) = Some t"
    and v: "v = take (length (skip_ws b) - length t) (skip_ws b)"
    using first by (auto simp: first_value_def Let_def)
  obtain v1 where v1: "skip_ws b = v1 @ t" "v1 \<noteq> []" using scan_local(1) [OF t] unfolding alone_def by blast
  have b: "skip_ws b = v @ t" "v \<noteq> []" using v v1 by simp_all
  obtain w where w: "b = w @ v @ t" "\<And>q. skip_ws (w @ v @ q) = v @ q" using skip_ws_at [OF b] by blast
  have whole: "skip_ws (b @ rest) = v @ t @ rest" using w by simp
  obtain c v' where c: "v = c # v'" using b(2) by (cases v) auto
  have "\<not> is_ws c" using skip_ws_head [of b c] b(1) c by simp
  then have id: "skip_ws v = v" using c by (simp add: skip_ws_def)
  consider "c = CHR ''{''" | "c \<noteq> CHR ''{''" "HasPrefix v ''null''" "ms = []"
    using members id c by (auto simp: object_members_def split: if_splits)
  then show ?thesis
  proof cases
    case 1
    have scan: "scan_value (scan_fuel (skip_ws b)) max_nesting (CHR ''{'' # v' @ t) = Some t"
      using t b(1) c 1 by simp
    obtain x ms' where x: "CHR ''{'' # v' @ t = x @ t" "\<And>q. object_rest max_nesting (tl (x @ q)) = Some ms'"
      using scan_object_members [OF scan] by blast
    have xv: "x = CHR ''{'' # v'" using x(1) by simp
    have "object_members v = Some ms'"
      using object_members_object [OF valid, of v'] x(2) [of "[]"] xv id c 1 by simp
    moreover have "object_members (b @ rest) = Some ms'"
      using object_members_object [OF assms(3), of "v' @ t @ rest"] x(2) [of "t @ rest"] xv whole c 1 by simp
    ultimately show ?thesis using members by simp
  next
    case 2
    then have "HasPrefix (v @ t @ rest) ''null''" by (auto simp: HasPrefix_iff)
    then show ?thesis using assms(3) whole c 2 by (simp add: object_members_def)
  qed
qed

end
