(* ===== verification/Scope_Confinement.thy ===== *)
theory Scope_Confinement
  imports App_Routes Scope_Writes Go_Json_Local
begin

text \<open>
  A scoped token writes inside its scope only. The guard reads the target of a write off the request and the
  database; the handler behind it decodes the same request on its own. Here the two readings are shown to
  agree, and with the statements of \<open>Scope_Writes\<close> every mutating request of a scoped token leaves the rows
  of other environments as they were.
\<close>

section \<open>Guard and handler read the same body\<close>

lemma decode_members_sim:
  assumes step: "\<And>k raw x y x'. R x y \<Longrightarrow> f k raw x = Some x' \<Longrightarrow> \<exists>y'. g k raw y = Some y' \<and> R x' y'"
  shows "decode_members f ms x = Some x' \<Longrightarrow> R x y \<Longrightarrow> \<exists>y'. decode_members g ms y = Some y' \<and> R x' y'"
proof (induction ms arbitrary: x y)
  case Nil
  then show ?case by simp
next
  case (Cons m ms)
  obtain k raw where m: "m = (k, raw)" by fastforce
  obtain x1 where x1: "f k raw x = Some x1" "decode_members f ms x1 = Some x'"
    using Cons.prems(1) m by (auto split: option.splits)
  obtain y1 where "g k raw y = Some y1" "R x1 y1" using step [OF Cons.prems(2) x1(1)] by blast
  then show ?case using Cons.IH [OF x1(2)] m by simp
qed

definition same_fields :: "('a \<Rightarrow> int) \<Rightarrow> ('a \<Rightarrow> int) \<Rightarrow> 'a \<Rightarrow> bodyFields \<Rightarrow> bool" where
  "same_fields i env x bf \<longleftrightarrow> i x = bf_ID bf \<and> env x = bf_EnvironmentID bf"

definition reads_fields :: "(string \<Rightarrow> bytes \<Rightarrow> 'a \<Rightarrow> 'a option) \<Rightarrow> ('a \<Rightarrow> int) \<Rightarrow> ('a \<Rightarrow> int) \<Rightarrow> bool" where
  "reads_fields field i env \<longleftrightarrow> (\<forall>k raw x y x'. same_fields i env x y \<longrightarrow> field k raw x = Some x' \<longrightarrow>
     (\<exists>y'. field_bodyFields k raw y = Some y' \<and> same_fields i env x' y'))"

text \<open>A key is the name of one field at most.\<close>

lemma key_is_other: "key_is k a \<Longrightarrow> fold_name a \<noteq> fold_name b \<Longrightarrow> \<not> key_is k b"
  by (simp add: key_is_def)

lemma names_apart:
  "fold_name ''environmentId'' \<noteq> fold_name ''id''" "fold_name ''environmentId'' \<noteq> fold_name ''microserviceId''"
  by (simp_all add: fold_name_def runes_ascii is_ascii_def fold_rune_def byte_string_def lower_char_def)

lemma reads_fieldsI:
  assumes "\<And>k raw x. key_is k ''id'' \<Longrightarrow> field k raw x = map_option (put_id x) (dec_int64 (i x) raw)"
    and "\<And>k raw x. key_is k ''environmentId'' \<Longrightarrow> field k raw x = map_option (put_env x) (dec_int64 (env x) raw)"
    and "\<And>k raw x x'. \<not> key_is k ''id'' \<Longrightarrow> \<not> key_is k ''environmentId'' \<Longrightarrow> field k raw x = Some x' \<Longrightarrow>
      i x' = i x \<and> env x' = env x"
    and "\<And>x n. i (put_id x n) = n \<and> env (put_id x n) = env x" "\<And>x n. i (put_env x n) = i x \<and> env (put_env x n) = n"
  shows "reads_fields field i env"
  unfolding reads_fields_def
proof (intro allI impI)
  fix k raw x y x'
  assume R: "same_fields i env x y" and x': "field k raw x = Some x'"
  consider "key_is k ''id''" | "key_is k ''environmentId''" "\<not> key_is k ''id''"
    | "\<not> key_is k ''id''" "\<not> key_is k ''environmentId''" by blast
  then show "\<exists>y'. field_bodyFields k raw y = Some y' \<and> same_fields i env x' y'"
  proof cases
    case 1
    then show ?thesis using R x' assms(1) [OF 1] assms(4) by (auto simp: field_bodyFields_def same_fields_def)
  next
    case 2
    then show ?thesis using R x' assms(2) [OF 2(1)] assms(5) by (auto simp: field_bodyFields_def same_fields_def)
  next
    case 3
    then show ?thesis using R assms(3) [OF 3 x'] by (auto simp: field_bodyFields_def same_fields_def)
  qed
qed

lemma reads_FlagValue: "reads_fields field_FlagValue fv_ID fv_EnvironmentID"
  by (rule reads_fieldsI [where put_id = "\<lambda>x n. x\<lparr>fv_ID := n\<rparr>" and put_env = "\<lambda>x n. x\<lparr>fv_EnvironmentID := n\<rparr>"])
    (use key_is_other names_apart in \<open>auto simp: field_FlagValue_def split: if_splits\<close>)

lemma reads_AppSettings: "reads_fields field_AppSettings as_ID as_EnvironmentID"
  by (rule reads_fieldsI [where put_id = "\<lambda>x n. x\<lparr>as_ID := n\<rparr>" and put_env = "\<lambda>x n. x\<lparr>as_EnvironmentID := n\<rparr>"])
    (use key_is_other names_apart in \<open>auto simp: field_AppSettings_def split: if_splits\<close>)

lemma reads_Localization: "reads_fields field_Localization loc_ID loc_EnvironmentID"
  by (rule reads_fieldsI [where put_id = "\<lambda>x n. x\<lparr>loc_ID := n\<rparr>" and put_env = "\<lambda>x n. x\<lparr>loc_EnvironmentID := n\<rparr>"])
    (use key_is_other names_apart in \<open>auto simp: field_Localization_def split: if_splits\<close>)

lemma body_valueD:
  assumes "body_value body = Some v"
  shows "first_value (take MaxRequestBody body) = Some v"
  using assms by (auto simp: body_value_def Let_def split: option.splits if_splits)

text \<open>A body the handler accepts reads the same for the guard, or the guard gives up on it.\<close>

lemma guard_reads_body:
  assumes reads: "reads_fields field i env" and zero: "same_fields i env zero zero_bodyFields"
    and decoded: "DecodeJSON field zero (bufferBody r) = Some x"
  shows "decodeBodyFields r = zero_bodyFields \<or> same_fields i env x (decodeBodyFields r)"
proof -
  define body where "body = rq_Body (bufferBody r)"
  obtain v ms where v: "body_value body = Some v" "object_members v = Some ms" "decode_members field ms zero = Some x"
    using decoded by (auto simp: DecodeJSON_def body_def bind_eq_Some_conv)
  show ?thesis
  proof (cases "object_members body")
    case None
    then show ?thesis by (simp add: decodeBodyFields_def body_def Let_def)
  next
    case (Some ms')
    then have "json_Valid (take MaxRequestBody body @ drop MaxRequestBody body)"
      by (auto simp: object_members_def split: if_splits)
    from first_value_members [OF body_valueD [OF v(1)] v(2) this] have "object_members body = Some ms" by simp
    moreover obtain bf where "decode_members field_bodyFields ms zero_bodyFields = Some bf" "same_fields i env x bf"
      using decode_members_sim [of "same_fields i env", OF _ v(3) zero] reads unfolding reads_fields_def by blast
    ultimately show ?thesis by (simp add: decodeBodyFields_def body_def [symmetric] Let_def)
  qed
qed

section \<open>What an admitted target says\<close>

definition scoped :: "adminToken \<Rightarrow> int set \<Rightarrow> bool" where
  "scoped token E \<longleftrightarrow> at_envs token = Some E"

lemma scoped_allows:
  "scoped token E \<Longrightarrow> allows token target \<longleftrightarrow> \<not> wt_global target \<and> (\<forall>env \<in> set (wt_envs target). env \<in> E)"
  by (simp add: scoped_def allows_def list_all_iff)

lemma query_tabs: "query q db = (Inr x, db') \<Longrightarrow> x = q (tabs db')"
  by (auto simp: query_def split: prod.splits bool.splits)

definition row_writable :: "targetClass \<Rightarrow> int set \<Rightarrow> tables \<Rightarrow> int \<Rightarrow> bool" where
  "row_writable c E t i = (case c of
     classRowFlagValue \<Rightarrow> writable fv_ID fv_EnvironmentID E (flag_values t) i
   | classRowServiceSettings \<Rightarrow> writable as_ID as_EnvironmentID E (appsettings t) i
   | classRowLocalization \<Rightarrow> writable loc_ID loc_EnvironmentID E (localizations t) i
   | _ \<Rightarrow> False)"

definition row_class :: "targetClass \<Rightarrow> bool" where
  "row_class c \<longleftrightarrow> c \<in> {classRowFlagValue, classRowServiceSettings, classRowLocalization}"

lemma lookup_writable:
  assumes "row_class c" and "lookupRowEnvironment (class_table c) i db = (Some env, db')"
    and "env \<in> E" and "holds (untouched E t0) db"
  shows "row_writable c E t0 i"
proof -
  have q: "query (\<lambda>t. map_of (table_environments (class_table c) t) i) db = (Inr (Some env), db')"
    using assms(2) by (auto simp: lookupRowEnvironment_def split: if_splits prod.splits sum.splits)
  have h: "holds (untouched E t0) db'" using query_holds [OF assms(4)] q by (metis snd_conv)
  have u: "untouched E t0 (tabs db')" using h by (simp add: holds_def)
  have ok: "wf_tables (tabs db')" using u by (simp add: untouched_def)
  have d: "distinct (map fv_ID (rows (flag_values (tabs db'))))" "distinct (map as_ID (rows (appsettings (tabs db'))))"
    "distinct (map loc_ID (rows (localizations (tabs db'))))"
    using ok by (simp_all add: wf_tables_def keys_ok_def table_ok_def)
  have found: "map_of (table_environments (class_table c) (tabs db')) i = Some env" using query_tabs [OF q] by simp
  consider "c = classRowFlagValue" | "c = classRowServiceSettings" | "c = classRowLocalization"
    using assms(1) by (auto simp: row_class_def)
  then show ?thesis
  proof cases
    case 1
    then have "writable fv_ID fv_EnvironmentID E (flag_values (tabs db')) i"
      using found by (intro writable_lookup [OF d(1) _ assms(3)]) (simp add: class_table_def table_environments_def)
    then show ?thesis using untouched_writable(1) [OF u] 1 by (simp add: row_writable_def)
  next
    case 2
    then have "writable as_ID as_EnvironmentID E (appsettings (tabs db')) i"
      using found by (intro writable_lookup [OF d(2) _ assms(3)]) (simp add: class_table_def table_environments_def)
    then show ?thesis using untouched_writable(2) [OF u] 2 by (simp add: row_writable_def)
  next
    case 3
    then have "writable loc_ID loc_EnvironmentID E (localizations (tabs db')) i"
      using found by (intro writable_lookup [OF d(3) _ assms(3)]) (simp add: class_table_def table_environments_def)
    then show ?thesis using untouched_writable(3) [OF u] 3 by (simp add: row_writable_def)
  qed
qed

lemma lookup_holds: "holds P db \<Longrightarrow> holds P (snd (lookupRowEnvironment name i db))"
  using query_holds [of P db "\<lambda>t. map_of (table_environments name t) i"]
  by (auto simp: lookupRowEnvironment_def split: prod.splits sum.splits)

lemma resolveRow_holds: "holds P db \<Longrightarrow> holds P (snd (resolveRow c bf target db))"
  using lookup_holds [of P db]
  by (auto simp: resolveRow_def Let_def split: option.splits prod.splits) (metis snd_conv)+

lemma resolveTarget_holds: "holds P db \<Longrightarrow> holds P (snd (resolveTarget c domain r db))"
  using resolveRow_holds [of P db]
  by (cases c) (auto simp: resolveTarget_def Let_def split: option.splits)

text \<open>The id a row class resolves: the path's, or the body's when the path has none.\<close>

definition target_id :: "request \<Rightarrow> int option" where
  "target_id r = (let bf = decodeBodyFields r; pathID = PathValue r ''id'' in
     positive_id (if pathID = [] \<and> 0 < bf_ID bf then FormatInt (bf_ID bf) else pathID))"

lemma resolveRow_eq:
  "resolveRow c bf (target_of domain pathID) db =
     (let target = (target_of domain pathID)\<lparr>wt_rowID := if pathID = [] \<and> 0 < bf_ID bf then FormatInt (bf_ID bf) else pathID\<rparr>
      in case positive_id (if pathID = [] \<and> 0 < bf_ID bf then FormatInt (bf_ID bf) else pathID) of
           None \<Rightarrow> (target\<lparr>wt_global := True\<rparr>, db)
         | Some i \<Rightarrow> (case lookupRowEnvironment (class_table c) i db of
             (None, db) \<Rightarrow> (target\<lparr>wt_global := True\<rparr>, db)
           | (Some env, db) \<Rightarrow> (target\<lparr>wt_envs := env # (if movesEnvironment c \<and> 0 < bf_EnvironmentID bf
                 \<and> bf_EnvironmentID bf \<noteq> env then [bf_EnvironmentID bf] else [])\<rparr>, db)))"
proof -
  have "(if wt_rowID (target_of domain pathID) = [] \<and> 0 < bf_ID bf
      then (target_of domain pathID)\<lparr>wt_rowID := FormatInt (bf_ID bf)\<rparr> else target_of domain pathID)
    = (target_of domain pathID)\<lparr>wt_rowID := if pathID = [] \<and> 0 < bf_ID bf then FormatInt (bf_ID bf) else pathID\<rparr>"
    by (simp add: target_of_def)
  then show ?thesis by (simp add: resolveRow_def Let_def)
qed

lemma admitted_row:
  assumes "row_class c" and "scoped token E" and "allows token (fst (resolveTarget c domain r db))"
    and "holds (untouched E t0) db"
  shows "\<exists>i. target_id r = Some i \<and> row_writable c E t0 i \<and>
    (movesEnvironment c \<and> 0 < bf_EnvironmentID (decodeBodyFields r) \<longrightarrow> bf_EnvironmentID (decodeBodyFields r) \<in> E)"
proof -
  let ?bf = "decodeBodyFields r"
  have res: "resolveTarget c domain r db = resolveRow c ?bf (target_of domain (PathValue r ''id'')) db"
    using assms(1) by (auto simp: row_class_def resolveTarget_def)
  note ok = assms(3) [unfolded scoped_allows [OF assms(2)] res resolveRow_eq Let_def target_id_def [unfolded Let_def, symmetric]]
  obtain i where i: "target_id r = Some i" using ok by (cases "target_id r") auto
  obtain env db' where look: "lookupRowEnvironment (class_table c) i db = (Some env, db')"
    using ok i by (cases "lookupRowEnvironment (class_table c) i db"; cases "fst (lookupRowEnvironment (class_table c) i db)") auto
  have "env \<in> E" "movesEnvironment c \<and> 0 < bf_EnvironmentID ?bf \<longrightarrow> bf_EnvironmentID ?bf \<in> E"
    using ok i look by (auto split: if_splits)
  then show ?thesis using i lookup_writable [OF assms(1) look _ assms(4)] by blast
qed

lemma admitted_body:
  assumes "scoped token E" and "allows token (fst (resolveTarget classEnvBody domain r db))"
  shows "bf_EnvironmentID (decodeBodyFields r) \<in> E \<and> 0 < bf_EnvironmentID (decodeBodyFields r)"
  using assms(2) unfolding scoped_allows [OF assms(1)]
  by (auto simp: resolveTarget_def Let_def split: if_splits)

lemma admitted_path:
  assumes "scoped token E" and "allows token (fst (resolveTarget classEnvPath domain r db))"
  shows "\<exists>i. positive_id (PathValue r ''id'') = Some i \<and> i \<in> E"
  using assms(2) unfolding scoped_allows [OF assms(1)]
  by (auto simp: resolveTarget_def target_of_def Let_def split: option.splits)

lemma refused_global:
  "scoped token E \<Longrightarrow> \<not> allows token (fst (resolveTarget classGlobal domain r db))"
  by (simp add: scoped_allows resolveTarget_def Let_def)

section \<open>What the services keep\<close>

lemma postgres_settings:
  "rs_GetConfig Settings_PostgresRepository = GetMicroserviceConfigByID"
  "rs_UpdateConfig Settings_PostgresRepository = UpdateMicroserviceConfig"
  "rs_CreateConfig Settings_PostgresRepository = CreateMicroserviceConfig"
  "rs_DeleteConfig Settings_PostgresRepository = DeleteMicroserviceConfig"
  "rs_CreateMicroservice Settings_PostgresRepository = CreateMicroservice"
  "rs_DeleteEnvironment Settings_PostgresRepository = DeleteEnvironment"
  by (simp_all add: Settings_PostgresRepository_def)

lemma postgres_loc:
  "rl_GetByID Loc_PostgresRepository = GetLocalizationByID" "rl_Update Loc_PostgresRepository = UpdateLocalization"
  "rl_Create Loc_PostgresRepository = CreateLocalization" "rl_Delete Loc_PostgresRepository = DeleteLocalization"
  by (simp_all add: Loc_PostgresRepository_def)

lemmas app_stages = on_db_holds snd_bindE [where I = "\<lambda>a. holds P (app_db a)" for P]

lemma flag_calls_keep:
  assumes "holds P (app_db a)"
  shows "(0 < fv_ID v \<Longrightarrow> keeps P (update_fv_stmt v)) \<Longrightarrow>
      holds P (app_db (snd (FlagService_UpdateFlagValue Flags_PostgresRepository pub v a)))"
    and "(0 < fv_EnvironmentID v \<Longrightarrow> keeps P (insert_fv_stmt v)) \<Longrightarrow>
      holds P (app_db (snd (FlagService_CreateFlagValue Flags_PostgresRepository pub v a)))"
    and "(0 < i \<Longrightarrow> keeps P (delete_fv_stmt i)) \<Longrightarrow>
      holds P (app_db (snd (FlagService_DeleteFlagValue Flags_PostgresRepository pub i a)))"
    and "keeps P (insert_flag_stmt f) \<Longrightarrow>
      holds P (app_db (snd (FlagService_CreateFlag Flags_PostgresRepository f a)))"
  using assms
  by (auto simp: FlagService_UpdateFlagValue_def FlagService_CreateFlagValue_def FlagService_DeleteFlagValue_def
      FlagService_CreateFlag_def postgres_methods flags_publish_def flags_purge_def
      UpdateFlagValue_holds CreateFlagValue_holds DeleteFlagValue_holds CreateFlag_holds
      intro!: app_stages split: sum.splits)

lemma settings_calls_keep:
  assumes "holds P (app_db a)"
  shows "(0 < as_ID v \<Longrightarrow> 0 < as_EnvironmentID v \<Longrightarrow> keeps P (update_as_stmt v)) \<Longrightarrow>
      holds P (app_db (snd (SettingsService_UpdateMicroserviceConfig Settings_PostgresRepository pub v a)))"
    and "(0 < as_EnvironmentID v \<Longrightarrow> keeps P (insert_as_stmt v)) \<Longrightarrow>
      holds P (app_db (snd (SettingsService_CreateMicroserviceConfig Settings_PostgresRepository pub v a)))"
    and "(0 < i \<Longrightarrow> keeps P (delete_as_stmt i)) \<Longrightarrow>
      holds P (app_db (snd (SettingsService_DeleteMicroserviceConfig Settings_PostgresRepository pub i a)))"
    and "(\<And>name. keeps P (insert_ms_stmt name)) \<Longrightarrow>
      holds P (app_db (snd (SettingsService_CreateMicroservice Settings_PostgresRepository m a)))"
    and "(0 < i \<Longrightarrow> keeps P (delete_env_stmt i)) \<Longrightarrow>
      holds P (app_db (snd (SettingsService_DeleteEnvironment Settings_PostgresRepository i a)))"
  using assms
  by (auto simp: SettingsService_UpdateMicroserviceConfig_def SettingsService_CreateMicroserviceConfig_def
      SettingsService_DeleteMicroserviceConfig_def SettingsService_CreateMicroservice_def
      SettingsService_DeleteEnvironment_def postgres_settings Let_def GetMicroserviceConfigByID_holds
      UpdateMicroserviceConfig_holds CreateMicroserviceConfig_holds DeleteMicroserviceConfig_holds
      CreateMicroservice_holds DeleteEnvironment_holds intro!: app_stages split: sum.splits)

lemma loc_calls_keep:
  assumes "holds P (app_db a)"
  shows "(0 < loc_ID v \<Longrightarrow> 0 < loc_EnvironmentID v \<Longrightarrow> keeps P (update_loc_stmt v)) \<Longrightarrow>
      holds P (app_db (snd (LocService_UpdateLocalization Loc_PostgresRepository pub v a)))"
    and "(0 < loc_EnvironmentID v \<Longrightarrow> keeps P (insert_loc_stmt v)) \<Longrightarrow>
      holds P (app_db (snd (LocService_CreateLocalization Loc_PostgresRepository pub v a)))"
    and "(0 < i \<Longrightarrow> keeps P (delete_loc_stmt i)) \<Longrightarrow>
      holds P (app_db (snd (LocService_DeleteLocalization Loc_PostgresRepository pub i a)))"
  using assms
  by (auto simp: LocService_UpdateLocalization_def LocService_CreateLocalization_def
      LocService_DeleteLocalization_def postgres_loc GetLocalizationByID_holds UpdateLocalization_holds
      CreateLocalization_holds DeleteLocalization_holds intro!: app_stages split: sum.splits)

section \<open>What the handlers keep\<close>

lemma snd_reply [simp]: "snd (reply bad ok res) = snd res"
  by (auto simp: reply_def split: prod.splits sum.splits)

lemma with_id_keeps:
  assumes "I a" and "\<And>i. ParseInt (PathValue r name) = Some i \<Longrightarrow> I (snd (f i a))"
  shows "I (snd (with_id name message r f a))"
  using assms by (auto simp: with_id_def split: option.splits)

lemma with_body_keeps:
  assumes "I a" and "\<And>x. DecodeJSON field zero r = Some x \<Longrightarrow> I (snd (f x a))"
  shows "I (snd (with_body field zero r f a))"
  using assms by (auto simp: with_body_def split: option.splits)

text \<open>A handler keeps what holds of the database.\<close>

definition handler_keeps :: "(tables \<Rightarrow> bool) \<Rightarrow> (request \<Rightarrow> 'w app \<Rightarrow> response \<times> 'w app) \<Rightarrow> request \<Rightarrow> bool" where
  "handler_keeps P h r \<longleftrightarrow> (\<forall>a. holds P (app_db a) \<longrightarrow> holds P (app_db (snd (h r a))))"

lemma flag_handlers_keep:
  "(\<And>v. DecodeJSON field_FlagValue zero_FlagValue r = Some v \<Longrightarrow> 0 < fv_ID v \<Longrightarrow> keeps P (update_fv_stmt v)) \<Longrightarrow>
     handler_keeps P (Flags_UpdateFlagValue Flags_PostgresRepository pub) r"
  "(\<And>v. DecodeJSON field_FlagValue zero_FlagValue r = Some v \<Longrightarrow> 0 < fv_EnvironmentID v \<Longrightarrow> keeps P (insert_fv_stmt v)) \<Longrightarrow>
     handler_keeps P (Flags_CreateFlagValue Flags_PostgresRepository pub) r"
  "(\<And>i. ParseInt (PathValue r ''id'') = Some i \<Longrightarrow> 0 < i \<Longrightarrow> keeps P (delete_fv_stmt i)) \<Longrightarrow>
     handler_keeps P (Flags_DeleteFlagValue Flags_PostgresRepository pub) r"
  "(\<And>f. keeps P (insert_flag_stmt f)) \<Longrightarrow> handler_keeps P (Flags_CreateFlag Flags_PostgresRepository) r"
  by (auto simp: handler_keeps_def Flags_UpdateFlagValue_def Flags_CreateFlagValue_def Flags_DeleteFlagValue_def
      Flags_CreateFlag_def flag_calls_keep
      intro!: with_id_keeps [where I = "\<lambda>a. holds P (app_db a)"] with_body_keeps [where I = "\<lambda>a. holds P (app_db a)"])

lemma settings_handlers_keep:
  "(\<And>v. DecodeJSON field_AppSettings zero_AppSettings r = Some v \<Longrightarrow> 0 < as_ID v \<Longrightarrow> 0 < as_EnvironmentID v \<Longrightarrow>
       keeps P (update_as_stmt v)) \<Longrightarrow>
     handler_keeps P (Settings_UpdateMicroserviceConfig Settings_PostgresRepository pub) r"
  "(\<And>v. DecodeJSON field_AppSettings zero_AppSettings r = Some v \<Longrightarrow> 0 < as_EnvironmentID v \<Longrightarrow> keeps P (insert_as_stmt v)) \<Longrightarrow>
     handler_keeps P (Settings_CreateMicroserviceConfig Settings_PostgresRepository pub) r"
  "(\<And>i. ParseInt (PathValue r ''id'') = Some i \<Longrightarrow> 0 < i \<Longrightarrow> keeps P (delete_as_stmt i)) \<Longrightarrow>
     handler_keeps P (Settings_DeleteMicroserviceConfig Settings_PostgresRepository pub) r"
  "(\<And>name. keeps P (insert_ms_stmt name)) \<Longrightarrow>
     handler_keeps P (Settings_CreateMicroservice Settings_PostgresRepository) r"
  "(\<And>i. ParseInt (PathValue r ''id'') = Some i \<Longrightarrow> 0 < i \<Longrightarrow> keeps P (delete_env_stmt i)) \<Longrightarrow>
     handler_keeps P (Settings_DeleteEnvironment Settings_PostgresRepository) r"
  by (auto simp: handler_keeps_def Settings_UpdateMicroserviceConfig_def Settings_CreateMicroserviceConfig_def
      Settings_DeleteMicroserviceConfig_def Settings_CreateMicroservice_def Settings_DeleteEnvironment_def
      settings_calls_keep
      intro!: with_id_keeps [where I = "\<lambda>a. holds P (app_db a)"] with_body_keeps [where I = "\<lambda>a. holds P (app_db a)"])

lemma loc_handlers_keep:
  "(\<And>v. DecodeJSON field_Localization zero_Localization r = Some v \<Longrightarrow> 0 < loc_ID v \<Longrightarrow> 0 < loc_EnvironmentID v \<Longrightarrow>
       keeps P (update_loc_stmt v)) \<Longrightarrow>
     handler_keeps P (Loc_UpdateLocalization Loc_PostgresRepository pub) r"
  "(\<And>v. DecodeJSON field_Localization zero_Localization r = Some v \<Longrightarrow> 0 < loc_EnvironmentID v \<Longrightarrow> keeps P (insert_loc_stmt v)) \<Longrightarrow>
     handler_keeps P (Loc_CreateLocalization Loc_PostgresRepository pub) r"
  "(\<And>i. ParseInt (PathValue r ''id'') = Some i \<Longrightarrow> 0 < i \<Longrightarrow> keeps P (delete_loc_stmt i)) \<Longrightarrow>
     handler_keeps P (Loc_DeleteLocalization Loc_PostgresRepository pub) r"
  by (auto simp: handler_keeps_def Loc_UpdateLocalization_def Loc_CreateLocalization_def
      Loc_DeleteLocalization_def loc_calls_keep
      intro!: with_id_keeps [where I = "\<lambda>a. holds P (app_db a)"] with_body_keeps [where I = "\<lambda>a. holds P (app_db a)"])

section \<open>An admitted handler stays in scope\<close>

lemma ParseInt_FormatInt_SomeD:
  assumes "ParseInt (FormatInt n) = Some i"
  shows "i = n"
proof (cases "n < 0")
  case True
  then show ?thesis using assms by (auto simp: ParseInt_def FormatInt_def dec_val_nat_dec split: if_splits)
next
  case False
  obtain c cs where cs: "nat_dec (nat n) = c # cs" using nat_dec_not_Nil by (cases "nat_dec (nat n)") auto
  then have "c \<noteq> CHR ''-''" "c \<noteq> CHR ''+''" using nat_dec_head_digit [OF cs] by (auto simp: digit_val_def)
  moreover have "dec_val 0 (c # cs) = Some (nat n)" using dec_val_nat_dec [of "nat n"] cs by simp
  ultimately show ?thesis using False assms cs
    by (simp add: ParseInt_def FormatInt_def Let_def split: if_splits del: dec_val.simps)
qed

lemma PathValue_bufferBody [simp]: "PathValue (bufferBody r) name = PathValue r name"
  by (simp add: bufferBody_def PathValue_def)

text \<open>The body names the row the guard looked up, and an environment the guard admitted.\<close>

lemma admitted_body_row:
  assumes "row_class c" and "scoped token E" and "allows token (fst (resolveTarget c domain r db))"
    and "holds (untouched E t0) db" and "PathValue r ''id'' = []"
    and "reads_fields field i env" and "same_fields i env zero zero_bodyFields"
    and "DecodeJSON field zero (bufferBody r) = Some x"
  shows "row_writable c E t0 (i x) \<and> (movesEnvironment c \<and> 0 < env x \<longrightarrow> env x \<in> E)"
proof -
  obtain n where n: "target_id r = Some n" "row_writable c E t0 n"
    "movesEnvironment c \<and> 0 < bf_EnvironmentID (decodeBodyFields r) \<longrightarrow> bf_EnvironmentID (decodeBodyFields r) \<in> E"
    using admitted_row [OF assms(1-4)] by blast
  have none: "positive_id [] = None" by (simp add: positive_id_def ParseInt_def)
  then have "0 < bf_ID (decodeBodyFields r)" using n(1) assms(5) by (auto simp: target_id_def Let_def split: if_splits)
  moreover from this have "n = bf_ID (decodeBodyFields r)" using n(1) assms(5) ParseInt_FormatInt_SomeD
    by (auto simp: target_id_def Let_def positive_id_def split: option.splits if_splits)
  moreover have "same_fields i env x (decodeBodyFields r)"
    using guard_reads_body [OF assms(6-8)] \<open>0 < bf_ID (decodeBodyFields r)\<close> by (auto simp: zero_bodyFields_def)
  ultimately show ?thesis using n(2,3) by (simp add: same_fields_def)
qed

lemma admitted_body_env:
  assumes "scoped token E" and "allows token (fst (resolveTarget classEnvBody domain r db))"
    and "reads_fields field i env" and "same_fields i env zero zero_bodyFields"
    and "DecodeJSON field zero (bufferBody r) = Some x"
  shows "env x \<in> E"
  using admitted_body [OF assms(1,2)] guard_reads_body [OF assms(3-5)]
  by (auto simp: same_fields_def zero_bodyFields_def)

lemma admitted_path_row:
  assumes "row_class c" and "scoped token E" and "allows token (fst (resolveTarget c domain r db))"
    and "holds (untouched E t0) db" and "PathValue r ''id'' \<noteq> []" and "ParseInt (PathValue r ''id'') = Some i"
  shows "row_writable c E t0 i"
proof -
  obtain n where n: "target_id r = Some n" "row_writable c E t0 n" using admitted_row [OF assms(1-4)] by blast
  have "n = i" using n(1) assms(5,6) by (auto simp: target_id_def Let_def positive_id_def split: if_splits)
  then show ?thesis using n(2) by simp
qed

lemma admitted_path_env:
  assumes "scoped token E" and "allows token (fst (resolveTarget classEnvPath domain r db))"
    and "ParseInt (PathValue r ''id'') = Some i"
  shows "i \<in> E"
  using admitted_path [OF assms(1,2)] assms(3) by (auto simp: positive_id_def split: if_splits)

lemma zero_fields:
  "same_fields fv_ID fv_EnvironmentID zero_FlagValue zero_bodyFields"
  "same_fields as_ID as_EnvironmentID zero_AppSettings zero_bodyFields"
  "same_fields loc_ID loc_EnvironmentID zero_Localization zero_bodyFields"
  by (simp_all add: same_fields_def zero_FlagValue_def zero_AppSettings_def zero_Localization_def zero_bodyFields_def)

section \<open>Which values a write route binds\<close>

lemma find_route_mem:
  "find_route ps m segs = Some (rt, vals) \<Longrightarrow> \<exists>pm p. (pm, p, rt) \<in> set ps \<and> match_segments p segs = Some vals
    \<and> method_matches pm m"
  by (induction ps m segs rule: find_route.induct) (auto split: option.splits if_splits)

lemma match_literals: "match_segments (map Lit ls) segs = Some vals \<Longrightarrow> vals = []"
  by (induction "map Lit ls" segs arbitrary: ls vals rule: match_segments.induct) (auto split: if_splits)

lemma match_literal: "match_segments (Lit l # ps) segs = Some vals \<Longrightarrow> \<exists>ss. match_segments ps ss = Some vals"
  by (cases segs) (auto split: if_splits)

lemma match_wild: "match_segments [Wild w] segs = Some vals \<Longrightarrow> \<exists>s. vals = [(w, s)] \<and> s \<noteq> []"
  by (cases segs; cases "tl segs") (auto split: if_splits)

lemma match_id:
  "match_segments [Lit a, Wild ''id''] segs = Some vals \<Longrightarrow> \<exists>s. vals = [(''id'', s)] \<and> s \<noteq> []"
  "match_segments [Lit a, Lit b, Wild ''id''] segs = Some vals \<Longrightarrow> \<exists>s. vals = [(''id'', s)] \<and> s \<noteq> []"
  using match_literal match_wild by blast+

definition path_has_id :: "route \<Rightarrow> bool" where
  "path_has_id rt \<longleftrightarrow> rt \<in> {RDeleteEnvironment, RDeleteMicroservice, RDeleteConfig, RDeleteFlag,
     RDeleteFlagValue, RDeleteLocalization}"

lemma write_route_values:
  assumes "write_route api rt \<noteq> None" and "route_of m segs = Some (rt, rq_PathValues r)"
  shows "PathValue r ''id'' = [] \<longleftrightarrow> \<not> path_has_id rt"
proof -
  obtain pm p where p: "(pm, p, rt) \<in> set patterns" "match_segments p segs = Some (rq_PathValues r)"
    using find_route_mem assms(2) unfolding route_of_def by blast
  then have "path_has_id rt \<and> (\<exists>s. rq_PathValues r = [(''id'', s)] \<and> s \<noteq> []) \<or> \<not> path_has_id rt \<and> rq_PathValues r = []"
    using assms(1) by (auto simp: patterns_def path_has_id_def write_route_def dest: match_id match_literals [of "[a]" for a, simplified]
        match_literals [of "[a, b]" for a b, simplified])
  then show ?thesis by (auto simp: PathValue_def)
qed

section \<open>Every admitted request\<close>

definition postgres_api :: "'w api \<Rightarrow> bool" where
  "postgres_api api \<longleftrightarrow> api_flags api = Flags_PostgresRepository
     \<and> api_settings api = Settings_PostgresRepository \<and> api_loc api = Loc_PostgresRepository"

definition route_keeps :: "(tables \<Rightarrow> bool) \<Rightarrow> 'w handler \<Rightarrow> request \<Rightarrow> bool" where
  "route_keeps P h r \<longleftrightarrow> (\<forall>sv. holds P (app_db (sv_app sv)) \<longrightarrow> holds P (app_db (sv_app (snd (h r sv)))))"

lemma on_app_keeps: "handler_keeps P h r \<Longrightarrow> route_keeps P (on_app h) r"
  by (fastforce simp: handler_keeps_def route_keeps_def on_app_def split: prod.splits)

lemma admitted_write_keeps:
  assumes api: "postgres_api api" and route: "write_route api rt = Some (c, domain, h)"
    and found: "route_of m segs = Some (rt, rq_PathValues r)"
    and token: "scoped token E" and ok: "allows token (fst (resolveTarget c domain r db))"
    and db: "holds (untouched E t0) db"
  shows "route_keeps (untouched E t0) h (bufferBody r)"
proof -
  have path: "PathValue r ''id'' = [] \<longleftrightarrow> \<not> path_has_id rt" using write_route_values [OF _ found, of api] route by simp
  have moved: "movesEnvironment classRowServiceSettings" "movesEnvironment classRowLocalization"
    by (simp_all add: movesEnvironment_def)
  note api = api [unfolded postgres_api_def]
  note row = admitted_body_row [OF _ token _ db] and body_env = admitted_body_env [OF token]
    and path_row = admitted_path_row [OF _ token _ db] and path_env = admitted_path_env [OF token]
  show ?thesis
  proof (cases rt)
    case RCreateEnvironment
    then show ?thesis using route ok refused_global [OF token] by (auto simp: write_route_def)
  next
    case RDeleteMicroservice
    then show ?thesis using route ok refused_global [OF token] by (auto simp: write_route_def)
  next
    case RDeleteFlag
    then show ?thesis using route ok refused_global [OF token] by (auto simp: write_route_def)
  next
    case RDeleteEnvironment
    then have "c = classEnvPath" and h: "h = on_app (Settings_DeleteEnvironment Settings_PostgresRepository)"
      using route api by (auto simp: write_route_def)
    then show ?thesis using ok path_env unfolding h
      by (intro on_app_keeps settings_handlers_keep(5) delete_env_scope) auto
  next
    case RCreateMicroservice
    then have h: "h = on_app (Settings_CreateMicroservice Settings_PostgresRepository)"
      using route api by (auto simp: write_route_def)
    show ?thesis unfolding h by (intro on_app_keeps settings_handlers_keep(4) insert_ms_scope)
  next
    case RCreateConfig
    then have "c = classEnvBody" and h: "h = on_app (Settings_CreateMicroserviceConfig Settings_PostgresRepository (api_pub api))"
      using route api by (auto simp: write_route_def)
    then show ?thesis using ok body_env [OF _ reads_AppSettings zero_fields(2)] unfolding h
      by (intro on_app_keeps settings_handlers_keep(2) insert_as_scope) auto
  next
    case RDeleteConfig
    then have c: "c = classRowServiceSettings" and h: "h = on_app (Settings_DeleteMicroserviceConfig Settings_PostgresRepository (api_pub api))"
      using route api by (auto simp: write_route_def)
    have "row_writable c E t0 i" if "ParseInt (PathValue r ''id'') = Some i" for i
      using path_row [OF _ ok _ that] c path RDeleteConfig by (simp add: row_class_def path_has_id_def)
    then show ?thesis unfolding h c
      by (intro on_app_keeps settings_handlers_keep(3) delete_as_scope) (auto simp: row_writable_def)
  next
    case RUpdateConfig
    then have c: "c = classRowServiceSettings" and h: "h = on_app (Settings_UpdateMicroserviceConfig Settings_PostgresRepository (api_pub api))"
      using route api by (auto simp: write_route_def)
    have "row_writable c E t0 (as_ID v) \<and> (0 < as_EnvironmentID v \<longrightarrow> as_EnvironmentID v \<in> E)"
      if "DecodeJSON field_AppSettings zero_AppSettings (bufferBody r) = Some v" for v
      using row [OF _ ok _ reads_AppSettings zero_fields(2) that] c path RUpdateConfig moved
      by (simp add: row_class_def path_has_id_def)
    then show ?thesis unfolding h c
      by (intro on_app_keeps settings_handlers_keep(1) update_as_scope) (auto simp: row_writable_def)
  next
    case RCreateFlag
    then have h: "h = on_app (Flags_CreateFlag Flags_PostgresRepository)" using route api by (auto simp: write_route_def)
    show ?thesis unfolding h by (intro on_app_keeps flag_handlers_keep(4) insert_flag_scope)
  next
    case RCreateFlagValue
    then have "c = classEnvBody" and h: "h = on_app (Flags_CreateFlagValue Flags_PostgresRepository (api_pub api))"
      using route api by (auto simp: write_route_def)
    then show ?thesis using ok body_env [OF _ reads_FlagValue zero_fields(1)] unfolding h
      by (intro on_app_keeps flag_handlers_keep(2) insert_fv_scope) auto
  next
    case RDeleteFlagValue
    then have c: "c = classRowFlagValue" and h: "h = on_app (Flags_DeleteFlagValue Flags_PostgresRepository (api_pub api))"
      using route api by (auto simp: write_route_def)
    have "row_writable c E t0 i" if "ParseInt (PathValue r ''id'') = Some i" for i
      using path_row [OF _ ok _ that] c path RDeleteFlagValue by (simp add: row_class_def path_has_id_def)
    then show ?thesis unfolding h c
      by (intro on_app_keeps flag_handlers_keep(3) delete_fv_scope) (auto simp: row_writable_def)
  next
    case RUpdateFlagValue
    then have c: "c = classRowFlagValue" and h: "h = on_app (Flags_UpdateFlagValue Flags_PostgresRepository (api_pub api))"
      using route api by (auto simp: write_route_def)
    have "row_writable c E t0 (fv_ID v)" if "DecodeJSON field_FlagValue zero_FlagValue (bufferBody r) = Some v" for v
      using row [OF _ ok _ reads_FlagValue zero_fields(1) that] c path RUpdateFlagValue
      by (simp add: row_class_def path_has_id_def)
    then show ?thesis unfolding h c
      by (intro on_app_keeps flag_handlers_keep(1) update_fv_scope) (auto simp: row_writable_def)
  next
    case RCreateLocalization
    then have "c = classEnvBody" and h: "h = on_app (Loc_CreateLocalization Loc_PostgresRepository (api_pub api))"
      using route api by (auto simp: write_route_def)
    then show ?thesis using ok body_env [OF _ reads_Localization zero_fields(3)] unfolding h
      by (intro on_app_keeps loc_handlers_keep(2) insert_loc_scope) auto
  next
    case RDeleteLocalization
    then have c: "c = classRowLocalization" and h: "h = on_app (Loc_DeleteLocalization Loc_PostgresRepository (api_pub api))"
      using route api by (auto simp: write_route_def)
    have "row_writable c E t0 i" if "ParseInt (PathValue r ''id'') = Some i" for i
      using path_row [OF _ ok _ that] c path RDeleteLocalization by (simp add: row_class_def path_has_id_def)
    then show ?thesis unfolding h c
      by (intro on_app_keeps loc_handlers_keep(3) delete_loc_scope) (auto simp: row_writable_def)
  next
    case RUpdateLocalization
    then have c: "c = classRowLocalization" and h: "h = on_app (Loc_UpdateLocalization Loc_PostgresRepository (api_pub api))"
      using route api by (auto simp: write_route_def)
    have "row_writable c E t0 (loc_ID v) \<and> (0 < loc_EnvironmentID v \<longrightarrow> loc_EnvironmentID v \<in> E)"
      if "DecodeJSON field_Localization zero_Localization (bufferBody r) = Some v" for v
      using row [OF _ ok _ reads_Localization zero_fields(3) that] c path RUpdateLocalization moved
      by (simp add: row_class_def path_has_id_def)
    then show ?thesis unfolding h c
      by (intro on_app_keeps loc_handlers_keep(1) update_loc_scope) (auto simp: row_writable_def)
  qed (use route in \<open>simp_all add: write_route_def\<close>)
qed

lemma spend_app [simp]: "sv_app (snd (spend now key sv)) = sv_app sv" "sv_app (snd (spendAnonymous now key sv)) = sv_app sv"
  by (simp_all add: spend_def spendAnonymous_def split: prod.splits)

lemma guard_keeps:
  assumes "authenticate tokens r = Inr token" and "holds P (app_db (sv_app sv))"
    and "\<And>db. holds P db \<Longrightarrow> allows token (fst (resolveTarget c domain r db)) \<Longrightarrow> route_keeps P h (bufferBody r)"
  shows "holds P (app_db (sv_app (snd (snd (guard tokens now c domain h r sink sv)))))"
proof -
  obtain refusal sv1 where s: "(if tokens_enabled tokens then spend now (tokenKey (at_name token)) sv else (None, sv)) = (refusal, sv1)"
    by fastforce
  then have sv1: "sv_app sv1 = sv_app sv" using spend_app(1) by (metis snd_conv)
  obtain target db where t: "resolveTarget c domain r (app_db (sv_app sv1)) = (target, db)" by fastforce
  have db: "holds P db" using resolveTarget_holds [of P "app_db (sv_app sv1)" c domain r] assms(2) sv1 t by simp
  let ?sv2 = "sv1\<lparr>sv_app := (sv_app sv1)\<lparr>app_db := db\<rparr>\<rparr>"
  have "holds P (app_db (sv_app (snd (h (bufferBody r) ?sv2))))" if "allows token target"
  proof -
    have "route_keeps P h (bufferBody r)" using assms(3) [of "app_db (sv_app sv1)"] assms(2) sv1 t that by simp
    then show ?thesis using db by (simp add: route_keeps_def)
  qed
  then show ?thesis using assms(1,2) s sv1 t db
    by (cases refusal) (auto simp: guard_def Let_def split: prod.splits)
qed

lemma authenticate_same: "rq_Authorization r = rq_Authorization r' \<Longrightarrow> authenticate ts r = authenticate ts r'"
  by (simp add: authenticate_def)

lemma bufferBody_fields [simp]:
  "rq_Authorization (bufferBody r) = rq_Authorization r" "rq_Method (bufferBody r) = rq_Method r"
  by (simp_all add: bufferBody_def)

lemma limitWrites_keeps:
  assumes "holds P (app_db (sv_app sv))"
    and "\<And>sv'. sv_app sv' = sv_app sv \<Longrightarrow> holds P (app_db (sv_app (snd (snd (next r sink sv')))))"
  shows "holds P (app_db (sv_app (snd (snd (limitWrites tokens now next r sink sv)))))"
proof -
  obtain refusal sv1 where s: "(if presentsCredential tokens r then spend now (addressKey (rq_RemoteAddr r)) sv
      else spendAnonymous now (anonymousKey (rq_RemoteAddr r)) sv) = (refusal, sv1)" by fastforce
  then have "sv_app sv1 = sv_app sv" using spend_app by (metis snd_conv)
  then show ?thesis using assms s by (cases refusal) (simp_all add: limitWrites_def)
qed

lemma mutating_routes:
  assumes "isMutating m" and "route_of m segs = Some (rt, vals)"
  shows "write_route api rt \<noteq> None"
proof -
  obtain pm p where "(pm, p, rt) \<in> set patterns" "method_matches pm m"
    using find_route_mem assms(2) unfolding route_of_def by blast
  then show ?thesis using assms(1)
    by (auto simp: patterns_def method_matches_def isMutating_def write_route_def)
qed

lemma audit_Insert_holds: "holds P db \<Longrightarrow> holds P (fst (snd (audit_Insert e (db, trail))))"
  using begin_stmt_holds [of P db] by (auto simp: audit_Insert_def split: prod.splits bool.splits)

lemma auditWrites_keeps:
  assumes "holds P (app_db (sv_app (snd (snd (next (bufferBody r) sink sv)))))"
    and "isMutating (rq_Method r)" and "\<not> routed \<Longrightarrow> holds P (app_db (sv_app (snd (snd (next r sink sv)))))"
  shows "holds P (app_db (sv_app (snd (snd (auditWrites num now routed path next r sink sv)))))"
proof (cases routed)
  case True
  obtain p sink' sv' where n: "next (bufferBody r) sink sv = (p, sink', sv')" by (metis prod_cases3)
  then have "holds P (app_db (sv_app sv'))" using assms(1) by simp
  from audit_Insert_holds [OF this] show ?thesis
    using True assms(2) n by (simp add: auditWrites_def Let_def split: prod.splits) (metis fst_conv snd_conv)
next
  case False
  then show ?thesis using assms(2,3) by (simp add: auditWrites_def)
qed

text \<open>
  Property C1. A scoped token writes inside its scope only: whatever a mutating request with its credential
  asks for, and whatever driver failures and commits of other clients that stay out of the frame happen in
  between, the database still holds every row of the environments outside the scope exactly as it was, and
  every flag and microservice; it stays well-formed too.
\<close>

theorem scope_confines_writes:
  assumes "postgres_api api" and "authenticate (api_tokens api) r = Inr token" and "at_envs token = Some E"
    and "isMutating (rq_Method r)" and "holds (untouched E t0) (app_db (sv_app sv))"
  shows "holds (untouched E t0)
    (app_db (sv_app (snd (snd (serve_request api num open_route unmatched ts segs r sv)))))"
proof -
  let ?P = "untouched E t0"
  have inner: "holds ?P (app_db (sv_app (snd (snd (serve_route api open_route ts rt (r'\<lparr>rq_PathValues := vals\<rparr>) sink sv)))))"
    if found: "route_of (rq_Method r) segs = Some (rt, vals)" and r': "r' = bufferBody r" and sv: "holds ?P (app_db (sv_app sv))"
    for rt vals sink r' and sv :: "'a server"
  proof -
    let ?r = "r'\<lparr>rq_PathValues := vals\<rparr>"
    obtain c domain h where w: "write_route api rt = Some (c, domain, h)"
      using mutating_routes [OF assms(4) found, of api] by auto
    have auth: "authenticate (api_tokens api) ?r = Inr token"
      using assms(2) authenticate_same [of ?r r] r' by simp
    have "holds ?P (app_db (sv_app (snd (snd (guard (api_tokens api) (at_guard ts) c domain h ?r sink sv)))))"
      by (rule guard_keeps [OF auth sv]) (rule admitted_write_keeps [OF assms(1) w _ assms(3) [folded scoped_def]], use found in auto)
    then show ?thesis by (simp add: serve_route_def w)
  qed
  show ?thesis unfolding serve_request_def Let_def
    by (intro limitWrites_keeps auditWrites_keeps)
      (use assms(4,5) inner in \<open>auto split: option.splits\<close>)
qed

section \<open>An instance\<close>

text \<open>A token of environment 4 sends an update of a flag value of environment 3.\<close>

definition scoped_api :: "(string, mem_kv) plane api" where
  "scoped_api = \<lparr>api_tokens = [\<lparr>at_name = ''ci'', at_secret = ''s3'', at_envs = Some {4}\<rparr>],
     api_flags = Flags_PostgresRepository, api_settings = Settings_PostgresRepository, api_loc = Loc_PostgresRepository,
     api_pub = Publisher mem_js, api_flags_lister = flags_ListAllForReconcile,
     api_settings_lister = settings_ListAllForReconcile, api_loc_lister = loc_ListAllForReconcile\<rparr>"

definition stray_update :: request where
  "stray_update = \<lparr>rq_Method = ''PUT'', rq_PathValues = [], rq_Query = [],
     rq_Authorization = ''Bearer s3'', rq_RemoteAddr = ''10.0.0.1:99'',
     rq_Body = json_object [(''id'', ''9''), (''value'', json_string ''50''), (''enabled'', ''1'')]\<rparr>"

definition demo_server :: "(string, mem_kv) plane server" where
  "demo_server = \<lparr>sv_app = demo_app, sv_limiter = None, sv_trail = \<lparr>rows = [], seq = 1\<rparr>\<rparr>"

theorem scope_confines_writes_witness:
  "outside fv_EnvironmentID {4} (flag_values (tabs (app_db (sv_app (snd (snd (serve_request scoped_api Some
     (\<lambda>r sv. (NoContent, sv)) (\<lambda>r. NoContent) \<lparr>at_edge = 1, at_guard = 2, at_audit = 3\<rparr>
     [''flags'', ''values''] stray_update demo_server)))))))
   = rows (flag_values demo_tables)"
proof -
  have "holds (untouched {4} demo_tables) (app_db (sv_app (snd (snd (serve_request scoped_api Some (\<lambda>r sv. (NoContent, sv))
     (\<lambda>r. NoContent) \<lparr>at_edge = 1, at_guard = 2, at_audit = 3\<rparr> [''flags'', ''values''] stray_update demo_server)))))"
  proof (rule scope_confines_writes)
    show "postgres_api scoped_api" by (simp add: postgres_api_def scoped_api_def)
    show "authenticate (api_tokens scoped_api) stray_update = Inr (hd (api_tokens scoped_api))"
      by (simp add: authenticate_def scoped_api_def stray_update_def tokens_enabled_def CutPrefix_def token_lookup_def
        HasPrefix_iff)
  qed (simp_all add: scoped_api_def stray_update_def isMutating_def demo_server_def demo_app_def holds_def
      untouched_refl demo_tables_wf)
  then have "outside fv_EnvironmentID {4} (flag_values (tabs (app_db (sv_app (snd (snd (serve_request scoped_api Some
     (\<lambda>r sv. (NoContent, sv)) (\<lambda>r. NoContent) \<lparr>at_edge = 1, at_guard = 2, at_audit = 3\<rparr>
     [''flags'', ''values''] stray_update demo_server))))))) = outside fv_EnvironmentID {4} (flag_values demo_tables)"
    by (simp only: holds_def untouched_def frame_def)
  also have "\<dots> = rows (flag_values demo_tables)" by (simp add: outside_def demo_tables_def)
  finally show ?thesis .
qed

end
