(* ===== verification/Sqlite_Time.thy ===== *)
theory Sqlite_Time
  imports Go_Rfc3339
begin

text \<open>
  The timestamps of the local test stack. SQLite keeps \<^verbatim>\<open>CURRENT_TIMESTAMP\<close> as text in UTC, to the second, and
  the repositories format what they compare it with by the same layout (\<^verbatim>\<open>sqliteTimeLayout\<close>); the comparison
  is the one of byte strings. The theorem of this theory is that, for years of four digits, comparing
  the texts is comparing the instants to the second: the calendar that the layout prints is monotone.
\<close>

section \<open>The layout and the comparison\<close>

definition year_text :: "int \<Rightarrow> string" where
  "year_text y = (if y < 0 then CHR ''-'' # pad 4 (- y) else pad 4 y)"

definition sqliteTimeLayout :: "gotime \<Rightarrow> string" where
  "sqliteTimeLayout t = (
     let secs = t div second; days = secs div 86400; s = secs mod 86400
     in case civil_of_days days of (y, m, d) \<Rightarrow>
          year_text y @ ''-'' @ pad 2 m @ ''-'' @ pad 2 d @ '' ''
          @ pad 2 (s div 3600) @ '':'' @ pad 2 ((s div 60) mod 60) @ '':'' @ pad 2 (s mod 60))"

text \<open>The order of SQLite's \<^verbatim>\<open>BINARY\<close> collation.\<close>

fun text_le :: "string \<Rightarrow> string \<Rightarrow> bool" where
  "text_le [] t = True"
| "text_le (a # s) [] = False"
| "text_le (a # s) (b # t) = ((of_char a :: nat) < of_char b \<or> a = b \<and> text_le s t)"

section \<open>Padded numbers compare as numbers\<close>

lemma text_le_same [simp]: "text_le (s @ t) (s @ u) \<longleftrightarrow> text_le t u"
  by (induction s) auto

lemma digit_char_less: "a < 10 \<Longrightarrow> b < 10 \<Longrightarrow>
    (of_char (digit_char a) :: nat) < of_char (digit_char b) \<longleftrightarrow> a < b"
  by (simp add: digit_char_def)

lemma digit_char_eq: "a < 10 \<Longrightarrow> b < 10 \<Longrightarrow> digit_char a = digit_char b \<longleftrightarrow> a = b"
  by (metis digit_val_char option.inject)

text \<open>The number a string of decimal digits spells, and its order.\<close>

lemma dec_val_range:
  "dec_val acc s = Some n \<Longrightarrow> acc * 10 ^ length s \<le> n \<and> n < (acc + 1) * 10 ^ length s"
proof (induction acc s rule: dec_val.induct)
  case (2 acc c cs)
  then obtain d where d: "digit_val c = Some d" "dec_val (10 * acc + d) cs = Some n"
    by (auto split: option.splits)
  let ?p = "(10 :: nat) ^ length cs"
  have ih: "(10 * acc + d) * ?p \<le> n" "n < (10 * acc + d + 1) * ?p" using 2(1) [OF d] by auto
  have "(10 * acc + d + 1) * ?p \<le> (10 * acc + 10) * ?p"
    using digit_val_Some_less [OF d(1)] by (intro mult_right_mono) auto
  with ih(2) have "n < (10 * acc + 10) * ?p" by (rule less_le_trans)
  moreover have "(10 * acc) * ?p \<le> n"
    by (rule le_trans [OF _ ih(1)]) (intro mult_right_mono, auto)
  ultimately show ?case by (simp add: algebra_simps)
qed simp

lemma dec_val_le:
  assumes "length s = length t" "dec_val acc s = Some m" "dec_val acc t = Some n"
  shows "text_le (s @ u) (t @ v) \<longleftrightarrow> m < n \<or> m = n \<and> text_le u v"
  using assms
proof (induction s t arbitrary: acc rule: list_induct2)
  case Nil
  then show ?case by simp
next
  case (Cons x xs y ys)
  obtain a where a: "digit_val x = Some a" "dec_val (10 * acc + a) xs = Some m"
    using Cons.prems(1) by (auto split: option.splits)
  obtain b where b: "digit_val y = Some b" "dec_val (10 * acc + b) ys = Some n"
    using Cons.prems(2) by (auto split: option.splits)
  note ab = digit_val_Some_less [OF a(1)] digit_val_Some_less [OF b(1)]
  have xy: "x = digit_char a" "y = digit_char b" using a b by (auto dest: digit_val_Some_char)
  have range: "(10 * acc + a) * 10 ^ length xs \<le> m \<and> m < (10 * acc + a + 1) * 10 ^ length xs"
    "(10 * acc + b) * 10 ^ length ys \<le> n \<and> n < (10 * acc + b + 1) * 10 ^ length ys"
    using dec_val_range a(2) b(2) by blast+
  show ?case
  proof (cases "a = b")
    case True
    then show ?thesis using Cons.IH [of "10 * acc + a"] a b xy by simp
  next
    case False
    have "m < n" if "a < b"
    proof -
      have "(10 * acc + a + 1) * 10 ^ length xs \<le> (10 * acc + b) * 10 ^ length xs"
        using that by (intro mult_right_mono) auto
      then show ?thesis using range Cons.hyps by simp
    qed
    moreover have "n < m" if "b < a"
    proof -
      have "(10 * acc + b + 1) * 10 ^ length xs \<le> (10 * acc + a) * 10 ^ length xs"
        using that by (intro mult_right_mono) auto
      then show ?thesis using range Cons.hyps by simp
    qed
    ultimately show ?thesis
      using False ab xy by (cases "a < b") (auto simp: digit_char_less digit_char_eq)
  qed
qed

lemma pad_le:
  assumes "0 \<le> a" "a < 10 ^ w" "0 \<le> b" "b < 10 ^ w" "0 < w"
  shows "text_le (pad w a @ u) (pad w b @ v) \<longleftrightarrow> a < b \<or> a = b \<and> text_le u v"
  using dec_val_le [of "pad w a" "pad w b" 0 "nat a" "nat b" u v] assms by (auto simp: pad_number)

section \<open>The calendar is monotone\<close>

text \<open>Days before a year that starts in March, and before a month counted from the year 0.\<close>

definition year_days :: "int \<Rightarrow> int" where
  "year_days y = 365 * y + y div 4 - y div 100 + y div 400"

definition month_days :: "int \<Rightarrow> int" where
  "month_days k = year_days (k div 12) + (153 * (k mod 12) + 2) div 5"

lemma div_step:
  fixes y n :: int
  assumes "0 < n"
  shows "(y + 1) div n = y div n + (if n dvd y + 1 then 1 else 0)"
proof -
  define q r where "q = y div n" and "r = y mod n"
  have y: "y + 1 = n * q + (r + 1)" and r: "0 \<le> r" "r < n" using assms by (simp_all add: q_def r_def)
  show ?thesis
  proof (cases "r + 1 = n")
    case True
    then have "y + 1 = n * (q + 1)" using y by (simp add: algebra_simps)
    then show ?thesis using assms by (simp add: q_def)
  next
    case False
    then have d: "(r + 1) div n = 0" "(r + 1) mod n = r + 1" using r by (simp_all add: div_pos_pos_trivial mod_pos_pos_trivial)
    have "(y + 1) div n = q" using d assms unfolding y by simp
    moreover have "(y + 1) mod n = r + 1" using d unfolding y by simp
    ultimately show ?thesis using r by (simp add: dvd_eq_mod_eq_0 q_def)
  qed
qed

lemma year_days_step: "year_days (y + 1) = year_days y + 365 + (if leap (y + 1) then 1 else 0)"
proof -
  have n: "400 dvd y + 1 \<longrightarrow> 100 dvd y + 1" "100 dvd y + 1 \<longrightarrow> 4 dvd y + 1"
    using dvd_trans [of 100 400 "y + 1"] dvd_trans [of 4 100 "y + 1"] by simp_all
  have bits: "(if p then 1 else 0) - (if q then 1 else 0) + (if r then 1 else 0)
      = (if p \<and> (\<not> q \<or> r) then 1 else (0 :: int))" if "r \<longrightarrow> q" "q \<longrightarrow> p" for p q r :: bool
    using that by (cases p; cases q; cases r) simp_all
  have "year_days (y + 1) = year_days y + 365
      + ((if 4 dvd y + 1 then 1 else 0) - (if 100 dvd y + 1 then 1 else 0) + (if 400 dvd y + 1 then 1 else 0))"
    unfolding year_days_def div_step [of 4, simplified] div_step [of 100, simplified]
      div_step [of 400, simplified]
    by (simp only: algebra_simps)
  then show ?thesis unfolding bits [OF n] leap_def .
qed

lemma month_split:
  fixes y m :: int
  assumes "1 \<le> m" "m \<le> 12"
  shows "(12 * y + m - 3) div 12 = (if m \<le> 2 then y - 1 else y)"
    "(12 * y + m - 3) mod 12 = (if m \<le> 2 then m + 9 else m - 3)"
proof -
  have "(q * 12 + r) div 12 = q" "(q * 12 + r) mod 12 = r" if "0 \<le> r" "r < 12" for q r :: int
    using that by auto
  from this [of "m + 9" "y - 1"] this [of "m - 3" y] assms
  show "(12 * y + m - 3) div 12 = (if m \<le> 2 then y - 1 else y)"
    "(12 * y + m - 3) mod 12 = (if m \<le> 2 then m + 9 else m - 3)"
    by (cases "m \<le> 2"; simp add: algebra_simps)+
qed

lemma year_days_eras: "0 \<le> e \<Longrightarrow> e < 400 \<Longrightarrow>
    year_days (a * 400 + e) = a * 146097 + (e * 365 + e div 4 - e div 100)"
proof -
  assume e: "0 \<le> e" "e < 400"
  have "(a * 400 + e) div 4 = a * 100 + e div 4" using div_mult_self1 [of 4 e "a * 100"] by (simp add: add.commute)
  moreover have "(a * 400 + e) div 100 = a * 4 + e div 100"
    using div_mult_self1 [of 100 e "a * 4"] by (simp add: add.commute)
  moreover have "(a * 400 + e) div 400 = a" using div_mult_self1 [of 400 e a] e by (simp add: add.commute)
  ultimately show ?thesis by (simp add: year_days_def)
qed

lemma days_of_civil_months:
  assumes "1 \<le> m" "m \<le> 12"
  shows "days_of_civil y m d = month_days (12 * y + m - 3) + d - 307"
proof -
  define y1 where "y1 = (if m \<le> 2 then y - 1 else y)"
  have "year_days y1 = year_days (y1 div 400 * 400 + y1 mod 400)" by simp
  also have "\<dots> = (y1 div 400) * 146097 + ((y1 mod 400) * 365 + (y1 mod 400) div 4 - (y1 mod 400) div 100)"
    by (rule year_days_eras) auto
  finally show ?thesis
    unfolding days_of_civil_def month_days_def month_split [OF assms] y1_def [symmetric] Let_def by simp
qed

lemma month_days_step:
  assumes "1 \<le> m" "m \<le> 12"
  shows "month_days (12 * y + m - 2) = month_days (12 * y + m - 3) + daysIn m y"
proof (cases "m = 2")
  case True
  have "(12 * y) div 12 = y" "(12 * y) mod 12 = 0" by auto
  then show ?thesis
    using month_split [OF assms, of y] year_days_step [of "y - 1"] True by (simp add: month_days_def daysIn_def)
next
  case False
  then have "1 \<le> m mod 12 + 1" "m mod 12 + 1 \<le> 12" by auto
  have m: "m \<in> {1, 3, 4, 5, 6, 7, 8, 9, 10, 11, 12}" using assms False by (simp, presburger)
  have "month_days (12 * y + m - 2) = year_days (if m \<le> 1 then y - 1 else y) + (153 * (if m \<le> 1 then m + 10 else m - 2) + 2) div 5"
  proof (cases "m = 12")
    case True
    then show ?thesis by (simp add: month_days_def)
  next
    case False
    then show ?thesis
      using month_split [of "m + 1" y] assms \<open>m \<noteq> 2\<close> by (simp add: month_days_def algebra_simps)
  qed
  then show ?thesis
    using m unfolding month_days_def month_split [OF assms] by (auto simp: daysIn_def)
qed

lemma month_days_mono: "k < k' \<Longrightarrow> month_days (k + 1) \<le> month_days k'"
proof -
  have step: "month_days j < month_days (j + 1)" for j
  proof -
    define y m where "y = (j + 2) div 12" and "m = (j + 2) mod 12 + 1"
    have m: "1 \<le> m" "m \<le> 12" and j: "12 * y + m = j + 3" by (simp_all add: y_def m_def)
    have "0 < daysIn m y" by (simp add: daysIn_def)
    moreover have e: "12 * y + m - 2 = j + 1" "12 * y + m - 3 = j" using j by simp_all
    ultimately show ?thesis using month_days_step [OF m, of y] unfolding e by linarith
  qed
  assume "k < k'"
  then have "k + 1 \<le> k'" by simp
  then show ?thesis
  proof (induction rule: int_ge_induct)
    case (step j)
    show ?case by (rule order_trans [OF step(2)]) (use \<open>\<And>j. month_days j < month_days (j + 1)\<close> in \<open>simp add: less_imp_le\<close>)
  qed simp
qed

text \<open>The dates of two days compare, year first, as the days do.\<close>

lemma civil_order:
  assumes "civil_of_days z = (y, m, d)" and "civil_of_days z' = (y', m', d')"
  shows "z \<le> z' \<longleftrightarrow> y < y' \<or> y = y' \<and> (m < m' \<or> m = m' \<and> d \<le> d')"
proof -
  note c = civil_roundtrip [OF assms(1)] and c' = civil_roundtrip [OF assms(2)]
  define k k' where "k = 12 * y + m - 3" and "k' = 12 * y' + m' - 3"
  have z: "z = month_days k + d - 307" "z' = month_days k' + d' - 307"
    using c(1) c'(1) days_of_civil_months [OF c(2,3)] days_of_civil_months [OF c'(2,3)]
    by (simp_all add: k_def k'_def)
  have last: "d \<le> month_days (k + 1) - month_days k" "d' \<le> month_days (k' + 1) - month_days k'"
    using c(5) c'(5) month_days_step [OF c(2,3), of y] month_days_step [OF c'(2,3), of y']
    by (simp_all add: k_def k'_def)
  have "z < z'" if "k < k'" using month_days_mono [OF that] z last c'(4) by linarith
  moreover have "z' < z" if "k' < k" using month_days_mono [OF that] z last c(4) by linarith
  moreover have "k < k' \<longleftrightarrow> y < y' \<or> y = y' \<and> m < m'" "k = k' \<longleftrightarrow> y = y' \<and> m = m'"
    using c(2,3) c'(2,3) by (cases y y' rule: linorder_cases; simp add: k_def k'_def; linarith)+
  ultimately show ?thesis using z by (cases k k' rule: linorder_cases) auto
qed

text \<open>The time of day.\<close>

lemma clock_parts:
  fixes s :: int
  assumes "0 \<le> s" "s < 86400"
  shows "0 \<le> s div 3600" "s div 3600 < 24" "0 \<le> (s div 60) mod 60" "(s div 60) mod 60 < 60"
    "0 \<le> s mod 60" "s mod 60 < 60" "s = s div 3600 * 3600 + (s div 60) mod 60 * 60 + s mod 60"
proof -
  have h: "s div 3600 = (s div 60) div 60" using zdiv_zmult2_eq [of 60 s 60] by simp
  show "s = s div 3600 * 3600 + (s div 60) mod 60 * 60 + s mod 60" unfolding h
    using div_mult_mod_eq [of s 60] div_mult_mod_eq [of "s div 60" 60] by linarith
qed (use assms in auto)

lemma clock_order:
  fixes s s' :: int
  assumes "0 \<le> s" "s < 86400" "0 \<le> s'" "s' < 86400"
  shows "s \<le> s' \<longleftrightarrow> s div 3600 < s' div 3600 \<or> s div 3600 = s' div 3600 \<and>
    ((s div 60) mod 60 < (s' div 60) mod 60 \<or> (s div 60) mod 60 = (s' div 60) mod 60 \<and> s mod 60 \<le> s' mod 60)"
proof -
  have order: "h * 3600 + i * 60 + e \<le> h' * 3600 + i' * 60 + e' \<longleftrightarrow> h < h' \<or> h = h' \<and> (i < i' \<or> i = i' \<and> e \<le> e')"
    if "0 \<le> i" "i < 60" "0 \<le> i'" "i' < 60" "0 \<le> e" "e < 60" "0 \<le> e'" "e' < 60" for h i e h' i' e' :: int
    using that by (cases h h' rule: linorder_cases; cases i i' rule: linorder_cases) (auto; linarith)+
  show ?thesis
    by (subst clock_parts(7) [OF assms(1,2)], subst clock_parts(7) [OF assms(3,4)], rule order)
      (use clock_parts assms in auto)
qed

section \<open>Text order is the order of instants, to the second\<close>

lemma text_le_layout:
  assumes "printable_time t" "printable_time u"
  shows "text_le (sqliteTimeLayout t) (sqliteTimeLayout u) \<longleftrightarrow> t div second \<le> u div second"
proof -
  define z s where "z = t div second div 86400" and "s = t div second mod 86400"
  define z' s' where "z' = u div second div 86400" and "s' = u div second mod 86400"
  obtain y m d where civ: "civil_of_days z = (y, m, d)" by (metis prod_cases3)
  obtain y' m' d' where civ': "civil_of_days z' = (y', m', d')" by (metis prod_cases3)
  note c = civil_roundtrip [OF civ] and c' = civil_roundtrip [OF civ']
  have dd: "d \<le> 31" "d' \<le> 31" using c(5) c'(5) by (auto simp: daysIn_def split: if_splits)
  have y: "0 \<le> y" "y \<le> 9999" "0 \<le> y'" "y' \<le> 9999"
    using assms civ civ' by (auto simp: printable_time_def year_of_def z_def z'_def)
  have s: "0 \<le> s" "s < 86400" "0 \<le> s'" "s' < 86400" by (auto simp: s_def s'_def)
  note h = clock_parts [OF s(1,2)] and h' = clock_parts [OF s(3,4)]
  have f: "sqliteTimeLayout t = pad 4 y @ CHR ''-'' # pad 2 m @ CHR ''-'' # pad 2 d @ CHR '' ''
      # pad 2 (s div 3600) @ CHR '':'' # pad 2 ((s div 60) mod 60) @ CHR '':'' # pad 2 (s mod 60) @ []"
    "sqliteTimeLayout u = pad 4 y' @ CHR ''-'' # pad 2 m' @ CHR ''-'' # pad 2 d' @ CHR '' ''
      # pad 2 (s' div 3600) @ CHR '':'' # pad 2 ((s' div 60) mod 60) @ CHR '':'' # pad 2 (s' mod 60) @ []"
    using y by (simp_all add: sqliteTimeLayout_def year_text_def Let_def civ civ' z_def [symmetric]
        s_def [symmetric] z'_def [symmetric] s'_def [symmetric])
  have two: "text_le (pad 2 a @ v) (pad 2 b @ w) \<longleftrightarrow> a < b \<or> a = b \<and> text_le v w"
    if "0 \<le> a" "a < n" "0 \<le> b" "b < n" "n \<le> 100" for a b n v w
    using that by (simp add: pad_le)
  have four: "text_le (pad 4 y @ v) (pad 4 y' @ w) \<longleftrightarrow> y < y' \<or> y = y' \<and> text_le v w" for v w
    using y by (simp add: pad_le)
  have month: "0 \<le> m" "m < 13" "0 \<le> m'" "m' < 13" and day: "0 \<le> d" "d < 32" "0 \<le> d'" "d' < 32"
    using c(2-4) c'(2-4) dd by linarith+
  have before: "z < z' \<longleftrightarrow> y < y' \<or> y = y' \<and> (m < m' \<or> m = m' \<and> d < d')"
    unfolding not_le [of z' z, symmetric] civil_order [OF civ' civ]
    by (cases y y' rule: linorder_cases; cases m m' rule: linorder_cases; simp add: not_le)
  have same: "z = z' \<longleftrightarrow> y = y' \<and> m = m' \<and> d = d'"
    using civ civ' c(1) c'(1) by (metis prod.inject)
  have "text_le (sqliteTimeLayout t) (sqliteTimeLayout u) \<longleftrightarrow>
      y < y' \<or> y = y' \<and> (m < m' \<or> m = m' \<and> (d < d' \<or> d = d' \<and> s \<le> s'))"
    unfolding f clock_order [OF s] four text_le.simps two [OF month, simplified] two [OF day, simplified]
      two [OF h(1,2) h'(1,2), simplified] two [OF h(3,4) h'(3,4), simplified] two [OF h(5,6) h'(5,6), simplified]
    by (simp only: less_irrefl simp_thms le_less)
  also have "\<dots> \<longleftrightarrow> z < z' \<or> z = z' \<and> s \<le> s'"
    unfolding before same by blast
  also have "\<dots> \<longleftrightarrow> z * 86400 + s \<le> z' * 86400 + s'" using s by (cases z z' rule: linorder_cases) auto
  finally show ?thesis by (simp add: z_def s_def z'_def s'_def)
qed

text \<open>So two texts are equal exactly when the instants agree to the second.\<close>

lemma text_le_Nil [simp]: "text_le s [] \<longleftrightarrow> s = []"
  by (cases s) simp_all

lemma text_le_antisym: "text_le s t \<Longrightarrow> text_le t s \<Longrightarrow> s = t"
  by (induction s t rule: text_le.induct) auto

lemma text_le_refl [simp]: "text_le s s"
  by (induction s) auto

lemma layout_eq:
  assumes "printable_time t" "printable_time u"
  shows "sqliteTimeLayout t = sqliteTimeLayout u \<longleftrightarrow> t div second = u div second"
  using text_le_layout [OF assms] text_le_layout [OF assms(2,1)] text_le_antisym
  by (metis order_antisym order_refl text_le_refl)

end
