(* ===== verification/Sqlite_Db.thy ===== *)
theory Sqlite_Db
  imports Sqlite_Time Config_Db
begin

text \<open>
  The database of the local test stack (\<^verbatim>\<open>sqliteSchema\<close> of \<^verbatim>\<open>internal/database/sqlite.go\<close>), as far as it differs
  from Postgres. A row's id is \<^verbatim>\<open>INTEGER PRIMARY KEY\<close>, one more than the largest in use, so the sequence of
  a table is not read; the columns are not bounded and the foreign keys are not enforced, since nothing
  switches \<^verbatim>\<open>PRAGMA foreign_keys\<close> on; and times are kept to the second, as text. The second part says when
  two outcomes agree, for the comparison of the repositories.
\<close>

section \<open>Tables\<close>

definition next_rowid :: "('r \<Rightarrow> int) \<Rightarrow> 'r table \<Rightarrow> int" where
  "next_rowid pk T = (if rows T = [] then 1 else Max (set (map pk (rows T))) + 1)"

definition sqlite_insert ::
  "('r \<Rightarrow> int) \<Rightarrow> ('r \<Rightarrow> 'k) \<Rightarrow> (int \<Rightarrow> 'r) \<Rightarrow> 'r table \<Rightarrow> (sql_err + nat) \<times> 'r table" where
  "sqlite_insert pk uk mk T = (
     let r = mk (next_rowid pk T)
     in if list_ex (\<lambda>x. pk x = pk r \<or> uk x = uk r) (rows T) then (Inl UniqueViolation, T)
        else (Inr 1, T\<lparr>rows := rows T @ [r]\<rparr>))"

text \<open>\<^verbatim>\<open>CURRENT_TIMESTAMP\<close>, as the driver reads it back.\<close>

definition sqlite_now :: "gotime \<Rightarrow> gotime" where
  "sqlite_now now = now div second * second"

section \<open>Agreement\<close>

definition same_rows :: "tables \<Rightarrow> tables \<Rightarrow> bool" where
  "same_rows t u \<longleftrightarrow> rows (environments t) = rows (environments u)
     \<and> rows (microservices t) = rows (microservices u) \<and> rows (flags t) = rows (flags u)
     \<and> rows (flag_values t) = rows (flag_values u) \<and> rows (appsettings t) = rows (appsettings u)
     \<and> rows (localizations t) = rows (localizations u)"

definition whole :: "gotime \<Rightarrow> bool" where
  "whole t \<longleftrightarrow> t mod second = 0 \<and> printable_time t"

lemma same_rows_refl [simp]: "same_rows t t"
  by (simp add: same_rows_def)

lemma whole_layout: "whole s \<Longrightarrow> whole t \<Longrightarrow> sqliteTimeLayout s = sqliteTimeLayout t \<longleftrightarrow> s = t"
  using layout_eq [of s t] by (auto simp: whole_def) (metis dvd_div_mult_self)

text \<open>Two calm connections with the same rows, the second on a clock of whole seconds.\<close>

definition twin :: "dbconn \<Rightarrow> dbconn \<Rightarrow> bool" where
  "twin db db' \<longleftrightarrow> calm db \<and> calm db' \<and> same_rows (tabs db) (tabs db') \<and> clock db' = sqlite_now (clock db)"

definition agree :: "('e + 'a) \<times> dbconn \<Rightarrow> ('e + 'a) \<times> dbconn \<Rightarrow> bool" where
  "agree r r' \<longleftrightarrow> fst r = fst r' \<and> twin (snd r) (snd r')"

lemma agree_return: "twin db db' \<Longrightarrow> agree (r, db) (r, db')"
  by (simp add: agree_def)

lemma agree_bind:
  assumes "agree m m'" and "\<And>x db db'. twin db db' \<Longrightarrow> agree (f x db) (f' x db')"
  shows "agree (bindE m f) (bindE m' f')"
  using assms by (cases m; cases m') (auto simp: agree_def bindE_def split: sum.splits)

lemma agree_wrap: "agree m m' \<Longrightarrow> agree (mapErr g m) (mapErr g m')"
  by (cases m; cases m') (auto simp: agree_def mapErr_def split: sum.splits)

lemma agree_query:
  assumes "twin db db'" and "\<And>t u. same_rows t u \<Longrightarrow> q t = q u"
  shows "agree (query q db) (query q db')"
  using assms by (simp add: agree_def twin_def)

lemma agree_exec:
  assumes "twin db db'"
    and "fst (st (clock db) (tabs db)) = fst (st' (sqlite_now (clock db)) (tabs db'))"
    and "same_rows (snd (st (clock db) (tabs db))) (snd (st' (sqlite_now (clock db)) (tabs db')))"
  shows "agree (exec st db) (exec st' db')"
  using assms by (simp add: agree_def twin_def exec_calm calm_def)

text \<open>A check that leaves the connection alone, before a step that may rely on it.\<close>

lemma agree_checked:
  assumes db: "twin db db'" and c: "agree (c db) (c db')" "snd (c db) = db" "snd (c db') = db'"
    and step: "\<And>u. c db' = (Inr u, db') \<Longrightarrow> agree (f db) (f' db')"
  shows "agree (bindE (c db) (\<lambda>_. f)) (bindE (c db') (\<lambda>_. f'))"
proof (cases "fst (c db')")
  case (Inl e)
  then show ?thesis using c db by (simp add: bindE_def split_beta agree_def)
next
  case (Inr u)
  then have "c db = (Inr u, db)" "c db' = (Inr u, db')" using c by (metis agree_def prod.collapse)+
  then show ?thesis using step by simp
qed

section \<open>Statements on the same rows\<close>

lemma table_update_same:
  assumes "rows T = rows U" and "\<And>r. r \<in> set (rows T) \<Longrightarrow> P r = Q r"
  shows "fst (table_update uk P f T) = fst (table_update uk Q f U)
    \<and> rows (snd (table_update uk P f T)) = rows (snd (table_update uk Q f U))"
proof -
  have same: "map (\<lambda>r. if P r then f r else r) (rows T) = map (\<lambda>r. if Q r then f r else r) (rows U)"
    "filter P (rows T) = filter Q (rows U)"
    using assms by (auto cong: map_cong filter_cong)
  show ?thesis unfolding table_update_def Let_def same by (simp add: assms(1) del: map_map)
qed

lemma next_rowid_fresh: "r \<in> set (rows T) \<Longrightarrow> pk r \<noteq> next_rowid pk T"
proof -
  assume r: "r \<in> set (rows T)"
  then have "next_rowid pk T = Max (pk ` set (rows T)) + 1" by (auto simp: next_rowid_def)
  moreover have "pk r \<le> Max (pk ` set (rows T))" using r by simp
  ultimately show ?thesis by linarith
qed

lemma insert_same:
  assumes "rows T = rows U" "seq U = next_rowid pk U"
    and "\<And>n. pk (mk n) = n" "uk (mk (next_rowid pk U)) \<notin> uk ` set (rows U)"
  shows "fst (sqlite_insert pk uk mk T) = Inr 1" "fst (table_insert pk uk mk U) = Inr 1"
    "rows (snd (sqlite_insert pk uk mk T)) = rows T @ [mk (next_rowid pk T)]"
    "rows (snd (table_insert pk uk mk U)) = rows T @ [mk (next_rowid pk T)]"
proof -
  have n: "next_rowid pk T = next_rowid pk U" using assms(1) by (simp add: next_rowid_def)
  have "\<not> list_ex (\<lambda>x. pk x = pk (mk (next_rowid pk U)) \<or> uk x = uk (mk (next_rowid pk U))) (rows U)"
    unfolding list_ex_iff assms(3) using assms(4) by (metis image_eqI next_rowid_fresh)
  then show "fst (sqlite_insert pk uk mk T) = Inr 1" "fst (table_insert pk uk mk U) = Inr 1"
    "rows (snd (sqlite_insert pk uk mk T)) = rows T @ [mk (next_rowid pk T)]"
    "rows (snd (table_insert pk uk mk U)) = rows T @ [mk (next_rowid pk T)]"
    using assms(1,2) n by (simp_all add: sqlite_insert_def table_insert_def Let_def)
qed

lemma insert_agrees:
  assumes "rows T = rows U" "seq U = next_rowid pk U"
  shows "fst (sqlite_insert pk uk mk T) = fst (table_insert pk uk mk U)
    \<and> rows (snd (sqlite_insert pk uk mk T)) = rows (snd (table_insert pk uk mk U))"
proof -
  have "next_rowid pk T = next_rowid pk U" using assms(1) by (simp add: next_rowid_def)
  then show ?thesis using assms by (simp add: sqlite_insert_def table_insert_def Let_def)
qed

end
