(* ===== verification/Flags_Sqlite.thy ===== *)
theory Flags_Sqlite
  imports Sqlite_Db Flags_Service_Laws
begin

text \<open>
  \<^verbatim>\<open>internal/flagsconfig/repository_sqlite.go\<close> on the schema of \<^verbatim>\<open>internal/database/sqlite.go\<close>: the flags
  repository of the local test stack. The queries are those of the Postgres repository; what differs is
  the database (\<open>Sqlite_Db\<close>).
\<close>

section \<open>Statements\<close>

definition sqlite_fv_matches :: "FlagValue \<Rightarrow> FlagValue \<Rightarrow> bool" where
  "sqlite_fv_matches input r \<longleftrightarrow> fv_ID r = fv_ID input
     \<and> (case fv_ExpectedUpdatedAt input of None \<Rightarrow> True
        | Some e \<Rightarrow> sqliteTimeLayout (fv_UpdatedAt r) = sqliteTimeLayout e)"

definition sqlite_update_fv_stmt :: "FlagValue \<Rightarrow> stmt" where
  "sqlite_update_fv_stmt input now t =
     (case table_update fv_key (sqlite_fv_matches input) (fv_write input (sqlite_now now)) (flag_values t)
      of (res, T) \<Rightarrow> (res, t\<lparr>flag_values := T\<rparr>))"

definition sqlite_insert_flag_stmt :: "Flag \<Rightarrow> stmt" where
  "sqlite_insert_flag_stmt input now t =
     (case sqlite_insert flag_ID flag_FlagKey
             (\<lambda>n. \<lparr>flag_ID = n, flag_FlagKey = flag_FlagKey input,
                   flag_IsActive = flag_IsActive input, flag_UpdatedAt = sqlite_now now\<rparr>) (flags t)
      of (res, T) \<Rightarrow> (res, t\<lparr>flags := T\<rparr>))"

definition sqlite_insert_fv_stmt :: "FlagValue \<Rightarrow> stmt" where
  "sqlite_insert_fv_stmt input now t =
     (case sqlite_insert fv_ID fv_key
             (\<lambda>n. \<lparr>fv_ID = n, fv_EnvironmentID = fv_EnvironmentID input, fv_FlagId = fv_FlagId input,
                   fv_Value = fv_Value input, fv_Enabled = fv_Enabled input,
                   fv_UpdatedAt = sqlite_now now, fv_ExpectedUpdatedAt = None\<rparr>) (flag_values t)
      of (res, T) \<Rightarrow> (res, t\<lparr>flag_values := T\<rparr>))"

section \<open>Reads\<close>

definition sqlite_GetFlagsByID :: "int \<Rightarrow> dbconn \<Rightarrow> Flag flags_result" where
  "sqlite_GetFlagsByID i db =
     bindE (flags_wrap ''get flag by id''
             (query (\<lambda>t. find_row (\<lambda>r. flag_ID r = i) (flags t)) db))
       (\<lambda>res db. case res of None \<Rightarrow> (Inl ErrFlagNotFound, db) | Some cfg \<Rightarrow> (Inr cfg, db))"

definition sqlite_GetFlagValueByID :: "int \<Rightarrow> dbconn \<Rightarrow> FlagValue flags_result" where
  "sqlite_GetFlagValueByID i db =
     bindE (flags_wrap ''get flag value by id''
             (query (\<lambda>t. find_row (\<lambda>r. fv_ID r = i) (flag_values t)) db))
       (\<lambda>res db. case res of None \<Rightarrow> (Inl ErrFlagNotFound, db) | Some val \<Rightarrow> (Inr val, db))"

definition sqlite_getFlagValueWithKey :: "int \<Rightarrow> dbconn \<Rightarrow> (FlagValue \<times> string) flags_result" where
  "sqlite_getFlagValueWithKey i db =
     bindE (flags_wrap ''get flag value with key''
             (query (\<lambda>t. find (\<lambda>(fv, f). fv_ID fv = i) (fv_join t)) db))
       (\<lambda>res db. case res of None \<Rightarrow> (Inl ErrFlagNotFound, db)
                  | Some (fv, f) \<Rightarrow> (Inr (fv, flag_FlagKey f), db))"

definition sqlite_getFlagByKey :: "string \<Rightarrow> dbconn \<Rightarrow> Flag flags_result" where
  "sqlite_getFlagByKey flagKey db =
     bindE (flags_wrap ''get flag by key''
             (query (\<lambda>t. find_row (\<lambda>r. flag_FlagKey r = flagKey) (flags t)) db))
       (\<lambda>res db. case res of None \<Rightarrow> (Inl ErrFlagNotFound, db) | Some cfg \<Rightarrow> (Inr cfg, db))"

definition sqlite_getFlagValueByEnvAndFlag ::
  "int \<Rightarrow> int \<Rightarrow> dbconn \<Rightarrow> (FlagValue \<times> string) flags_result" where
  "sqlite_getFlagValueByEnvAndFlag environmentID flagID db =
     bindE (flags_wrap ''get flag value by env and flag''
             (query (\<lambda>t. find (\<lambda>(fv, f). fv_EnvironmentID fv = environmentID \<and> fv_FlagId fv = flagID)
                          (fv_join t)) db))
       (\<lambda>res db. case res of None \<Rightarrow> (Inl ErrFlagNotFound, db)
                  | Some (fv, f) \<Rightarrow> (Inr (fv, flag_FlagKey f), db))"

definition sqlite_flags_count :: "(tables \<Rightarrow> nat) \<Rightarrow> dbconn \<Rightarrow> nat flags_result" where
  "sqlite_flags_count q db = flags_wrap ''count rows'' (query q db)"

definition sqlite_ListFlags :: "FlagFilter \<Rightarrow> dbconn \<Rightarrow> Flag list flags_result" where
  "sqlite_ListFlags filt db = flags_wrap ''list flags''
     (query (\<lambda>t. limit_offset (ff_Page filt) (order_by flag_ID
        (filter (\<lambda>r. ff_FlagKey filt \<noteq> [] \<longrightarrow> flag_FlagKey r = ff_FlagKey filt) (rows (flags t))))) db)"

definition sqlite_ListFlagValues :: "FlagValueFilter \<Rightarrow> dbconn \<Rightarrow> FlagValueRow list flags_result" where
  "sqlite_ListFlagValues filt db = flags_wrap ''list flag values''
     (query (\<lambda>t. map fv_row_of (limit_offset (fvf_Page filt) (order_by (\<lambda>(fv, f). fv_ID fv)
        (filter (\<lambda>(fv, f).
            (fvf_EnvironmentID filt > 0 \<longrightarrow> fv_EnvironmentID fv = fvf_EnvironmentID filt)
            \<and> (fvf_FlagKey filt \<noteq> [] \<longrightarrow> flag_FlagKey f = fvf_FlagKey filt)) (fv_join t))))) db)"

definition sqlite_flags_ListAllForReconcile :: "gotime \<Rightarrow> dbconn \<Rightarrow> ReconcileRow list flags_result" where
  "sqlite_flags_ListAllForReconcile since db = flags_wrap ''list flags for reconcile''
     (query (\<lambda>t. map reconcile_row_of (order_by (\<lambda>(fv, f). fv_ID fv)
        (filter (\<lambda>(fv, f). IsZero since
            \<or> text_le (sqliteTimeLayout since) (sqliteTimeLayout (fv_UpdatedAt fv))) (fv_join t)))) db)"

section \<open>Writes\<close>

definition sqlite_flags_noRowsErr :: "FlagValue \<Rightarrow> dbconn \<Rightarrow> flags_error \<times> dbconn" where
  "sqlite_flags_noRowsErr input db = (case fv_ExpectedUpdatedAt input of
     None \<Rightarrow> (ErrFlagNotFound, db)
   | Some _ \<Rightarrow> (case sqlite_GetFlagValueByID (fv_ID input) db of
        (Inl err, db) \<Rightarrow> (err, db)
      | (Inr _, db) \<Rightarrow> (ErrConflict, db)))"

definition sqlite_UpdateFlagValue :: "FlagValue \<Rightarrow> dbconn \<Rightarrow> (FlagValue \<times> string) flags_result" where
  "sqlite_UpdateFlagValue input db =
     bindE (flags_wrap ''update flag value'' (exec (sqlite_update_fv_stmt input) db))
       (\<lambda>rowsAffected db.
          if rowsAffected = 0
          then (case sqlite_flags_noRowsErr input db of (err, db) \<Rightarrow> (Inl err, db))
          else sqlite_getFlagValueWithKey (fv_ID input) db)"

definition sqlite_CreateFlag :: "Flag \<Rightarrow> dbconn \<Rightarrow> Flag flags_result" where
  "sqlite_CreateFlag input db =
     bindE (sqlite_flags_count
             (\<lambda>t. length (filter (\<lambda>r. flag_FlagKey r = flag_FlagKey input) (rows (flags t)))) db)
       (\<lambda>taken db.
          if taken > 0 then (Inl ErrFlagExists, db)
          else bindE (mapErr (\<lambda>e. if IsUniqueViolation e then ErrFlagExists
                                  else FlagsWrapped ''create flag'')
                       (exec (sqlite_insert_flag_stmt input) db))
                 (\<lambda>_ db. sqlite_getFlagByKey (flag_FlagKey input) db))"

definition sqlite_checkFlagValueRefs :: "FlagValue \<Rightarrow> dbconn \<Rightarrow> unit flags_result" where
  "sqlite_checkFlagValueRefs input db =
     bindE (sqlite_flags_count (\<lambda>t. length (filter (\<lambda>r. env_ID r = fv_EnvironmentID input)
                                     (rows (environments t)))) db)
       (\<lambda>envs db. if envs = 0 then (Inl ErrEnvironmentNotFound, db)
     else bindE (sqlite_flags_count (\<lambda>t. length (filter (\<lambda>r. flag_ID r = fv_FlagId input)
                                           (rows (flags t)))) db)
       (\<lambda>fls db. if fls = 0 then (Inl ErrFlagNotFound, db)
     else bindE (sqlite_flags_count (\<lambda>t. length (filter (\<lambda>r. fv_EnvironmentID r = fv_EnvironmentID input
                                                   \<and> fv_FlagId r = fv_FlagId input)
                                           (rows (flag_values t)))) db)
       (\<lambda>taken db. if taken > 0 then (Inl ErrFlagValueExists, db) else (Inr (), db))))"

definition sqlite_CreateFlagValue :: "FlagValue \<Rightarrow> dbconn \<Rightarrow> (FlagValue \<times> string) flags_result" where
  "sqlite_CreateFlagValue input db =
     bindE (sqlite_checkFlagValueRefs input db)
       (\<lambda>_ db. bindE (mapErr (\<lambda>e. if IsUniqueViolation e then ErrFlagValueExists
                                 else FlagsWrapped ''create flag value'')
                        (exec (sqlite_insert_fv_stmt input) db))
         (\<lambda>_ db. sqlite_getFlagValueByEnvAndFlag (fv_EnvironmentID input) (fv_FlagId input) db))"

definition sqlite_DeleteFlagValue :: "int \<Rightarrow> dbconn \<Rightarrow> DeletedFlagValue flags_result" where
  "sqlite_DeleteFlagValue i db =
     bindE (flags_wrap ''read flag value for delete''
             (query (\<lambda>t. find (\<lambda>(fv, f). fv_ID fv = i) (fv_join t)) db))
       (\<lambda>res db. case res of
          None \<Rightarrow> (Inl ErrFlagNotFound, db)
        | Some (fv, f) \<Rightarrow>
            bindE (flags_wrap ''delete flag value'' (exec (delete_fv_stmt i) db))
              (\<lambda>rowsAffected db.
                 if rowsAffected = 0 then (Inl ErrFlagNotFound, db)
                 else (Inr \<lparr>del_EnvironmentID = fv_EnvironmentID fv, del_FlagKey = flag_FlagKey f\<rparr>, db)))"

definition sqlite_DeleteFlag :: "int \<Rightarrow> dbconn \<Rightarrow> DeletedFlagValue list flags_result" where
  "sqlite_DeleteFlag i db =
     bindE (flags_wrap ''begin delete flag'' (query (\<lambda>_. ()) db)) (\<lambda>_ db.
     bindE (flags_tx ''read flag for delete'' (\<lambda>t. find_row (\<lambda>f. flag_ID f = i) (flags t)) db)
       (\<lambda>res db. case res of
          None \<Rightarrow> (Inl ErrFlagNotFound, db)
        | Some f \<Rightarrow>
     bindE (flags_tx ''list flag values for delete'' (flag_removed i (flag_FlagKey f)) db) (\<lambda>removed db.
     bindE (flags_tx ''delete flag values'' (\<lambda>_. ()) db) (\<lambda>_ db.
     bindE (flags_tx ''delete flag'' (\<lambda>_. ()) db) (\<lambda>_ db.
     bindE (flags_tx ''commit delete flag'' (\<lambda>_. ()) db) (\<lambda>_ db.
       (Inr removed, db\<lparr>tabs := delete_flag_tables i (tabs db)\<rparr>)))))))"

definition Flags_SQLiteRepository :: flags_repository where
  "Flags_SQLiteRepository = \<lparr>
     repo_GetFlagsByID = sqlite_GetFlagsByID, repo_GetFlagValueByID = sqlite_GetFlagValueByID,
     repo_UpdateFlagValue = sqlite_UpdateFlagValue, repo_ListFlags = sqlite_ListFlags,
     repo_CreateFlag = sqlite_CreateFlag, repo_DeleteFlag = sqlite_DeleteFlag,
     repo_ListFlagValues = sqlite_ListFlagValues, repo_CreateFlagValue = sqlite_CreateFlagValue,
     repo_DeleteFlagValue = sqlite_DeleteFlagValue\<rparr>"

end
