(* ===== verification/Flags_Sqlite_Laws.thy ===== *)
theory Flags_Sqlite_Laws
  imports Flags_Sqlite Flags_Repo_Spec
begin

text \<open>
  The two flag repositories compared. On a calm connection, for times of whole seconds and as long as no
  id was skipped, the SQLite repository answers every call of the service as the Postgres repository
  does on a clock of whole seconds, publishes the same, and leaves the same rows.
\<close>

section \<open>The reads are the same\<close>

lemma sqlite_reads:
  "sqlite_GetFlagsByID = GetFlagsByID" "sqlite_GetFlagValueByID = GetFlagValueByID"
  "sqlite_getFlagValueWithKey = getFlagValueWithKey" "sqlite_getFlagByKey = getFlagByKey"
  "sqlite_getFlagValueByEnvAndFlag = getFlagValueByEnvAndFlag" "sqlite_flags_count = flags_count"
  "sqlite_ListFlags = ListFlags" "sqlite_ListFlagValues = ListFlagValues"
  "sqlite_flags_noRowsErr = flags_noRowsErr" "sqlite_checkFlagValueRefs = checkFlagValueRefs"
  "sqlite_DeleteFlagValue = DeleteFlagValue" "sqlite_DeleteFlag = DeleteFlag"
proof -
  show 1: "sqlite_GetFlagValueByID = GetFlagValueByID" and 2: "sqlite_flags_count = flags_count"
    by (intro ext; simp add: sqlite_GetFlagValueByID_def GetFlagValueByID_def
        sqlite_flags_count_def flags_count_def)+
  show "sqlite_flags_noRowsErr = flags_noRowsErr"
    by (intro ext) (simp only: sqlite_flags_noRowsErr_def flags_noRowsErr_def 1)
  show "sqlite_checkFlagValueRefs = checkFlagValueRefs"
    by (intro ext) (simp only: sqlite_checkFlagValueRefs_def checkFlagValueRefs_def 2)
  show "sqlite_GetFlagsByID = GetFlagsByID" "sqlite_getFlagByKey = getFlagByKey"
    "sqlite_getFlagValueWithKey = getFlagValueWithKey"
    "sqlite_getFlagValueByEnvAndFlag = getFlagValueByEnvAndFlag"
    by (intro ext; simp add: sqlite_GetFlagsByID_def GetFlagsByID_def sqlite_getFlagByKey_def
        getFlagByKey_def sqlite_getFlagValueWithKey_def getFlagValueWithKey_def
        sqlite_getFlagValueByEnvAndFlag_def getFlagValueByEnvAndFlag_def)+
  show "sqlite_ListFlags = ListFlags" "sqlite_ListFlagValues = ListFlagValues"
    by (intro ext; simp add: sqlite_ListFlags_def ListFlags_def sqlite_ListFlagValues_def ListFlagValues_def)+
  show "sqlite_DeleteFlagValue = DeleteFlagValue" "sqlite_DeleteFlag = DeleteFlag"
    by (intro ext; simp add: sqlite_DeleteFlagValue_def DeleteFlagValue_def sqlite_DeleteFlag_def DeleteFlag_def)+
qed

lemmas agree_flags_query = agree_wrap [OF agree_query, where g = "\<lambda>_. FlagsWrapped msg" for msg,
  folded flags_wrap_def]

lemma agree_lookup:
  assumes "twin db db'" and "\<And>t u. same_rows t u \<Longrightarrow> q t = q u"
    and "\<And>x db db'. twin db db' \<Longrightarrow> agree (k x db) (k x db')"
  shows "agree (bindE (flags_wrap msg (query q db)) k) (bindE (flags_wrap msg (query q db')) k)"
  by (rule agree_bind [OF agree_flags_query [OF assms(1,2)] assms(3)])

lemma agree_read:
  assumes "twin db db'"
  shows "agree (GetFlagValueByID i db) (GetFlagValueByID i db')"
    "agree (getFlagValueWithKey i db) (getFlagValueWithKey i db')"
    "agree (getFlagByKey k db) (getFlagByKey k db')"
    "agree (getFlagValueByEnvAndFlag e i db) (getFlagValueByEnvAndFlag e i db')"
  unfolding GetFlagValueByID_def getFlagValueWithKey_def getFlagByKey_def getFlagValueByEnvAndFlag_def
  by (rule agree_lookup [OF assms], simp add: fv_join_def same_rows_def find_row_def,
      simp add: agree_return split: option.splits)+

lemma agree_noRows: "twin db db' \<Longrightarrow> agree (case flags_noRowsErr v db of (e, d) \<Rightarrow> (Inl e, d))
    (case flags_noRowsErr v db' of (e, d) \<Rightarrow> (Inl e, d))"
  using agree_read(1) [of db db' "fv_ID v"]
  by (auto simp: flags_noRowsErr_def agree_def split: option.splits prod.splits sum.splits)

section \<open>The writes agree\<close>

text \<open>No id was skipped: the sequences stand where SQLite would continue.\<close>

definition in_step :: "tables \<Rightarrow> bool" where
  "in_step t \<longleftrightarrow> seq (flags t) = next_rowid flag_ID (flags t)
     \<and> seq (flag_values t) = next_rowid fv_ID (flag_values t)"

definition whole_times :: "tables \<Rightarrow> bool" where
  "whole_times t \<longleftrightarrow> (\<forall>r \<in> set (rows (flag_values t)). whole (fv_UpdatedAt r))"

definition whole_version :: "FlagValue \<Rightarrow> bool" where
  "whole_version v \<longleftrightarrow> (case fv_ExpectedUpdatedAt v of None \<Rightarrow> True | Some e \<Rightarrow> whole e)"

definition fits :: "FlagValue \<Rightarrow> bool" where
  "fits v \<longleftrightarrow> varchar 4000 (fv_Value v) \<and> smallint (fv_Enabled v)"

lemma matches_whole:
  assumes "whole_version input" "whole (fv_UpdatedAt r)"
  shows "sqlite_fv_matches input r = fv_matches input r"
  using assms by (auto simp: sqlite_fv_matches_def fv_matches_def whole_version_def whole_layout split: option.splits)

lemma update_stmt_agrees:
  assumes "twin db db'" "whole_times (tabs db)" "whole_version input" "fits input"
  shows "agree (exec (sqlite_update_fv_stmt input) db) (exec (update_fv_stmt input) db')"
proof -
  let ?t = "tabs db" and ?u = "tabs db'" and ?now = "sqlite_now (clock db)"
  have same: "same_rows ?t ?u" using assms(1) by (simp add: twin_def)
  have "sqlite_fv_matches input r = fv_matches input r" if "r \<in> set (rows (flag_values ?t))" for r
    using matches_whole assms(2,3) that by (simp add: whole_times_def)
  note T = table_update_same [of "flag_values ?t" "flag_values ?u", OF _ this, where uk = fv_key and f = "fv_write input ?now"]
  show ?thesis
    by (rule agree_exec [OF assms(1)])
      (use T same assms(4) in \<open>simp_all add: sqlite_update_fv_stmt_def update_fv_stmt_def fits_def
        same_rows_def split_beta\<close>)
qed

lemma UpdateFlagValue_agrees:
  assumes "twin db db'" "whole_times (tabs db)" "whole_version input" "fits input"
  shows "agree (sqlite_UpdateFlagValue input db) (UpdateFlagValue input db')"
  unfolding sqlite_UpdateFlagValue_def UpdateFlagValue_def sqlite_reads flags_wrap_def
  by (rule agree_bind [OF agree_wrap [OF update_stmt_agrees [OF assms]]])
    (simp add: agree_noRows agree_read)

lemma CreateFlag_agrees:
  assumes db: "twin db db'" and step: "in_step (tabs db')"
    and fits: "varchar 128 (flag_FlagKey f)" "smallint (flag_IsActive f)"
  shows "agree (sqlite_CreateFlag f db) (CreateFlag f db')"
proof -
  let ?n = "\<lambda>db. length (filter (\<lambda>r. flag_FlagKey r = flag_FlagKey f) (rows (flags (tabs db))))"
  have same: "same_rows (tabs db) (tabs db')" and calm: "calm db" "calm db'"
    using db by (simp_all add: twin_def)
  then have n: "?n db = ?n db'" by (simp add: same_rows_def)
  show ?thesis
  proof (cases "?n db' = 0")
    case False
    then show ?thesis using n calm db
      by (simp add: sqlite_CreateFlag_def CreateFlag_def sqlite_reads flags_count_def agree_return)
  next
    case True
    let ?mk = "\<lambda>i. \<lparr>flag_ID = i, flag_FlagKey = flag_FlagKey f, flag_IsActive = flag_IsActive f,
      flag_UpdatedAt = sqlite_now (clock db)\<rparr>"
    have "flag_FlagKey (?mk i) \<notin> flag_FlagKey ` set (rows (flags (tabs db')))" for i
      using True by (auto simp: filter_empty_conv)
    note ins = insert_same [of "flags (tabs db)" "flags (tabs db')" flag_ID ?mk flag_FlagKey, OF _ _ _ this]
    have "agree (exec (sqlite_insert_flag_stmt f) db) (exec (insert_flag_stmt f) db')"
      by (rule agree_exec [OF db])
        (use ins same step fits in \<open>simp_all add: sqlite_insert_flag_stmt_def insert_flag_stmt_def
          same_rows_def in_step_def split_beta\<close>)
    then show ?thesis using n True calm
      by (simp add: sqlite_CreateFlag_def CreateFlag_def sqlite_reads flags_count_def agree_bind
          agree_wrap agree_read)
  qed
qed

lemma CreateFlagValue_agrees:
  assumes db: "twin db db'" and step: "in_step (tabs db')" and fits: "fits v"
  shows "agree (sqlite_CreateFlagValue v db) (CreateFlagValue v db')"
proof -
  have same: "same_rows (tabs db) (tabs db')" and calm: "calm db" "calm db'"
    using db by (simp_all add: twin_def)
  have check: "fst (checkFlagValueRefs v db) = fst (checkFlagValueRefs v db')"
    "snd (checkFlagValueRefs v db) = db" "snd (checkFlagValueRefs v db') = db'"
    using same calm by (simp_all add: checkFlagValueRefs_def flags_count_def same_rows_def)
  show ?thesis
  proof (cases "fst (checkFlagValueRefs v db')")
    case (Inl e)
    then show ?thesis using check db
      by (simp add: sqlite_CreateFlagValue_def CreateFlagValue_def sqlite_reads bindE_def split_beta agree_return)
  next
    case (Inr u)
    then have ok: "checkFlagValueRefs v db = (Inr u, db)" "checkFlagValueRefs v db' = (Inr u, db')"
      using check by (metis prod.collapse)+
    note refs = checkFlagValueRefs_calm [OF calm(2) ok(2)]
    let ?mk = "\<lambda>n. \<lparr>fv_ID = n, fv_EnvironmentID = fv_EnvironmentID v, fv_FlagId = fv_FlagId v,
                   fv_Value = fv_Value v, fv_Enabled = fv_Enabled v,
                   fv_UpdatedAt = sqlite_now (clock db), fv_ExpectedUpdatedAt = None\<rparr>"
    have "fv_key (?mk i) \<notin> fv_key ` set (rows (flag_values (tabs db')))" for i
      using refs(4) by (auto simp: fv_key_def)
    note ins = insert_same [of "flag_values (tabs db)" "flag_values (tabs db')" fv_ID ?mk fv_key, OF _ _ _ this]
    have "agree (exec (sqlite_insert_fv_stmt v) db) (exec (insert_fv_stmt v) db')"
    proof (rule agree_exec [OF db])
      have env: "fv_EnvironmentID v \<in> env_ID ` set (rows (environments (tabs db')))"
        "fv_FlagId v \<in> flag_ID ` set (rows (flags (tabs db')))" using refs(2,3) by force+
      obtain T where T: "table_insert fv_ID fv_key ?mk (flag_values (tabs db')) = (Inr 1, T)"
        "rows T = rows (flag_values (tabs db)) @ [?mk (next_rowid fv_ID (flag_values (tabs db)))]"
        using ins(2,4) same step by (cases "table_insert fv_ID fv_key ?mk (flag_values (tabs db'))")
          (auto simp: same_rows_def in_step_def)
      have S: "insert_fv_stmt v (sqlite_now (clock db)) (tabs db') = (Inr 1, (tabs db')\<lparr>flag_values := T\<rparr>)"
        using env fits T by (simp add: insert_fv_stmt_def fits_def)
      show "fst (sqlite_insert_fv_stmt v (clock db) (tabs db))
          = fst (insert_fv_stmt v (sqlite_now (clock db)) (tabs db'))"
        "same_rows (snd (sqlite_insert_fv_stmt v (clock db) (tabs db)))
          (snd (insert_fv_stmt v (sqlite_now (clock db)) (tabs db')))"
        unfolding S using ins(1,3) same step T
        by (simp_all add: sqlite_insert_fv_stmt_def same_rows_def in_step_def split_beta)
    qed
    then show ?thesis
      by (simp add: sqlite_CreateFlagValue_def CreateFlagValue_def sqlite_reads ok agree_bind agree_wrap agree_read)
  qed
qed

lemma DeleteFlagValue_agrees:
  assumes db: "twin db db'"
  shows "agree (DeleteFlagValue i db) (DeleteFlagValue i db')"
proof -
  have "agree (exec (delete_fv_stmt i) d) (exec (delete_fv_stmt i) d')" if "twin d d'" for d d'
    by (rule agree_exec [OF that]) (use that in \<open>simp_all add: delete_fv_stmt_def table_delete_def
      twin_def same_rows_def\<close>)
  then show ?thesis
    unfolding DeleteFlagValue_def
    by (intro agree_lookup [OF db]) (auto simp: fv_join_def same_rows_def agree_return flags_wrap_def
        intro!: agree_bind agree_wrap split: option.splits)
qed

lemma DeleteFlag_agrees:
  assumes db: "twin db db'"
  shows "agree (DeleteFlag i db) (DeleteFlag i db')"
  using assms
  by (auto simp: DeleteFlag_def twin_def flags_tx_def agree_def same_rows_def find_row_def
      flag_removed_def delete_flag_tables_def table_delete_def calm_def split: option.splits)

lemma agree_list:
  assumes "twin db db'"
  shows "agree (GetFlagsByID i db) (GetFlagsByID i db')" "agree (ListFlags filt db) (ListFlags filt db')"
    "agree (ListFlagValues vfilt db) (ListFlagValues vfilt db')"
proof -
  show "agree (GetFlagsByID i db) (GetFlagsByID i db')"
    unfolding GetFlagsByID_def
    by (rule agree_lookup [OF assms], simp add: same_rows_def find_row_def,
        simp add: agree_return split: option.splits)
  show "agree (ListFlags filt db) (ListFlags filt db')" "agree (ListFlagValues vfilt db) (ListFlagValues vfilt db')"
    unfolding ListFlags_def ListFlagValues_def
    by (rule agree_flags_query [OF assms], simp add: same_rows_def fv_join_def)+
qed

section \<open>The service on repositories that agree\<close>

locale agreeing_repositories =
  fixes conc abst :: flags_repository
    and ready :: "dbconn \<Rightarrow> dbconn \<Rightarrow> bool"
  assumes ready_twin: "ready db db' \<Longrightarrow> twin db db'"
    and by_id: "twin db db' \<Longrightarrow> agree (repo_GetFlagsByID conc i db) (repo_GetFlagsByID abst i db')"
    and value_by_id: "twin db db' \<Longrightarrow> agree (repo_GetFlagValueByID conc i db) (repo_GetFlagValueByID abst i db')"
    and list: "twin db db' \<Longrightarrow> agree (repo_ListFlags conc filt db) (repo_ListFlags abst filt db')"
    and list_values: "twin db db' \<Longrightarrow> agree (repo_ListFlagValues conc vfilt db) (repo_ListFlagValues abst vfilt db')"
    and update: "ready db db' \<Longrightarrow> valid_value v \<Longrightarrow> whole_version v \<Longrightarrow>
      agree (repo_UpdateFlagValue conc v db) (repo_UpdateFlagValue abst v db')"
    and create: "ready db db' \<Longrightarrow> valid_flag f \<Longrightarrow> agree (repo_CreateFlag conc f db) (repo_CreateFlag abst f db')"
    and create_value: "ready db db' \<Longrightarrow> valid_value v \<Longrightarrow>
      agree (repo_CreateFlagValue conc v db) (repo_CreateFlagValue abst v db')"
    and delete: "twin db db' \<Longrightarrow> agree (repo_DeleteFlag conc i db) (repo_DeleteFlag abst i db')"
    and delete_value: "twin db db' \<Longrightarrow> agree (repo_DeleteFlagValue conc i db) (repo_DeleteFlagValue abst i db')"

text \<open>Two outcomes of a service call: the same answer, the same messages, the same rows.\<close>

definition same_outcome :: "(flags_error + 'a) \<times> 'w app \<Rightarrow> (flags_error + 'a) \<times> 'w app \<Rightarrow> bool" where
  "same_outcome r r' \<longleftrightarrow> fst r = fst r' \<and> app_pub (snd r) = app_pub (snd r')
     \<and> same_rows (tabs (app_db (snd r))) (tabs (app_db (snd r')))"

definition outcome_twin :: "(flags_error + 'a) \<times> 'w app \<Rightarrow> (flags_error + 'a) \<times> 'w app \<Rightarrow> bool" where
  "outcome_twin r r' \<longleftrightarrow> fst r = fst r' \<and> app_pub (snd r) = app_pub (snd r')
     \<and> twin (app_db (snd r)) (app_db (snd r'))"

lemma outcome_same: "outcome_twin r r' \<Longrightarrow> same_outcome r r'"
  by (simp add: outcome_twin_def same_outcome_def twin_def)

lemma outcome_on_db:
  "agree (f (app_db a)) (g (app_db b)) \<Longrightarrow> app_pub a = app_pub b \<Longrightarrow> outcome_twin (on_db f a) (on_db g b)"
  by (simp add: outcome_twin_def agree_def on_db_eq)

lemma outcome_bind:
  assumes "outcome_twin m m'"
    and "\<And>x a b. app_pub a = app_pub b \<Longrightarrow> twin (app_db a) (app_db b) \<Longrightarrow> outcome_twin (f x a) (f x b)"
  shows "outcome_twin (bindE m f) (bindE m' f)"
  using assms by (cases m; cases m') (auto simp: outcome_twin_def bindE_def split: sum.splits)

lemma outcome_publish:
  assumes "app_pub a = app_pub b" "twin (app_db a) (app_db b)"
  shows "outcome_twin (Inr x, flags_publish pub v k a) (Inr x, flags_publish pub v k b)"
    "outcome_twin (Inr x, flags_purge pub d a) (Inr x, flags_purge pub d b)"
    "outcome_twin (Inr x, fold (flags_purge pub) ds a) (Inr x, fold (flags_purge pub) ds b)"
proof -
  show "outcome_twin (Inr x, flags_publish pub v k a) (Inr x, flags_publish pub v k b)"
    "outcome_twin (Inr x, flags_purge pub d a) (Inr x, flags_purge pub d b)"
    using assms by (simp_all add: outcome_twin_def flags_publish_def flags_purge_def best_effort_def)
  show "outcome_twin (Inr x, fold (flags_purge pub) ds a) (Inr x, fold (flags_purge pub) ds b)"
    using assms
    by (induction ds arbitrary: a b) (simp_all add: outcome_twin_def flags_purge_def best_effort_def)
qed

lemma outcome_refuse: "app_pub a = app_pub b \<Longrightarrow> twin (app_db a) (app_db b) \<Longrightarrow> outcome_twin (Inl e, a) (Inl e, b)"
  by (simp add: outcome_twin_def)

context agreeing_repositories
begin

lemma reads_agree:
  assumes "ready (app_db a) (app_db b)" "app_pub a = app_pub b"
  shows "outcome_twin (FlagService_GetFlagByID conc i a) (FlagService_GetFlagByID abst i b)"
    "outcome_twin (FlagService_GetFlagValueByID conc i a) (FlagService_GetFlagValueByID abst i b)"
    "outcome_twin (FlagService_ListFlags conc filt a) (FlagService_ListFlags abst filt b)"
    "outcome_twin (FlagService_ListFlagValues conc vfilt a) (FlagService_ListFlagValues abst vfilt b)"
  unfolding FlagService_GetFlagByID_def FlagService_GetFlagValueByID_def FlagService_ListFlags_def
    FlagService_ListFlagValues_def
  using assms ready_twin [OF assms(1)]
  by (simp_all add: outcome_on_db outcome_refuse by_id value_by_id list list_values)

lemma update_agrees:
  assumes "ready (app_db a) (app_db b)" "app_pub a = app_pub b" "whole_version v"
  shows "outcome_twin (FlagService_UpdateFlagValue conc pub v a) (FlagService_UpdateFlagValue abst pub v b)"
  using assms ready_twin [OF assms(1)]
  by (auto simp: FlagService_UpdateFlagValue_def outcome_refuse valid_value_def simp del: checkValue_Inr split: sum.splits
      intro!: outcome_bind outcome_on_db update outcome_publish)

lemma create_agrees:
  assumes "ready (app_db a) (app_db b)" "app_pub a = app_pub b"
  shows "outcome_twin (FlagService_CreateFlag conc f a) (FlagService_CreateFlag abst f b)"
    "outcome_twin (FlagService_CreateFlagValue conc pub v a) (FlagService_CreateFlagValue abst pub v b)"
  using assms ready_twin [OF assms(1)]
  by (auto simp: FlagService_CreateFlag_def FlagService_CreateFlagValue_def outcome_refuse valid_value_def
      valid_flag_def simp del: checkValue_Inr split: sum.splits intro!: outcome_bind outcome_on_db create create_value outcome_publish)

lemma delete_agrees:
  assumes "ready (app_db a) (app_db b)" "app_pub a = app_pub b"
  shows "outcome_twin (FlagService_DeleteFlag conc pub i a) (FlagService_DeleteFlag abst pub i b)"
    "outcome_twin (FlagService_DeleteFlagValue conc pub i a) (FlagService_DeleteFlagValue abst pub i b)"
  using assms ready_twin [OF assms(1)]
  by (auto simp: FlagService_DeleteFlag_def FlagService_DeleteFlagValue_def outcome_refuse
      intro!: outcome_bind outcome_on_db delete delete_value outcome_publish)

end

definition sqlite_ready :: "dbconn \<Rightarrow> dbconn \<Rightarrow> bool" where
  "sqlite_ready db db' \<longleftrightarrow> twin db db' \<and> in_step (tabs db') \<and> whole_times (tabs db)"

lemma valid_fits: "valid_value v \<Longrightarrow> fits v"
  "valid_flag f \<Longrightarrow> varchar 128 (flag_FlagKey f)" "valid_flag f \<Longrightarrow> smallint (flag_IsActive f)"
  using RuneCount_le_length [of "flag_FlagKey f"]
  by (auto simp: fits_def valid_value_def valid_flag_def varchar_def smallint_def validFlagState_def validFlagKey_iff)

interpretation sqlite_flags: agreeing_repositories Flags_SQLiteRepository Flags_PostgresRepository sqlite_ready
  by unfold_locales
    (simp_all add: Flags_SQLiteRepository_def postgres_methods sqlite_ready_def sqlite_reads agree_read
      agree_list UpdateFlagValue_agrees CreateFlag_agrees CreateFlagValue_agrees DeleteFlag_agrees
      DeleteFlagValue_agrees valid_fits)

text \<open>The same application on a clock of whole seconds.\<close>

definition whole_clock :: "'w app \<Rightarrow> 'w app" where
  "whole_clock a = a\<lparr>app_db := (app_db a)\<lparr>clock := sqlite_now (clock (app_db a))\<rparr>\<rparr>"

lemma whole_clock_ready:
  assumes "calm (app_db a)" "in_step (tabs (app_db a))" "whole_times (tabs (app_db a))"
  shows "sqlite_ready (app_db a) (app_db (whole_clock a))" "app_pub a = app_pub (whole_clock a)"
  using assms by (simp_all add: whole_clock_def sqlite_ready_def twin_def calm_def)

end
