(* ===== verification/Flags_Sqlite_Spec.thy ===== *)
theory Flags_Sqlite_Spec
  imports Flags_Sqlite_Laws Flags_Pipeline
begin

text \<open>
  What the local test stack shares with the deployed one, and what it does not: the flag service behaves
  the same on both repositories while times are whole seconds and no id was skipped; the reconciliation
  window loses nothing to the coarser clock; but within one second the optimistic version guard is
  blind, and an id is given out again once its row is gone.
\<close>

section \<open>Equivalence\<close>


text \<open>The example database, with its row written at the fifth second and the clock half a second on.\<close>

definition stack_tables :: tables where
  "stack_tables = demo_tables\<lparr>flag_values := \<lparr>rows =
     [\<lparr>fv_ID = 8, fv_EnvironmentID = 4, fv_FlagId = 5, fv_Value = ''5'', fv_Enabled = 0,
        fv_UpdatedAt = 5 * second, fv_ExpectedUpdatedAt = None\<rparr>,
      \<lparr>fv_ID = 9, fv_EnvironmentID = 3, fv_FlagId = 5, fv_Value = ''10'', fv_Enabled = 0,
        fv_UpdatedAt = 5 * second, fv_ExpectedUpdatedAt = None\<rparr>], seq = 10\<rparr>\<rparr>"

definition stack_app :: "(string, mem_kv) plane app" where
  "stack_app = demo_app\<lparr>app_db := \<lparr>tabs = stack_tables, clock = 5500000000, script = []\<rparr>\<rparr>"

definition stack_update :: FlagValue where
  "stack_update = demo_update\<lparr>fv_ExpectedUpdatedAt := Some (5 * second)\<rparr>"

lemma printable_start: "printable_time (5 * second)" "printable_time 5500000000" "printable_time 5400000000"
  by code_simp+


section \<open>The reconciliation window\<close>

lemma sqlite_now_second [simp]: "sqlite_now t div second = t div second"
  by (simp add: sqlite_now_def second_def)

lemma printable_now [simp]: "printable_time (sqlite_now t) = printable_time t"
  by (simp add: printable_time_def year_of_def)

text \<open>
  The window of an incremental sweep loses no row to the coarser times: every flag value that
  was written at or after the start of the window is listed, although both are cut to the second.
\<close>

theorem sqlite_window_covers:
  assumes "calm db" "(fv, f) \<in> set (fv_join (tabs db))" "fv_UpdatedAt fv = sqlite_now written"
    and "since \<le> written" "printable_time since" "printable_time written"
  shows "\<exists>out. sqlite_flags_ListAllForReconcile since db = (Inr out, db) \<and> reconcile_row_of (fv, f) \<in> set out"
proof -
  have "text_le (sqliteTimeLayout since) (sqliteTimeLayout (sqlite_now written))"
    using assms(4-6) zdiv_mono1 [of since written second] by (simp add: text_le_layout, simp add: second_def)
  then show ?thesis using assms(1-3)
    by (force simp: sqlite_flags_ListAllForReconcile_def order_by_def)
qed

lemma sqlite_window_covers_witness:
  "\<exists>out. sqlite_flags_ListAllForReconcile 5400000000 (app_db stack_app) = (Inr out, app_db stack_app)
     \<and> (\<exists>r \<in> set out. rr_ID r = 9)"
proof -
  let ?fv = "\<lparr>fv_ID = 9, fv_EnvironmentID = 3, fv_FlagId = 5, fv_Value = ''10'', fv_Enabled = 0,
        fv_UpdatedAt = 5 * second, fv_ExpectedUpdatedAt = None\<rparr>"
  have "calm (app_db stack_app)" "(?fv, hd (rows (flags demo_tables))) \<in> set (fv_join (tabs (app_db stack_app)))"
    "fv_UpdatedAt ?fv = sqlite_now 5500000000" "printable_time 5400000000"
    by (simp_all add: stack_app_def calm_def stack_tables_def demo_tables_def fv_join_def sqlite_now_def second_def printable_start)
  from sqlite_window_covers [OF this(1-3) _ this(4) printable_start(2)] show ?thesis
    by (force simp: reconcile_row_of_def)
qed

section \<open>Where the test stack differs\<close>

text \<open>
  Property C35. Optimistic concurrency on Postgres: once an update guarded by a version has gone through, a
  second one guarded by the same version is refused as a conflict.
\<close>

theorem stale_version_refused:
  assumes "calm db" "wf_tables (tabs db)" "fits v" "fits w"
    and "UpdateFlagValue v db = (Inr r, db1)" "fv_ExpectedUpdatedAt v = Some e" "clock db \<noteq> e"
    and "fv_ID w = fv_ID v" "fv_ExpectedUpdatedAt w = Some e"
  shows "UpdateFlagValue w db1 = (Inl ErrConflict, db1)"
proof -
  let ?t = "tabs db" and ?t1 = "update_fv_tables v (clock db) (tabs db)"
  have fits: "varchar 4000 (fv_Value v)" "smallint (fv_Enabled v)" "varchar 4000 (fv_Value w)" "smallint (fv_Enabled w)"
    using assms(3,4) by (simp_all add: fits_def)
  obtain r0 where r0: "find_row (\<lambda>r. fv_ID r = fv_ID v) (flag_values ?t) = Some r0" "fv_matches v r0"
    and db1: "db1 = db\<lparr>tabs := ?t1\<rparr>"
    using assms(5) UpdateFlagValue_calm [OF assms(1,2) fits(1,2)] by (auto split: option.splits if_splits)
  have mem: "fv_write v (clock db) r0 \<in> set (rows (flag_values ?t1))"
    using r0 by (auto simp: update_fv_tables_def dest!: find_row_SomeD)
  have wf1: "wf_tables ?t1" using assms(2) fits(1,2) by (simp add: update_fv_tables_wf)
  have "find_row (\<lambda>r. fv_ID r = fv_ID w) (flag_values ?t1) = Some (fv_write v (clock db) r0)"
    by (rule find_row_unique [OF _ mem])
      (use wf1 r0(1) assms(8) in \<open>auto simp: wf_tables_def keys_ok_def table_ok_def dest!: find_row_SomeD\<close>)
  then show ?thesis
    using UpdateFlagValue_calm [of db1 w] db1 assms(1,7,9) wf1 fits(3,4)
    by (simp add: calm_def fv_matches_def fv_write_def)
qed

lemma stale_version_refused_witness:
  "\<exists>r db1. UpdateFlagValue demo_update (app_db demo_app) = (Inr r, db1)
     \<and> UpdateFlagValue (demo_update\<lparr>fv_Value := ''60''\<rparr>) db1 = (Inl ErrConflict, db1)"
proof -
  have db: "calm (app_db demo_app)" "wf_tables (tabs (app_db demo_app))"
    by (simp_all add: demo_app_def calm_def demo_tables_wf)
  have fits: "fits demo_update" "fits (demo_update\<lparr>fv_Value := ''60''\<rparr>)"
    by (simp_all add: fits_def demo_update_def varchar_def RuneCount_def runes_ascii is_ascii_def smallint_def)
  obtain r db1 where u: "UpdateFlagValue demo_update (app_db demo_app) = (Inr r, db1)"
    using UpdateFlagValue_calm [OF db, of demo_update] fits(1)
    by (simp add: fits_def) (simp add: demo_app_def demo_tables_def demo_update_def find_row_def fv_matches_def)
  have "fv_ExpectedUpdatedAt demo_update = Some 1" "clock (app_db demo_app) \<noteq> 1"
    by (simp_all add: demo_update_def demo_app_def)
  from stale_version_refused [OF db fits u this, simplified, OF this(1)] u show ?thesis by blast
qed

definition sqlite_updated :: "FlagValue \<Rightarrow> gotime \<Rightarrow> tables \<Rightarrow> tables" where
  "sqlite_updated v now t = t\<lparr>flag_values := (flag_values t)\<lparr>rows :=
     map (\<lambda>r. if sqlite_fv_matches v r then fv_write v (sqlite_now now) r else r) (rows (flag_values t))\<rparr>\<rparr>"

lemma sqlite_updated_keys: "map fv_key (rows (flag_values (sqlite_updated v now t))) = map fv_key (rows (flag_values t))"
  by (simp add: sqlite_updated_def)

lemma sqlite_updated_join: "(r, f) \<in> set (fv_join t) \<Longrightarrow>
    \<exists>r'. (r', f) \<in> set (fv_join (sqlite_updated v now t)) \<and> fv_ID r' = fv_ID r"
  by (rule exI [of _ "if sqlite_fv_matches v r then fv_write v (sqlite_now now) r else r"])
    (auto simp: fv_join_def sqlite_updated_def)

lemma sqlite_update_exec:
  assumes "calm db"
  shows "exec (sqlite_update_fv_stmt v) db =
    (if distinct (map fv_key (rows (flag_values (tabs db))))
     then (Inr (length (filter (sqlite_fv_matches v) (rows (flag_values (tabs db))))),
           db\<lparr>tabs := sqlite_updated v (clock db) (tabs db)\<rparr>)
     else (Inl UniqueViolation, db\<lparr>tabs := (tabs db)\<rparr>))"
  using sqlite_updated_keys [of v "clock db" "tabs db"]
  by (simp add: exec_calm [OF assms] sqlite_update_fv_stmt_def table_update_def sqlite_updated_def Let_def
      del: map_map)

lemma sqlite_update_accepted:
  assumes "calm db" "sqlite_UpdateFlagValue v db = (Inr x, db1)"
  shows "db1 = db\<lparr>tabs := sqlite_updated v (clock db) (tabs db)\<rparr>"
    "filter (sqlite_fv_matches v) (rows (flag_values (tabs db))) \<noteq> []"
    "distinct (map fv_key (rows (flag_values (tabs db))))"
    "\<exists>r f. (r, f) \<in> set (fv_join (tabs db1)) \<and> fv_ID r = fv_ID v"
proof -
  let ?db1 = "db\<lparr>tabs := sqlite_updated v (clock db) (tabs db)\<rparr>"
  have calm1: "calm ?db1" using assms(1) by (simp add: calm_def)
  note eval = assms(2) [unfolded sqlite_UpdateFlagValue_def sqlite_update_exec [OF assms(1)] flags_wrap_def]
  show dist: "distinct (map fv_key (rows (flag_values (tabs db))))"
    using eval by (cases "distinct (map fv_key (rows (flag_values (tabs db))))") simp_all
  show some: "filter (sqlite_fv_matches v) (rows (flag_values (tabs db))) \<noteq> []"
    using eval dist by (cases "filter (sqlite_fv_matches v) (rows (flag_values (tabs db))) = []")
      (simp_all add: split_beta)
  have read: "sqlite_getFlagValueWithKey (fv_ID v) ?db1 = (Inr x, db1)" using eval dist some by simp
  then show "db1 = ?db1" using calm1
    by (auto simp: sqlite_getFlagValueWithKey_def split: option.splits)
  then show "\<exists>r f. (r, f) \<in> set (fv_join (tabs db1)) \<and> fv_ID r = fv_ID v"
    using read calm1 by (auto simp: sqlite_getFlagValueWithKey_def find_Some_iff split: option.splits) (metis nth_mem)
qed

lemma sqlite_update_accepts:
  assumes "calm db" "filter (sqlite_fv_matches v) (rows (flag_values (tabs db))) \<noteq> []"
    "distinct (map fv_key (rows (flag_values (tabs db))))"
    "\<exists>r f. (r, f) \<in> set (fv_join (tabs db)) \<and> fv_ID r = fv_ID v"
  shows "\<exists>r db1. sqlite_UpdateFlagValue v db = (Inr r, db1)"
proof -
  let ?db1 = "db\<lparr>tabs := sqlite_updated v (clock db) (tabs db)\<rparr>"
  obtain r f where "(r, f) \<in> set (fv_join (tabs ?db1))" "fv_ID r = fv_ID v"
    using assms(4) sqlite_updated_join by (metis dbconn.select_convs(1) dbconn.surjective dbconn.update_convs(1))
  then have "find (\<lambda>(fv, f). fv_ID fv = fv_ID v) (fv_join (tabs ?db1)) \<noteq> None"
    unfolding find_None_iff by force
  moreover have "calm ?db1" using assms(1) by (simp add: calm_def)
  ultimately show ?thesis
    using assms by (auto simp: sqlite_UpdateFlagValue_def sqlite_update_exec sqlite_getFlagValueWithKey_def)
qed

text \<open>
  Property C36. On SQLite the guard is blind within a second: if the first update ran in the second the
  version names, a second update guarded by the same version is accepted as well and overwrites it.
\<close>

theorem sqlite_guard_blind:
  assumes "calm db" "sqlite_UpdateFlagValue v db = (Inr r, db1)" "fv_ExpectedUpdatedAt v = Some e"
    and "clock db div second = e div second" "printable_time e" "printable_time (clock db)"
    and "fv_ID w = fv_ID v" "fv_ExpectedUpdatedAt w = Some e"
  shows "\<exists>r' db2. sqlite_UpdateFlagValue w db1 = (Inr r', db2)"
proof -
  note D = sqlite_update_accepted [OF assms(1,2)]
  let ?V1 = "sqlite_updated v (clock db) (tabs db)"
  obtain r0 where r0: "r0 \<in> set (rows (flag_values (tabs db)))" "sqlite_fv_matches v r0"
    using D(2) by (auto simp: filter_empty_conv)
  have "sqlite_fv_matches w (fv_write v (sqlite_now (clock db)) r0)"
    using r0(2) assms(3-8) by (simp add: sqlite_fv_matches_def fv_write_def layout_eq)
  then have "filter (sqlite_fv_matches w) (rows (flag_values ?V1)) \<noteq> []"
    using r0 by (force simp: filter_empty_conv sqlite_updated_def)
  then show ?thesis
    using sqlite_update_accepts [of db1 w] D assms(1,7) by (simp add: calm_def sqlite_updated_keys)
qed

lemma sqlite_guard_blind_witness:
  "\<exists>r db1 r' db2. sqlite_UpdateFlagValue stack_update (app_db stack_app) = (Inr r, db1)
     \<and> sqlite_UpdateFlagValue (stack_update\<lparr>fv_Value := ''60''\<rparr>) db1 = (Inr r', db2)"
proof -
  have db: "calm (app_db stack_app)" by (simp add: stack_app_def calm_def)
  have "\<exists>r db1. sqlite_UpdateFlagValue stack_update (app_db stack_app) = (Inr r, db1)"
    by (rule sqlite_update_accepts [OF db])
      (auto simp: stack_app_def stack_tables_def demo_tables_def stack_update_def demo_update_def fv_join_def
        sqlite_fv_matches_def fv_key_def)
  then obtain r db1 where u: "sqlite_UpdateFlagValue stack_update (app_db stack_app) = (Inr r, db1)" by blast
  have "fv_ExpectedUpdatedAt stack_update = Some (5 * second)"
    "clock (app_db stack_app) div second = (5 * second) div second"
    "printable_time (clock (app_db stack_app))"
    by (simp_all add: stack_update_def stack_app_def printable_start second_def)
  from sqlite_guard_blind [OF db u this(1,2) printable_start(1) this(3), of "stack_update\<lparr>fv_Value := ''60''\<rparr>"]
    this(1) u show ?thesis by auto
qed

text \<open>
  SQLite gives an id out again: when the flag value with the highest id is deleted and the
  one before it exists, the next value created gets that id, where Postgres never reuses one.
\<close>

theorem sqlite_reuses_ids:
  assumes "calm db" "sqlite_DeleteFlagValue i db = (Inr d, db1)"
    and "next_rowid fv_ID (flag_values (tabs db)) = i + 1" "i - 1 \<in> fv_ID ` set (rows (flag_values (tabs db)))"
    and "sqlite_CreateFlagValue v db1 = (Inr c, db2)"
  shows "\<exists>r \<in> set (rows (flag_values (tabs db2))). fv_ID r = i \<and> fv_key r = fv_key v"
proof -
  let ?V = "flag_values (tabs db)"
  obtain n where del: "db1 = db\<lparr>tabs := (tabs db)\<lparr>flag_values := snd (table_delete (\<lambda>r. fv_ID r = i) ?V)\<rparr>\<rparr>"
    using assms(1,2) by (auto simp: sqlite_DeleteFlagValue_def exec_calm delete_fv_stmt_def table_delete_def
        split: option.splits if_splits)
  have rows1: "rows (flag_values (tabs db1)) = filter (\<lambda>r. fv_ID r \<noteq> i) (rows ?V)"
    by (simp add: del table_delete_def)
  have top: "fv_ID r \<le> i" if "r \<in> set (rows ?V)" for r
  proof -
    have "next_rowid fv_ID ?V = Max (fv_ID ` set (rows ?V)) + 1" using that by (auto simp: next_rowid_def)
    moreover have "fv_ID r \<le> Max (fv_ID ` set (rows ?V))" using that by simp
    ultimately show ?thesis using assms(3) by linarith
  qed
  have "Max (fv_ID ` set (rows (flag_values (tabs db1)))) = i - 1"
  proof (rule Max_eqI)
    show "i - 1 \<in> fv_ID ` set (rows (flag_values (tabs db1)))" using assms(4) by (auto simp: rows1)
    show "y \<le> i - 1" if "y \<in> fv_ID ` set (rows (flag_values (tabs db1)))" for y
      using that top by (force simp: rows1)
  qed simp
  then have next1: "next_rowid fv_ID (flag_values (tabs db1)) = i"
    using assms(4) by (auto simp: next_rowid_def rows1 filter_empty_conv)
  have calm1: "calm db1" using assms(1) del by (simp add: calm_def)
  obtain u where c: "checkFlagValueRefs v db1 = (Inr u, db1)"
    using assms(5) calm1 checkFlagValueRefs_calm(1) [of db1 v]
    by (cases "checkFlagValueRefs v db1"; cases "fst (checkFlagValueRefs v db1)")
      (auto simp: sqlite_CreateFlagValue_def sqlite_reads bindE_def)
  obtain n d where e: "exec (sqlite_insert_fv_stmt v) db1 = (Inr n, d)"
    and g: "getFlagValueByEnvAndFlag (fv_EnvironmentID v) (fv_FlagId v) d = (Inr c, db2)"
    using assms(5) by (auto simp: sqlite_CreateFlagValue_def sqlite_reads c elim!: bindE_InrE)
  have d: "calm d" "\<exists>r \<in> set (rows (flag_values (tabs d))). fv_ID r = i \<and> fv_key r = fv_key v"
    using e calm1 next1 by (auto simp: exec_calm calm_def sqlite_insert_fv_stmt_def sqlite_insert_def Let_def
        fv_key_def split: if_splits)
  have "db2 = d" using g d(1) by (auto simp: getFlagValueByEnvAndFlag_def split: option.splits)
  then show ?thesis using d(2) by simp
qed

lemma sqlite_reuses_ids_witness:
  "\<exists>d db1 c db2. sqlite_DeleteFlagValue 9 (app_db stack_app) = (Inr d, db1)
     \<and> sqlite_CreateFlagValue (hd (rows (flag_values demo_tables))) db1 = (Inr c, db2)
     \<and> (\<exists>r \<in> set (rows (flag_values (tabs db2))). fv_ID r = 9)"
proof -
  have db: "calm (app_db stack_app)" by (simp add: stack_app_def calm_def)
  have "case sqlite_DeleteFlagValue 9 (app_db stack_app) of
      (Inl _, _) \<Rightarrow> False
    | (Inr _, db1) \<Rightarrow> \<not> isl (fst (sqlite_CreateFlagValue (hd (rows (flag_values demo_tables))) db1))"
    by code_simp
  then obtain d db1 c db2 where del: "sqlite_DeleteFlagValue 9 (app_db stack_app) = (Inr d, db1)"
    and new: "sqlite_CreateFlagValue (hd (rows (flag_values demo_tables))) db1 = (Inr c, db2)"
    by (auto simp: isl_def split: prod.splits sum.splits)
      (metis old.sum.exhaust prod.collapse)
  from sqlite_reuses_ids [OF db del _ _ new] del new show ?thesis
    by (auto simp: stack_app_def stack_tables_def next_rowid_def)
qed

end
