(* ===== verification/Settings_Sqlite.thy ===== *)
theory Settings_Sqlite
  imports Sqlite_Db Settings_Service
begin

text \<open>
  \<^verbatim>\<open>internal/servicesettings/repository_sqlite.go\<close>: appsettings, microservices and environments in the local
  test stack. The queries are those of the Postgres repository on the database of \<open>Sqlite_Db\<close>.
\<close>

section \<open>Statements\<close>

definition sqlite_insert_as_stmt :: "MicroserviceAppSettings \<Rightarrow> stmt" where
  "sqlite_insert_as_stmt input now t = (case sqlite_insert as_ID as_key
       (\<lambda>n. \<lparr>as_ID = n, as_MicroserviceID = as_MicroserviceID input,
             as_EnvironmentID = as_EnvironmentID input, as_SettingsJSON = as_SettingsJSON input,
             as_UpdatedAt = sqlite_now now, as_ExpectedUpdatedAt = None\<rparr>) (appsettings t)
     of (res, T) \<Rightarrow> (res, t\<lparr>appsettings := T\<rparr>))"

definition sqlite_as_matches :: "MicroserviceAppSettings \<Rightarrow> MicroserviceAppSettings \<Rightarrow> bool" where
  "sqlite_as_matches input r \<longleftrightarrow> as_ID r = as_ID input
     \<and> (case as_ExpectedUpdatedAt input of None \<Rightarrow> True
        | Some e \<Rightarrow> sqliteTimeLayout (as_UpdatedAt r) = sqliteTimeLayout e)"

definition sqlite_update_as_stmt :: "MicroserviceAppSettings \<Rightarrow> stmt" where
  "sqlite_update_as_stmt input now t =
     (case table_update as_key (sqlite_as_matches input) (as_write input (sqlite_now now)) (appsettings t) of
        (res, T) \<Rightarrow> (res, t\<lparr>appsettings := T\<rparr>))"

definition sqlite_insert_ms_stmt :: "string \<Rightarrow> stmt" where
  "sqlite_insert_ms_stmt name now t = (case sqlite_insert ms_ID ms_Microservice
       (\<lambda>n. \<lparr>ms_ID = n, ms_Microservice = name, ms_UpdatedAt = sqlite_now now\<rparr>) (microservices t)
     of (res, T) \<Rightarrow> (res, t\<lparr>microservices := T\<rparr>))"

definition sqlite_insert_env_stmt :: "string \<Rightarrow> stmt" where
  "sqlite_insert_env_stmt name now t = (case sqlite_insert env_ID env_Environment
       (\<lambda>n. \<lparr>env_ID = n, env_Environment = name, env_UpdatedAt = sqlite_now now\<rparr>) (environments t)
     of (res, T) \<Rightarrow> (res, t\<lparr>environments := T\<rparr>))"

text \<open>No foreign key stands in the way of these two.\<close>

definition sqlite_delete_ms_stmt :: "int \<Rightarrow> stmt" where
  "sqlite_delete_ms_stmt i now t = (case table_delete (\<lambda>r. ms_ID r = i) (microservices t) of
     (n, T) \<Rightarrow> (Inr n, t\<lparr>microservices := T\<rparr>))"

definition sqlite_delete_env_stmt :: "int \<Rightarrow> stmt" where
  "sqlite_delete_env_stmt i now t = (case table_delete (\<lambda>r. env_ID r = i) (environments t) of
     (n, T) \<Rightarrow> (Inr n, t\<lparr>environments := T\<rparr>))"

section \<open>Appsettings\<close>

definition sqlite_settings_count :: "(tables \<Rightarrow> nat) \<Rightarrow> dbconn \<Rightarrow> nat settings_result" where
  "sqlite_settings_count q db = settings_wrap ''count rows'' (query q db)"

definition sqlite_GetMicroserviceConfigByID :: "int \<Rightarrow> dbconn \<Rightarrow> MicroserviceAppSettings settings_result" where
  "sqlite_GetMicroserviceConfigByID i = settings_row ''get config by id'' ErrConfigNotFound
     (\<lambda>t. find_row (\<lambda>r. as_ID r = i) (appsettings t))"

definition sqlite_getConfigByServiceAndEnv :: "int \<Rightarrow> int \<Rightarrow> dbconn \<Rightarrow> MicroserviceAppSettings settings_result" where
  "sqlite_getConfigByServiceAndEnv microserviceID environmentID =
     settings_row ''get config by service and env'' ErrConfigNotFound
       (\<lambda>t. find_row (\<lambda>r. as_MicroserviceID r = microserviceID \<and> as_EnvironmentID r = environmentID)
              (appsettings t))"

definition sqlite_settings_noRowsErr :: "MicroserviceAppSettings \<Rightarrow> dbconn \<Rightarrow> settings_error \<times> dbconn" where
  "sqlite_settings_noRowsErr input db = (case as_ExpectedUpdatedAt input of
     None \<Rightarrow> (ErrConfigNotFound, db)
   | Some _ \<Rightarrow> (case sqlite_GetMicroserviceConfigByID (as_ID input) db of
        (Inl err, db) \<Rightarrow> (err, db)
      | (Inr _, db) \<Rightarrow> (settings_error.ErrConflict, db)))"

definition sqlite_checkAppSettingsRefs :: "MicroserviceAppSettings \<Rightarrow> dbconn \<Rightarrow> unit settings_result" where
  "sqlite_checkAppSettingsRefs input db =
     bindE (sqlite_settings_count (\<lambda>t. length (filter (\<lambda>r. ms_ID r = as_MicroserviceID input)
                                        (rows (microservices t)))) db)
       (\<lambda>services db. if services = 0 then (Inl settings_error.ErrMicroserviceNotFound, db)
     else bindE (sqlite_settings_count (\<lambda>t. length (filter (\<lambda>r. env_ID r = as_EnvironmentID input)
                                              (rows (environments t)))) db)
       (\<lambda>envs db. if envs = 0 then (Inl settings_error.ErrEnvironmentNotFound, db)
     else bindE (sqlite_settings_count (\<lambda>t. length (filter (\<lambda>r. as_MicroserviceID r = as_MicroserviceID input
                                                     \<and> as_EnvironmentID r = as_EnvironmentID input
                                                     \<and> as_ID r \<noteq> as_ID input)
                                              (rows (appsettings t)))) db)
       (\<lambda>taken db. if 0 < taken then (Inl ErrConfigExists, db) else (Inr (), db))))"

definition sqlite_UpdateMicroserviceConfig ::
  "MicroserviceAppSettings \<Rightarrow> dbconn \<Rightarrow> MicroserviceAppSettings settings_result" where
  "sqlite_UpdateMicroserviceConfig input db =
     bindE (sqlite_checkAppSettingsRefs input db) (\<lambda>_ db.
     bindE (settings_unique ErrConfigExists ''update config'' (exec (sqlite_update_as_stmt input) db))
       (\<lambda>rowsAffected db.
          if rowsAffected = 0 then (case sqlite_settings_noRowsErr input db of (err, db) \<Rightarrow> (Inl err, db))
          else sqlite_GetMicroserviceConfigByID (as_ID input) db))"

definition sqlite_CreateMicroserviceConfig ::
  "MicroserviceAppSettings \<Rightarrow> dbconn \<Rightarrow> MicroserviceAppSettings settings_result" where
  "sqlite_CreateMicroserviceConfig input db =
     bindE (sqlite_checkAppSettingsRefs input db) (\<lambda>_ db.
     bindE (settings_unique ErrConfigExists ''create config'' (exec (sqlite_insert_as_stmt input) db))
       (\<lambda>_ db. sqlite_getConfigByServiceAndEnv (as_MicroserviceID input) (as_EnvironmentID input) db))"

definition sqlite_DeleteMicroserviceConfig :: "int \<Rightarrow> dbconn \<Rightarrow> MicroserviceAppSettings settings_result" where
  "sqlite_DeleteMicroserviceConfig i db =
     bindE (sqlite_GetMicroserviceConfigByID i db) (\<lambda>removed db.
     bindE (settings_wrap ''delete config'' (exec (delete_as_stmt i) db))
       (\<lambda>rowsAffected db. if rowsAffected = 0 then (Inl ErrConfigNotFound, db) else (Inr removed, db)))"

definition sqlite_ListMicroserviceConfigs ::
  "AppSettingsFilter \<Rightarrow> dbconn \<Rightarrow> MicroserviceAppSettings list settings_result" where
  "sqlite_ListMicroserviceConfigs filt db = settings_wrap ''list servicesettings''
     (query (\<lambda>t. limit_offset (asf_Page filt) (order_by as_ID (filter (\<lambda>r.
         (0 < asf_MicroserviceID filt \<longrightarrow> as_MicroserviceID r = asf_MicroserviceID filt)
         \<and> (0 < asf_EnvironmentID filt \<longrightarrow> as_EnvironmentID r = asf_EnvironmentID filt))
       (rows (appsettings t))))) db)"

definition sqlite_settings_ListAllForReconcile ::
  "gotime \<Rightarrow> dbconn \<Rightarrow> MicroserviceAppSettings list settings_result" where
  "sqlite_settings_ListAllForReconcile since db = settings_wrap ''list servicesettings for reconcile''
     (query (\<lambda>t. order_by as_ID (filter (\<lambda>r. IsZero since \<or> text_le (sqliteTimeLayout since) (sqliteTimeLayout (as_UpdatedAt r)))
       (rows (appsettings t)))) db)"

section \<open>Reference tables\<close>

definition sqlite_GetMicroserviceByID :: "int \<Rightarrow> dbconn \<Rightarrow> Microservice settings_result" where
  "sqlite_GetMicroserviceByID i = settings_row ''get microservice by id'' settings_error.ErrMicroserviceNotFound
     (\<lambda>t. find_row (\<lambda>r. ms_ID r = i) (microservices t))"

definition sqlite_ListMicroservices :: "Page \<Rightarrow> dbconn \<Rightarrow> Microservice list settings_result" where
  "sqlite_ListMicroservices page db = settings_wrap ''list microservices''
     (query (\<lambda>t. limit_offset page (order_by ms_ID (rows (microservices t)))) db)"

text \<open>The read-back of a created reference row wraps every error, a missing row included.\<close>

definition sqlite_CreateMicroservice :: "string \<Rightarrow> dbconn \<Rightarrow> Microservice settings_result" where
  "sqlite_CreateMicroservice name db =
     bindE (sqlite_settings_count (\<lambda>t. length (filter (\<lambda>r. ms_Microservice r = name) (rows (microservices t)))) db)
       (\<lambda>taken db. if 0 < taken then (Inl ErrMicroserviceExists, db)
     else bindE (settings_unique ErrMicroserviceExists ''create microservice'' (exec (sqlite_insert_ms_stmt name) db))
       (\<lambda>_ db. settings_row ''get microservice by name'' (SettingsWrapped ''get microservice by name'')
          (\<lambda>t. find_row (\<lambda>r. ms_Microservice r = name) (microservices t)) db))"

definition sqlite_DeleteMicroservice :: "int \<Rightarrow> dbconn \<Rightarrow> unit settings_result" where
  "sqlite_DeleteMicroservice i db =
     bindE (sqlite_settings_count (ms_refs i) db) (\<lambda>inUse db.
       if 0 < inUse then (Inl ErrMicroserviceInUse, db)
       else bindE (settings_wrap ''delete microservice'' (exec (sqlite_delete_ms_stmt i) db))
              (\<lambda>rowsAffected db. if rowsAffected = 0 then (Inl settings_error.ErrMicroserviceNotFound, db) else (Inr (), db)))"

definition sqlite_ListEnvironments :: "Page \<Rightarrow> dbconn \<Rightarrow> Environment list settings_result" where
  "sqlite_ListEnvironments page db = settings_wrap ''list environments''
     (query (\<lambda>t. limit_offset page (order_by env_ID (rows (environments t)))) db)"

definition sqlite_CreateEnvironment :: "string \<Rightarrow> dbconn \<Rightarrow> Environment settings_result" where
  "sqlite_CreateEnvironment name db =
     bindE (sqlite_settings_count (\<lambda>t. length (filter (\<lambda>r. env_Environment r = name) (rows (environments t)))) db)
       (\<lambda>taken db. if 0 < taken then (Inl ErrEnvironmentExists, db)
     else bindE (settings_unique ErrEnvironmentExists ''create environment'' (exec (sqlite_insert_env_stmt name) db))
       (\<lambda>_ db. settings_row ''get environment by name'' (SettingsWrapped ''get environment by name'')
          (\<lambda>t. find_row (\<lambda>r. env_Environment r = name) (environments t)) db))"

definition sqlite_DeleteEnvironment :: "int \<Rightarrow> dbconn \<Rightarrow> unit settings_result" where
  "sqlite_DeleteEnvironment i db =
     bindE (sqlite_settings_count (env_refs i) db) (\<lambda>inUse db.
       if 0 < inUse then (Inl ErrEnvironmentInUse, db)
       else bindE (settings_wrap ''delete environment'' (exec (sqlite_delete_env_stmt i) db))
              (\<lambda>rowsAffected db. if rowsAffected = 0 then (Inl settings_error.ErrEnvironmentNotFound, db) else (Inr (), db)))"

section \<open>The repository\<close>

definition Settings_SQLiteRepository :: settings_repository where
  "Settings_SQLiteRepository = \<lparr>
     rs_GetConfig = sqlite_GetMicroserviceConfigByID, rs_UpdateConfig = sqlite_UpdateMicroserviceConfig,
     rs_GetMicroservice = sqlite_GetMicroserviceByID, rs_ListConfigs = sqlite_ListMicroserviceConfigs,
     rs_CreateConfig = sqlite_CreateMicroserviceConfig, rs_DeleteConfig = sqlite_DeleteMicroserviceConfig,
     rs_ListMicroservices = sqlite_ListMicroservices, rs_CreateMicroservice = sqlite_CreateMicroservice,
     rs_DeleteMicroservice = sqlite_DeleteMicroservice, rs_ListEnvironments = sqlite_ListEnvironments,
     rs_CreateEnvironment = sqlite_CreateEnvironment, rs_DeleteEnvironment = sqlite_DeleteEnvironment\<rparr>"

end
