(* ===== verification/Loc_Sqlite.thy ===== *)
theory Loc_Sqlite
  imports Sqlite_Db Settings_Service
begin

text \<open>
  \<^verbatim>\<open>internal/localization/repository_sqlite.go\<close>: translation bundles in the local test stack. The queries
  are those of the Postgres repository on the database of \<open>Sqlite_Db\<close>.
\<close>

section \<open>Statements\<close>

definition sqlite_insert_loc_stmt :: "Localization \<Rightarrow> stmt" where
  "sqlite_insert_loc_stmt input now t = (case sqlite_insert loc_ID loc_key
       (\<lambda>n. \<lparr>loc_ID = n, loc_MicroserviceID = loc_MicroserviceID input,
             loc_EnvironmentID = loc_EnvironmentID input, loc_Locale = loc_Locale input,
             loc_BundleJSON = loc_BundleJSON input, loc_UpdatedAt = sqlite_now now,
             loc_ExpectedUpdatedAt = None\<rparr>) (localizations t)
     of (res, T) \<Rightarrow> (res, t\<lparr>localizations := T\<rparr>))"

definition sqlite_loc_matches :: "Localization \<Rightarrow> Localization \<Rightarrow> bool" where
  "sqlite_loc_matches input r \<longleftrightarrow> loc_ID r = loc_ID input
     \<and> (case loc_ExpectedUpdatedAt input of None \<Rightarrow> True
        | Some e \<Rightarrow> sqliteTimeLayout (loc_UpdatedAt r) = sqliteTimeLayout e)"

definition sqlite_update_loc_stmt :: "Localization \<Rightarrow> stmt" where
  "sqlite_update_loc_stmt input now t =
     (case table_update loc_key (sqlite_loc_matches input) (loc_write input (sqlite_now now)) (localizations t) of
        (res, T) \<Rightarrow> (res, t\<lparr>localizations := T\<rparr>))"

section \<open>Methods\<close>

definition sqlite_loc_count :: "(tables \<Rightarrow> nat) \<Rightarrow> dbconn \<Rightarrow> nat loc_result" where
  "sqlite_loc_count q db = loc_wrap ''count rows'' (query q db)"

definition sqlite_GetLocalizationByID :: "int \<Rightarrow> dbconn \<Rightarrow> Localization loc_result" where
  "sqlite_GetLocalizationByID i = loc_row ''get localization by id'' (\<lambda>r. loc_ID r = i)"

definition sqlite_GetLocalization :: "int \<Rightarrow> int \<Rightarrow> string \<Rightarrow> dbconn \<Rightarrow> Localization loc_result" where
  "sqlite_GetLocalization microserviceID environmentID locale = loc_row ''get localization''
     (\<lambda>r. loc_MicroserviceID r = microserviceID \<and> loc_EnvironmentID r = environmentID \<and> loc_Locale r = locale)"

definition sqlite_loc_noRowsErr :: "Localization \<Rightarrow> dbconn \<Rightarrow> loc_error \<times> dbconn" where
  "sqlite_loc_noRowsErr input db = (case loc_ExpectedUpdatedAt input of
     None \<Rightarrow> (ErrLocalizationNotFound, db)
   | Some _ \<Rightarrow> (case sqlite_GetLocalizationByID (loc_ID input) db of
        (Inl err, db) \<Rightarrow> (err, db)
      | (Inr _, db) \<Rightarrow> (loc_error.ErrConflict, db)))"

definition sqlite_checkRefs :: "Localization \<Rightarrow> dbconn \<Rightarrow> unit loc_result" where
  "sqlite_checkRefs input db =
     bindE (sqlite_loc_count (\<lambda>t. length (filter (\<lambda>r. ms_ID r = loc_MicroserviceID input)
                                   (rows (microservices t)))) db)
       (\<lambda>services db. if services = 0 then (Inl loc_error.ErrMicroserviceNotFound, db)
     else bindE (sqlite_loc_count (\<lambda>t. length (filter (\<lambda>r. env_ID r = loc_EnvironmentID input)
                                         (rows (environments t)))) db)
       (\<lambda>envs db. if envs = 0 then (Inl loc_error.ErrEnvironmentNotFound, db)
     else bindE (sqlite_loc_count (\<lambda>t. length (filter (\<lambda>r. loc_MicroserviceID r = loc_MicroserviceID input
                                                \<and> loc_EnvironmentID r = loc_EnvironmentID input
                                                \<and> loc_Locale r = loc_Locale input
                                                \<and> loc_ID r \<noteq> loc_ID input)
                                         (rows (localizations t)))) db)
       (\<lambda>taken db. if 0 < taken then (Inl ErrLocalizationExists, db) else (Inr (), db))))"

definition sqlite_UpdateLocalization :: "Localization \<Rightarrow> dbconn \<Rightarrow> Localization loc_result" where
  "sqlite_UpdateLocalization input db =
     bindE (sqlite_checkRefs input db) (\<lambda>_ db.
     bindE (loc_unique ''update localization'' (exec (sqlite_update_loc_stmt input) db))
       (\<lambda>n db.
          if n = 0 then (case sqlite_loc_noRowsErr input db of (err, db) \<Rightarrow> (Inl err, db))
          else sqlite_GetLocalizationByID (loc_ID input) db))"

definition sqlite_CreateLocalization :: "Localization \<Rightarrow> dbconn \<Rightarrow> Localization loc_result" where
  "sqlite_CreateLocalization input db =
     bindE (sqlite_checkRefs input db) (\<lambda>_ db.
     bindE (loc_unique ''create localization'' (exec (sqlite_insert_loc_stmt input) db))
       (\<lambda>_ db. sqlite_GetLocalization (loc_MicroserviceID input) (loc_EnvironmentID input) (loc_Locale input) db))"

definition sqlite_DeleteLocalization :: "int \<Rightarrow> dbconn \<Rightarrow> Localization loc_result" where
  "sqlite_DeleteLocalization i db =
     bindE (sqlite_GetLocalizationByID i db) (\<lambda>removed db.
     bindE (loc_wrap ''delete localization'' (exec (delete_loc_stmt i) db))
       (\<lambda>n db. if n = 0 then (Inl ErrLocalizationNotFound, db) else (Inr removed, db)))"

definition sqlite_ListLocalizations :: "LocFilter \<Rightarrow> dbconn \<Rightarrow> Localization list loc_result" where
  "sqlite_ListLocalizations filt db = loc_wrap ''list localization''
     (query (\<lambda>t. limit_offset (lf_Page filt) (order_by loc_ID (filter (\<lambda>r.
         (0 < lf_MicroserviceID filt \<longrightarrow> loc_MicroserviceID r = lf_MicroserviceID filt)
         \<and> (0 < lf_EnvironmentID filt \<longrightarrow> loc_EnvironmentID r = lf_EnvironmentID filt)
         \<and> (lf_Locale filt \<noteq> [] \<longrightarrow> loc_Locale r = lf_Locale filt))
       (rows (localizations t))))) db)"

definition sqlite_loc_ListAllForReconcile :: "gotime \<Rightarrow> dbconn \<Rightarrow> Localization list loc_result" where
  "sqlite_loc_ListAllForReconcile since db = loc_wrap ''list localization for reconcile''
     (query (\<lambda>t. order_by loc_ID (filter (\<lambda>r. IsZero since \<or> text_le (sqliteTimeLayout since) (sqliteTimeLayout (loc_UpdatedAt r)))
       (rows (localizations t)))) db)"

definition Loc_SQLiteRepository :: loc_repository where
  "Loc_SQLiteRepository = \<lparr>rl_GetByID = sqlite_GetLocalizationByID, rl_Get = sqlite_GetLocalization,
     rl_Update = sqlite_UpdateLocalization, rl_List = sqlite_ListLocalizations, rl_Create = sqlite_CreateLocalization,
     rl_Delete = sqlite_DeleteLocalization\<rparr>"

end
