(* ===== verification/Documents_Sqlite.thy ===== *)
theory Documents_Sqlite
  imports Settings_Sqlite Loc_Sqlite Settings_Mirror Loc_Mirror
begin

text \<open>
  The settings and localization repositories of the test stack compared with the Postgres ones, method by
  method: on a calm connection where no id was skipped and times are whole seconds they give the same
  answers and leave the same rows.
\<close>

section \<open>Appsettings\<close>

lemma settings_reads:
  "sqlite_settings_count = settings_count" "sqlite_GetMicroserviceConfigByID = GetMicroserviceConfigByID"
  "sqlite_getConfigByServiceAndEnv = getConfigByServiceAndEnv" "sqlite_GetMicroserviceByID = GetMicroserviceByID"
  "sqlite_ListMicroserviceConfigs = ListMicroserviceConfigs" "sqlite_ListMicroservices = ListMicroservices"
  "sqlite_ListEnvironments = ListEnvironments" "sqlite_settings_noRowsErr = settings_noRowsErr"
  "sqlite_checkAppSettingsRefs = checkAppSettingsRefs" "sqlite_DeleteMicroserviceConfig = DeleteMicroserviceConfig"
proof -
  show count: "sqlite_settings_count = settings_count"
    by (intro ext) (simp only: sqlite_settings_count_def settings_count_def)
  show get: "sqlite_GetMicroserviceConfigByID = GetMicroserviceConfigByID"
    by (intro ext) (simp only: sqlite_GetMicroserviceConfigByID_def GetMicroserviceConfigByID_def)
  show "sqlite_settings_noRowsErr = settings_noRowsErr"
    by (intro ext) (simp only: sqlite_settings_noRowsErr_def settings_noRowsErr_def get)
  show "sqlite_checkAppSettingsRefs = checkAppSettingsRefs"
    by (intro ext) (simp only: sqlite_checkAppSettingsRefs_def checkAppSettingsRefs_def count)
  show "sqlite_DeleteMicroserviceConfig = DeleteMicroserviceConfig"
    by (intro ext) (simp only: sqlite_DeleteMicroserviceConfig_def DeleteMicroserviceConfig_def get)
  show "sqlite_getConfigByServiceAndEnv = getConfigByServiceAndEnv" "sqlite_GetMicroserviceByID = GetMicroserviceByID"
    "sqlite_ListMicroserviceConfigs = ListMicroserviceConfigs" "sqlite_ListMicroservices = ListMicroservices"
    "sqlite_ListEnvironments = ListEnvironments"
    by (intro ext; simp only: sqlite_getConfigByServiceAndEnv_def getConfigByServiceAndEnv_def
        sqlite_GetMicroserviceByID_def GetMicroserviceByID_def sqlite_ListMicroserviceConfigs_def
        ListMicroserviceConfigs_def sqlite_ListMicroservices_def ListMicroservices_def
        sqlite_ListEnvironments_def ListEnvironments_def)+
qed

lemma agree_settings_query:
  "twin db db' \<Longrightarrow> (\<And>t u. same_rows t u \<Longrightarrow> q t = q u) \<Longrightarrow>
    agree (settings_wrap msg (query q db)) (settings_wrap msg (query q db'))"
  unfolding settings_wrap_def by (intro agree_wrap agree_query)

lemma agree_settings_row:
  "twin db db' \<Longrightarrow> (\<And>t u. same_rows t u \<Longrightarrow> q t = q u) \<Longrightarrow>
    agree (settings_row msg e q db) (settings_row msg e q db')"
  unfolding settings_row_def
  by (rule agree_bind [OF agree_settings_query]) (auto simp: agree_return split: option.splits)

lemma settings_reads_agree:
  assumes "twin db db'"
  shows "agree (GetMicroserviceConfigByID i db) (GetMicroserviceConfigByID i db')"
    "agree (getConfigByServiceAndEnv m e db) (getConfigByServiceAndEnv m e db')"
    "agree (GetMicroserviceByID i db) (GetMicroserviceByID i db')"
    "agree (ListMicroserviceConfigs filt db) (ListMicroserviceConfigs filt db')"
    "agree (ListMicroservices page db) (ListMicroservices page db')"
    "agree (ListEnvironments page db) (ListEnvironments page db')"
  unfolding GetMicroserviceConfigByID_def getConfigByServiceAndEnv_def GetMicroserviceByID_def
    ListMicroserviceConfigs_def ListMicroservices_def ListEnvironments_def
  by (rule agree_settings_row [OF assms] agree_settings_query [OF assms];
      simp add: same_rows_def find_row_def)+

lemma agree_settings_noRows: "twin db db' \<Longrightarrow> agree (case settings_noRowsErr v db of (e, d) \<Rightarrow> (Inl e, d))
    (case settings_noRowsErr v db' of (e, d) \<Rightarrow> (Inl e, d))"
  using settings_reads_agree(1) [of db db' "as_ID v"]
  by (auto simp: settings_noRowsErr_def agree_def split: option.splits prod.splits sum.splits)

lemma checkAppSettingsRefs_agree:
  assumes "twin db db'"
  shows "agree (checkAppSettingsRefs v db) (checkAppSettingsRefs v db')"
  unfolding checkAppSettingsRefs_def settings_count_def
  by (intro agree_bind agree_settings_query assms)
    (auto simp: same_rows_def agree_return intro!: agree_bind agree_settings_query)

definition whole_settings :: "tables \<Rightarrow> bool" where
  "whole_settings t \<longleftrightarrow> (\<forall>r \<in> set (rows (appsettings t)). whole (as_UpdatedAt r))"

definition settings_version_whole :: "MicroserviceAppSettings \<Rightarrow> bool" where
  "settings_version_whole v \<longleftrightarrow> (case as_ExpectedUpdatedAt v of None \<Rightarrow> True | Some e \<Rightarrow> whole e)"

definition settings_in_step :: "tables \<Rightarrow> bool" where
  "settings_in_step t \<longleftrightarrow> seq (appsettings t) = next_rowid as_ID (appsettings t)
     \<and> seq (microservices t) = next_rowid ms_ID (microservices t)
     \<and> seq (environments t) = next_rowid env_ID (environments t)"

lemma checked_settings:
  assumes "calm db" "checkAppSettingsRefs v db = (Inr u, d)"
  shows "as_refs (tabs db) (as_MicroserviceID v) (as_EnvironmentID v)"
  using assms
  by (auto simp: checkAppSettingsRefs_def settings_count_def settings_wrap_def as_refs_def
      filter_empty_conv split: if_splits intro: rev_image_eqI)

text \<open>After the checks, the statement runs where its references exist.\<close>

lemma agree_checked_settings:
  assumes "twin db db'"
    and "\<And>u. checkAppSettingsRefs v db' = (Inr u, db') \<Longrightarrow> agree (f db) (f' db')"
  shows "agree (bindE (checkAppSettingsRefs v db) (\<lambda>_. f)) (bindE (checkAppSettingsRefs v db') (\<lambda>_. f'))"
  using assms(1) by (intro agree_checked checkAppSettingsRefs_agree assms) (simp_all add: checkAppSettingsRefs_calm twin_def)

lemma settings_writes_agree:
  assumes db: "twin db db'" and refs: "as_refs (tabs db') (as_MicroserviceID v) (as_EnvironmentID v)"
  shows "whole_settings (tabs db) \<Longrightarrow> settings_version_whole v \<Longrightarrow>
      agree (exec (sqlite_update_as_stmt v) db) (exec (update_as_stmt v) db')"
    "settings_in_step (tabs db') \<Longrightarrow> agree (exec (sqlite_insert_as_stmt v) db) (exec (insert_as_stmt v) db')"
proof -
  have same: "same_rows (tabs db) (tabs db')" using db by (simp add: twin_def)
  show "agree (exec (sqlite_update_as_stmt v) db) (exec (update_as_stmt v) db')"
    if "whole_settings (tabs db)" "settings_version_whole v"
  proof -
    have "sqlite_as_matches v r = as_matches v r" if "r \<in> set (rows (appsettings (tabs db)))" for r
      using \<open>whole_settings (tabs db)\<close> \<open>settings_version_whole v\<close> that
      by (auto simp: sqlite_as_matches_def as_matches_def whole_settings_def settings_version_whole_def whole_layout
          split: option.splits)
    note T = table_update_same [of "appsettings (tabs db)" "appsettings (tabs db')", OF _ this,
        where uk = as_key and f = "as_write v (sqlite_now (clock db))"]
    show ?thesis
      by (rule agree_exec [OF db])
        (use T same refs in \<open>auto simp: sqlite_update_as_stmt_def update_as_stmt_def same_rows_def split_beta
          split: sum.splits prod.splits\<close>)
  qed
  show "agree (exec (sqlite_insert_as_stmt v) db) (exec (insert_as_stmt v) db')" if "settings_in_step (tabs db')"
    by (rule agree_exec [OF db])
      (use insert_agrees [of "appsettings (tabs db)" "appsettings (tabs db')" as_ID as_key] same refs that in
        \<open>auto simp: sqlite_insert_as_stmt_def insert_as_stmt_def same_rows_def settings_in_step_def split_beta
          split: sum.splits prod.splits\<close>)
qed

lemma settings_methods_agree:
  assumes db: "twin db db'"
  shows "whole_settings (tabs db) \<Longrightarrow> settings_version_whole v \<Longrightarrow>
      agree (sqlite_UpdateMicroserviceConfig v db) (UpdateMicroserviceConfig v db')"
    "settings_in_step (tabs db') \<Longrightarrow> agree (sqlite_CreateMicroserviceConfig v db) (CreateMicroserviceConfig v db')"
    "agree (DeleteMicroserviceConfig i db) (DeleteMicroserviceConfig i db')"
proof -
  have calm: "calm db'" using db by (simp add: twin_def)
  show "agree (sqlite_UpdateMicroserviceConfig v db) (UpdateMicroserviceConfig v db')"
    if "whole_settings (tabs db)" "settings_version_whole v"
    unfolding sqlite_UpdateMicroserviceConfig_def UpdateMicroserviceConfig_def settings_reads settings_unique_def
    by (intro agree_checked_settings [OF db] agree_bind agree_wrap settings_writes_agree(1) db that
        checked_settings [OF calm]) (auto simp: settings_reads_agree agree_settings_noRows)
  show "agree (sqlite_CreateMicroserviceConfig v db) (CreateMicroserviceConfig v db')"
    if "settings_in_step (tabs db')"
    unfolding sqlite_CreateMicroserviceConfig_def CreateMicroserviceConfig_def settings_reads settings_unique_def
    by (intro agree_checked_settings [OF db] agree_bind agree_wrap settings_writes_agree(2) db that
        checked_settings [OF calm]) (auto simp: settings_reads_agree)
  have "agree (exec (delete_as_stmt i) d) (exec (delete_as_stmt i) d')" if "twin d d'" for d d'
    by (rule agree_exec [OF that]) (use that in \<open>simp_all add: delete_as_stmt_def table_delete_def
      twin_def same_rows_def\<close>)
  then show "agree (DeleteMicroserviceConfig i db) (DeleteMicroserviceConfig i db')"
    unfolding DeleteMicroserviceConfig_def settings_wrap_def
    by (intro agree_bind settings_reads_agree agree_wrap db) (auto simp: agree_return)
qed

section \<open>Reference tables\<close>

lemma agree_counted:
  assumes db: "twin db db'" and q: "\<And>t u. same_rows t u \<Longrightarrow> q t = q u"
    and step: "q (tabs db') = 0 \<Longrightarrow> agree (f db) (f' db')"
  shows "agree (bindE (settings_count q db) (\<lambda>n db. if 0 < n then (Inl e, db) else f db))
    (bindE (settings_count q db') (\<lambda>n db. if 0 < n then (Inl e, db) else f' db))"
proof -
  have "calm db" "calm db'" "q (tabs db) = q (tabs db')" using db q by (simp_all add: twin_def)
  then show ?thesis using step db by (auto simp: settings_count_def settings_wrap_def agree_return)
qed

lemma reference_creates_agree:
  assumes db: "twin db db'" and step: "settings_in_step (tabs db')" and name: "varchar 100 name"
  shows "agree (sqlite_CreateMicroservice name db) (CreateMicroservice name db')"
    "agree (sqlite_CreateEnvironment name db) (CreateEnvironment name db')"
proof -
  have same: "same_rows (tabs db) (tabs db')" using db by (simp add: twin_def)
  have ms: "agree (exec (sqlite_insert_ms_stmt name) db) (exec (insert_ms_stmt name) db')"
    by (rule agree_exec [OF db])
      (use insert_agrees [of "microservices (tabs db)" "microservices (tabs db')" ms_ID ms_Microservice]
        same step name in \<open>simp_all add: sqlite_insert_ms_stmt_def insert_ms_stmt_def same_rows_def
          settings_in_step_def split_beta\<close>)
  have env: "agree (exec (sqlite_insert_env_stmt name) db) (exec (insert_env_stmt name) db')"
    by (rule agree_exec [OF db])
      (use insert_agrees [of "environments (tabs db)" "environments (tabs db')" env_ID env_Environment]
        same step name in \<open>simp_all add: sqlite_insert_env_stmt_def insert_env_stmt_def same_rows_def
          settings_in_step_def split_beta\<close>)
  show "agree (sqlite_CreateMicroservice name db) (CreateMicroservice name db')"
    unfolding sqlite_CreateMicroservice_def CreateMicroservice_def settings_reads settings_unique_def
    by (rule agree_counted [OF db], simp add: same_rows_def)
      (intro agree_bind [OF agree_wrap [OF ms]] agree_settings_row, simp_all add: same_rows_def find_row_def)
  show "agree (sqlite_CreateEnvironment name db) (CreateEnvironment name db')"
    unfolding sqlite_CreateEnvironment_def CreateEnvironment_def settings_reads settings_unique_def
    by (rule agree_counted [OF db], simp add: same_rows_def)
      (intro agree_bind [OF agree_wrap [OF env]] agree_settings_row, simp_all add: same_rows_def find_row_def)
qed

lemma reference_deletes_agree:
  assumes db: "twin db db'"
  shows "agree (sqlite_DeleteMicroservice i db) (DeleteMicroservice i db')"
    "agree (sqlite_DeleteEnvironment i db) (DeleteEnvironment i db')"
proof -
  have same: "same_rows (tabs db) (tabs db')" using db by (simp add: twin_def)
  have ms: "agree (exec (sqlite_delete_ms_stmt i) db) (exec (delete_ms_stmt i) db')" if "ms_refs i (tabs db') = 0"
    by (rule agree_exec [OF db]) (use same that in \<open>simp_all add: sqlite_delete_ms_stmt_def delete_ms_stmt_def
      table_delete_def same_rows_def\<close>)
  have env: "agree (exec (sqlite_delete_env_stmt i) db) (exec (delete_env_stmt i) db')" if "env_refs i (tabs db') = 0"
    by (rule agree_exec [OF db]) (use same that in \<open>simp_all add: sqlite_delete_env_stmt_def delete_env_stmt_def
      table_delete_def same_rows_def\<close>)
  show "agree (sqlite_DeleteMicroservice i db) (DeleteMicroservice i db')"
    unfolding sqlite_DeleteMicroservice_def DeleteMicroservice_def settings_reads settings_wrap_def
    by (rule agree_counted [OF db], simp add: same_rows_def ms_refs_def)
      (intro agree_bind [OF agree_wrap [OF ms]], simp_all add: agree_return)
  show "agree (sqlite_DeleteEnvironment i db) (DeleteEnvironment i db')"
    unfolding sqlite_DeleteEnvironment_def DeleteEnvironment_def settings_reads settings_wrap_def
    by (rule agree_counted [OF db], simp add: same_rows_def env_refs_def)
      (intro agree_bind [OF agree_wrap [OF env]], simp_all add: agree_return)
qed

section \<open>Localizations\<close>

lemma loc_reads:
  "sqlite_loc_count = loc_count" "sqlite_GetLocalizationByID = GetLocalizationByID"
  "sqlite_GetLocalization = GetLocalization" "sqlite_ListLocalizations = ListLocalizations"
  "sqlite_loc_noRowsErr = loc_noRowsErr" "sqlite_checkRefs = checkRefs"
  "sqlite_DeleteLocalization = DeleteLocalization"
proof -
  show count: "sqlite_loc_count = loc_count"
    by (intro ext) (simp only: sqlite_loc_count_def loc_count_def)
  show get: "sqlite_GetLocalizationByID = GetLocalizationByID"
    by (intro ext) (simp only: sqlite_GetLocalizationByID_def GetLocalizationByID_def)
  show "sqlite_loc_noRowsErr = loc_noRowsErr"
    by (intro ext) (simp only: sqlite_loc_noRowsErr_def loc_noRowsErr_def get)
  show "sqlite_checkRefs = checkRefs"
    by (intro ext) (simp only: sqlite_checkRefs_def checkRefs_def count)
  show "sqlite_DeleteLocalization = DeleteLocalization"
    by (intro ext) (simp only: sqlite_DeleteLocalization_def DeleteLocalization_def get)
  show "sqlite_GetLocalization = GetLocalization" "sqlite_ListLocalizations = ListLocalizations"
    by (intro ext; simp only: sqlite_GetLocalization_def GetLocalization_def sqlite_ListLocalizations_def
        ListLocalizations_def)+
qed

lemma agree_loc_query:
  "twin db db' \<Longrightarrow> (\<And>t u. same_rows t u \<Longrightarrow> q t = q u) \<Longrightarrow>
    agree (loc_wrap msg (query q db)) (loc_wrap msg (query q db'))"
  unfolding loc_wrap_def by (intro agree_wrap agree_query)

lemma agree_loc_row: "twin db db' \<Longrightarrow> agree (loc_row msg P db) (loc_row msg P db')"
  unfolding loc_row_def
  by (rule agree_bind [OF agree_loc_query])
    (auto simp: agree_return same_rows_def find_row_def split: option.splits)

lemma loc_reads_agree:
  assumes "twin db db'"
  shows "agree (GetLocalizationByID i db) (GetLocalizationByID i db')"
    "agree (GetLocalization m e l db) (GetLocalization m e l db')"
    "agree (ListLocalizations filt db) (ListLocalizations filt db')"
  unfolding GetLocalizationByID_def GetLocalization_def ListLocalizations_def
  by (rule agree_loc_row [OF assms])+ (rule agree_loc_query [OF assms], simp add: same_rows_def)

lemma agree_loc_noRows: "twin db db' \<Longrightarrow> agree (case loc_noRowsErr v db of (e, d) \<Rightarrow> (Inl e, d))
    (case loc_noRowsErr v db' of (e, d) \<Rightarrow> (Inl e, d))"
  using loc_reads_agree(1) [of db db' "loc_ID v"]
  by (auto simp: loc_noRowsErr_def agree_def split: option.splits prod.splits sum.splits)

lemma checkRefs_agree:
  assumes "twin db db'"
  shows "agree (checkRefs v db) (checkRefs v db')"
  unfolding checkRefs_def loc_count_def
  by (intro agree_bind agree_loc_query assms)
    (auto simp: same_rows_def agree_return intro!: agree_bind agree_loc_query)

definition whole_locs :: "tables \<Rightarrow> bool" where
  "whole_locs t \<longleftrightarrow> (\<forall>r \<in> set (rows (localizations t)). whole (loc_UpdatedAt r))"

definition loc_version_whole :: "Localization \<Rightarrow> bool" where
  "loc_version_whole v \<longleftrightarrow> (case loc_ExpectedUpdatedAt v of None \<Rightarrow> True | Some e \<Rightarrow> whole e)"

definition loc_in_step :: "tables \<Rightarrow> bool" where
  "loc_in_step t \<longleftrightarrow> seq (localizations t) = next_rowid loc_ID (localizations t)"

lemma checked_loc:
  assumes "calm db" "checkRefs v db = (Inr u, d)"
  shows "loc_refs (tabs db) (loc_MicroserviceID v) (loc_EnvironmentID v)"
  using assms
  by (auto simp: checkRefs_def loc_count_def loc_wrap_def loc_refs_def
      filter_empty_conv split: if_splits intro: rev_image_eqI)

lemma agree_checked_loc:
  assumes "twin db db'"
    and "\<And>u. checkRefs v db' = (Inr u, db') \<Longrightarrow> agree (f db) (f' db')"
  shows "agree (bindE (checkRefs v db) (\<lambda>_. f)) (bindE (checkRefs v db') (\<lambda>_. f'))"
  using assms(1) by (intro agree_checked checkRefs_agree assms) (simp_all add: checkRefs_calm twin_def)

lemma loc_writes_agree:
  assumes db: "twin db db'" and refs: "loc_refs (tabs db') (loc_MicroserviceID v) (loc_EnvironmentID v)"
    and name: "varchar 35 (loc_Locale v)"
  shows "whole_locs (tabs db) \<Longrightarrow> loc_version_whole v \<Longrightarrow>
      agree (exec (sqlite_update_loc_stmt v) db) (exec (update_loc_stmt v) db')"
    "loc_in_step (tabs db') \<Longrightarrow> agree (exec (sqlite_insert_loc_stmt v) db) (exec (insert_loc_stmt v) db')"
proof -
  have same: "same_rows (tabs db) (tabs db')" using db by (simp add: twin_def)
  show "agree (exec (sqlite_update_loc_stmt v) db) (exec (update_loc_stmt v) db')"
    if "whole_locs (tabs db)" "loc_version_whole v"
  proof -
    have "sqlite_loc_matches v r = loc_matches v r" if "r \<in> set (rows (localizations (tabs db)))" for r
      using \<open>whole_locs (tabs db)\<close> \<open>loc_version_whole v\<close> that
      by (auto simp: sqlite_loc_matches_def loc_matches_def whole_locs_def loc_version_whole_def whole_layout
          split: option.splits)
    note T = table_update_same [of "localizations (tabs db)" "localizations (tabs db')", OF _ this,
        where uk = loc_key and f = "loc_write v (sqlite_now (clock db))"]
    show ?thesis
      by (rule agree_exec [OF db])
        (use T same refs name in \<open>auto simp: sqlite_update_loc_stmt_def update_loc_stmt_def same_rows_def split_beta
          split: sum.splits prod.splits\<close>)
  qed
  show "agree (exec (sqlite_insert_loc_stmt v) db) (exec (insert_loc_stmt v) db')" if "loc_in_step (tabs db')"
    by (rule agree_exec [OF db])
      (use insert_agrees [of "localizations (tabs db)" "localizations (tabs db')" loc_ID loc_key] same refs name that in
        \<open>auto simp: sqlite_insert_loc_stmt_def insert_loc_stmt_def same_rows_def loc_in_step_def split_beta
          split: sum.splits prod.splits\<close>)
qed

lemma loc_methods_agree:
  assumes db: "twin db db'" and name: "varchar 35 (loc_Locale v)"
  shows "whole_locs (tabs db) \<Longrightarrow> loc_version_whole v \<Longrightarrow>
      agree (sqlite_UpdateLocalization v db) (UpdateLocalization v db')"
    "loc_in_step (tabs db') \<Longrightarrow> agree (sqlite_CreateLocalization v db) (CreateLocalization v db')"
    "agree (DeleteLocalization i db) (DeleteLocalization i db')"
proof -
  have calm: "calm db'" using db by (simp add: twin_def)
  show "agree (sqlite_UpdateLocalization v db) (UpdateLocalization v db')"
    if "whole_locs (tabs db)" "loc_version_whole v"
    unfolding sqlite_UpdateLocalization_def UpdateLocalization_def loc_reads loc_unique_def
    by (intro agree_checked_loc [OF db] agree_bind agree_wrap loc_writes_agree(1) db name that
        checked_loc [OF calm]) (auto simp: loc_reads_agree agree_loc_noRows)
  show "agree (sqlite_CreateLocalization v db) (CreateLocalization v db')"
    if "loc_in_step (tabs db')"
    unfolding sqlite_CreateLocalization_def CreateLocalization_def loc_reads loc_unique_def
    by (intro agree_checked_loc [OF db] agree_bind agree_wrap loc_writes_agree(2) db name that
        checked_loc [OF calm]) (auto simp: loc_reads_agree)
  have "agree (exec (delete_loc_stmt i) d) (exec (delete_loc_stmt i) d')" if "twin d d'" for d d'
    by (rule agree_exec [OF that]) (use that in \<open>simp_all add: delete_loc_stmt_def table_delete_def
      twin_def same_rows_def\<close>)
  then show "agree (DeleteLocalization i db) (DeleteLocalization i db')"
    unfolding DeleteLocalization_def loc_wrap_def
    by (intro agree_bind loc_reads_agree agree_wrap db) (auto simp: agree_return)
qed

section \<open>Properties\<close>

text \<open>When no id of the documents' tables was skipped and their times are whole seconds.\<close>

definition documents_ready :: "tables \<Rightarrow> bool" where
  "documents_ready t \<longleftrightarrow> settings_in_step t \<and> loc_in_step t \<and> whole_settings t \<and> whole_locs t"


text \<open>A database with one service in one environment, half a second past the fifth second.\<close>

definition stack_documents :: dbconn where
  "stack_documents = \<lparr>tabs = \<lparr>
     environments = \<lparr>rows = [\<lparr>env_ID = 3, env_Environment = ''dev'', env_UpdatedAt = 1\<rparr>], seq = 4\<rparr>,
     microservices = \<lparr>rows = [\<lparr>ms_ID = 7, ms_Microservice = ''billing'', ms_UpdatedAt = 1\<rparr>], seq = 8\<rparr>,
     flags = \<lparr>rows = [], seq = 1\<rparr>, flag_values = \<lparr>rows = [], seq = 1\<rparr>,
     appsettings = \<lparr>rows = [\<lparr>as_ID = 2, as_MicroserviceID = 7, as_EnvironmentID = 3, as_SettingsJSON = ''{}'',
       as_UpdatedAt = 5 * second, as_ExpectedUpdatedAt = None\<rparr>], seq = 3\<rparr>,
     localizations = \<lparr>rows = [], seq = 1\<rparr>\<rparr>, clock = 5500000000, script = []\<rparr>"

definition stack_document :: MicroserviceAppSettings where
  "stack_document = \<lparr>as_ID = 2, as_MicroserviceID = 7, as_EnvironmentID = 3, as_SettingsJSON = ''[]'',
     as_UpdatedAt = 0, as_ExpectedUpdatedAt = Some (5 * second)\<rparr>"

definition stack_bundle :: Localization where
  "stack_bundle = \<lparr>loc_ID = 0, loc_MicroserviceID = 7, loc_EnvironmentID = 3, loc_Locale = ''en'',
     loc_BundleJSON = ''{}'', loc_UpdatedAt = 0, loc_ExpectedUpdatedAt = None\<rparr>"


end
