(* ===== verification/App_Observe.thy ===== *)
theory App_Observe
  imports App_Routes Obs_Metrics
begin

text \<open>
  The outermost middleware, \<^verbatim>\<open>internal/app/observe.go\<close>: the request id, the access line, the HTTP metrics and
  the recovery of a panic. The id that is minted when a caller sends none is a parameter, as are the
  moments the request starts and ends; the stack trace a panic logs is left out.
\<close>

section \<open>Request ids\<close>

definition maxRequestID :: nat where "maxRequestID = 64"

definition validRequestID :: "string \<Rightarrow> bool" where
  "validRequestID i =
     (if i = [] \<or> maxRequestID < length i then False else list_all label_rune (runes i))"

fun nat_hex :: "nat \<Rightarrow> string" where
  "nat_hex n = (if n < 16 then [hex_digit n] else nat_hex (n div 16) @ [hex_digit (n mod 16)])"

declare nat_hex.simps [simp del]

definition EncodeToString :: "nat list \<Rightarrow> string" where
  "EncodeToString bs = concat (map (\<lambda>b. [hex_digit (b div 16), hex_digit (b mod 16)]) bs)"

text \<open>\<open>rand\<close> is the 16 bytes of \<^verbatim>\<open>crypto/rand\<close>, or its failure; \<open>nanos\<close> is \<^verbatim>\<open>time.Now().UnixNano()\<close>.\<close>

definition requestID :: "nat list option \<Rightarrow> nat \<Rightarrow> string \<Rightarrow> string" where
  "requestID rand nanos inbound =
     (if validRequestID inbound then inbound
      else case rand of None \<Rightarrow> nat_hex nanos | Some buf \<Rightarrow> EncodeToString buf)"

section \<open>Labels\<close>

definition methodLabel :: "string \<Rightarrow> string" where
  "methodLabel m =
     (if m \<in> {''GET'', ''HEAD'', ''POST'', ''PUT'', ''PATCH'', ''DELETE'', ''OPTIONS'', ''CONNECT'', ''TRACE''}
      then m else ''other'')"

fun segment_text :: "segment \<Rightarrow> string" where
  "segment_text (Lit s) = CHR ''/'' # s"
| "segment_text (Wild w) = ''/{'' @ w @ ''}''"

text \<open>The pattern a request matched, as it was registered.\<close>

definition pattern_text :: "route \<Rightarrow> string" where
  "pattern_text rt = (case find (\<lambda>(m, ps, r). r = rt) patterns of
     None \<Rightarrow> []
   | Some (m, ps, r) \<Rightarrow> m @ '' '' @ concat (map segment_text ps))"

definition routeOf :: "string \<Rightarrow> string list \<Rightarrow> string" where
  "routeOf m segs = (case route_of m segs of None \<Rightarrow> ''other'' | Some (rt, _) \<Rightarrow> pattern_text rt)"

section \<open>The access line\<close>

datatype log_level = LevelDebug | LevelInfo | LevelWarn | LevelError

record access_line =
  al_Level :: log_level
  al_RequestID :: string
  al_Method :: string
  al_Path :: string
  al_Route :: string
  al_Status :: nat
  al_Duration :: int
  al_ClientIP :: string
  al_UserName :: "string option"

definition access_level :: "string \<Rightarrow> nat \<Rightarrow> log_level" where
  "access_level route status =
     (if route = ''GET /health'' \<or> route = ''GET /livez'' \<or> route = ''GET /metrics'' then LevelDebug
      else if 500 \<le> status then LevelError
      else if 400 \<le> status then LevelWarn
      else LevelInfo)"

definition record_request ::
  "(log_level \<Rightarrow> bool) \<Rightarrow> string \<Rightarrow> request \<Rightarrow> string \<Rightarrow> string \<Rightarrow> nat \<Rightarrow> int \<Rightarrow> auditSink \<Rightarrow> metrics
     \<Rightarrow> access_line option \<times> metrics" where
  "record_request enabled i r path route status elapsed sink m = (
     let method = methodLabel (rq_Method r);
         m1 = counter_Inc HTTPRequests [''method'', method, ''route'', route, ''status'', FormatInt (int status)] m;
         m2 = histogram_Observe HTTPDuration (of_int elapsed / of_int second) [''method'', method, ''route'', route] m1;
         level = access_level route status
     in (if \<not> enabled level then None
         else Some \<lparr>al_Level = level, al_RequestID = i, al_Method = rq_Method r, al_Path = path, al_Route = route,
           al_Status = status, al_Duration = elapsed, al_ClientIP = remoteHost (rq_RemoteAddr r),
           al_UserName = (if sink_actor sink = [] then None else Some (sink_actor sink))\<rparr>, m2))"

section \<open>The middleware\<close>

text \<open>
  How the handlers inside end: with a response, or in a panic, with what they had already written. The audit
  sink is filled on the way and outlives a panic.
\<close>

datatype 'w served =
    Returned response auditSink 'w
  | Panicked "response option" auditSink 'w

record observed =
  ob_RequestID :: string
  ob_Response :: response
  ob_Line :: "access_line option"

definition observe ::
  "(log_level \<Rightarrow> bool) \<Rightarrow> string \<Rightarrow> string list \<Rightarrow> int \<Rightarrow> (request \<Rightarrow> 'w \<Rightarrow> 'w served)
     \<Rightarrow> request \<Rightarrow> metrics \<times> 'w \<Rightarrow> observed \<times> metrics \<times> 'w" where
  "observe enabled i segs elapsed next r = (\<lambda>(m, w).
     let route = routeOf (rq_Method r) segs; path = url_path segs
     in case next r w of
          Returned p sink w1 \<Rightarrow>
            (case record_request enabled i r path route (rp_Status p) elapsed sink m of (line, m1) \<Rightarrow>
               (\<lparr>ob_RequestID = i, ob_Response = p, ob_Line = line\<rparr>, m1, w1))
        | Panicked written sink w1 \<Rightarrow>
            (let m1 = counter_Inc HTTPPanics [''route'', route] m;
                 p = (case written of None \<Rightarrow> web_Error 500 ''internal server error'' | Some p \<Rightarrow> p)
             in case record_request enabled i r path route 500 elapsed sink m1 of (line, m2) \<Rightarrow>
                  (\<lparr>ob_RequestID = i, ob_Response = p, ob_Line = line\<rparr>, m2, w1)))"

section \<open>Lemmas\<close>

lemma label_rune_bytes: "label_rune r \<Longrightarrow> \<forall>c \<in> set r. label_char c"
  by (cases r; cases "tl r") (auto simp: label_rune_def)

lemma label_char_ascii: "label_char c \<Longrightarrow> is_ascii c"
  by (auto simp: label_char_def plain_char_ascii) (simp add: is_ascii_def)

lemma label_runes_iff: "list_all label_rune (runes s) \<longleftrightarrow> list_all label_char s"
proof
  assume *: "list_all label_rune (runes s)"
  have "\<forall>c \<in> set (concat (runes s)). label_char c"
    using * label_rune_bytes by (fastforce simp: list_all_iff)
  then show "list_all label_char s" by (simp only: concat_runes list_all_iff)
next
  assume *: "list_all label_char s"
  then have "list_all is_ascii s" by (auto simp: list_all_iff label_char_ascii)
  then show "list_all label_rune (runes s)"
    using * by (simp add: runes_ascii label_rune_def list_all_iff)
qed

lemma hex_digits_label: "list_all (\<lambda>d. label_char (hex_digit d)) [0..<16]"
  by (simp add: upt_rec hex_digit_def label_char_def plain_char_def char_between_def)

lemma hex_digit_label: "d < 16 \<Longrightarrow> label_char (hex_digit d)"
  using hex_digits_label by (simp only: list_all_iff set_upt) simp

lemma nat_hex_label: "list_all label_char (nat_hex n)"
  by (induction n rule: nat_hex.induct) (subst nat_hex.simps, auto simp: hex_digit_label)

lemma nat_hex_Nil: "nat_hex n \<noteq> []"
  by (subst nat_hex.simps) simp

lemma nat_hex_length: "n < 16 ^ Suc k \<Longrightarrow> length (nat_hex n) \<le> Suc k"
proof (induction k arbitrary: n)
  case 0
  then show ?case by (subst nat_hex.simps) simp
next
  case (Suc k)
  then have "n div 16 < 16 ^ Suc k" by (simp add: less_mult_imp_div_less mult.commute)
  with Suc.IH show ?case by (subst nat_hex.simps) simp
qed

lemma EncodeToString_label: "list_all (\<lambda>b. b < 256) bs \<Longrightarrow> list_all label_char (EncodeToString bs)"
  by (induction bs) (simp_all add: EncodeToString_def hex_digit_label less_mult_imp_div_less)

lemma length_EncodeToString: "length (EncodeToString bs) = 2 * length bs"
  by (induction bs) (simp_all add: EncodeToString_def)

text \<open>The labels a request can be counted under.\<close>

definition http_methods :: "string list" where
  "http_methods = [''GET'', ''HEAD'', ''POST'', ''PUT'', ''PATCH'', ''DELETE'', ''OPTIONS'', ''CONNECT'', ''TRACE'',
     ''other'']"

definition http_routes :: "string list" where
  "http_routes = ''other'' # map (\<lambda>(m, ps, r). m @ '' '' @ concat (map segment_text ps)) patterns"

definition http_series :: "string list" where
  "http_series = concat (map (\<lambda>m. map (\<lambda>rt. labelKey [''method'', m, ''route'', rt]) http_routes) http_methods)"

lemma methodLabel_mem: "methodLabel m \<in> set http_methods"
  by (auto simp: methodLabel_def http_methods_def)

lemma find_pattern:
  "find_route ps m segs = Some (rt, vs) \<Longrightarrow> \<exists>p. find (\<lambda>(m, ps, r). r = rt) ps = Some p \<and> p \<in> set ps"
  by (induction ps m segs rule: find_route.induct)
     (auto split: option.splits if_splits prod.splits)

lemma routeOf_mem: "routeOf m segs \<in> set http_routes"
proof (cases "route_of m segs")
  case None
  then show ?thesis by (simp add: routeOf_def http_routes_def)
next
  case (Some found)
  then obtain rt vs where found: "route_of m segs = Some (rt, vs)" by (cases found) auto
  then obtain p where p: "find (\<lambda>(m, ps, r). r = rt) patterns = Some p" "p \<in> set patterns"
    using find_pattern unfolding route_of_def by blast
  have "routeOf m segs = (case p of (m, ps, r) \<Rightarrow> m @ '' '' @ concat (map segment_text ps))"
    by (simp add: routeOf_def found pattern_text_def p(1) del: append.simps)
  with p(2) show ?thesis unfolding http_routes_def by (auto intro: rev_image_eqI)
qed

lemma length_http_series: "length http_series = 330"
  by (simp add: http_series_def http_routes_def http_methods_def patterns_def length_concat)

lemma series_mem: "labelKey [''method'', methodLabel m, ''route'', routeOf m' segs] \<in> set http_series"
  unfolding http_series_def using methodLabel_mem routeOf_mem by fastforce

text \<open>A request of the history: what varies from one to the next, beside the request.\<close>

fun observe_all ::
  "(log_level \<Rightarrow> bool) \<Rightarrow> (request \<Rightarrow> 'w \<Rightarrow> 'w served) \<Rightarrow> (string \<times> string list \<times> int \<times> request) list
     \<Rightarrow> metrics \<times> 'w \<Rightarrow> observed list \<times> metrics \<times> 'w" where
  "observe_all enabled next [] s = ([], s)"
| "observe_all enabled next ((i, segs, elapsed, r) # rs) s = (case observe enabled i segs elapsed next r s of
     (ob, s) \<Rightarrow> case observe_all enabled next rs s of (obs, s) \<Rightarrow> (ob # obs, s))"

definition http_bounded :: "metrics \<Rightarrow> bool" where
  "http_bounded m \<longleftrightarrow> dom (histograms m HTTPDuration) \<subseteq> set http_series"

lemmas http_instruments = HTTPRequests_def HTTPDuration_def HTTPPanics_def

lemma counter_Inc_histograms [simp]: "histograms (counter_Inc c ls m) = histograms m"
  by (simp add: counter_Inc_def counter_Add_def)

lemma record_request_bounded:
  "http_bounded m \<Longrightarrow> http_bounded (snd (record_request enabled i r path (routeOf m' segs) status elapsed sink m))"
  using series_mem by (auto simp: http_bounded_def record_request_def Let_def histogram_Observe_def Observe_def)

lemma observe_bounded:
  "http_bounded m \<Longrightarrow> http_bounded (fst (snd (observe enabled i segs elapsed next r (m, w))))"
  using record_request_bounded [of "counter_Inc HTTPPanics [''route'', routeOf (rq_Method r) segs] m"]
    record_request_bounded [of m]
  by (auto simp: observe_def Let_def http_bounded_def split: served.splits prod.splits) (metis domI snd_conv subsetD)+

definition counted_under :: "string set" where
  "counted_under = {labelKey [''method'', m, ''route'', rt, ''status'', st] |m rt st.
     m \<in> set http_methods \<and> rt \<in> set http_routes}"

definition http_counted :: "metrics \<Rightarrow> bool" where
  "http_counted m \<longleftrightarrow> dom (counters m HTTPRequests) \<subseteq> counted_under"

lemma record_request_counted:
  "http_counted m \<Longrightarrow> http_counted (snd (record_request enabled i r path (routeOf m' segs) status elapsed sink m))"
  using methodLabel_mem [of "rq_Method r"] routeOf_mem [of m' segs]
  by (auto simp: http_counted_def record_request_def Let_def histogram_Observe_def counter_Inc_def counter_Add_def
      counted_under_def split: if_splits)

lemma panics_apart: "http_counted (counter_Inc HTTPPanics ls m) = http_counted m"
  by (simp add: http_counted_def counter_Inc_def counter_Add_def http_instruments)

lemma observe_counted:
  "http_counted m \<Longrightarrow> http_counted (fst (snd (observe enabled i segs elapsed next r (m, w))))"
  using record_request_counted [of "counter_Inc HTTPPanics [''route'', routeOf (rq_Method r) segs] m"]
    record_request_counted [of m]
  by (auto simp: observe_def Let_def panics_apart split: served.splits prod.splits) (metis snd_conv)+

lemma observe_all_bounded:
  "http_bounded (fst s) \<Longrightarrow> http_counted (fst s)
   \<Longrightarrow> http_bounded (fst (snd (observe_all enabled next rs s))) \<and> http_counted (fst (snd (observe_all enabled next rs s)))"
proof (induction enabled "next" rs s rule: observe_all.induct)
  case (1 enabled "next" s)
  then show ?case by simp
next
  case (2 enabled "next" i segs elapsed r rs s)
  obtain m w where s: "s = (m, w)" by (cases s)
  obtain ob s1 where step: "observe enabled i segs elapsed next r s = (ob, s1)"
    by (cases "observe enabled i segs elapsed next r s")
  have "http_bounded (fst s1)" "http_counted (fst s1)"
    using 2(2,3) observe_bounded [of m enabled i segs elapsed "next" r w]
      observe_counted [of m enabled i segs elapsed "next" r w] step s by simp_all
  from 2(1) [OF step [symmetric] this] step show ?case by (auto split: prod.splits)
qed

section \<open>Properties\<close>

text \<open>
  Property C28. The request metrics stay bounded by the routing table: after any sequence of requests,
  with any methods, paths and ids and whatever the handlers did, the duration histogram holds at most
  330 series (ten methods times the 32 registered patterns and \<^verbatim>\<open>other\<close>), and every series of the request
  counter is labelled with one of those methods and routes. A caller cannot grow
  \<^verbatim>\<open>/metrics\<close> by probing.
\<close>

theorem http_series_bounded:
  "let m = fst (snd (observe_all enabled next rs (new_metrics, w)))
   in card (dom (histograms m HTTPDuration)) \<le> 330 \<and> dom (counters m HTTPRequests) \<subseteq> counted_under"
proof -
  let ?m = "fst (snd (observe_all enabled next rs (new_metrics, w)))"
  have inv: "http_bounded ?m" "http_counted ?m"
    using observe_all_bounded [of "(new_metrics, w)" enabled "next" rs]
    by (simp_all add: http_bounded_def http_counted_def new_metrics_def)
  have "card (dom (histograms ?m HTTPDuration)) \<le> card (set http_series)"
    using inv(1) unfolding http_bounded_def by (intro card_mono) auto
  also have "\<dots> \<le> 330" using card_length [of http_series] by (simp only: length_http_series)
  finally show ?thesis using inv(2) by (simp add: http_counted_def Let_def)
qed

text \<open>
  Property C27. A panic in a handler is answered and accounted for: the caller gets the response that
  was already written, or else a 500 \<^verbatim>\<open>internal server error\<close>; either way the request is counted once
  with status 500, the panic once under the route, and the access line, when its level is enabled, says 500
  at error level (debug on the probe routes). The state the handler left is kept.
\<close>

theorem panic_answered:
  assumes "next r w = Panicked written sink w1"
  shows "case observe enabled i segs elapsed next r (m, w) of (ob, m1, w2) \<Rightarrow>
     let route = routeOf (rq_Method r) segs; labels = [''method'', methodLabel (rq_Method r), ''route'', route, ''status'']
     in w2 = w1 \<and> ob_RequestID ob = i
        \<and> ob_Response ob = (case written of None \<Rightarrow> web_Error 500 ''internal server error'' | Some p \<Rightarrow> p)
        \<and> counter_Value HTTPRequests (labels @ [''500'']) m1 = counter_Value HTTPRequests (labels @ [''500'']) m + 1
        \<and> counter_Value HTTPPanics [''route'', route] m1 = counter_Value HTTPPanics [''route'', route] m + 1
        \<and> map_option al_Status (ob_Line ob) = (if enabled (access_level route 500) then Some 500 else None)
        \<and> access_level route 500 \<in> {LevelDebug, LevelError}"
proof -
  have num: "FormatInt 500 = ''500''" by code_simp
  have kept: "counter_Value c ls (histogram_Observe h x ks m') = counter_Value c ls m'" for c ls h x ks m'
    by (simp add: counter_Value_def histogram_Observe_def)
  show ?thesis
    using assms
    by (simp add: observe_def record_request_def Let_def num kept access_level_def http_instruments
        split: option.splits)
qed

text \<open>
  Whatever a caller sends as \<^verbatim>\<open>X-Request-Id\<close>, the id that goes into the header and into every
  log line is a non-empty token of at most 64 letters, digits, dashes, underscores and dots: no quote,
  newline or separator that could forge a second record. A usable inbound id is kept as it is.
\<close>

theorem request_id_token:
  assumes "case rand of None \<Rightarrow> nanos < 2 ^ 63 | Some buf \<Rightarrow> length buf = 16 \<and> list_all (\<lambda>b. b < 256) buf"
  shows "let i = requestID rand nanos inbound
     in i \<noteq> [] \<and> length i \<le> 64 \<and> list_all label_char i
        \<and> (i = inbound \<or> inbound = [] \<or> 64 < length inbound \<or> \<not> list_all label_char inbound)"
proof -
  have "nanos < 16 ^ Suc 15 \<Longrightarrow> length (nat_hex nanos) \<le> 16" using nat_hex_length [of nanos 15] by simp
  moreover have "EncodeToString buf \<noteq> []" if "length buf = 16" for buf
    using that length_EncodeToString [of buf] by auto
  ultimately show ?thesis
    using assms nat_hex_Nil [of nanos] nat_hex_label [of nanos]
    by (auto simp: requestID_def validRequestID_def maxRequestID_def label_runes_iff Let_def
        length_EncodeToString EncodeToString_label split: option.splits if_splits)
qed

section \<open>Witnesses\<close>

definition probe :: request where
  "probe = \<lparr>rq_Method = ''GET'', rq_PathValues = [], rq_Query = [], rq_Authorization = [],
     rq_RemoteAddr = ''10.0.0.1:4000'', rq_Body = []\<rparr>"

definition crash :: "request \<Rightarrow> nat \<Rightarrow> nat served" where
  "crash r n = Panicked None empty_sink (n + 1)"

theorem panic_answered_witness:
  "crash probe 0 = Panicked None empty_sink 1
   \<and> (case observe (\<lambda>_. True) ''abc'' [''flags''] 5 crash probe (new_metrics, 0) of (ob, m1, w2) \<Rightarrow>
        w2 = 1 \<and> ob_Response ob = web_Error 500 ''internal server error''
        \<and> counter_Value HTTPPanics [''route'', routeOf ''GET'' [''flags'']] m1 = 1
        \<and> map_option al_Status (ob_Line ob) = Some 500)"
proof -
  have step: "crash probe 0 = Panicked None empty_sink 1" by (simp add: crash_def)
  have "rq_Method probe = ''GET''" by (simp add: probe_def)
  with panic_answered [of crash probe "0 :: nat" None empty_sink 1 "[''flags'']" "''abc''" new_metrics "\<lambda>_. True" 5] step show ?thesis
    by (simp add: Let_def counter_Value_def new_metrics_def split: prod.splits)
qed

theorem request_id_token_witness:
  "let i = requestID (Some (replicate 16 171)) 0 [CHR ''a'', CHR 0x0A]
   in list_all label_char i \<and> length i \<le> 64 \<and> i = concat (replicate 16 ''ab'')"
proof -
  have "requestID (Some (replicate 16 171)) 0 [CHR ''a'', CHR 0x0A] = concat (replicate 16 ''ab'')" by code_simp
  with request_id_token [where rand = "Some (replicate 16 171)" and nanos = 0
      and inbound = "[CHR ''a'', CHR 0x0A]"] show ?thesis
    by (simp add: Let_def list_all_iff)
qed

end
