(* ===== verification/Console_Consumer.thy ===== *)
theory Console_Consumer
  imports Client_Fallback Web_Request "HOL-Library.Sublist"
begin

text \<open>
  The consuming half of \<^verbatim>\<open>cmd/testconsole/main.go\<close>: the hub that fans the updates of the console's client
  out to the connected browsers, and the loop that connects that client. The loop is a partial function: that it
  ends is the property \<open>console_connect_ends\<close>. The content of the log lines is left out.
\<close>

section \<open>The hub\<close>

record event =
  ev_Bucket :: string
  ev_Key :: string
  ev_Value :: bytes
  ev_Received :: string

definition hub_buffer :: nat where "hub_buffer = 32"

text \<open>The channels, by the order of their subscription, each with what waits in its buffer.\<close>

record hub =
  hub_clients :: "nat \<Rightarrow> event list option"
  hub_next :: nat

definition newHub :: hub where
  "newHub = \<lparr>hub_clients = Map.empty, hub_next = 0\<rparr>"

definition hub_subscribe :: "hub \<Rightarrow> nat \<times> hub" where
  "hub_subscribe h = (hub_next h, h\<lparr>hub_clients := (hub_clients h)(hub_next h \<mapsto> []), hub_next := hub_next h + 1\<rparr>)"

definition hub_unsubscribe :: "nat \<Rightarrow> hub \<Rightarrow> hub" where
  "hub_unsubscribe ch h = h\<lparr>hub_clients := (hub_clients h)(ch := None)\<rparr>"

text \<open>A send that would block is dropped.\<close>

definition offer :: "event \<Rightarrow> event list \<Rightarrow> event list" where
  "offer e q = (if length q < hub_buffer then q @ [e] else q)"

definition hub_broadcast :: "event \<Rightarrow> hub \<Rightarrow> hub" where
  "hub_broadcast e h = h\<lparr>hub_clients := (\<lambda>ch. map_option (offer e) (hub_clients h ch))\<rparr>"

text \<open>One round of the stream handler: the oldest event of its channel.\<close>

definition hub_receive :: "nat \<Rightarrow> hub \<Rightarrow> event option \<times> hub" where
  "hub_receive ch h = (case hub_clients h ch of
     Some (e # q) \<Rightarrow> (Some e, h\<lparr>hub_clients := (hub_clients h)(ch \<mapsto> q)\<rparr>)
   | _ \<Rightarrow> (None, h))"

text \<open>The event as the stream writes it; one that does not marshal is skipped.\<close>

definition enc_event :: "event \<Rightarrow> bytes option" where
  "enc_event e = enc_struct [(''bucket'', Some (json_string (ev_Bucket e))), (''key'', Some (json_string (ev_Key e))),
     (''value'', if ev_Value e = [] then Some ''null'' else enc_raw (ev_Value e)),
     (''receivedAt'', Some (json_string (ev_Received e)))]"

definition sse_frame :: "event \<Rightarrow> bytes" where
  "sse_frame e = (case enc_event e of None \<Rightarrow> [] | Some b \<Rightarrow> ''data: '' @ b @ [CHR 0x0A, CHR 0x0A])"

text \<open>\<^verbatim>\<open>OnChange\<close> of the console's client: a deletion has no value.\<close>

definition change_event :: "string \<Rightarrow> string \<Rightarrow> string \<Rightarrow> bytes option \<Rightarrow> event" where
  "change_event received bucket key v = \<lparr>ev_Bucket = bucket, ev_Key = key,
     ev_Value = (case v of None \<Rightarrow> [] | Some b \<Rightarrow> b), ev_Received = received\<rparr>"

text \<open>A history of the hub, and what each stream was handed.\<close>

datatype hub_op = Subscribe | Unsubscribe nat | Broadcast event | Receive nat

definition hub_step :: "hub_op \<Rightarrow> hub \<times> (nat \<times> event) list \<Rightarrow> hub \<times> (nat \<times> event) list" where
  "hub_step x = (\<lambda>(h, out). case x of
     Subscribe \<Rightarrow> (snd (hub_subscribe h), out)
   | Unsubscribe ch \<Rightarrow> (hub_unsubscribe ch h, out)
   | Broadcast e \<Rightarrow> (hub_broadcast e h, out)
   | Receive ch \<Rightarrow> (case hub_receive ch h of (None, h) \<Rightarrow> (h, out) | (Some e, h) \<Rightarrow> (h, out @ [(ch, e)])))"

definition hub_run :: "hub_op list \<Rightarrow> hub \<times> (nat \<times> event) list" where
  "hub_run xs = fold hub_step xs (newHub, [])"

definition handed :: "nat \<Rightarrow> (nat \<times> event) list \<Rightarrow> event list" where
  "handed ch out = map snd (filter (\<lambda>(c, e). c = ch) out)"

definition broadcasts :: "hub_op list \<Rightarrow> event list" where
  "broadcasts xs = concat (map (\<lambda>x. case x of Broadcast e \<Rightarrow> [e] | _ \<Rightarrow> []) xs)"

definition pending :: "hub \<Rightarrow> nat \<Rightarrow> event list" where
  "pending h ch = (case hub_clients h ch of None \<Rightarrow> [] | Some q \<Rightarrow> q)"

definition hub_inv :: "event list \<Rightarrow> hub \<times> (nat \<times> event) list \<Rightarrow> bool" where
  "hub_inv es = (\<lambda>(h, out).
     (\<forall>ch. subseq (handed ch out @ pending h ch) es)
     \<and> (\<forall>ch. length (pending h ch) \<le> hub_buffer)
     \<and> (\<forall>ch \<ge> hub_next h. handed ch out = [] \<and> hub_clients h ch = None))"

lemma handed_snoc: "handed ch (out @ [(c, e)]) = handed ch out @ (if c = ch then [e] else [])"
  by (simp add: handed_def)

lemma pending_steps:
  "pending (snd (hub_subscribe h)) ch = (if ch = hub_next h then [] else pending h ch)"
  "pending (hub_unsubscribe c h) ch = (if ch = c then [] else pending h ch)"
  "pending (hub_broadcast e h) ch = (if hub_clients h ch = None then [] else offer e (pending h ch))"
  by (simp_all add: pending_def hub_subscribe_def hub_unsubscribe_def hub_broadcast_def split: option.splits)

lemma hub_steps_frame:
  "hub_next (snd (hub_subscribe h)) = hub_next h + 1"
  "hub_clients (snd (hub_subscribe h)) ch = (if ch = hub_next h then Some [] else hub_clients h ch)"
  "hub_next (hub_unsubscribe c h) = hub_next h"
  "hub_clients (hub_unsubscribe c h) ch = (if ch = c then None else hub_clients h ch)"
  "hub_next (hub_broadcast e h) = hub_next h"
  "hub_clients (hub_broadcast e h) ch = map_option (offer e) (hub_clients h ch)"
  by (simp_all add: hub_subscribe_def hub_unsubscribe_def hub_broadcast_def)

lemma hub_receive_cases:
  obtains "hub_receive c h = (None, h)"
  | e q where "hub_clients h c = Some (e # q)" "hub_receive c h = (Some e, h\<lparr>hub_clients := (hub_clients h)(c \<mapsto> q)\<rparr>)"
  by (cases "hub_clients h c"; cases "the (hub_clients h c)") (auto simp: hub_receive_def)

lemma subseq_front: "subseq (u @ v) es \<Longrightarrow> subseq u es"
  by (metis prefixI prefix_imp_subseq subseq_order.trans)

lemma subseq_snoc: "subseq u es \<Longrightarrow> subseq u (es @ [e])"
  using list_emb_append_mono [of "(=)" u es "[]" "[e]"] by simp

lemma subseq_offer: "subseq (u @ q) es \<Longrightarrow> subseq (u @ offer e q) (es @ [e])"
  using list_emb_append_mono [of "(=)" "u @ q" es "[e]" "[e]"] subseq_snoc [of "u @ q" es e]
  by (auto simp: offer_def)

lemma hub_step_inv:
  assumes "hub_inv es s"
  shows "hub_inv (es @ broadcasts [x]) (hub_step x s)"
proof -
  obtain h out where s: "s = (h, out)" by (cases s)
  have inv: "\<And>ch. subseq (handed ch out @ pending h ch) es" "\<And>ch. length (pending h ch) \<le> hub_buffer"
      "\<And>ch. hub_next h \<le> ch \<Longrightarrow> handed ch out = [] \<and> hub_clients h ch = None"
    using assms by (auto simp: hub_inv_def s)
  show ?thesis
  proof (cases x)
    case Subscribe
    then show ?thesis
      using inv by (simp add: s hub_inv_def hub_step_def broadcasts_def pending_steps hub_steps_frame)
  next
    case (Unsubscribe c)
    then show ?thesis
      using inv subseq_front [OF inv(1)]
      by (simp add: s hub_inv_def hub_step_def broadcasts_def pending_steps hub_steps_frame)
  next
    case (Broadcast e)
    have "length (offer e q) \<le> hub_buffer" if "length q \<le> hub_buffer" for q
      using that by (simp add: offer_def)
    with Broadcast show ?thesis
      using inv subseq_offer [OF inv(1)] subseq_snoc [OF subseq_front [OF inv(1)]]
      by (simp add: s hub_inv_def hub_step_def broadcasts_def pending_steps hub_steps_frame)
  next
    case (Receive c)
    show ?thesis
    proof (cases rule: hub_receive_cases [of c h])
      case 1
      with Receive inv show ?thesis by (simp add: s hub_inv_def hub_step_def broadcasts_def)
    next
      case (2 e q)
      then have here: "pending h c = e # q" by (simp add: pending_def)
      have there: "pending (h\<lparr>hub_clients := (hub_clients h)(c \<mapsto> q)\<rparr>) ch = (if ch = c then q else pending h ch)" for ch
        by (simp add: pending_def)
      have "c < hub_next h" using inv(3) [of c] 2(1) by (metis not_le option.distinct(1))
      with Receive 2 inv inv(1) [of c] inv(2) [of c] show ?thesis
        by (auto simp: s hub_inv_def hub_step_def broadcasts_def there here handed_snoc)
    qed
  qed
qed

lemma hub_run_inv: "hub_inv (broadcasts xs) (hub_run xs)"
proof (induction xs rule: rev_induct)
  case Nil
  then show ?case by (simp add: hub_run_def hub_inv_def broadcasts_def handed_def newHub_def pending_def)
next
  case (snoc x xs)
  then have "hub_inv (broadcasts xs @ broadcasts [x]) (hub_step x (hub_run xs))" by (rule hub_step_inv)
  then show ?case by (simp add: hub_run_def broadcasts_def)
qed

section \<open>Connecting\<close>

definition connectWindow :: gotime where "connectWindow = 5 * minute"
definition connectTimeout :: gotime where "connectTimeout = 30 * second"
definition connectWait :: gotime where "connectWait = second"
definition connectMaxWait :: gotime where "connectMaxWait = 15 * second"

record consumer =
  co_client :: "Client option"
  co_lastErr :: string

definition consumer_set :: "Client \<Rightarrow> consumer \<Rightarrow> consumer" where
  "consumer_set client c = c\<lparr>co_client := Some client, co_lastErr := []\<rparr>"

definition consumer_fail :: "string \<Rightarrow> consumer \<Rightarrow> consumer" where
  "consumer_fail reason c = c\<lparr>co_lastErr := reason\<rparr>"

definition consumer_close :: "consumer \<Rightarrow> consumer" where
  "consumer_close c = c\<lparr>co_client := None\<rparr>"

text \<open>What \<^verbatim>\<open>errors.Is\<close> finds in the chain of a failed connection.\<close>

datatype dial_cause = BucketsMissing | ServerMissing | OtherCause

definition diagnose :: "dial_cause \<Rightarrow> string" where
  "diagnose cause = (case cause of
     BucketsMissing \<Rightarrow> ''NATS is reachable but the KV buckets do not exist yet; waiting for central-config to create them''
   | ServerMissing \<Rightarrow> ''cannot reach NATS at all; is it running, or should NATS_EMBEDDED=true be set?''
   | OtherCause \<Rightarrow> ''cannot warm the consumer cache'')"

text \<open>
  The world of the loop: the clock, whether the context has ended, one bounded attempt to make a client, and a
  sleep that reports whether the context ended first.
\<close>

record 'w dial_ops =
  dial_now :: "'w \<Rightarrow> gotime"
  dial_ended :: "'w \<Rightarrow> bool"
  dial_New :: "gotime \<Rightarrow> Options \<Rightarrow> 'w \<Rightarrow> (dial_cause + Client) \<times> 'w"
  dial_sleep :: "gotime \<Rightarrow> 'w \<Rightarrow> bool \<times> 'w"

datatype dial_end = Connected nat | Cancelled nat | GaveUp nat

definition gave_up :: "dial_cause \<Rightarrow> string" where
  "gave_up cause = ''gave up connecting after 5m0s: '' @ diagnose cause"

partial_function (option) connect_loop ::
  "'w dial_ops \<Rightarrow> Options \<Rightarrow> gotime \<Rightarrow> nat \<Rightarrow> gotime \<Rightarrow> consumer \<times> 'w \<Rightarrow> (dial_end \<times> consumer \<times> 'w) option" where
  "connect_loop ops opts deadline attempt wait cw = (case dial_New ops connectTimeout opts (snd cw) of
     (r, w) \<Rightarrow> (case r of
       Inr client \<Rightarrow> Some (Connected attempt, consumer_set client (fst cw), w)
     | Inl cause \<Rightarrow>
         if dial_ended ops w then Some (Cancelled attempt, fst cw, w)
         else if deadline < dial_now ops w then Some (GaveUp attempt, consumer_fail (gave_up cause) (fst cw), w)
         else (case dial_sleep ops wait w of (ended, w) \<Rightarrow>
            if ended then Some (Cancelled attempt, consumer_fail (diagnose cause) (fst cw), w)
            else connect_loop ops opts deadline (attempt + 1)
              (if connectMaxWait < 2 * wait then connectMaxWait else 2 * wait)
              (consumer_fail (diagnose cause) (fst cw), w))))"

definition console_connect ::
  "'w dial_ops \<Rightarrow> Options \<Rightarrow> consumer \<times> 'w \<Rightarrow> (dial_end \<times> consumer \<times> 'w) option" where
  "console_connect ops opts cw =
     connect_loop ops opts (dial_now ops (snd cw) + connectWindow) 1 connectWait cw"

definition stateHandler :: "(Client \<Rightarrow> bytes option) \<Rightarrow> consumer \<Rightarrow> response" where
  "stateHandler enc c = (case co_client c of
     None \<Rightarrow> web_Error 503 (if co_lastErr c = [] then ''the consumer is still connecting to NATS'' else co_lastErr c)
   | Some client \<Rightarrow> web_JSON 200 (enc client))"

text \<open>The clock: it never runs backwards, and a sleep that is not cut short takes at least its time.\<close>

definition clock_laws :: "'w dial_ops \<Rightarrow> bool" where
  "clock_laws ops \<longleftrightarrow>
     (\<forall>t opts w. dial_now ops w \<le> dial_now ops (snd (dial_New ops t opts w)))
     \<and> (\<forall>t w. fst (dial_sleep ops t w) \<or> dial_now ops w + t \<le> dial_now ops (snd (dial_sleep ops t w)))"

text \<open>The waits, in seconds, and the time that has passed when an attempt begins.\<close>

fun wait_at :: "nat \<Rightarrow> int" where
  "wait_at 0 = 1"
| "wait_at (Suc k) = (if 15 < 2 * wait_at k then 15 else 2 * wait_at k)"

fun begun_at :: "nat \<Rightarrow> int" where
  "begun_at 0 = 0"
| "begun_at (Suc k) = begun_at k + wait_at k"

lemma wait_step:
  "(if connectMaxWait < 2 * (wait_at k * second) then connectMaxWait else 2 * (wait_at k * second))
     = wait_at (Suc k) * second"
  by (simp add: connectMaxWait_def second_def)

lemma begun_24: "begun_at 24 = 315"
  by (simp add: numeral_eq_Suc)

definition ended_well :: "dial_end \<Rightarrow> consumer \<Rightarrow> bool" where
  "ended_well e c \<longleftrightarrow> (case e of
     Connected n \<Rightarrow> n \<le> 25 \<and> co_client c \<noteq> None \<and> co_lastErr c = []
   | Cancelled n \<Rightarrow> n \<le> 25
   | GaveUp n \<Rightarrow> n \<le> 25 \<and> (\<exists>cause. co_lastErr c = gave_up cause))"

lemma connect_loop_ends:
  assumes "clock_laws ops" and "k \<le> 24" and "start + begun_at k * second \<le> dial_now ops (snd cw)"
  shows "\<exists>e c w. connect_loop ops opts (start + connectWindow) (k + 1) (wait_at k * second) cw = Some (e, c, w)
           \<and> ended_well e c"
  using assms(2,3)
proof (induction "24 - k" arbitrary: k cw)
  case 0
  then have k: "k = 24" by simp
  obtain r w where new: "dial_New ops connectTimeout opts (snd cw) = (r, w)" by fastforce
  have "dial_now ops (snd cw) \<le> dial_now ops w" using assms(1) new unfolding clock_laws_def by (metis snd_conv)
  with 0(3) have "start + connectWindow < dial_now ops w"
    by (simp add: k begun_24 connectWindow_def minute_def second_def)
  then show ?case
    by (subst connect_loop.simps)
       (auto simp: new k ended_well_def consumer_set_def consumer_fail_def split: sum.splits)
next
  case (Suc n)
  obtain r w where new: "dial_New ops connectTimeout opts (snd cw) = (r, w)" by fastforce
  obtain b w1 where sleep: "dial_sleep ops (wait_at k * second) w = (b, w1)" by fastforce
  have "dial_now ops (snd cw) \<le> dial_now ops w" using assms(1) new unfolding clock_laws_def by (metis snd_conv)
  moreover have "\<not> b \<Longrightarrow> dial_now ops w + wait_at k * second \<le> dial_now ops w1"
    using assms(1) sleep unfolding clock_laws_def by (metis fst_conv snd_conv)
  ultimately have "\<not> b \<Longrightarrow> start + begun_at (Suc k) * second \<le> dial_now ops w1"
    using Suc.prems(2) by (simp add: algebra_simps)
  then have next_round: "\<not> b \<Longrightarrow> \<exists>e c w. connect_loop ops opts (start + connectWindow) (Suc k + 1)
      (wait_at (Suc k) * second) (c0, w1) = Some (e, c, w) \<and> ended_well e c" for c0
    using Suc.hyps(1) [of "Suc k" "(c0, w1)"] Suc.hyps(2) by simp
  show ?case
  proof (cases r)
    case (Inr client)
    then show ?thesis
      using Suc.hyps(2) by (subst connect_loop.simps) (simp add: new ended_well_def consumer_set_def)
  next
    case (Inl cause)
    then show ?thesis
      using Suc.hyps(2) next_round
      by (subst connect_loop.simps)
         (auto simp: new sleep wait_step ended_well_def consumer_fail_def simp del: wait_at.simps)
  qed
qed

section \<open>Properties\<close>

text \<open>
  Property C30. The console's hub never blocks and never reorders: after any history of browsers coming and
  going, updates arriving and streams reading, what a stream was handed is a subsequence of the updates that
  were broadcast, in their order, and no channel holds more than 32 waiting updates.
\<close>

theorem hub_in_order:
  "let (h, out) = hub_run xs
   in subseq (handed ch out @ pending h ch) (broadcasts xs) \<and> length (pending h ch) \<le> 32"
  using hub_run_inv [of xs] by (auto simp: hub_inv_def hub_buffer_def)

text \<open>
  Property C26. The loop that connects the console's client ends, on every clock that never runs backwards
  and on which a sleep lasts at least its time, whatever the attempts do and however long they take: within 25
  attempts it is connected, its context has ended, or it has given up and says why.
\<close>

theorem console_connect_ends:
  assumes "clock_laws ops"
  shows "\<exists>e c w. console_connect ops opts cw = Some (e, c, w) \<and> ended_well e c"
  using connect_loop_ends [OF assms, of 0 "dial_now ops (snd cw)" cw] by (simp add: console_connect_def connectWait_def)

definition down_ops :: "gotime dial_ops" where
  "down_ops = \<lparr>dial_now = (\<lambda>w. w), dial_ended = (\<lambda>_. False), dial_New = (\<lambda>_ _ w. (Inl ServerMissing, w)),
     dial_sleep = (\<lambda>t w. (False, w + t))\<rparr>"

definition demo_options :: Options where
  "demo_options = \<lparr>op_NATSURL = ''nats://localhost:4222'', op_NATSCreds = [], op_EnvironmentID = 1,
     op_MicroserviceID = 0, op_HTTPFallback = None\<rparr>"

theorem console_connect_ends_witness:
  "clock_laws down_ops \<and>
   (\<exists>e c w. console_connect down_ops demo_options (\<lparr>co_client = None, co_lastErr = []\<rparr>, 0) = Some (e, c, w)
      \<and> ended_well e c)"
proof
  show laws: "clock_laws down_ops" by (simp add: clock_laws_def down_ops_def)
  show "\<exists>e c w. console_connect down_ops demo_options (\<lparr>co_client = None, co_lastErr = []\<rparr>, 0) = Some (e, c, w)
      \<and> ended_well e c"
    by (rule console_connect_ends [OF laws])
qed

end
