(* ===== verification/Console_Proxy.thy ===== *)
theory Console_Proxy
  imports Rate_Limit Audit_Redact Web_Request
begin

text \<open>
  The admin proxy of \<^verbatim>\<open>cmd/testconsole/main.go\<close>: which hosts and origins it answers, which paths it forwards
  with the admin token attached, and where the console listens. \<^verbatim>\<open>url.Parse\<close>, \<^verbatim>\<open>mime.ParseMediaType\<close> and the test
  for a loopback address are parameters, and so is the upstream server. Host names are compared as ASCII.
\<close>

section \<open>Parameters\<close>

record netlib =
  nl_urlHost :: "string \<Rightarrow> string option"
  nl_loopbackIP :: "string \<Rightarrow> bool"
  nl_mediaType :: "string \<Rightarrow> string option"
  nl_request_ok :: "string \<Rightarrow> string \<Rightarrow> bool"

section \<open>Hosts\<close>

definition SplitHostPort :: "string \<Rightarrow> (string \<times> string) option" where
  "SplitHostPort hp = (case SplitHost hp of
     None \<Rightarrow> None
   | Some host \<Rightarrow> (case last_index_of (CHR '':'') hp of None \<Rightarrow> None | Some i \<Rightarrow> Some (host, drop (i + 1) hp)))"

definition JoinHostPort :: "string \<Rightarrow> string \<Rightarrow> string" where
  "JoinHostPort host port =
     (if CHR '':'' \<in> set host then ''['' @ host @ '']:'' @ port else host @ '':'' @ port)"

definition EqualFold :: "string \<Rightarrow> string \<Rightarrow> bool" where
  "EqualFold s t \<longleftrightarrow> fold_name s = fold_name t"

definition trim_brackets :: "string \<Rightarrow> string" where
  "trim_brackets s = (let b = (\<lambda>c. c = CHR ''['' \<or> c = CHR '']'')
     in rev (dropWhile b (rev (dropWhile b s))))"

definition without_port :: "string \<Rightarrow> string" where
  "without_port s = (case SplitHost s of None \<Rightarrow> s | Some h \<Rightarrow> h)"

definition isLoopbackHost :: "netlib \<Rightarrow> string \<Rightarrow> bool" where
  "isLoopbackHost nl host0 = (let host = without_port host0 in
     if EqualFold host ''localhost'' then True else nl_loopbackIP nl (trim_brackets host))"

definition hostname :: "netlib \<Rightarrow> string \<Rightarrow> string" where
  "hostname nl s0 = (let s = TrimSpace s0;
       bare = (\<lambda>s. ToLower (trim_brackets (without_port s)))
     in if str_contains s ''://'' then (case nl_urlHost nl s of None \<Rightarrow> [] | Some h \<Rightarrow> bare h) else bare s)"

type_synonym hostPolicy = "string set"

definition newHostPolicy :: "netlib \<Rightarrow> string list \<Rightarrow> hostPolicy" where
  "newHostPolicy nl names = set (filter (\<lambda>h. h \<noteq> [] \<and> h \<noteq> ''0.0.0.0'' \<and> h \<noteq> ''::'') (map (hostname nl) names))"

definition permits :: "netlib \<Rightarrow> hostPolicy \<Rightarrow> string \<Rightarrow> bool" where
  "permits nl p host = (let h = hostname nl host in
     if h = [] then False else if isLoopbackHost nl h then True else h \<in> p)"

section \<open>Where the console listens\<close>

definition defaultBindAddr :: string where "defaultBindAddr = ''127.0.0.1''"

definition bindHost :: "string \<Rightarrow> string" where
  "bindHost bindAddr = (if TrimSpace bindAddr \<noteq> [] then TrimSpace bindAddr else defaultBindAddr)"

definition listenAddr :: "string \<Rightarrow> string \<Rightarrow> string" where
  "listenAddr port0 bind0 = (let port = TrimSpace port0; bind = bindHost bind0 in
     case SplitHostPort port of
       None \<Rightarrow> JoinHostPort bind port
     | Some (host, bare) \<Rightarrow> if host = [] then JoinHostPort bind bare else port)"

definition isExposed :: "netlib \<Rightarrow> string \<Rightarrow> bool" where
  "isExposed nl addr = (case SplitHostPort addr of
     None \<Rightarrow> True
   | Some (host, _) \<Rightarrow> if host = [] then True else \<not> isLoopbackHost nl host)"

section \<open>Paths\<close>

definition adminPrefix :: string where "adminPrefix = ''/api/admin''"
definition maxBodyBytes :: nat where "maxBodyBytes = 1048576"

definition proxiedPaths :: "string list" where
  "proxiedPaths = [''/health'', ''/livez'', ''/metrics'', ''/inventory'', ''/audit'', ''/environments'',
     ''/microservices'', ''/configs'', ''/flags'', ''/localization'']"

text \<open>\<^verbatim>\<open>path.Clean\<close> of a rooted path, by its segments.\<close>

fun clean_segments :: "string list \<Rightarrow> string list \<Rightarrow> string list" where
  "clean_segments acc [] = rev acc"
| "clean_segments acc (s # ss) =
     (if s = [] \<or> s = ''.'' then clean_segments acc ss
      else if s = ''..'' then clean_segments (drop 1 acc) ss
      else clean_segments (s # acc) ss)"

definition path_text :: "string list \<Rightarrow> string" where
  "path_text segs = (if segs = [] then ''/'' else concat (map (\<lambda>s. CHR ''/'' # s) segs))"

definition path_Clean :: "string \<Rightarrow> string" where
  "path_Clean p = path_text (clean_segments [] (Split (CHR ''/'') p))"

definition upstreamPath :: "string \<Rightarrow> string option" where
  "upstreamPath consolePath = (
     let cleaned = path_Clean (''/'' @ TrimPrefix consolePath ''/'')
     in if \<not> HasPrefix cleaned (adminPrefix @ ''/'') then None
        else let rest = drop (length adminPrefix) cleaned;
                 first = (case index_of (CHR ''/'') (drop 1 rest) of None \<Rightarrow> rest | Some i \<Rightarrow> take (i + 1) rest)
             in if first \<in> set proxiedPaths then Some rest else None)"

section \<open>The proxy\<close>

record console_request =
  cq_Method :: string
  cq_Host :: string
  cq_Origin :: string
  cq_Path :: string
  cq_RawQuery :: string
  cq_ContentType :: string
  cq_ContentLength :: int
  cq_Body :: "bytes option"

record adminProxy =
  ap_baseURL :: string
  ap_token :: string
  ap_allowedOrigins :: "string list"
  ap_hosts :: hostPolicy

record console_response =
  cs_Status :: nat
  cs_ContentType :: string
  cs_RetryAfter :: string
  cs_RequestID :: string
  cs_Body :: bytes

record upstream_request =
  ur_Method :: string
  ur_Target :: string
  ur_ContentType :: string
  ur_Authorization :: string
  ur_Body :: bytes

definition console_json :: "nat \<Rightarrow> string \<Rightarrow> console_response" where
  "console_json status message = \<lparr>cs_Status = status, cs_ContentType = ''application/json'', cs_RetryAfter = [],
     cs_RequestID = [], cs_Body = ErrorResponse message @ [CHR 0x0A]\<rparr>"

definition http_Error :: "string \<Rightarrow> nat \<Rightarrow> console_response" where
  "http_Error message status = \<lparr>cs_Status = status, cs_ContentType = ''text/plain; charset=utf-8'',
     cs_RetryAfter = [], cs_RequestID = [], cs_Body = message @ [CHR 0x0A]\<rparr>"

definition writeUnknownHost :: console_response where
  "writeUnknownHost = console_json 403
     (''unrecognised Host; the console answers only to the addresses it is bound to ''
      @ ''(set ALLOWED_HOSTS to name another)'')"

definition guardHost ::
  "netlib \<Rightarrow> hostPolicy \<Rightarrow> (console_request \<Rightarrow> console_response) \<Rightarrow> console_request \<Rightarrow> console_response" where
  "guardHost nl p next r = (if \<not> permits nl p (cq_Host r) then writeUnknownHost else next r)"

definition sameOrigin :: "netlib \<Rightarrow> adminProxy \<Rightarrow> console_request \<Rightarrow> bool" where
  "sameOrigin nl p r = (let origin = cq_Origin r in
     if origin = [] then True
     else case nl_urlHost nl origin of
       None \<Rightarrow> False
     | Some h \<Rightarrow>
         if h = [] then False
         else if EqualFold h (cq_Host r) then True
         else if isLoopbackHost nl h \<and> isLoopbackHost nl (cq_Host r) then True
         else list_ex (\<lambda>allowed. EqualFold allowed origin) (ap_allowedOrigins p))"

definition isJSONRequest :: "netlib \<Rightarrow> console_request \<Rightarrow> bool" where
  "isJSONRequest nl r =
     (if cq_ContentType r = [] then cq_ContentLength r = 0
      else nl_mediaType nl (cq_ContentType r) = Some ''application/json'')"

text \<open>
  Up to the call: an answer of the proxy's own, or the request it sends with the token. A body that fails
  to read is \<open>None\<close>; the limit of \<^verbatim>\<open>http.MaxBytesReader\<close> is the length test.
\<close>

definition forward_request ::
  "netlib \<Rightarrow> adminProxy \<Rightarrow> console_request \<Rightarrow> console_response + upstream_request" where
  "forward_request nl p r =
     (if \<not> permits nl (ap_hosts p) (cq_Host r) then Inl writeUnknownHost
      else if \<not> sameOrigin nl p r then Inl (console_json 403
        (''cross-origin request refused; the console proxies an admin token and only answers its own page''))
      else case upstreamPath (cq_Path r) of
        None \<Rightarrow> Inl (console_json 404 ''not a proxied central-config path'')
      | Some upstream \<Rightarrow>
          if \<not> isJSONRequest nl r then Inl (console_json 415 ''the proxy forwards application/json only'')
          else (case cq_Body r of
            None \<Rightarrow> Inl (http_Error ''read body'' 400)
          | Some body \<Rightarrow>
              if maxBodyBytes < length body
              then Inl (console_json 413 (''request body exceeds '' @ nat_dec maxBodyBytes @ '' bytes''))
              else let target = ap_baseURL p @ upstream @ (if cq_RawQuery r = [] then [] else ''?'' @ cq_RawQuery r)
                in if \<not> nl_request_ok nl (cq_Method r) target then Inl (http_Error ''build request'' 500)
                   else Inr \<lparr>ur_Method = cq_Method r, ur_Target = target, ur_ContentType = cq_ContentType r,
                     ur_Authorization = (if ap_token p = [] then [] else ''Bearer '' @ ap_token p), ur_Body = body\<rparr>))"

definition forward ::
  "netlib \<Rightarrow> (upstream_request \<Rightarrow> 'w \<Rightarrow> (string + console_response) \<times> 'w) \<Rightarrow> adminProxy \<Rightarrow> console_request \<Rightarrow> 'w
     \<Rightarrow> console_response \<times> 'w" where
  "forward nl call p r w = (case forward_request nl p r of
     Inl answer \<Rightarrow> (answer, w)
   | Inr u \<Rightarrow> (case call u w of
       (Inl err, w) \<Rightarrow> (console_json 502 err, w)
     | (Inr resp, w) \<Rightarrow>
         (if cs_ContentType resp = [] then resp\<lparr>cs_ContentType := ''application/json''\<rparr> else resp, w)))"

section \<open>Lemmas\<close>

definition plain_segment :: "string \<Rightarrow> bool" where
  "plain_segment s \<longleftrightarrow> s \<noteq> [] \<and> s \<noteq> ''.'' \<and> s \<noteq> ''..'' \<and> CHR ''/'' \<notin> set s"

lemma clean_segments_plain:
  "list_all plain_segment acc \<Longrightarrow> \<forall>s \<in> set ss. CHR ''/'' \<notin> set s \<Longrightarrow> list_all plain_segment (clean_segments acc ss)"
proof (induction acc ss rule: clean_segments.induct)
  case (1 acc)
  then show ?case by (simp add: list_all_iff)
next
  case (2 acc s ss)
  have "list_all plain_segment (drop 1 acc)" using 2(4) by (cases acc) auto
  with 2 show ?case by (simp add: plain_segment_def [of s])
qed

lemma path_Clean_segments: "\<exists>ss. path_Clean p = path_text ss \<and> list_all plain_segment ss"
  using clean_segments_plain [of "[]" "Split (CHR ''/'') p"] Split_pieces_no_sep
  by (auto simp: path_Clean_def)

lemma Split_append: "sep \<notin> set p \<Longrightarrow> Split sep (p @ sep # s) = p # Split sep s"
  by (induction p) auto

lemma Split_segments:
  "list_all plain_segment (s # ss) \<Longrightarrow> Split (CHR ''/'') (s @ concat (map (\<lambda>s. CHR ''/'' # s) ss)) = s # ss"
proof (induction ss arbitrary: s)
  case Nil
  then show ?case by (simp add: Split_no_sep plain_segment_def)
next
  case (Cons t ts)
  then have "Split (CHR ''/'') (t @ concat (map (\<lambda>s. CHR ''/'' # s) ts)) = t # ts" by simp
  with Cons.prems show ?case by (simp add: Split_append plain_segment_def)
qed

lemma concat_Split: "concat (map (\<lambda>s. sep # s) (Split sep t)) = sep # t"
  by (induction t) (auto split: list.splits)

lemma index_of_Split:
  "Split sep t = f # fs \<Longrightarrow> (case index_of sep t of None \<Rightarrow> sep # t | Some i \<Rightarrow> sep # take i t) = sep # f"
proof (induction t arbitrary: f fs)
  case Nil
  then show ?case by (simp add: index_of_def)
next
  case (Cons c t)
  then show ?case
    by (auto simp: index_of_def split: list.splits if_splits)
qed

lemma upstreamPath_segments:
  assumes "upstreamPath p = Some rest"
  shows "\<exists>f fs. rest = path_text (f # fs) \<and> list_all plain_segment (f # fs) \<and> CHR ''/'' # f \<in> set proxiedPaths"
proof -
  define c where "c = path_Clean (''/'' @ TrimPrefix p ''/'')"
  obtain ss where ss: "c = path_text ss" "list_all plain_segment ss" using path_Clean_segments c_def by blast
  have up: "upstreamPath p = (if \<not> HasPrefix c (adminPrefix @ ''/'') then None
      else let rest = drop (length adminPrefix) c;
               first = (case index_of (CHR ''/'') (drop 1 rest) of None \<Rightarrow> rest | Some i \<Rightarrow> take (i + 1) rest)
           in if first \<in> set proxiedPaths then Some rest else None)"
    by (simp only: upstreamPath_def c_def [symmetric] Let_def)
  then have pre: "HasPrefix c (adminPrefix @ ''/'')" and rest: "rest = drop (length adminPrefix) c"
    using assms by (auto simp: Let_def split: if_splits)
  from pre obtain t where t: "c = ''/api/admin/'' @ t" by (auto simp: HasPrefix_iff adminPrefix_def)
  with rest have rest: "rest = CHR ''/'' # t" by (simp add: adminPrefix_def)
  from t ss(1) have "ss \<noteq> []" by (auto simp: path_text_def)
  then obtain a ss' where a: "ss = a # ss'" by (cases ss) auto
  with t ss(1) have "a @ concat (map (\<lambda>s. CHR ''/'' # s) ss') = ''api/admin/'' @ t" by (simp add: path_text_def)
  with Split_segments [of a ss'] ss(2) a have "Split (CHR ''/'') (''api/admin/'' @ t) = a # ss'" by simp
  moreover have "Split (CHR ''/'') (''api/admin/'' @ t) = ''api'' # ''admin'' # Split (CHR ''/'') t"
    using Split_append [of "CHR ''/''" "''api''" "''admin/'' @ t"] Split_append [of "CHR ''/''" "''admin''" t] by simp
  ultimately have segs: "ss = ''api'' # ''admin'' # Split (CHR ''/'') t" using a by simp
  obtain f fs where f: "Split (CHR ''/'') t = f # fs" by (cases "Split (CHR ''/'') t") auto
  have "rest = path_text (f # fs)" using concat_Split [of "CHR ''/''" t] by (simp add: rest f path_text_def)
  moreover have "list_all plain_segment (f # fs)" using ss(2) segs f by simp
  moreover have "CHR ''/'' # f \<in> set proxiedPaths"
    using assms index_of_Split [OF f] unfolding up t adminPrefix_def
    by (auto simp: Let_def split: if_splits option.splits)
  ultimately show ?thesis by blast
qed

lemma forward_request_InrD:
  assumes "forward_request nl p r = Inr u"
  obtains upstream body where "permits nl (ap_hosts p) (cq_Host r)" "sameOrigin nl p r"
    "upstreamPath (cq_Path r) = Some upstream" "isJSONRequest nl r" "cq_Body r = Some body" "length body \<le> maxBodyBytes"
    "u = \<lparr>ur_Method = cq_Method r,
       ur_Target = ap_baseURL p @ upstream @ (if cq_RawQuery r = [] then [] else ''?'' @ cq_RawQuery r),
       ur_ContentType = cq_ContentType r,
       ur_Authorization = (if ap_token p = [] then [] else ''Bearer '' @ ap_token p), ur_Body = body\<rparr>"
  using assms by (auto simp: forward_request_def Let_def not_less split: if_splits option.splits)

text \<open>What a server makes of the path it is asked for: the escapes are decoded, and \<^verbatim>\<open>http.ServeMux\<close> answers a
  path that is not clean with a redirect to the clean one, which \<^verbatim>\<open>http.Client\<close> follows with the same
  authorization.\<close>

fun path_unescape :: "string \<Rightarrow> string option" where
  "path_unescape [] = Some []"
| "path_unescape (c # s) =
     (if c = CHR ''%'' then (case s of
        a # b # t \<Rightarrow> (case (hex_val a, hex_val b) of
          (Some x, Some y) \<Rightarrow> map_option ((#) (char_of (16 * x + y))) (path_unescape t)
        | _ \<Rightarrow> None)
      | _ \<Rightarrow> None)
      else map_option ((#) c) (path_unescape s))"

definition served_path :: "string \<Rightarrow> string option" where
  "served_path upstream =
     map_option path_Clean (path_unescape (takeWhile (\<lambda>c. c \<noteq> CHR ''?'' \<and> c \<noteq> CHR ''#'') upstream))"

section \<open>Properties\<close>

text \<open>
  Property C25. The admin token leaves the console only through all its gates: whenever the proxy sends a request
  upstream, the Host names this console, the Origin is absent, the console's own, loopback on loopback or listed,
  the path cleans to one whose first segment is on the list and in which no segment is a dot, a double dot or
  empty, the body is declared as JSON (or there is none) and is at most a megabyte; and what is sent is that method, that
  path behind the base URL with the query, that body, and the token.
\<close>

theorem proxy_gates:
  assumes "forward_request nl p r = Inr u"
  shows "permits nl (ap_hosts p) (cq_Host r)
    \<and> (cq_Origin r = [] \<or> (\<exists>h. nl_urlHost nl (cq_Origin r) = Some h \<and> h \<noteq> [] \<and>
        (EqualFold h (cq_Host r) \<or> isLoopbackHost nl h \<and> isLoopbackHost nl (cq_Host r)
         \<or> (\<exists>a \<in> set (ap_allowedOrigins p). EqualFold a (cq_Origin r)))))
    \<and> (\<exists>f fs. CHR ''/'' # f \<in> set proxiedPaths \<and> list_all plain_segment (f # fs)
        \<and> ur_Target u = ap_baseURL p @ path_text (f # fs) @ (if cq_RawQuery r = [] then [] else ''?'' @ cq_RawQuery r))
    \<and> (if cq_ContentType r = [] then cq_ContentLength r = 0
       else nl_mediaType nl (cq_ContentType r) = Some ''application/json'')
    \<and> cq_Body r = Some (ur_Body u) \<and> length (ur_Body u) \<le> 1048576 \<and> ur_Method u = cq_Method r
    \<and> ur_Authorization u = (if ap_token p = [] then [] else ''Bearer '' @ ap_token p)"
proof -
  obtain upstream body where *: "permits nl (ap_hosts p) (cq_Host r)" "sameOrigin nl p r"
    "upstreamPath (cq_Path r) = Some upstream" "isJSONRequest nl r" "cq_Body r = Some body" "length body \<le> maxBodyBytes"
    "u = \<lparr>ur_Method = cq_Method r,
       ur_Target = ap_baseURL p @ upstream @ (if cq_RawQuery r = [] then [] else ''?'' @ cq_RawQuery r),
       ur_ContentType = cq_ContentType r,
       ur_Authorization = (if ap_token p = [] then [] else ''Bearer '' @ ap_token p), ur_Body = body\<rparr>"
    using forward_request_InrD [OF assms] by blast
  have origin: "cq_Origin r = [] \<or> (\<exists>h. nl_urlHost nl (cq_Origin r) = Some h \<and> h \<noteq> [] \<and>
        (EqualFold h (cq_Host r) \<or> isLoopbackHost nl h \<and> isLoopbackHost nl (cq_Host r)
         \<or> (\<exists>a \<in> set (ap_allowedOrigins p). EqualFold a (cq_Origin r))))"
    using *(2) by (auto simp: sameOrigin_def Let_def list_ex_iff split: if_splits option.splits)
  show ?thesis
    using * origin upstreamPath_segments [OF *(3)] by (auto simp: isJSONRequest_def maxBodyBytes_def split: if_splits)
qed

lemma SplitHost_default: "SplitHost (defaultBindAddr @ CHR '':'' # bare) \<in> {None, Some defaultBindAddr}"
proof (cases "CHR '':'' \<in> set bare")
  case True
  then obtain u v where bare: "bare = u @ CHR '':'' # v" "CHR '':'' \<notin> set v" by (meson split_list_last)
  have v: "takeWhile (\<lambda>x. x \<noteq> CHR '':'') (rev v) = rev v"
    using bare(2) by (simp add: takeWhile_eq_all_conv) auto
  have "last_index_of (CHR '':'') (defaultBindAddr @ CHR '':'' # bare) = Some (length defaultBindAddr + 1 + length u)"
    by (simp add: last_index_of_def index_of_def bare(1) takeWhile_append v)
  then show ?thesis by (simp add: SplitHost_def bare(1) defaultBindAddr_def)
next
  case False
  then have "takeWhile (\<lambda>x. x \<noteq> CHR '':'') (rev bare) = rev bare" by (simp add: takeWhile_eq_all_conv) auto
  then have "last_index_of (CHR '':'') (defaultBindAddr @ CHR '':'' # bare) = Some (length defaultBindAddr)"
    by (simp add: last_index_of_def index_of_def takeWhile_append)
  then show ?thesis by (simp add: SplitHost_def defaultBindAddr_def)
qed

text \<open>
  Property C30. The console does not widen itself by accident: with \<^verbatim>\<open>BIND_ADDR\<close> blank, and a \<^verbatim>\<open>PORT\<close> that names
  no host (a bare port, or \<^verbatim>\<open>:port\<close>), whatever its text, the address it binds is either on loopback or
  not an address at all, in which case it does not start.
\<close>

theorem console_stays_local:
  assumes "nl_loopbackIP nl ''127.0.0.1''" and "TrimSpace bind = []"
    and "\<forall>h bare. SplitHostPort (TrimSpace port) = Some (h, bare) \<longrightarrow> h = []"
  shows "\<not> isExposed nl (listenAddr port bind) \<or> SplitHostPort (listenAddr port bind) = None"
proof -
  obtain bare where bare: "listenAddr port bind = defaultBindAddr @ CHR '':'' # bare"
    using assms(2,3)
    by (cases "SplitHostPort (TrimSpace port)") (auto simp: listenAddr_def bindHost_def JoinHostPort_def Let_def defaultBindAddr_def)
  have "isLoopbackHost nl defaultBindAddr"
    using assms(1) by (simp add: isLoopbackHost_def without_port_def SplitHost_def last_index_of_def index_of_def
        trim_brackets_def defaultBindAddr_def Let_def)
  then show ?thesis
    using SplitHost_default [of bare]
    by (auto simp: bare isExposed_def SplitHostPort_def defaultBindAddr_def split: option.splits)
qed

theorem console_stays_local_witness:
  "TrimSpace [] = [] \<and> (let addr = listenAddr ''8090'' [] in addr = ''127.0.0.1:8090'' \<and> SplitHostPort addr \<noteq> None
     \<and> \<not> isExposed \<lparr>nl_urlHost = (\<lambda>_. None), nl_loopbackIP = (\<lambda>s. s = ''127.0.0.1''), nl_mediaType = (\<lambda>_. None),
         nl_request_ok = (\<lambda>_ _. True)\<rparr> addr)"
proof -
  let ?nl = "\<lparr>nl_urlHost = (\<lambda>_. None), nl_loopbackIP = (\<lambda>s. s = ''127.0.0.1''), nl_mediaType = (\<lambda>_. None),
    nl_request_ok = (\<lambda>_ _. True)\<rparr>"
  have trim: "TrimSpace ''8090'' = ''8090''"
    by (rule TrimSpace_bare) (auto simp: space_encodings_def byte_string_def char_of_eq_iff take_bit_eq_mod)
  then have port: "SplitHostPort (TrimSpace ''8090'') = None"
    by (simp add: SplitHostPort_def SplitHost_def last_index_of_def index_of_def)
  have addr: "listenAddr ''8090'' [] = ''127.0.0.1:8090''"
    using port by (simp add: listenAddr_def bindHost_def trim TrimSpace_Nil defaultBindAddr_def JoinHostPort_def Let_def)
  have split: "SplitHostPort ''127.0.0.1:8090'' \<noteq> None"
    by (simp add: SplitHostPort_def SplitHost_def last_index_of_def index_of_def)
  have "\<not> isExposed ?nl (listenAddr ''8090'' []) \<or> SplitHostPort (listenAddr ''8090'' []) = None"
    by (rule console_stays_local) (simp_all add: port TrimSpace_Nil)
  then show ?thesis using addr split TrimSpace_Nil by (simp add: Let_def)
qed

lemma unescape_plain: "CHR ''%'' \<notin> set s \<Longrightarrow> path_unescape s = Some s"
  by (induction s) auto

lemma unescape_append: "CHR ''%'' \<notin> set s \<Longrightarrow> path_unescape (s @ t) = map_option ((@) s) (path_unescape t)"
  by (cases "path_unescape t"; induction s) auto

lemma proxied_first:
  "CHR ''/'' # f \<in> set proxiedPaths \<Longrightarrow> plain_segment f \<and> CHR ''%'' \<notin> set f \<and> CHR ''?'' \<notin> set f \<and> CHR ''#'' \<notin> set f"
  by (auto simp: proxiedPaths_def plain_segment_def)



definition demo_netlib :: netlib where
  "demo_netlib = \<lparr>nl_urlHost = (\<lambda>s. if HasPrefix s ''http://'' then Some (drop 7 s) else None),
     nl_loopbackIP = (\<lambda>s. s = ''127.0.0.1''),
     nl_mediaType = (\<lambda>s. Some s), nl_request_ok = (\<lambda>_ _. True)\<rparr>"

definition demo_proxy :: adminProxy where
  "demo_proxy = \<lparr>ap_baseURL = ''http://api'', ap_token = ''t'', ap_allowedOrigins = [], ap_hosts = {}\<rparr>"

definition demo_request :: console_request where
  "demo_request = \<lparr>cq_Method = ''PUT'', cq_Host = ''localhost:8090'', cq_Origin = ''http://localhost:8090'',
     cq_Path = ''/api/admin/x/../flags/values'', cq_RawQuery = [], cq_ContentType = ''application/json'',
     cq_ContentLength = 2, cq_Body = Some ''{}''\<rparr>"

theorem proxy_gates_witness:
  "\<exists>u. forward_request demo_netlib demo_proxy demo_request = Inr u
     \<and> ur_Authorization u = ''Bearer t'' \<and> ur_Target u = ''http://api/flags/values'' \<and> cq_Body demo_request = Some (ur_Body u)"
proof -
  let ?u = "\<lparr>ur_Method = ''PUT'', ur_Target = ''http://api/flags/values'', ur_ContentType = ''application/json'',
    ur_Authorization = ''Bearer t'', ur_Body = ''{}''\<rparr>"
  have trim: "TrimSpace ''localhost:8090'' = ''localhost:8090''"
    by (rule TrimSpace_bare) (auto simp: space_encodings_def byte_string_def char_of_eq_iff take_bit_eq_mod)
  have lower: "ToLower ''localhost'' = ''localhost''"
    by (simp add: ToLower_def runes_ascii is_ascii_def lower_rune_def byte_string_def lower_char_def)
  have bare: "without_port ''localhost:8090'' = ''localhost''" "without_port ''localhost'' = ''localhost''"
    by (simp_all add: without_port_def SplitHost_def last_index_of_def index_of_def)
  have "hostname demo_netlib ''localhost:8090'' = ''localhost''"
    by (simp add: hostname_def trim bare lower trim_brackets_def HasPrefix_def Let_def)
  moreover have "isLoopbackHost demo_netlib ''localhost''" by (simp add: isLoopbackHost_def bare EqualFold_def)
  ultimately have host: "permits demo_netlib {} ''localhost:8090''" by (simp add: permits_def)
  have path: "upstreamPath ''/api/admin/x/../flags/values'' = Some ''/flags/values''" by code_simp
  have "forward_request demo_netlib demo_proxy demo_request = Inr ?u"
    by (simp add: forward_request_def demo_request_def demo_proxy_def host path sameOrigin_def isJSONRequest_def
        maxBodyBytes_def demo_netlib_def [THEN arg_cong, of nl_urlHost] demo_netlib_def [THEN arg_cong, of nl_mediaType]
        demo_netlib_def [THEN arg_cong, of nl_request_ok] HasPrefix_def EqualFold_def)
  with proxy_gates [OF this] show ?thesis by auto
qed

end
