(* ===== verification/App_Startup.thy ===== *)
theory App_Startup
  imports Admin_Tokens Rate_Limit Audit_Redact Kv_Publisher Web_Request
begin

text \<open>
  Starting and stopping the service: the environment of \<^verbatim>\<open>internal/app/config.go\<close>, the pool bounds and the opening
  of the database in \<^verbatim>\<open>internal/database\<close>, the NATS connection of \<^verbatim>\<open>internal/messaging/client.go\<close>, and
  \<^verbatim>\<open>NewApp\<close>, \<^verbatim>\<open>Close\<close>, \<^verbatim>\<open>Run\<close> and the probes of \<^verbatim>\<open>internal/app\<close>. What the drivers answer is a parameter; what
  the code does to the outside is a list of actions. Durations with a fraction are exact where the library
  rounds a \<^verbatim>\<open>float64\<close>.
\<close>

section \<open>The environment\<close>

type_synonym os_env = "string \<Rightarrow> string option"

definition ParseBool :: "string \<Rightarrow> bool option" where
  "ParseBool s =
     (if s \<in> {''1'', ''t'', ''T'', ''true'', ''TRUE'', ''True''} then Some True
      else if s \<in> {''0'', ''f'', ''F'', ''false'', ''FALSE'', ''False''} then Some False
      else None)"

definition unit_of :: "string \<Rightarrow> nat option" where
  "unit_of u = map_of [(''ns'', 1), (''us'', 1000), (byte_string [194, 181, 115], 1000),
     (byte_string [206, 188, 115], 1000), (''ms'', 1000000), (''s'', 1000000000), (''m'', 60000000000),
     (''h'', 3600000000000)] u"

definition digits_val :: "string \<Rightarrow> nat" where
  "digits_val ds = (case dec_val 0 ds of None \<Rightarrow> 0 | Some n \<Rightarrow> n)"

text \<open>One number with its unit: its nanoseconds and the rest.\<close>

definition duration_term :: "string \<Rightarrow> (nat \<times> string) option" where
  "duration_term s = (
     let ds = takeWhile is_digit s; s1 = dropWhile is_digit s;
         dot = (case s1 of [] \<Rightarrow> False | c # _ \<Rightarrow> c = CHR ''.'');
         fs = (if dot then takeWhile is_digit (tl s1) else []);
         s2 = (if dot then dropWhile is_digit (tl s1) else s1);
         u = takeWhile (\<lambda>c. c \<noteq> CHR ''.'' \<and> \<not> is_digit c) s2
     in if ds = [] \<and> fs = [] then None
        else if 2 ^ 63 < digits_val ds then None
        else case unit_of u of
          None \<Rightarrow> None
        | Some unit \<Rightarrow>
            (let v = digits_val ds * unit + digits_val fs * unit div 10 ^ length fs
             in if 2 ^ 63 < v then None else Some (v, drop (length u) s2)))"

fun duration_terms :: "nat \<Rightarrow> nat \<Rightarrow> string \<Rightarrow> nat option" where
  "duration_terms 0 d s = (if s = [] then Some d else None)"
| "duration_terms (Suc n) d s =
     (if s = [] then Some d
      else case duration_term s of
        None \<Rightarrow> None
      | Some (v, t) \<Rightarrow> if 2 ^ 63 < d + v then None else duration_terms n (d + v) t)"

text \<open>Every term takes a unit off the text, so the length of the text is fuel enough.\<close>

lemma duration_term_shorter: "duration_term s = Some (v, t) \<Longrightarrow> length t < length s"
proof -
  assume read: "duration_term s = Some (v, t)"
  define s2 where "s2 = (let s1 = dropWhile is_digit s in
    if (case s1 of [] \<Rightarrow> False | c # _ \<Rightarrow> c = CHR ''.'') then dropWhile is_digit (tl s1) else s1)"
  define u where "u = takeWhile (\<lambda>c. c \<noteq> CHR ''.'' \<and> \<not> is_digit c) s2"
  have t: "t = drop (length u) s2" "unit_of u \<noteq> None"
    using read by (auto simp: duration_term_def Let_def s2_def u_def split: if_splits option.splits)
  have "u \<noteq> []" using t(2) by (auto simp: unit_of_def byte_string_def)
  moreover have "length u \<le> length s2" unfolding u_def by (rule length_takeWhile_le)
  moreover have "length s2 \<le> length s"
    using length_dropWhile_le [of is_digit s] length_dropWhile_le [of is_digit "tl (dropWhile is_digit s)"]
    by (auto simp: s2_def Let_def split: list.splits)
  moreover have "0 < length u" using \<open>u \<noteq> []\<close> by simp
  ultimately have "length s2 - length u < length s" by linarith
  then show ?thesis using t(1) by simp
qed

lemma duration_fuel: "length s \<le> n \<Longrightarrow> duration_terms n d s = duration_terms (length s) d s"
proof (induction "length s" arbitrary: n d s rule: less_induct)
  case less
  show ?case
  proof (cases s)
    case Nil
    then show ?thesis by (cases n) simp_all
  next
    case (Cons c cs)
    then obtain m where m: "n = Suc m" using less.prems by (cases n) auto
    show ?thesis
    proof (cases "duration_term s")
      case None
      then show ?thesis using Cons by (simp add: m)
    next
      case (Some vt)
      then obtain v t where vt: "duration_term s = Some (v, t)" by (cases vt) auto
      have "length t < length s" by (rule duration_term_shorter [OF vt])
      then have "duration_terms m (d + v) t = duration_terms (length cs) (d + v) t"
        using less.hyps [of t m "d + v"] less.hyps [of t "length cs" "d + v"] less.prems m Cons by simp
      then show ?thesis using vt Cons by (simp add: m)
    qed
  qed
qed

definition ParseDuration :: "string \<Rightarrow> gotime option" where
  "ParseDuration s0 = (
     let neg = (case s0 of [] \<Rightarrow> False | c # _ \<Rightarrow> c = CHR ''-'');
         s = (case s0 of [] \<Rightarrow> [] | c # t \<Rightarrow> if c = CHR ''-'' \<or> c = CHR ''+'' then t else s0)
     in if s = ''0'' then Some 0
        else if s = [] then None
        else case duration_terms (length s) 0 s of
          None \<Rightarrow> None
        | Some d \<Rightarrow> if neg then Some (- int d) else if d < 2 ^ 63 then Some (int d) else None)"

definition getEnv :: "os_env \<Rightarrow> string \<Rightarrow> string \<Rightarrow> string" where
  "getEnv env key fallback = (case env key of None \<Rightarrow> fallback | Some v \<Rightarrow> v)"

definition parsed_env :: "(string \<Rightarrow> 'a option) \<Rightarrow> os_env \<Rightarrow> string \<Rightarrow> 'a \<Rightarrow> 'a" where
  "parsed_env parse env key fallback = (case env key of
     None \<Rightarrow> fallback
   | Some v \<Rightarrow> (case parse v of None \<Rightarrow> fallback | Some x \<Rightarrow> x))"

definition getEnvBool :: "os_env \<Rightarrow> string \<Rightarrow> bool \<Rightarrow> bool" where
  "getEnvBool = parsed_env ParseBool"

definition getEnvInt :: "os_env \<Rightarrow> string \<Rightarrow> int \<Rightarrow> int" where
  "getEnvInt = parsed_env ParseInt"

definition getEnvDuration :: "os_env \<Rightarrow> string \<Rightarrow> gotime \<Rightarrow> gotime" where
  "getEnvDuration = parsed_env ParseDuration"

record Config =
  cf_DBDriver :: string
  cf_DBConnString :: string
  cf_ServerPort :: string
  cf_DBMaxOpenConns :: int
  cf_DBMaxIdleConns :: int
  cf_DBConnMaxLifetime :: gotime
  cf_DBConnMaxIdleTime :: gotime
  cf_NATSURL :: string
  cf_NATSCreds :: string
  cf_PublishEnabled :: bool
  cf_NATSReplicas :: int
  cf_ReconcileInterval :: gotime
  cf_AdminTokens :: string
  cf_AdminToken :: string
  cf_WriteRateLimit :: int
  cf_TLSCertFile :: string
  cf_TLSKeyFile :: string
  cf_LogLevel :: string
  cf_LogFormat :: string
  cf_ServiceName :: string
  cf_ServiceVersion :: string

definition LoadConfig :: "os_env \<Rightarrow> Config" where
  "LoadConfig env = \<lparr>
     cf_DBDriver = getEnv env ''DB_DRIVER'' ''postgres'',
     cf_DBConnString = getEnv env ''CONN_STRING'' [],
     cf_ServerPort = getEnv env ''PORT'' '':8080'',
     cf_DBMaxOpenConns = getEnvInt env ''DB_MAX_OPEN_CONNS'' 0,
     cf_DBMaxIdleConns = getEnvInt env ''DB_MAX_IDLE_CONNS'' 0,
     cf_DBConnMaxLifetime = getEnvDuration env ''DB_CONN_MAX_LIFETIME'' 0,
     cf_DBConnMaxIdleTime = getEnvDuration env ''DB_CONN_MAX_IDLE_TIME'' 0,
     cf_NATSURL = getEnv env ''NATS_URL'' [],
     cf_NATSCreds = getEnv env ''NATS_CREDS'' [],
     cf_PublishEnabled = getEnvBool env ''PUBLISH_ENABLED'' False,
     cf_NATSReplicas = getEnvInt env ''NATS_REPLICAS'' 1,
     cf_ReconcileInterval = getEnvDuration env ''RECONCILE_INTERVAL'' (5 * minute),
     cf_AdminTokens = getEnv env ''ADMIN_TOKENS'' [],
     cf_AdminToken = getEnv env ''ADMIN_TOKEN'' [],
     cf_WriteRateLimit = getEnvInt env ''WRITE_RATE_LIMIT_PER_MINUTE'' defaultWriteRateLimit,
     cf_TLSCertFile = getEnv env ''TLS_CERT_FILE'' [],
     cf_TLSKeyFile = getEnv env ''TLS_KEY_FILE'' [],
     cf_LogLevel = getEnv env ''LOG_LEVEL'' ''info'',
     cf_LogFormat = getEnv env ''LOG_FORMAT'' ''json'',
     cf_ServiceName = getEnv env ''SERVICE_NAME'' ''central-config'',
     cf_ServiceVersion = getEnv env ''SERVICE_VERSION'' ''dev''\<rparr>"

section \<open>The pool\<close>

record PoolOptions =
  po_MaxOpenConns :: int
  po_MaxIdleConns :: int
  po_ConnMaxLifetime :: gotime
  po_ConnMaxIdleTime :: gotime

definition defaultPool :: PoolOptions where
  "defaultPool = \<lparr>po_MaxOpenConns = 20, po_MaxIdleConns = 5, po_ConnMaxLifetime = 30 * minute,
     po_ConnMaxIdleTime = 5 * minute\<rparr>"

definition positive_env :: "(string \<Rightarrow> int option) \<Rightarrow> os_env \<Rightarrow> string \<Rightarrow> int \<Rightarrow> int" where
  "positive_env parse env key fallback = (case env key of
     None \<Rightarrow> fallback
   | Some v \<Rightarrow> (case parse v of None \<Rightarrow> fallback | Some n \<Rightarrow> if 0 < n then n else fallback))"

definition envInt :: "os_env \<Rightarrow> string \<Rightarrow> int \<Rightarrow> int" where
  "envInt = positive_env ParseInt"

definition envDuration :: "os_env \<Rightarrow> string \<Rightarrow> gotime \<Rightarrow> gotime" where
  "envDuration = positive_env ParseDuration"

definition PoolOptionsFromEnv :: "os_env \<Rightarrow> PoolOptions" where
  "PoolOptionsFromEnv env = \<lparr>
     po_MaxOpenConns = envInt env ''DB_MAX_OPEN_CONNS'' (po_MaxOpenConns defaultPool),
     po_MaxIdleConns = envInt env ''DB_MAX_IDLE_CONNS'' (po_MaxIdleConns defaultPool),
     po_ConnMaxLifetime = envDuration env ''DB_CONN_MAX_LIFETIME'' (po_ConnMaxLifetime defaultPool),
     po_ConnMaxIdleTime = envDuration env ''DB_CONN_MAX_IDLE_TIME'' (po_ConnMaxIdleTime defaultPool)\<rparr>"

definition pool_withDefaults :: "PoolOptions \<Rightarrow> PoolOptions" where
  "pool_withDefaults o0 = \<lparr>
     po_MaxOpenConns = (if po_MaxOpenConns o0 = 0 then po_MaxOpenConns defaultPool else po_MaxOpenConns o0),
     po_MaxIdleConns = (if po_MaxIdleConns o0 = 0 then po_MaxIdleConns defaultPool else po_MaxIdleConns o0),
     po_ConnMaxLifetime = (if po_ConnMaxLifetime o0 = 0 then po_ConnMaxLifetime defaultPool else po_ConnMaxLifetime o0),
     po_ConnMaxIdleTime = (if po_ConnMaxIdleTime o0 = 0 then po_ConnMaxIdleTime defaultPool else po_ConnMaxIdleTime o0)\<rparr>"

text \<open>\<^verbatim>\<open>database/sql\<close> takes a limit of zero or less as none.\<close>

definition pool_limit :: "PoolOptions \<Rightarrow> nat option" where
  "pool_limit o0 = (if po_MaxOpenConns o0 \<le> 0 then None else Some (nat (po_MaxOpenConns o0)))"

section \<open>Connections\<close>

datatype backend = PostgresDB | SQLiteDB

datatype action =
    OpenDB backend string | ApplyPool PoolOptions | PingDB | ExecSchema | ExecSeed | CloseDB
  | DialNATS string | CloseNATS | EnsureKV int | StartReconciler gotime
  | StopReconciler | ShutdownServer | DrainNATS

datatype startup_err =
    BadTokens token_err | UnknownDriver string | ConnStringRequired | OpenFailed | PingFailed | SchemaFailed | SeedFailed
  | URLRequired | DialFailed | JetStreamInitFailed

text \<open>What the drivers answer.\<close>

record answers =
  an_open :: bool
  an_ping :: bool
  an_schema :: bool
  an_seed :: bool
  an_dial :: bool
  an_jetstream :: bool
  an_ensure :: bool

definition NewPostgresDBWithPool ::
  "answers \<Rightarrow> os_env \<Rightarrow> string \<Rightarrow> PoolOptions \<Rightarrow> (startup_err + unit) \<times> action list" where
  "NewPostgresDBWithPool an env dsn0 pool = (
     let dsn = (if dsn0 = [] then getEnv env ''CONN_STRING'' [] else dsn0)
     in if dsn = [] then (Inl ConnStringRequired, [])
        else if \<not> an_open an then (Inl OpenFailed, [])
        else let opened = [OpenDB PostgresDB dsn, ApplyPool (pool_withDefaults pool), PingDB]
             in if \<not> an_ping an then (Inl PingFailed, opened @ [CloseDB]) else (Inr (), opened))"

definition NewSQLiteDB :: "answers \<Rightarrow> string \<Rightarrow> (startup_err + unit) \<times> action list" where
  "NewSQLiteDB an dsn0 = (
     let dsn = (if dsn0 = [] then ''file:central-config.db?_pragma=busy_timeout(5000)'' else dsn0);
         opened = [OpenDB SQLiteDB dsn, PingDB]
     in if \<not> an_open an then (Inl OpenFailed, [])
        else if \<not> an_ping an then (Inl PingFailed, opened @ [CloseDB])
        else if \<not> an_schema an then (Inl SchemaFailed, opened @ [ExecSchema, CloseDB])
        else if \<not> an_seed an then (Inl SeedFailed, opened @ [ExecSchema, ExecSeed, CloseDB])
        else (Inr (), opened @ [ExecSchema, ExecSeed]))"

definition openDB :: "answers \<Rightarrow> os_env \<Rightarrow> Config \<Rightarrow> (startup_err + backend) \<times> action list" where
  "openDB an env cfg = (let driver = ToLower (cf_DBDriver cfg) in
     if driver = [] \<or> driver = ''postgres'' then
       (case NewPostgresDBWithPool an env (cf_DBConnString cfg) \<lparr>po_MaxOpenConns = cf_DBMaxOpenConns cfg,
            po_MaxIdleConns = cf_DBMaxIdleConns cfg, po_ConnMaxLifetime = cf_DBConnMaxLifetime cfg,
            po_ConnMaxIdleTime = cf_DBConnMaxIdleTime cfg\<rparr> of (r, acts) \<Rightarrow>
          (case r of Inl err \<Rightarrow> Inl err | Inr _ \<Rightarrow> Inr PostgresDB, acts))
     else if driver = ''sqlite'' then
       (case NewSQLiteDB an (cf_DBConnString cfg) of (r, acts) \<Rightarrow>
          (case r of Inl err \<Rightarrow> Inl err | Inr _ \<Rightarrow> Inr SQLiteDB, acts))
     else (Inl (UnknownDriver (cf_DBDriver cfg)), []))"

definition same_driver :: "Config \<Rightarrow> bool" where
  "same_driver cfg \<longleftrightarrow> fold_name (cf_DBDriver cfg) = fold_name ''sqlite''"

definition newRepositories :: "Config \<Rightarrow> backend" where
  "newRepositories cfg = (if same_driver cfg then SQLiteDB else PostgresDB)"

text \<open>The options of the connection, and the connection itself.\<close>

record nats_options =
  no_Name :: string
  no_MaxReconnects :: int
  no_ReconnectWait :: gotime
  no_RetryOnFailedConnect :: bool
  no_CredsFile :: "string option"

definition nats_options_of :: "string \<Rightarrow> string \<Rightarrow> int \<Rightarrow> gotime \<Rightarrow> nats_options" where
  "nats_options_of name creds maxReconnect wait = \<lparr>no_Name = name,
     no_MaxReconnects = (if maxReconnect = 0 then - 1 else maxReconnect),
     no_ReconnectWait = (if wait = 0 then 2 * second else wait), no_RetryOnFailedConnect = True,
     no_CredsFile = (if creds = [] then None else Some creds)\<rparr>"

definition Connect :: "answers \<Rightarrow> string \<Rightarrow> (startup_err + unit) \<times> action list" where
  "Connect an url =
     (if url = [] then (Inl URLRequired, [])
      else if \<not> an_dial an then (Inl DialFailed, [])
      else if \<not> an_jetstream an then (Inl JetStreamInitFailed, [DialNATS url, CloseNATS])
      else (Inr (), [DialNATS url]))"

text \<open>Unreachable buckets are no error: the flag says whether they were provisioned.\<close>

definition setupMessaging :: "answers \<Rightarrow> Config \<Rightarrow> (startup_err + bool) \<times> action list" where
  "setupMessaging an cfg = (case Connect an (cf_NATSURL cfg) of
     (Inl err, acts) \<Rightarrow> (Inl err, acts)
   | (Inr _, acts) \<Rightarrow> (Inr (an_ensure an), acts @ [EnsureKV (cf_NATSReplicas cfg)]))"

section \<open>The application\<close>

record App =
  ap_db :: backend
  ap_repositories :: backend
  ap_scope_lookup :: backend
  ap_audit :: backend
  ap_tokens :: tokenSet
  ap_limiter :: "rateLimiter option"
  ap_nats :: "bool option"
  ap_reconciles :: bool
  ap_tls :: bool

definition NewApp :: "answers \<Rightarrow> os_env \<Rightarrow> Config \<Rightarrow> (startup_err + App) \<times> action list" where
  "NewApp an env cfg = (case parseAdminTokens (cf_AdminTokens cfg) (cf_AdminToken cfg) of
     Inl err \<Rightarrow> (Inl (BadTokens err), [])
   | Inr tokens \<Rightarrow> (case openDB an env cfg of
       (Inl err, acts) \<Rightarrow> (Inl err, acts)
     | (Inr db, acts) \<Rightarrow>
         (let app = (\<lambda>nats. \<lparr>ap_db = db, ap_repositories = newRepositories cfg,
                ap_scope_lookup = newRepositories cfg, ap_audit = newRepositories cfg, ap_tokens = tokens,
                ap_limiter = newRateLimiter (cf_WriteRateLimit cfg), ap_nats = nats,
                ap_reconciles = cf_PublishEnabled cfg,
                ap_tls = (cf_TLSCertFile cfg \<noteq> [] \<and> cf_TLSKeyFile cfg \<noteq> [])\<rparr>)
          in if \<not> cf_PublishEnabled cfg then (Inr (app None), acts)
             else case setupMessaging an cfg of
               (Inl err, dial) \<Rightarrow> (Inl err, acts @ dial @ [CloseDB])
             | (Inr ready, dial) \<Rightarrow> (Inr (app (Some ready)), acts @ dial @ [StartReconciler (cf_ReconcileInterval cfg)]))))"

text \<open>\<^verbatim>\<open>Close\<close>, and the end of \<^verbatim>\<open>Run\<close> after a signal; the flags say whether each call succeeds.\<close>

definition app_Close :: "App \<Rightarrow> bool \<Rightarrow> bool \<times> action list" where
  "app_Close a ok = (ok,
     (if ap_reconciles a then [StopReconciler] else []) @ (if ap_nats a = None then [] else [DrainNATS]) @ [CloseDB])"

definition run_shutdown :: "App \<Rightarrow> bool \<Rightarrow> bool \<Rightarrow> bool \<times> action list" where
  "run_shutdown a stopped ok = (
     let begin_acts = (if ap_reconciles a then [StopReconciler] else []) @ [ShutdownServer]
     in if \<not> stopped then (False, begin_acts)
        else (ok, begin_acts @ (if ap_nats a = None then [] else [DrainNATS]) @ [CloseDB]))"

section \<open>Probes\<close>

datatype nats_state = NATSDisabled | NATSConnected | NATSDisconnected

definition healthHandler :: "bool \<Rightarrow> bool option \<Rightarrow> metrics \<Rightarrow> response \<times> metrics" where
  "healthHandler ping nats m0 = (
     let m1 = (if ping then m0 else counter_Inc DBPingFailures [] m0);
         m2 = gauge_SetBool DBUp ping m1;
         st = (case nats of None \<Rightarrow> NATSDisabled | Some True \<Rightarrow> NATSConnected | Some False \<Rightarrow> NATSDisconnected);
         m3 = (if nats = None then m2 else gauge_SetBool NATSUp (st = NATSConnected) m2);
         healthy = (ping \<and> st \<noteq> NATSDisconnected)
     in (web_JSON (if healthy then 200 else 503) (Some (json_object [
           (''database'', json_string (if ping then ''ok'' else ''unavailable'')),
           (''nats'', json_string (case st of NATSDisabled \<Rightarrow> ''disabled'' | NATSConnected \<Rightarrow> ''connected''
              | NATSDisconnected \<Rightarrow> ''disconnected'')),
           (''status'', json_string (if healthy then ''ok'' else ''degraded''))])), m3))"

definition livezHandler :: response where
  "livezHandler = web_JSON 200 (Some (json_object [(''status'', json_string ''alive'')]))"

section \<open>Lemmas\<close>

definition balance :: "action list \<Rightarrow> int" where
  "balance acts = int (length (filter (\<lambda>a. case a of OpenDB _ _ \<Rightarrow> True | _ \<Rightarrow> False) acts))
     - int (length (filter (\<lambda>a. a = CloseDB) acts))"

lemma balance_simps:
  "balance [] = 0" "balance (OpenDB b d # acts) = 1 + balance acts" "balance (CloseDB # acts) = balance acts - 1"
  "balance (ApplyPool po # acts) = balance acts" "balance (PingDB # acts) = balance acts"
  "balance (ExecSchema # acts) = balance acts" "balance (ExecSeed # acts) = balance acts"
  "balance (DialNATS u # acts) = balance acts" "balance (CloseNATS # acts) = balance acts"
  "balance (EnsureKV n # acts) = balance acts" "balance (StartReconciler i # acts) = balance acts"
  "balance (acts @ acts') = balance acts + balance acts'"
  by (simp_all add: balance_def)

lemma openDB_balance:
  "openDB an env cfg = (r, acts) \<Longrightarrow> balance acts = (case r of Inl _ \<Rightarrow> 0 | Inr _ \<Rightarrow> 1)"
  by (auto simp: openDB_def NewPostgresDBWithPool_def NewSQLiteDB_def Let_def balance_simps split: if_splits)

lemma setup_balance: "setupMessaging an cfg = (r, acts) \<Longrightarrow> balance acts = 0"
  by (auto simp: setupMessaging_def Connect_def balance_simps split: if_splits)

lemma NewApp_balance: "NewApp an env cfg = (r, acts) \<Longrightarrow> balance acts = (case r of Inl _ \<Rightarrow> 0 | Inr _ \<Rightarrow> 1)"
  by (auto simp: NewApp_def Let_def balance_simps split: sum.splits prod.splits if_splits
      dest!: openDB_balance setup_balance)

lemma ToLower_fold: "list_all is_ascii d \<Longrightarrow> ToLower d = fold_name d"
  by (induction d) (auto simp: ToLower_def fold_name_def runes_ascii lower_rune_def fold_rune_def byte_string_def is_ascii_def)

lemma openDB_backend:
  "openDB an env cfg = (Inr db, acts) \<Longrightarrow> list_all is_ascii (cf_DBDriver cfg) \<Longrightarrow> newRepositories cfg = db"
proof -
  assume run: "openDB an env cfg = (Inr db, acts)" and ascii: "list_all is_ascii (cf_DBDriver cfg)"
  have lite: "fold_name ''sqlite'' = ''sqlite''"
    by (simp add: fold_name_def runes_ascii is_ascii_def fold_rune_def byte_string_def lower_char_def)
  show ?thesis
    using run by (auto simp: openDB_def newRepositories_def same_driver_def lite ToLower_fold [OF ascii] Let_def
        split: if_splits sum.splits prod.splits)
qed

text \<open>What the probe answers is what the two dependencies are, and the gauges follow it.\<close>

lemma health_honest:
  "rp_Status (fst (healthHandler ping nats m)) = (if ping \<and> nats \<noteq> Some False then 200 else 503)"
  "gauges (snd (healthHandler ping nats m)) DBUp = (if ping then 1 else 0)"
  "gauges (snd (healthHandler ping (Some up) m)) NATSUp = (if up then 1 else 0)"
  "gauges (snd (healthHandler ping None m)) NATSUp = gauges m NATSUp"
  by (auto simp: healthHandler_def Let_def gauge_SetBool_def gauge_Set_def counter_Inc_def counter_Add_def DBUp_def
      NATSUp_def split: option.splits bool.splits)

section \<open>Properties\<close>


text \<open>
  The bound of the pool can be lost: a negative \<^verbatim>\<open>DB_MAX_OPEN_CONNS\<close> reaches \<^verbatim>\<open>database/sql\<close> through \<^verbatim>\<open>LoadConfig\<close>, where
  it means no limit, although the pool's own reading of the same variable falls back to twenty.
\<close>

theorem pool_bound_lost:
  assumes "env ''DB_MAX_OPEN_CONNS'' = Some ''-1''"
  shows "pool_limit (pool_withDefaults \<lparr>po_MaxOpenConns = cf_DBMaxOpenConns (LoadConfig env),
            po_MaxIdleConns = cf_DBMaxIdleConns (LoadConfig env), po_ConnMaxLifetime = cf_DBConnMaxLifetime (LoadConfig env),
            po_ConnMaxIdleTime = cf_DBConnMaxIdleTime (LoadConfig env)\<rparr>) = None
     \<and> pool_limit (PoolOptionsFromEnv env) = Some 20"
proof -
  have n: "ParseInt ''-1'' = Some (- 1)" by (simp add: ParseInt_def digit_val_def Let_def)
  have "cf_DBMaxOpenConns (LoadConfig env) = getEnvInt env ''DB_MAX_OPEN_CONNS'' 0" by (simp only: LoadConfig_def Config.simps)
  then have lost: "cf_DBMaxOpenConns (LoadConfig env) = - 1" by (simp only: getEnvInt_def parsed_env_def assms n option.case)
  have kept: "envInt env ''DB_MAX_OPEN_CONNS'' 20 = 20"
    by (simp only: envInt_def positive_env_def assms n option.case) simp
  show ?thesis
    by (simp add: pool_limit_def pool_withDefaults_def PoolOptionsFromEnv_def lost kept defaultPool_def del: option.simps)
qed

section \<open>Witnesses\<close>

definition local_env :: os_env where
  "local_env = [''DB_DRIVER'' \<mapsto> ''SQLite'', ''ADMIN_TOKEN'' \<mapsto> ''s3'']"

definition all_well :: answers where
  "all_well = \<lparr>an_open = True, an_ping = True, an_schema = True, an_seed = True, an_dial = True, an_jetstream = True,
     an_ensure = True\<rparr>"


end
