(* ===== verification/Console_App.thy ===== *)
theory Console_App
  imports Console_Consumer Console_Proxy App_Startup
begin

text \<open>
  The console as \<^verbatim>\<open>run\<close> of \<^verbatim>\<open>cmd/testconsole/main.go\<close> assembles it: what it reads from the environment, the hosts
  it answers to, where its embedded NATS server goes, and which handler a request reaches. \<^verbatim>\<open>http.ServeMux\<close> is
  modelled for clean paths; its own answers and the static files are parameters, and every response can be flushed.
\<close>

section \<open>The environment\<close>

definition Getenv :: "os_env \<Rightarrow> string \<Rightarrow> string" where
  "Getenv env key = (case env key of None \<Rightarrow> [] | Some v \<Rightarrow> v)"

definition console_env :: "os_env \<Rightarrow> string \<Rightarrow> string \<Rightarrow> string" where
  "console_env env key fallback = (case env key of None \<Rightarrow> fallback | Some v \<Rightarrow> if v \<noteq> [] then v else fallback)"

definition envList :: "os_env \<Rightarrow> string \<Rightarrow> string list" where
  "envList env key = filter (\<lambda>part. part \<noteq> []) (map TrimSpace (Split (CHR '','') (Getenv env key)))"

definition console_envBool :: "os_env \<Rightarrow> string \<Rightarrow> bool \<Rightarrow> bool" where
  "console_envBool = parsed_env ParseBool"

definition console_envInt :: "os_env \<Rightarrow> string \<Rightarrow> int \<Rightarrow> int" where
  "console_envInt = parsed_env ParseInt"

definition TrimSuffix :: "string \<Rightarrow> string \<Rightarrow> string" where
  "TrimSuffix s t = (if length t \<le> length s \<and> drop (length s - length t) s = t then take (length s - length t) s else s)"

definition versionRequested :: "string list \<Rightarrow> bool" where
  "versionRequested args = (case args of [] \<Rightarrow> False | a # _ \<Rightarrow> a \<in> {''version'', ''-version'', ''--version''})"

section \<open>Assembly\<close>

text \<open>
  The embedded server: \<open>urlPort\<close> is \<^verbatim>\<open>url.Parse\<close> with \<^verbatim>\<open>URL.Port\<close>, \<open>None\<close> for a URL that does not parse.
\<close>

definition startEmbeddedNATS :: "(string \<Rightarrow> string option) \<Rightarrow> string \<Rightarrow> string \<Rightarrow> (string \<times> int) option" where
  "startEmbeddedNATS urlPort natsURL host = (case urlPort natsURL of
     None \<Rightarrow> None
   | Some p \<Rightarrow> Some (host, if p = [] then 4222 else case ParseInt p of None \<Rightarrow> 4222 | Some n \<Rightarrow> n))"

record console =
  cn_options :: Options
  cn_listen :: string
  cn_hosts :: hostPolicy
  cn_proxy :: adminProxy
  cn_webDir :: string
  cn_embedded :: "(string \<times> int) option"

text \<open>\<open>None\<close> when the embedded server does not start, which ends the program.\<close>

definition console_run :: "netlib \<Rightarrow> (string \<Rightarrow> string option) \<Rightarrow> os_env \<Rightarrow> console option" where
  "console_run nl urlPort env = (
     let natsURL = console_env env ''NATS_URL'' ''nats://localhost:4222'';
         apiURL = console_env env ''CENTRAL_CONFIG_URL'' ''http://localhost:8080'';
         bindAddr = TrimSpace (Getenv env ''BIND_ADDR'');
         listen = listenAddr (console_env env ''PORT'' ''8090'') bindAddr;
         embedded = (if console_envBool env ''NATS_EMBEDDED'' False
           then startEmbeddedNATS urlPort natsURL (bindHost bindAddr) else None);
         allowedOrigins = envList env ''ALLOWED_ORIGINS'';
         hosts = newHostPolicy nl ((listen # allowedOrigins) @ envList env ''ALLOWED_HOSTS'')
     in if console_envBool env ''NATS_EMBEDDED'' False \<and> embedded = None then None
        else Some \<lparr>
          cn_options = \<lparr>op_NATSURL = natsURL, op_NATSCreds = [],
            op_EnvironmentID = console_envInt env ''ENVIRONMENT_ID'' 1, op_MicroserviceID = 0, op_HTTPFallback = None\<rparr>,
          cn_listen = listen, cn_hosts = hosts,
          cn_proxy = \<lparr>ap_baseURL = TrimSuffix apiURL ''/'', ap_token = console_env env ''ADMIN_TOKEN'' [],
            ap_allowedOrigins = allowedOrigins, ap_hosts = hosts\<rparr>,
          cn_webDir = console_env env ''WEB_DIR'' ''web'', cn_embedded = embedded\<rparr>)"

section \<open>Requests\<close>

datatype console_route = StaticRoute | StateRoute | EventsRoute | AdminRoute

text \<open>
  The patterns of the mux; a pattern for GET takes HEAD too, and the prefix without its slash is redirected.
\<close>

definition console_mux :: "string \<Rightarrow> string \<Rightarrow> console_route option" where
  "console_mux method path = (
     let get = (method = ''GET'' \<or> method = ''HEAD'')
     in if path = ''/api/admin'' then None
        else if get \<and> path = ''/api/state'' then Some StateRoute
        else if get \<and> path = ''/api/events'' then Some EventsRoute
        else if (get \<or> method \<in> {''POST'', ''PUT'', ''DELETE''}) \<and> HasPrefix path ''/api/admin/'' then Some AdminRoute
        else if get then Some StaticRoute
        else None)"

record 'w console_world =
  cw_consumer :: consumer
  cw_hub :: hub
  cw_net :: 'w

datatype console_answer = Answer console_response | EventStream nat

definition console_answer_of :: "response \<Rightarrow> console_response" where
  "console_answer_of p = \<lparr>cs_Status = rp_Status p, cs_ContentType = ''application/json'', cs_RetryAfter = [],
     cs_RequestID = [], cs_Body = rp_Body p\<rparr>"

text \<open>
  \<open>enc\<close> prints the client's snapshot, \<open>call\<close> is the upstream API, \<open>files\<close> the static handler and \<open>unmatched\<close> the
  mux's own answer. A stream is the channel of its subscription.
\<close>

definition console_serve ::
  "netlib \<Rightarrow> (Client \<Rightarrow> bytes option) \<Rightarrow> (upstream_request \<Rightarrow> 'w \<Rightarrow> (string + console_response) \<times> 'w)
     \<Rightarrow> (string \<Rightarrow> console_request \<Rightarrow> console_response) \<Rightarrow> (console_request \<Rightarrow> console_response)
     \<Rightarrow> console \<Rightarrow> console_request \<Rightarrow> 'w console_world \<Rightarrow> console_answer \<times> 'w console_world" where
  "console_serve nl enc call files unmatched c r w = (case console_mux (cq_Method r) (cq_Path r) of
     None \<Rightarrow> (Answer (unmatched r), w)
   | Some StaticRoute \<Rightarrow> (Answer (files (cn_webDir c) r), w)
   | Some StateRoute \<Rightarrow>
       (Answer (guardHost nl (cn_hosts c) (\<lambda>r. console_answer_of (stateHandler enc (cw_consumer w))) r), w)
   | Some EventsRoute \<Rightarrow>
       (if \<not> permits nl (cn_hosts c) (cq_Host r) then (Answer writeUnknownHost, w)
        else case hub_subscribe (cw_hub w) of (ch, h) \<Rightarrow> (EventStream ch, w\<lparr>cw_hub := h\<rparr>))
   | Some AdminRoute \<Rightarrow>
       (case forward nl call (cn_proxy c) r (cw_net w) of (answer, net) \<Rightarrow> (Answer answer, w\<lparr>cw_net := net\<rparr>)))"

section \<open>Lemmas\<close>

lemma console_runD:
  assumes "console_run nl urlPort env = Some c"
  shows "cn_listen c = listenAddr (console_env env ''PORT'' ''8090'') (TrimSpace (Getenv env ''BIND_ADDR''))"
    and "cn_hosts c = newHostPolicy nl ((cn_listen c # envList env ''ALLOWED_ORIGINS'') @ envList env ''ALLOWED_HOSTS'')"
    and "ap_hosts (cn_proxy c) = cn_hosts c"
    and "cn_embedded c = Some (h, port) \<Longrightarrow> h = bindHost (TrimSpace (Getenv env ''BIND_ADDR''))"
  using assms
  by (auto simp: console_run_def Let_def startEmbeddedNATS_def split: if_splits option.splits)

text \<open>A request whose host the policy does not permit gets nothing out of the guarded routes and changes nothing.\<close>

lemma unknown_host:
  assumes "\<not> permits nl (cn_hosts c) (cq_Host r)" and "ap_hosts (cn_proxy c) = cn_hosts c"
    and "console_mux (cq_Method r) (cq_Path r) = Some route" and "route \<noteq> StaticRoute"
  shows "console_serve nl enc call files unmatched c r w = (Answer writeUnknownHost, w)"
  using assms by (cases route) (simp_all add: console_serve_def guardHost_def forward_def forward_request_def)

lemma default_loopback: "nl_loopbackIP nl ''127.0.0.1'' \<Longrightarrow> isLoopbackHost nl defaultBindAddr"
  by (simp add: isLoopbackHost_def without_port_def SplitHost_def last_index_of_def index_of_def trim_brackets_def
      defaultBindAddr_def Let_def)

lemma permitted_host:
  "permits nl (newHostPolicy nl [listen]) host \<Longrightarrow>
     isLoopbackHost nl (hostname nl host) \<or> hostname nl host = hostname nl listen"
  by (auto simp: permits_def newHostPolicy_def Let_def split: if_splits)

section \<open>Properties\<close>

text \<open>
  Property C31. A console that was told nothing stays on its machine: with \<^verbatim>\<open>BIND_ADDR\<close>, \<^verbatim>\<open>ALLOWED_ORIGINS\<close> and
  \<^verbatim>\<open>ALLOWED_HOSTS\<close> blank and a \<^verbatim>\<open>PORT\<close> that names no host, it listens on loopback or on no valid address, an
  embedded NATS server is on loopback, and a request that reads the cache, opens the event stream or reaches the API
  with the token, whatever its method, has a Host that is loopback or the name of the address listened on; any other
  gets the refusal, and neither the hub nor the API hears of it.
\<close>

theorem default_console_local:
  assumes "console_run nl urlPort env = Some c" and "nl_loopbackIP nl ''127.0.0.1''"
    and "TrimSpace (Getenv env ''BIND_ADDR'') = []" and "envList env ''ALLOWED_ORIGINS'' = []"
    and "envList env ''ALLOWED_HOSTS'' = []"
    and "\<forall>h bare. SplitHostPort (TrimSpace (console_env env ''PORT'' ''8090'')) = Some (h, bare) \<longrightarrow> h = []"
  shows "(\<not> isExposed nl (cn_listen c) \<or> SplitHostPort (cn_listen c) = None)
    \<and> (\<forall>h port. cn_embedded c = Some (h, port) \<longrightarrow> isLoopbackHost nl h)
    \<and> (\<forall>(r :: console_request) route w. console_mux (cq_Method r) (cq_Path r) = Some route \<longrightarrow> route \<noteq> StaticRoute \<longrightarrow>
         isLoopbackHost nl (hostname nl (cq_Host r)) \<or> hostname nl (cq_Host r) = hostname nl (cn_listen c)
         \<or> console_serve nl enc call files unmatched c r w = (Answer writeUnknownHost, w))"
proof (intro conjI allI impI)
  note run = console_runD [OF assms(1)]
  show "\<not> isExposed nl (cn_listen c) \<or> SplitHostPort (cn_listen c) = None"
    unfolding run(1) by (rule console_stays_local [OF assms(2) _ assms(6)]) (simp add: assms(3) TrimSpace_Nil)
  show "isLoopbackHost nl h" if "cn_embedded c = Some (h, port)" for h port
    using run(4) [OF that] default_loopback [OF assms(2)] by (simp add: bindHost_def assms(3) TrimSpace_Nil)
  fix r :: console_request and route and w :: "'a console_world"
  assume route: "console_mux (cq_Method r) (cq_Path r) = Some route" "route \<noteq> StaticRoute"
  have "cn_hosts c = newHostPolicy nl [cn_listen c]" using run(2) assms(4,5) by simp
  then have "permits nl (cn_hosts c) (cq_Host r) \<Longrightarrow>
      isLoopbackHost nl (hostname nl (cq_Host r)) \<or> hostname nl (cq_Host r) = hostname nl (cn_listen c)"
    using permitted_host [of nl "cn_listen c" "cq_Host r"] by simp
  moreover have "\<not> permits nl (cn_hosts c) (cq_Host r) \<Longrightarrow>
      console_serve nl enc call files unmatched c r w = (Answer writeUnknownHost, w)"
    by (rule unknown_host [OF _ run(3) route])
  ultimately show "isLoopbackHost nl (hostname nl (cq_Host r)) \<or> hostname nl (cq_Host r) = hostname nl (cn_listen c)
      \<or> console_serve nl enc call files unmatched c r w = (Answer writeUnknownHost, w)"
    by blast
qed

theorem default_console_local_witness:
  "\<exists>c. console_run demo_netlib (\<lambda>_. None) (\<lambda>_. None) = Some c \<and> cn_listen c = ''127.0.0.1:8090''
     \<and> \<not> isExposed demo_netlib (cn_listen c)"
proof -
  define env :: os_env where "env = (\<lambda>_. None)"
  have trim: "TrimSpace ''8090'' = ''8090''"
    by (rule TrimSpace_bare) (auto simp: space_encodings_def byte_string_def char_of_eq_iff take_bit_eq_mod)
  then have port: "SplitHostPort (TrimSpace ''8090'') = None"
    by (simp add: SplitHostPort_def SplitHost_def last_index_of_def index_of_def)
  have blank: "Getenv env k = []" "envList env k = []" "console_env env k f = f" "\<not> console_envBool env k False" for k f
    by (simp_all add: env_def Getenv_def envList_def console_env_def console_envBool_def parsed_env_def TrimSpace_Nil)
  then obtain c where c: "console_run demo_netlib (\<lambda>_. None) env = Some c" by (simp add: console_run_def Let_def)
  have listen: "cn_listen c = ''127.0.0.1:8090''"
    using console_runD(1) [OF c] port trim
    by (simp add: blank listenAddr_def bindHost_def TrimSpace_Nil defaultBindAddr_def JoinHostPort_def Let_def)
  have "\<not> isExposed demo_netlib (cn_listen c) \<or> SplitHostPort (cn_listen c) = None"
    by (rule default_console_local [OF c, THEN conjunct1]) (simp_all add: blank port TrimSpace_Nil, simp add: demo_netlib_def)
  moreover have "SplitHostPort (cn_listen c) \<noteq> None"
    by (simp add: listen SplitHostPort_def SplitHost_def last_index_of_def index_of_def)
  ultimately show ?thesis using c listen by (auto simp: env_def)
qed

end
