(* ===== verification/Go_Json_Utf8.thy ===== *)
theory Go_Json_Utf8
  imports Go_Json_Strings
begin

text \<open>
  What \<^verbatim>\<open>encoding/json\<close> decodes from a string literal is valid UTF-8, whatever bytes and escapes the literal
  holds: bad bytes and lone surrogates become the replacement rune.
\<close>

definition whole_rune :: "string \<Rightarrow> bool" where
  "whole_rune r \<longleftrightarrow> utf8_width r = Some (length r)"

lemma whole_rune_append: "whole_rune r \<Longrightarrow> utf8_width (r @ s) = Some (length r)"
  using utf8_width_prefix [of r "length r" s] by (simp add: whole_rune_def)

lemma runes_whole: "whole_rune r \<Longrightarrow> runes (r @ s) = r # runes s"
proof -
  assume r: "whole_rune r"
  then have "r @ s \<noteq> []" by (auto simp: whole_rune_def utf8_width_def)
  with whole_rune_append [OF r, of s] show ?thesis by (simp add: runes_Cons_eq rune_step_def)
qed

lemma ValidString_whole: "whole_rune r \<Longrightarrow> ValidString (r @ s) = ValidString s"
  by (simp add: ValidString_def runes_whole) (simp add: whole_rune_def)

lemma whole_rune_ascii: "is_ascii c \<Longrightarrow> whole_rune [c]"
  by (simp add: whole_rune_def utf8_width_def byte_at_def is_ascii_def)

lemma whole_rune_take: "utf8_width s = Some w \<Longrightarrow> whole_rune (take w s)"
  using utf8_width_prefix [of s w "[]"] byte_at_take [of s w] by (simp add: whole_rune_def)

text \<open>Encoding a code point.\<close>

lemma byte_at_string: "i < length bs \<Longrightarrow> bs ! i < 256 \<Longrightarrow> byte_at (byte_string bs) i = bs ! i"
  by (simp add: byte_at_def byte_string_def)

lemma whole_rune_2:
  assumes "194 \<le> a" "a \<le> 223" "128 \<le> b" "b \<le> 191"
  shows "whole_rune (byte_string [a, b])"
  using assms by (simp add: whole_rune_def utf8_width_def Let_def byte_at_def byte_string_def is_cont_def)

lemma whole_rune_3:
  assumes "224 \<le> a" "a \<le> 239" "128 \<le> b" "b \<le> 191" "128 \<le> c" "c \<le> 191"
    and "a = 224 \<Longrightarrow> 160 \<le> b" "a = 237 \<Longrightarrow> b \<le> 159"
  shows "whole_rune (byte_string [a, b, c])"
  using assms by (simp add: whole_rune_def utf8_width_def Let_def byte_at_def byte_string_def is_cont_def)

lemma whole_rune_4:
  assumes "240 \<le> a" "a \<le> 244" "128 \<le> b" "b \<le> 191" "128 \<le> c" "c \<le> 191" "128 \<le> d" "d \<le> 191"
    and "a = 240 \<Longrightarrow> 144 \<le> b" "a = 244 \<Longrightarrow> b \<le> 143"
  shows "whole_rune (byte_string [a, b, c, d])"
  using assms by (simp add: whole_rune_def utf8_width_def Let_def byte_at_def byte_string_def is_cont_def)

lemma mod_64: "(n :: nat) mod 64 \<le> 63"
  using mod_less_divisor [of 64 n] by linarith

lemma whole_rune_encode:
  assumes "n < 1114112" and "n < 55296 \<or> 57344 \<le> n"
  shows "whole_rune (utf8_encode n)"
proof -
  consider "n < 128" | "128 \<le> n" "n < 2048" | "2048 \<le> n" "n < 65536" | "65536 \<le> n" by linarith
  then show ?thesis
  proof cases
    case 1
    then show ?thesis
      by (simp add: utf8_encode_def byte_string_def whole_rune_def utf8_width_def byte_at_def)
  next
    case 2
    define q where "q = n div 64"
    have "n = 64 * q + n mod 64" by (simp add: q_def)
    then have "2 \<le> q" "q \<le> 31" using 2 mod_64 [of n] by linarith+
    then show ?thesis using 2 mod_64 [of n] by (simp add: utf8_encode_def q_def [symmetric] whole_rune_2)
  next
    case 3
    define p q where "p = n div 64" and "q = n div 4096"
    have p: "n = 64 * p + n mod 64" by (simp add: p_def)
    have "q = p div 64" by (simp add: p_def q_def div_mult2_eq [symmetric])
    then have q: "p = 64 * q + p mod 64" by simp
    have "q \<le> 15" using p q 3 by linarith
    moreover have "32 \<le> p mod 64" if "q = 0" using that p q 3 mod_64 [of n] by linarith
    moreover have "p mod 64 \<le> 31" if "q = 13" using that p q assms(2) mod_64 [of n] mod_64 [of p] by linarith
    ultimately show ?thesis
      using 3 mod_64 [of n] mod_64 [of p]
      by (simp add: utf8_encode_def p_def [symmetric] q_def [symmetric] whole_rune_3)
  next
    case 4
    define p q t where "p = n div 64" and "q = n div 4096" and "t = n div 262144"
    have p: "n = 64 * p + n mod 64" by (simp add: p_def)
    have "q = p div 64" by (simp add: p_def q_def div_mult2_eq [symmetric])
    then have q: "p = 64 * q + p mod 64" by simp
    have "t = q div 64" by (simp add: q_def t_def div_mult2_eq [symmetric])
    then have t: "q = 64 * t + q mod 64" by simp
    have "t \<le> 4" using p q t assms(1) by linarith
    moreover have "16 \<le> q mod 64" if "t = 0" using that p q t 4 mod_64 [of n] mod_64 [of p] by linarith
    moreover have "q mod 64 \<le> 15" if "t = 4" using that p q t assms(1) by linarith
    ultimately show ?thesis
      using 4 mod_64 [of n] mod_64 [of p] mod_64 [of q]
      by (simp add: utf8_encode_def p_def [symmetric] q_def [symmetric] t_def [symmetric] whole_rune_4)
  qed
qed

lemma hex_val_less: "hex_val c = Some x \<Longrightarrow> x < 16"
  by (auto simp: hex_val_def Let_def split: if_splits)

lemma hex4_less: "hex4 s = Some r \<Longrightarrow> r < 65536"
  by (auto simp: hex4_def split: list.splits option.splits dest!: hex_val_less)

lemma whole_rune_error: "whole_rune rune_error"
  unfolding rune_error_def by (rule whole_rune_3) simp_all

lemma simple_escape_ascii: "simple_escape e = Some x \<Longrightarrow> is_ascii x"
  by (auto simp: simple_escape_def is_ascii_def quote_def backslash_def split: if_splits)

lemma unquote_valid: "ValidString (unquote s)"
proof (induction "length s" arbitrary: s rule: less_induct)
  case less
  have nil: "ValidString []" by (simp add: ValidString_def)
  have IH: "ValidString (unquote t)" if "length t < length s" for t using less that by blast
  show ?case
  proof (cases s)
    case Nil
    then show ?thesis using nil by (simp add: unquote.simps)
  next
    case (Cons c s1)
    then have shorter: "ValidString (unquote (drop n s1))" for n by (intro IH) simp
    have s1: "ValidString (unquote s1)" using shorter [of 0] by simp
    have err: "ValidString (rune_error @ unquote (drop n s1))" for n
      using ValidString_whole [OF whole_rune_error] shorter by simp
    show ?thesis
    proof (cases "c = backslash")
      case True
      show ?thesis
      proof (cases s1)
        case Nil
        then show ?thesis using nil Cons True by (subst unquote.simps) simp
      next
        case s1: (Cons e s2)
        have rest: "ValidString (unquote (drop n s2))" for n using shorter [of "Suc n"] s1 by simp
        have err: "ValidString (rune_error @ unquote (drop n s2))" for n using err [of "Suc n"] s1 by simp
        have unicode: "ValidString (case hex4 (take 4 s2) of
                   None \<Rightarrow> []
                 | Some r \<Rightarrow>
                     if 55296 \<le> r \<and> r < 57344 then
                       (let t = drop 4 s2 in
                        case (if r < 56320 \<and> take 2 t = [backslash, CHR ''u''] then hex4 (take 4 (drop 2 t))
                              else None) of
                          Some r2 \<Rightarrow>
                            if 56320 \<le> r2 \<and> r2 < 57344
                            then utf8_encode (65536 + (r - 55296) * 1024 + (r2 - 56320)) @ unquote (drop 6 t)
                            else rune_error @ unquote t
                        | None \<Rightarrow> rune_error @ unquote t)
                     else utf8_encode r @ unquote (drop 4 s2))"
        proof (cases "hex4 (take 4 s2)")
          case None
          then show ?thesis using nil by simp
        next
          case (Some r)
          have pair: "ValidString (utf8_encode (65536 + (r - 55296) * 1024 + (r2 - 56320)) @ u)"
            if "55296 \<le> r" "r < 56320" "56320 \<le> r2" "r2 < 57344" "ValidString u" for r2 u
            using that by (subst ValidString_whole, intro whole_rune_encode) auto
          have plain: "ValidString (utf8_encode r @ u)" if "\<not> (55296 \<le> r \<and> r < 57344)" "ValidString u" for u
            using that hex4_less [OF Some] by (subst ValidString_whole, intro whole_rune_encode) auto
          show ?thesis
            using Some err [of 4] rest pair plain by (auto simp: Let_def split: option.splits)
        qed
        have simple: "ValidString (case simple_escape e of None \<Rightarrow> [] | Some x \<Rightarrow> x # unquote s2)"
          using nil rest [of 0] ValidString_whole [OF whole_rune_ascii]
          by (force split: option.splits dest: simple_escape_ascii)
        show ?thesis
          unfolding Cons True s1 using unicode simple by (subst unquote.simps) (simp del: take.simps drop.simps)
      qed
    next
      case False
      show ?thesis
      proof (cases "is_ascii c")
        case True
        then show ?thesis
          using False Cons s1 ValidString_whole [OF whole_rune_ascii [OF True], of "unquote s1"]
          by (subst unquote.simps) simp
      next
        case high: False
        have "ValidString (unquote (drop (rune_step s) s))"
          using IH [of "drop (rune_step s) s"] Cons by simp
        then have "ValidString ((if utf8_width s = None then rune_error else take (rune_step s) s)
            @ unquote (drop (rune_step s) s))"
          using ValidString_whole [OF whole_rune_error] whole_rune_take [of s] ValidString_whole
          by (auto simp: rune_step_def split: option.splits)
        then show ?thesis using False high Cons by (subst unquote.simps) simp
      qed
    qed
  qed
qed

end
