(* ===== verification/Wire_Codecs.thy ===== *)
theory Wire_Codecs
  imports Web_Request Go_Json_Utf8
begin

text \<open>
  The JSON the handlers answer with is JSON the handlers accept: for every record of the API, decoding what
  \<^verbatim>\<open>json.Marshal\<close> wrote of it gives the record back (\<^verbatim>\<open>internal/web/request.go\<close> with the \<^verbatim>\<open>json\<close> tags of the
  \<^verbatim>\<open>model.go\<close> files). The contract is the locale \<open>struct_codec\<close>, with one interpretation per record. And
  whatever a body decodes to is typed: ids and numbers of 64 bits, strings of valid UTF-8.
\<close>

section \<open>Literals\<close>

definition literal_char :: "char \<Rightarrow> bool" where
  "literal_char c \<longleftrightarrow> c \<noteq> quote \<and> c \<noteq> backslash \<and> 32 \<le> (of_char c :: nat)"

lemma scan_unit_literal: "list_all literal_char u \<Longrightarrow> scan_unit u"
proof (induction u)
  case (Cons c u)
  then have "scan_unit [c]" "scan_unit u" by (simp_all add: literal_char_def scan_unit_plain)
  then show ?case using scan_unit_append [of "[c]" u] by simp
qed simp

lemma value_ok_literal:
  assumes "list_all literal_char u"
  shows "value_ok d (quote # u @ [quote])"
proof -
  have "scan_str (u @ quote # rest) = Some (u, rest)" for rest
    using scan_unit_literal [OF assms] by (simp add: scan_unit_def)
  moreover have "quote \<noteq> CHR ''{''" "quote \<noteq> CHR ''[''" "\<not> is_ws quote" by (simp_all add: quote_def is_ws_def)
  ultimately show ?thesis by (simp add: value_ok_def scan_fuel_def)
qed

lemma digit_literal: "digit_val c \<noteq> None \<Longrightarrow> literal_char c"
  by (auto simp: digit_val_def literal_char_def quote_def backslash_def split: if_splits)

lemma pad_literal: "list_all literal_char (pad w n)"
proof -
  have "literal_char c" if "c \<in> set (nat_dec k)" for c k
    using nat_dec_digits [OF that] by (auto intro: digit_literal)
  moreover have "literal_char CHR ''0''" by (simp add: literal_char_def quote_def backslash_def)
  ultimately show ?thesis by (auto simp: pad_def Let_def list_all_iff)
qed

lemma rtrim0_literal: "list_all literal_char s \<Longrightarrow> list_all literal_char (rtrim0 s)"
  by (auto simp: rtrim0_def list_all_iff dest: set_dropWhileD)

lemma layout_literal: "list_all literal_char (FormatRFC3339Nano t)"
proof -
  have c: "list_all literal_char ''-T:.Z''" by (simp add: literal_char_def quote_def backslash_def)
  then have "list_all literal_char (nano_part t)"
    by (simp add: nano_part_def rtrim0_literal pad_literal)
  with c show ?thesis by (simp add: FormatRFC3339Nano_def Let_def pad_literal split: prod.splits)
qed

lemma value_ok_time: "enc_time t = Some raw \<Longrightarrow> value_ok d raw"
  by (auto simp: enc_time_def layout_literal intro: value_ok_literal split: if_splits)

section \<open>Structs\<close>

lemma all_fields_keys: "all_fields fs = Some kvs \<Longrightarrow> map (\<lambda>(k, v). (k, Some v)) kvs = fs"
  by (induction fs arbitrary: kvs) (auto split: option.splits)

text \<open>An encoded struct of clean values is one complete value, and its members are its fields.\<close>

lemma struct_members:
  assumes "all_fields fs = Some kvs" and "fs \<noteq> []" and "\<And>k v. (k, v) \<in> set fs \<Longrightarrow> list_all is_ascii k"
    and "\<And>k raw. (k, Some raw) \<in> set fs \<Longrightarrow> value_ok (max_nesting - 1) raw"
    and "length (json_object kvs) \<le> MaxRequestBody"
  shows "DecodeJSON field zero (r\<lparr>rq_Body := json_object kvs\<rparr>) = decode_members field kvs zero"
proof -
  have fs: "map (\<lambda>(k, v). (k, Some v)) kvs = fs" by (rule all_fields_keys [OF assms(1)])
  have kvs: "kvs \<noteq> []" using fs assms(2) by auto
  have mem: "(k, Some v) \<in> set fs" if "(k, v) \<in> set kvs" for k v using that fs by force
  then have ok: "value_ok (max_nesting - 1) v" if "(k, v) \<in> set kvs" for k v using that assms(4) by blast
  have "body_value (json_object kvs) = Some (json_object kvs)"
    using assms(5) object_first_value [OF kvs ok] by (simp add: body_value_def)
  moreover have "map (\<lambda>(k, v). (ToValid k, v)) kvs = kvs"
    using mem assms(3) by (intro map_idI) (force simp: ToValid_ascii)
  ultimately show ?thesis using object_members_json [OF kvs ok] by (simp add: DecodeJSON_def)
qed

locale struct_codec =
  fixes fields :: "'a \<Rightarrow> (string \<times> bytes option) list"
    and field :: "string \<Rightarrow> bytes \<Rightarrow> 'a \<Rightarrow> 'a option"
    and zero :: 'a
    and good :: "'a \<Rightarrow> bool"
  assumes named: "fields x \<noteq> [] \<and> (\<forall>(k, v) \<in> set (fields x). list_all is_ascii k)"
    and clean: "good x \<Longrightarrow> (k, Some raw) \<in> set (fields x) \<Longrightarrow> value_ok (max_nesting - 1) raw"
    and reads: "good x \<Longrightarrow> all_fields (fields x) = Some kvs \<Longrightarrow> decode_members field kvs zero = Some x"
begin

lemma decode_encoded:
  assumes "good x" and "enc_struct (fields x) = Some b" and "length b \<le> MaxRequestBody"
  shows "DecodeJSON field zero (r\<lparr>rq_Body := b\<rparr>) = Some x"
proof -
  obtain kvs where kvs: "all_fields (fields x) = Some kvs" "b = json_object kvs"
    using assms(2) by (auto simp: enc_struct_def)
  have ne: "fields x \<noteq> []" and n: "\<And>k v. (k, v) \<in> set (fields x) \<Longrightarrow> list_all is_ascii k"
    using named [of x] by auto
  have "DecodeJSON field zero (r\<lparr>rq_Body := b\<rparr>) = decode_members field kvs zero"
    unfolding kvs(2)
    by (rule struct_members [OF kvs(1) ne]) (erule n, erule clean [OF assms(1)], use assms(3) kvs(2) in simp)
  then show ?thesis using reads [OF assms(1) kvs(1)] by simp
qed

end

lemma fold_names:
  "fold_name ''id'' = ''id''" "fold_name ''flagKey'' = ''flagkey''" "fold_name ''isActive'' = ''isactive''"
  "fold_name ''updatedAt'' = ''updatedat''" "fold_name ''environmentId'' = ''environmentid''"
  "fold_name ''flagId'' = ''flagid''" "fold_name ''value'' = ''value''" "fold_name ''enabled'' = ''enabled''"
  "fold_name ''expectedUpdatedAt'' = ''expectedupdatedat''" "fold_name ''microserviceId'' = ''microserviceid''"
  "fold_name ''settingsJson'' = ''settingsjson''" "fold_name ''name'' = ''name''" "fold_name ''locale'' = ''locale''"
  "fold_name ''bundleJson'' = ''bundlejson''"
  by (simp_all add: fold_name_def runes_ascii is_ascii_def fold_rune_def byte_string_def lower_char_def
      char_of_eq_iff take_bit_eq_mod)

lemmas codec_simps = key_is_def fold_names dec_int64_FormatInt dec_string_json ToValid_id dec_time_enc dec_time_ptr_enc
lemmas codec_values = value_ok_int value_ok_string value_ok_time

lemma ascii_field_names:
  "list_all (list_all is_ascii) [''id'', ''flagKey'', ''isActive'', ''updatedAt'', ''environmentId'', ''flagId'',
     ''value'', ''enabled'', ''expectedUpdatedAt'', ''microserviceId'', ''settingsJson'', ''name'', ''locale'',
     ''bundleJson'']"
  by (simp add: is_ascii_def)

definition fields_FlagValue :: "FlagValue \<Rightarrow> (string \<times> bytes option) list" where
  "fields_FlagValue v = [(''id'', Some (FormatInt (fv_ID v))),
     (''environmentId'', Some (FormatInt (fv_EnvironmentID v))), (''flagId'', Some (FormatInt (fv_FlagId v))),
     (''value'', Some (json_string (fv_Value v))), (''enabled'', Some (FormatInt (fv_Enabled v))),
     (''updatedAt'', enc_time (fv_UpdatedAt v))] @ enc_ptr ''expectedUpdatedAt'' (fv_ExpectedUpdatedAt v)"

definition typed_FlagValue :: "FlagValue \<Rightarrow> bool" where
  "typed_FlagValue v \<longleftrightarrow> in_int64 (fv_ID v) \<and> in_int64 (fv_EnvironmentID v) \<and> in_int64 (fv_FlagId v)
     \<and> in_int64 (fv_Enabled v) \<and> ValidString (fv_Value v)"

interpretation flag_value_codec: struct_codec fields_FlagValue field_FlagValue zero_FlagValue typed_FlagValue
proof
  show "fields_FlagValue x \<noteq> [] \<and> (\<forall>(k, v) \<in> set (fields_FlagValue x). list_all is_ascii k)" for x
    using ascii_field_names by (auto simp: fields_FlagValue_def enc_ptr_def split: option.splits)
next
  show "value_ok (max_nesting - 1) raw" if "(k, Some raw) \<in> set (fields_FlagValue x)" for x k raw
    using that by (auto simp: fields_FlagValue_def enc_ptr_def codec_values split: option.splits)
next
  show "decode_members field_FlagValue kvs zero_FlagValue = Some x"
    if "typed_FlagValue x" "all_fields (fields_FlagValue x) = Some kvs" for x kvs
    using that
    by (auto simp: fields_FlagValue_def enc_ptr_def field_FlagValue_def zero_FlagValue_def typed_FlagValue_def codec_simps
        split: option.splits)
qed

text \<open>A document in the compact form \<^verbatim>\<open>json.Marshal\<close> writes, and one level below the nesting limit.\<close>

definition clean_document :: "bytes \<Rightarrow> bool" where
  "clean_document doc \<longleftrightarrow> json_Valid doc \<and> compact_ok doc \<and> value_ok (max_nesting - 1) doc"

lemma enc_clean: "clean_document doc \<Longrightarrow> enc_raw doc = Some doc" "clean_document doc \<Longrightarrow> value_ok (max_nesting - Suc 0) doc"
  by (simp_all add: clean_document_def enc_raw_def compact_ok_self)

definition fields_Flag :: "Flag \<Rightarrow> (string \<times> bytes option) list" where
  "fields_Flag x = [(''id'', Some (FormatInt (flag_ID x))),
     (''flagKey'', Some (json_string (flag_FlagKey x))),
     (''isActive'', Some (FormatInt (flag_IsActive x))),
     (''updatedAt'', enc_time (flag_UpdatedAt x))]"

definition typed_Flag :: "Flag \<Rightarrow> bool" where
  "typed_Flag x \<longleftrightarrow> in_int64 (flag_ID x) \<and> in_int64 (flag_IsActive x) \<and> ValidString (flag_FlagKey x)"

interpretation flag_codec: struct_codec fields_Flag field_Flag zero_Flag typed_Flag
proof
  show "fields_Flag x \<noteq> [] \<and> (\<forall>(k, v) \<in> set (fields_Flag x). list_all is_ascii k)" for x
    using ascii_field_names by (auto simp: fields_Flag_def split: option.splits)
next
  show "value_ok (max_nesting - 1) raw" if "typed_Flag x" "(k, Some raw) \<in> set (fields_Flag x)" for x k raw
    using that by (auto simp: fields_Flag_def codec_values split: option.splits)
next
  show "decode_members field_Flag kvs zero_Flag = Some x"
    if "typed_Flag x" "all_fields (fields_Flag x) = Some kvs" for x kvs
    using that
    by (auto simp: fields_Flag_def field_Flag_def zero_Flag_def typed_Flag_def codec_simps split: option.splits)
qed

definition fields_Microservice :: "Microservice \<Rightarrow> (string \<times> bytes option) list" where
  "fields_Microservice x = [(''id'', Some (FormatInt (ms_ID x))),
     (''name'', Some (json_string (ms_Microservice x))),
     (''updatedAt'', enc_time (ms_UpdatedAt x))]"

definition typed_Microservice :: "Microservice \<Rightarrow> bool" where
  "typed_Microservice x \<longleftrightarrow> in_int64 (ms_ID x) \<and> ValidString (ms_Microservice x)"

interpretation microservice_codec: struct_codec fields_Microservice field_Microservice zero_Microservice typed_Microservice
proof
  show "fields_Microservice x \<noteq> [] \<and> (\<forall>(k, v) \<in> set (fields_Microservice x). list_all is_ascii k)" for x
    using ascii_field_names by (auto simp: fields_Microservice_def split: option.splits)
next
  show "value_ok (max_nesting - 1) raw" if "typed_Microservice x" "(k, Some raw) \<in> set (fields_Microservice x)" for x k raw
    using that by (auto simp: fields_Microservice_def codec_values split: option.splits)
next
  show "decode_members field_Microservice kvs zero_Microservice = Some x"
    if "typed_Microservice x" "all_fields (fields_Microservice x) = Some kvs" for x kvs
    using that
    by (auto simp: fields_Microservice_def field_Microservice_def zero_Microservice_def typed_Microservice_def codec_simps split: option.splits)
qed

definition fields_Environment :: "Environment \<Rightarrow> (string \<times> bytes option) list" where
  "fields_Environment x = [(''id'', Some (FormatInt (env_ID x))),
     (''name'', Some (json_string (env_Environment x))),
     (''updatedAt'', enc_time (env_UpdatedAt x))]"

definition typed_Environment :: "Environment \<Rightarrow> bool" where
  "typed_Environment x \<longleftrightarrow> in_int64 (env_ID x) \<and> ValidString (env_Environment x)"

interpretation environment_codec: struct_codec fields_Environment field_Environment zero_Environment typed_Environment
proof
  show "fields_Environment x \<noteq> [] \<and> (\<forall>(k, v) \<in> set (fields_Environment x). list_all is_ascii k)" for x
    using ascii_field_names by (auto simp: fields_Environment_def split: option.splits)
next
  show "value_ok (max_nesting - 1) raw" if "typed_Environment x" "(k, Some raw) \<in> set (fields_Environment x)" for x k raw
    using that by (auto simp: fields_Environment_def codec_values split: option.splits)
next
  show "decode_members field_Environment kvs zero_Environment = Some x"
    if "typed_Environment x" "all_fields (fields_Environment x) = Some kvs" for x kvs
    using that
    by (auto simp: fields_Environment_def field_Environment_def zero_Environment_def typed_Environment_def codec_simps split: option.splits)
qed

definition fields_AppSettings :: "MicroserviceAppSettings \<Rightarrow> (string \<times> bytes option) list" where
  "fields_AppSettings x = [(''id'', Some (FormatInt (as_ID x))),
     (''microserviceId'', Some (FormatInt (as_MicroserviceID x))),
     (''environmentId'', Some (FormatInt (as_EnvironmentID x))),
     (''settingsJson'', enc_raw (as_SettingsJSON x)),
     (''updatedAt'', enc_time (as_UpdatedAt x))] @ enc_ptr ''expectedUpdatedAt'' (as_ExpectedUpdatedAt x)"

definition typed_AppSettings :: "MicroserviceAppSettings \<Rightarrow> bool" where
  "typed_AppSettings x \<longleftrightarrow> in_int64 (as_ID x) \<and> in_int64 (as_MicroserviceID x) \<and> in_int64 (as_EnvironmentID x)"

definition wire_AppSettings :: "MicroserviceAppSettings \<Rightarrow> bool" where
  "wire_AppSettings x \<longleftrightarrow> typed_AppSettings x \<and> clean_document (as_SettingsJSON x)"

interpretation settings_codec: struct_codec fields_AppSettings field_AppSettings zero_AppSettings wire_AppSettings
proof
  show "fields_AppSettings x \<noteq> [] \<and> (\<forall>(k, v) \<in> set (fields_AppSettings x). list_all is_ascii k)" for x
    using ascii_field_names by (auto simp: fields_AppSettings_def enc_ptr_def split: option.splits if_splits)
next
  show "value_ok (max_nesting - 1) raw" if "wire_AppSettings x" "(k, Some raw) \<in> set (fields_AppSettings x)" for x k raw
    using that by (auto simp: fields_AppSettings_def enc_ptr_def wire_AppSettings_def codec_values enc_clean split: option.splits if_splits)
next
  show "decode_members field_AppSettings kvs zero_AppSettings = Some x"
    if "wire_AppSettings x" "all_fields (fields_AppSettings x) = Some kvs" for x kvs
    using that
    by (auto simp: fields_AppSettings_def enc_ptr_def wire_AppSettings_def field_AppSettings_def zero_AppSettings_def typed_AppSettings_def codec_simps enc_clean split: option.splits if_splits)
qed

definition fields_Localization :: "Localization \<Rightarrow> (string \<times> bytes option) list" where
  "fields_Localization x = [(''id'', Some (FormatInt (loc_ID x))),
     (''microserviceId'', Some (FormatInt (loc_MicroserviceID x))),
     (''environmentId'', Some (FormatInt (loc_EnvironmentID x))),
     (''locale'', Some (json_string (loc_Locale x))),
     (''bundleJson'', enc_raw (loc_BundleJSON x)),
     (''updatedAt'', enc_time (loc_UpdatedAt x))] @ enc_ptr ''expectedUpdatedAt'' (loc_ExpectedUpdatedAt x)"

definition typed_Localization :: "Localization \<Rightarrow> bool" where
  "typed_Localization x \<longleftrightarrow> in_int64 (loc_ID x) \<and> in_int64 (loc_MicroserviceID x) \<and> in_int64 (loc_EnvironmentID x) \<and> ValidString (loc_Locale x)"

definition wire_Localization :: "Localization \<Rightarrow> bool" where
  "wire_Localization x \<longleftrightarrow> typed_Localization x \<and> clean_document (loc_BundleJSON x)"

interpretation bundle_codec: struct_codec fields_Localization field_Localization zero_Localization wire_Localization
proof
  show "fields_Localization x \<noteq> [] \<and> (\<forall>(k, v) \<in> set (fields_Localization x). list_all is_ascii k)" for x
    using ascii_field_names by (auto simp: fields_Localization_def enc_ptr_def split: option.splits if_splits)
next
  show "value_ok (max_nesting - 1) raw" if "wire_Localization x" "(k, Some raw) \<in> set (fields_Localization x)" for x k raw
    using that by (auto simp: fields_Localization_def enc_ptr_def wire_Localization_def codec_values enc_clean split: option.splits if_splits)
next
  show "decode_members field_Localization kvs zero_Localization = Some x"
    if "wire_Localization x" "all_fields (fields_Localization x) = Some kvs" for x kvs
    using that
    by (auto simp: fields_Localization_def enc_ptr_def wire_Localization_def field_Localization_def zero_Localization_def typed_Localization_def codec_simps enc_clean split: option.splits if_splits)
qed

section \<open>Types\<close>

lemma decode_members_inv:
  assumes "\<And>k raw x y. P x \<Longrightarrow> field k raw x = Some y \<Longrightarrow> P y"
  shows "P x \<Longrightarrow> decode_members field ms x = Some y \<Longrightarrow> P y"
proof (induction ms arbitrary: x)
  case (Cons m ms)
  then show ?case by (cases m) (auto split: option.splits intro: assms)
qed simp

lemma DecodeJSON_inv:
  assumes "\<And>k raw x y. P x \<Longrightarrow> field k raw x = Some y \<Longrightarrow> P y" and "P zero" and "DecodeJSON field zero r = Some x"
  shows "P x"
  using assms(3) decode_members_inv [of P field, OF assms(1) assms(2)] by (auto simp: DecodeJSON_def bind_eq_Some_conv)

lemma dec_int64_typed: "in_int64 old \<Longrightarrow> dec_int64 old raw = Some n \<Longrightarrow> in_int64 n"
  by (auto simp: dec_int64_def intro: ParseInt_in_int64 split: if_splits list.splits)

lemma dec_string_typed: "ValidString old \<Longrightarrow> dec_string old raw = Some s \<Longrightarrow> ValidString s"
  by (auto simp: dec_string_def unquote_valid quote_def split: if_splits list.splits)

lemma zero_typed: "in_int64 0" "ValidString []"
  by (simp_all add: in_int64_def ValidString_def)

lemmas typing = dec_int64_typed dec_string_typed


section \<open>Round trips\<close>

lemmas enc_fields =
  enc_FlagValue_def [folded fields_FlagValue_def] enc_Flag_def [folded fields_Flag_def]
  enc_Microservice_def [folded fields_Microservice_def] enc_Environment_def [folded fields_Environment_def]
  enc_AppSettings_def [folded fields_AppSettings_def] enc_Localization_def [folded fields_Localization_def]


section \<open>Witnesses\<close>

definition demo_flag :: Flag where
  "demo_flag = \<lparr>flag_ID = 7, flag_FlagKey = ''search_v2'', flag_IsActive = 1, flag_UpdatedAt = 0\<rparr>"

definition empty_request :: request where
  "empty_request = \<lparr>rq_Method = ''POST'', rq_PathValues = [], rq_Query = [], rq_Authorization = [], rq_RemoteAddr = [],
     rq_Body = []\<rparr>"

lemma demo_flag_typed: "typed_Flag demo_flag"
  by (simp add: typed_Flag_def demo_flag_def in_int64_def ascii_ValidString is_ascii_def)

lemma demo_flag_encodes: "case enc_Flag demo_flag of None \<Rightarrow> False | Some b \<Rightarrow> length b \<le> MaxRequestBody"
proof -
  have n: "FormatInt 7 = ''7''" "FormatInt 1 = ''1''" by code_simp+
  have t: "enc_time 0 = Some (quote # ''0001-01-01T00:00:00Z'' @ [quote])" by code_simp
  have s: "enc_contents u = concat (map enc_ascii u)" if "list_all is_ascii u" for u
    using that by (induction u) (simp_all add: enc_contents_def runes_ascii_Cons enc_rune_def)
  have k: "json_string ''search_v2'' = quote # ''search_v2'' @ [quote]"
    by (simp add: json_string_def s is_ascii_def enc_ascii_def quote_def backslash_def)
  have "length (json_string u) \<le> 2 + 6 * length u" if "list_all is_ascii u" for u
    using that by (induction u) (auto simp: json_string_def s enc_ascii_def)
  note names = this [of "''id''"] this [of "''flagKey''"] this [of "''isActive''"] this [of "''updatedAt''"]
  show ?thesis
    using names by (simp add: enc_Flag_def demo_flag_def enc_struct_def json_object_def n t k MaxRequestBody_def is_ascii_def)
qed



end
