(* ===== verification/Scope_Writer.thy ===== *)
theory Scope_Writer
  imports Write_Guard
begin

text \<open>
  How the middleware of \<^verbatim>\<open>internal/app\<close> sits between a handler and the connection: \<^verbatim>\<open>statusRecorder\<close>
  (\<^verbatim>\<open>audit_middleware.go\<close>), which watches, and \<^verbatim>\<open>scopeWriter\<close> (\<^verbatim>\<open>middleware.go\<close>), which holds back a
  successful answer until it has been narrowed. A handler is the sequence of its calls; a connection takes the
  first status only, and a body before any status is a 200. The contract of a writer that passes everything on is the
  locale \<open>response_writer\<close>; the recorder keeps it, on top of any writer that does.
\<close>

section \<open>Writers\<close>

datatype writer_op = WriteHeader nat | WriteBody bytes

record wire =
  wr_Status :: nat
  wr_Body :: bytes

definition nothing_sent :: wire where
  "nothing_sent = \<lparr>wr_Status = 0, wr_Body = []\<rparr>"

definition wire_op :: "writer_op \<Rightarrow> wire \<Rightarrow> wire" where
  "wire_op x w = (case x of
     WriteHeader code \<Rightarrow> if wr_Status w = 0 then w\<lparr>wr_Status := code\<rparr> else w
   | WriteBody b \<Rightarrow> w\<lparr>wr_Status := (if wr_Status w = 0 then 200 else wr_Status w), wr_Body := wr_Body w @ b\<rparr>)"

record 'u statusRecorder =
  sr_under :: 'u
  sr_status :: nat
  sr_wrote :: bool

definition new_recorder :: "'u \<Rightarrow> 'u statusRecorder" where
  "new_recorder u = \<lparr>sr_under = u, sr_status = 200, sr_wrote = False\<rparr>"

definition recorder_op :: "(writer_op \<Rightarrow> 'u \<Rightarrow> 'u) \<Rightarrow> writer_op \<Rightarrow> 'u statusRecorder \<Rightarrow> 'u statusRecorder" where
  "recorder_op pass x w = (case x of
     WriteHeader code \<Rightarrow> if sr_wrote w then w
       else w\<lparr>sr_status := code, sr_wrote := True, sr_under := pass (WriteHeader code) (sr_under w)\<rparr>
   | WriteBody b \<Rightarrow> w\<lparr>sr_wrote := True, sr_under := pass (WriteBody b) (sr_under w)\<rparr>)"

record 'u scopeWriter =
  sw_under :: 'u
  sw_body :: bytes
  sw_status :: nat
  sw_direct :: bool

definition new_scope_writer :: "'u \<Rightarrow> 'u scopeWriter" where
  "new_scope_writer u = \<lparr>sw_under = u, sw_body = [], sw_status = 0, sw_direct = False\<rparr>"

definition scope_WriteHeader :: "(writer_op \<Rightarrow> 'u \<Rightarrow> 'u) \<Rightarrow> nat \<Rightarrow> 'u scopeWriter \<Rightarrow> 'u scopeWriter" where
  "scope_WriteHeader pass code w =
     (if sw_status w \<noteq> 0 then w
      else let w = w\<lparr>sw_status := code\<rparr>
        in if code \<noteq> 200 then w\<lparr>sw_direct := True, sw_under := pass (WriteHeader code) (sw_under w)\<rparr> else w)"

definition scope_op :: "(writer_op \<Rightarrow> 'u \<Rightarrow> 'u) \<Rightarrow> writer_op \<Rightarrow> 'u scopeWriter \<Rightarrow> 'u scopeWriter" where
  "scope_op pass x w = (case x of
     WriteHeader code \<Rightarrow> scope_WriteHeader pass code w
   | WriteBody b \<Rightarrow> (let w = (if sw_status w = 0 then scope_WriteHeader pass 200 w else w)
       in if sw_direct w then w\<lparr>sw_under := pass (WriteBody b) (sw_under w)\<rparr> else w\<lparr>sw_body := sw_body w @ b\<rparr>))"

text \<open>An answer of \<^verbatim>\<open>internal/web\<close> as the calls it makes.\<close>

definition answer_ops :: "response \<Rightarrow> writer_op list" where
  "answer_ops p = [WriteHeader (rp_Status p), WriteBody (rp_Body p)]"

definition scope_flush :: "(writer_op \<Rightarrow> 'u \<Rightarrow> 'u) \<Rightarrow> int set \<Rightarrow> string \<Rightarrow> 'u scopeWriter \<Rightarrow> 'u" where
  "scope_flush pass envs field w =
     (if sw_direct w \<or> sw_status w = 0 then sw_under w
      else case scopeFilter (sw_body w) envs field of (status, body) \<Rightarrow>
        if status = 200 then pass (WriteBody body) (pass (WriteHeader (sw_status w)) (sw_under w))
        else if status = 404 then fold pass (answer_ops (web_Error 404 ''not found'')) (sw_under w)
        else fold pass (answer_ops (web_Error 500 ''internal server error'')) (sw_under w))"

section \<open>The contract\<close>

text \<open>A status is a status: \<^verbatim>\<open>WriteHeader(0)\<close> panics in the library.\<close>

fun legal_op :: "writer_op \<Rightarrow> bool" where
  "legal_op (WriteHeader code) \<longleftrightarrow> code \<noteq> 0"
| "legal_op (WriteBody b) \<longleftrightarrow> True"

locale response_writer =
  fixes pass :: "writer_op \<Rightarrow> 'u \<Rightarrow> 'u" and sent :: "'u \<Rightarrow> wire" and fine :: "'u \<Rightarrow> bool"
  assumes passes_on: "fine u \<Longrightarrow> legal_op x \<Longrightarrow> sent (pass x u) = wire_op x (sent u) \<and> fine (pass x u)"
begin

lemma passes_all:
  "fine u \<Longrightarrow> list_all legal_op xs \<Longrightarrow> sent (fold pass xs u) = fold wire_op xs (sent u) \<and> fine (fold pass xs u)"
  by (induction xs arbitrary: u) (simp_all add: passes_on)

text \<open>A recorder on top of such a writer is one, and its status is the one that went out.\<close>

definition recorder_fine :: "'u statusRecorder \<Rightarrow> bool" where
  "recorder_fine w \<longleftrightarrow> fine (sr_under w) \<and> (sr_wrote w \<longleftrightarrow> wr_Status (sent (sr_under w)) \<noteq> 0)
     \<and> sr_status w = (if sr_wrote w then wr_Status (sent (sr_under w)) else 200)"

lemma recorder_passes_on: "response_writer (recorder_op pass) (\<lambda>w. sent (sr_under w)) recorder_fine"
proof
  fix w :: "'u statusRecorder" and x
  assume "recorder_fine w" and "legal_op x"
  then show "sent (sr_under (recorder_op pass x w)) = wire_op x (sent (sr_under w)) \<and> recorder_fine (recorder_op pass x w)"
    by (cases x) (auto simp: recorder_fine_def recorder_op_def wire_op_def passes_on)
qed

lemma new_recorder_fine: "fine u \<Longrightarrow> sent u = nothing_sent \<Longrightarrow> recorder_fine (new_recorder u)"
  by (simp add: recorder_fine_def new_recorder_def nothing_sent_def)

text \<open>The scope writer in the middle of a response: what went out, and what is held back.\<close>

definition held :: "'u scopeWriter \<Rightarrow> wire \<Rightarrow> bool" where
  "held w plain \<longleftrightarrow> sw_status w = wr_Status plain \<and> (sw_direct w \<longleftrightarrow> wr_Status plain \<notin> {0, 200}) \<and> fine (sw_under w)
     \<and> sent (sw_under w) = (if sw_direct w then plain else nothing_sent)
     \<and> (\<not> sw_direct w \<longrightarrow> sw_body w = wr_Body plain) \<and> (wr_Status plain = 0 \<longrightarrow> plain = nothing_sent)"

lemma held_step: "held w plain \<Longrightarrow> legal_op x \<Longrightarrow> held (scope_op pass x w) (wire_op x plain)"
  by (cases x) (auto simp: held_def Let_def scope_op_def scope_WriteHeader_def wire_op_def passes_on nothing_sent_def)

lemma scope_held:
  assumes "sent u = nothing_sent" and "fine u" and "list_all legal_op xs"
  shows "held (fold (scope_op pass) xs (new_scope_writer u)) (fold wire_op xs nothing_sent)"
  using assms(3)
proof (induction xs rule: rev_induct)
  case Nil
  then show ?case using assms by (simp add: held_def new_scope_writer_def nothing_sent_def)
next
  case (snoc x xs)
  then show ?case by (simp add: held_step)
qed

lemma flush_held:
  assumes "held w plain"
  shows "let u' = scope_flush pass envs field w;
      p = narrowed envs field \<lparr>rp_Status = wr_Status plain, rp_RetryAfter = None, rp_Body = wr_Body plain\<rparr>
    in sent u' = \<lparr>wr_Status = rp_Status p, wr_Body = rp_Body p\<rparr> \<and> fine u'"
  using assms
  by (auto simp: held_def Let_def scope_flush_def narrowed_def answer_ops_def passes_on wire_op_def nothing_sent_def
      split: prod.splits)

lemma scope_narrows:
  assumes "sent u = nothing_sent" and "fine u" and "list_all legal_op xs"
  shows "let plain = fold wire_op xs nothing_sent; u' = scope_flush pass envs field (fold (scope_op pass) xs (new_scope_writer u));
      p = narrowed envs field \<lparr>rp_Status = wr_Status plain, rp_RetryAfter = None, rp_Body = wr_Body plain\<rparr>
    in sent u' = \<lparr>wr_Status = rp_Status p, wr_Body = rp_Body p\<rparr> \<and> fine u'"
  using flush_held [OF scope_held [OF assms]] by (simp add: Let_def)

end

interpretation connection: response_writer wire_op id "\<lambda>_. True"
  by unfold_locales simp

interpretation recorded: response_writer "recorder_op wire_op" sr_under "connection.recorder_fine"
  using connection.recorder_passes_on by simp

section \<open>Properties\<close>



end
