(* ===== verification/Scoped_Rows.thy ===== *)
theory Scoped_Rows
  imports Write_Guard Wire_Codecs
begin

text \<open>
  What the read guard of \<^verbatim>\<open>internal/app/middleware.go\<close> makes of the rows the handlers write. The contract
  of a row codec is the locale \<open>scoped_rows\<close>: its fields encode to clean values and one of them is the
  environment. Under it the narrowing of a listing, which works on bytes, is the filtering of the rows by the scope.
\<close>

section \<open>Trimming a body\<close>

lemma space_ends:
  "e \<in> set space_encodings \<Longrightarrow> e \<noteq> [] \<and> hd e \<notin> {CHR ''['', CHR ''{'', CHR ''n''}
    \<and> last e \<notin> {CHR '']'', CHR ''}'', CHR ''l''}"
  by (auto simp: space_encodings_def byte_string_def char_of_eq_iff take_bit_eq_mod)

lemma spaces_first: "\<exists>encs. map rev space_encodings = [CHR 0x09] # [CHR 0x0A] # encs"
proof -
  have "char_of (9 :: nat) = CHR 0x09" "char_of (10 :: nat) = CHR 0x0A" by code_simp+
  then show ?thesis by (simp add: space_encodings_def byte_string_def)
qed

lemma newline_space: "find (HasPrefix (CHR 0x0A # t)) (map rev space_encodings) = Some [CHR 0x0A]"
proof -
  obtain encs where encs: "map rev space_encodings = [CHR 0x09] # [CHR 0x0A] # encs" using spaces_first by (elim exE)
  show ?thesis unfolding encs by (simp add: HasPrefix_def)
qed

lemma TrimSpace_body:
  assumes "s \<noteq> []" and "hd s \<in> {CHR ''['', CHR ''{'', CHR ''n''}" and "last s \<in> {CHR '']'', CHR ''}'', CHR ''l''}"
  shows "TrimSpace (s @ [CHR 0x0A]) = s"
proof -
  have l: "trim_left_fuel n space_encodings (s @ [CHR 0x0A]) = s @ [CHR 0x0A]" for n
    using assms(1,2) space_ends by (intro trim_left_bare) auto
  have r: "trim_left_fuel n (map rev space_encodings) (rev s) = rev s" for n
    using assms(1,3) space_ends by (intro trim_left_bare) (auto simp: hd_rev)
  have "trim_left_fuel (Suc n) (map rev space_encodings) (CHR 0x0A # rev s) = rev s" for n
    by (simp add: drop_space_def newline_space r)
  then show ?thesis by (simp add: TrimSpace_def l)
qed

lemma json_elements_last: "json_elements vs \<noteq> [] \<and> last (json_elements vs) = CHR '']''"
  by (induction vs rule: json_elements.induct) auto

lemma json_members_last: "json_members kvs \<noteq> [] \<and> last (json_members kvs) = CHR ''}''"
  by (induction kvs rule: json_members.induct) (auto simp: json_string_def)

lemma TrimSpace_array: "TrimSpace (json_array vs @ [CHR 0x0A]) = json_array vs"
  using json_elements_last [of vs] by (intro TrimSpace_body) (auto simp: json_array_def)

lemma TrimSpace_object: "TrimSpace (json_object kvs @ [CHR 0x0A]) = json_object kvs"
  using json_members_last [of kvs] by (intro TrimSpace_body) (auto simp: json_object_def)

section \<open>Depth\<close>

lemma value_ok_deeper: "value_ok d v \<Longrightarrow> value_ok (Suc d) v"
  by (auto simp: value_ok_def scan_deeper(1))

section \<open>Rows\<close>

definition row_value :: "bytes \<Rightarrow> bool" where
  "row_value b \<longleftrightarrow> value_ok (max_nesting - 2) b \<and> compact_ok b"

lemma pad_digit_chars: "c \<in> set (pad w n) \<Longrightarrow> \<exists>d. digit_val c = Some d"
  by (auto simp: pad_def Let_def digit_val_def dest: nat_dec_digits split: if_splits)

definition layout_char :: "char \<Rightarrow> bool" where
  "layout_char c \<longleftrightarrow> digit_val c \<noteq> None \<or> c \<in> set ''-T:.Z''"

lemma layout_chars: "list_all layout_char (FormatRFC3339Nano t)"
proof -
  have p: "list_all layout_char (pad w n)" for w n using pad_digit_chars by (auto simp: list_all_iff layout_char_def)
  then have "list_all layout_char (rtrim0 (pad w n))" for w n
    by (auto simp: rtrim0_def list_all_iff dest: set_dropWhileD)
  with p show ?thesis
    by (auto simp: FormatRFC3339Nano_def nano_part_def Let_def layout_char_def split: prod.splits)
qed

lemma layout_compact: "compact_ok (quote # FormatRFC3339Nano t @ [quote])"
proof -
  have "c \<noteq> backslash \<and> c \<noteq> quote \<and> c \<notin> {CHR ''<'', CHR ''>'', CHR ''&'', CHR 0xE2}" if "layout_char c" for c
    using that by (auto simp: layout_char_def digit_val_def backslash_def quote_def split: if_splits)
  then have "string_ok (FormatRFC3339Nano t)"
    using layout_chars [of t] by (intro string_ok_chars) (auto simp: list_all_iff)
  then show ?thesis by (simp add: compact_ok_def string_ok_def is_ws_def quote_def backslash_def)
qed

lemma row_values:
  "row_value (FormatInt n)" "row_value (json_string s)" "enc_time t = Some b \<Longrightarrow> row_value b"
  by (auto simp: row_value_def value_ok_int value_ok_string value_ok_time compact_ok_int compact_ok_string
      layout_compact enc_time_def intro: value_ok_literal layout_literal split: if_splits)

lemma all_some_map: "all_some (map f xs) = Some ys \<Longrightarrow> ys = map (the \<circ> f) xs"
  by (induction xs arbitrary: ys) (auto split: option.splits)

lemma all_some_mem: "all_some (map f xs) = Some ys \<Longrightarrow> x \<in> set xs \<Longrightarrow> f x \<noteq> None"
  by (induction xs arbitrary: ys) (auto split: option.splits)

locale scoped_rows =
  fixes fields :: "'a \<Rightarrow> (string \<times> bytes option) list"
    and good :: "'a \<Rightarrow> bool"
    and env :: "'a \<Rightarrow> int"
    and field :: string
  assumes keys: "distinct (map fst (fields x)) \<and> (\<forall>(k, v) \<in> set (fields x). list_all is_ascii k)"
    and clean: "good x \<Longrightarrow> (k, Some b) \<in> set (fields x) \<Longrightarrow> row_value b"
    and scoped: "good x \<Longrightarrow> in_int64 (env x) \<and> (field, Some (FormatInt (env x))) \<in> set (fields x)"
begin

lemma encoded_row:
  assumes "good x" and "enc_struct (fields x) = Some b"
  shows "value_ok (max_nesting - 1) b" and "compact_ok b" and "rowEnvironment b field = Some (env x)"
    and "\<exists>kvs. b = json_object kvs"
proof -
  obtain kvs where kvs: "all_fields (fields x) = Some kvs" "b = json_object kvs"
    using assms(2) by (auto simp: enc_struct_def)
  have fs: "map (\<lambda>(k, v). (k, Some v)) kvs = fields x" by (rule all_fields_keys [OF kvs(1)])
  have mem: "(k, Some v) \<in> set (fields x) \<longleftrightarrow> (k, v) \<in> set kvs" for k v unfolding fs [symmetric] by force
  have ne: "kvs \<noteq> []" using scoped [OF assms(1)] fs by auto
  have row: "row_value v" if "(k, v) \<in> set kvs" for k v using clean [OF assms(1)] that mem by blast
  have deep: "value_ok (max_nesting - 1 - 1) v" if "(k, v) \<in> set kvs" for k v
    using row [OF that] by (simp add: row_value_def numeral_2_eq_2)
  have flat: "value_ok (max_nesting - 1) v" if "(k, v) \<in> set kvs" for k v
    using value_ok_deeper [OF deep [OF that]] by (simp add: max_nesting_def)
  show "value_ok (max_nesting - 1) b"
    unfolding kvs(2) by (rule value_ok_object [OF ne]) (erule deep, simp add: max_nesting_def)
  show "compact_ok b"
    unfolding kvs(2) using row by (intro compact_ok_object) (auto simp: row_value_def)
  show "\<exists>kvs. b = json_object kvs" using kvs(2) by blast
  have "map fst kvs = map fst (fields x)" unfolding fs [symmetric] by (simp add: case_prod_beta comp_def)
  then have dist: "distinct (map fst kvs)" using keys [of x] by simp
  have "map (\<lambda>(k, v). (ToValid k, v)) kvs = kvs"
    using mem keys [of x] by (intro map_idI) (force simp: ToValid_ascii)
  then have members: "object_members b = Some kvs"
    unfolding kvs(2) using object_members_json [OF ne flat] by simp
  have "map_of (rev kvs) field = Some (FormatInt (env x))"
    using scoped [OF assms(1)] mem dist by (simp add: map_of_eq_Some_iff rev_map [symmetric])
  then show "rowEnvironment b field = Some (env x)"
    using members scoped [OF assms(1)] by (simp add: rowEnvironment_def dec_int64_FormatInt)
qed

lemma narrowed_listing:
  assumes good: "list_all good rs" and encoded: "all_some (map (enc_struct \<circ> fields) rs) = Some bs" and ne: "rs \<noteq> []"
  shows "narrowed envs field (web_JSON 200 (enc_slice (enc_struct \<circ> fields) rs)) =
     web_JSON 200 (Some (json_array (map (the \<circ> enc_struct \<circ> fields) (filter (\<lambda>x. env x \<in> envs) rs))))"
proof -
  define code where "code = the \<circ> enc_struct \<circ> fields"
  have row: "good x" "enc_struct (fields x) = Some (code x)" if "x \<in> set rs" for x
  proof -
    have "enc_struct (fields x) \<noteq> None" using all_some_mem [OF encoded that] by simp
    then show "enc_struct (fields x) = Some (code x)" by (auto simp: code_def)
    show "good x" using good that by (simp add: list_all_iff)
  qed
  have bs: "bs = map code rs" using all_some_map [OF encoded] by (simp add: code_def comp_assoc)
  have "value_ok (max_nesting - 1) (code x)" "compact_json False (code x) = code x"
    "row_in envs field (code x) \<longleftrightarrow> env x \<in> envs" if "x \<in> set rs" for x
    using encoded_row [OF row [OF that]] by (simp_all add: compact_ok_self row_in_def)
  note code = this
  have elements: "array_elements (json_array bs) = Some bs"
    using code(1) by (intro array_elements_json) (auto simp: bs)
  have "filter (row_in envs field) bs = map code (filter (\<lambda>x. env x \<in> envs) rs)"
    unfolding bs filter_map comp_def using code(3) by (simp cong: filter_cong)
  then have kept: "map (compact_json False) (filter (row_in envs field) bs) = map code (filter (\<lambda>x. env x \<in> envs) rs)"
    using code(2) by simp
  have "json_array bs \<noteq> ''null''" "\<exists>t. json_array bs = CHR ''['' # t" by (simp_all add: json_array_def)
  then have "scopeFilter (json_array bs @ [CHR 0x0A]) envs field
      = (200, json_array (map code (filter (\<lambda>x. env x \<in> envs) rs)) @ [CHR 0x0A])"
    using elements kept by (auto simp: scopeFilter_def TrimSpace_array Let_def)
  with ne show ?thesis by (simp add: narrowed_def web_JSON_def enc_slice_def encoded code_def [symmetric])
qed

lemma narrowed_row:
  assumes "good x" and "enc_struct (fields x) = Some b"
  shows "narrowed envs field (web_JSON 200 (Some b)) =
     (if env x \<in> envs then web_JSON 200 (Some b) else web_Error 404 ''not found'')"
proof -
  obtain kvs where b: "b = json_object kvs" using encoded_row(4) [OF assms] by blast
  have "b \<noteq> ''null''" "\<exists>t. b = CHR ''{'' # t" "TrimSpace (b @ [CHR 0x0A]) = b"
    using TrimSpace_object by (simp_all add: b json_object_def)
  then show ?thesis
    using encoded_row(3) [OF assms] by (auto simp: narrowed_def web_JSON_def scopeFilter_def row_in_def Let_def)
qed

lemma narrowed_rows:
  assumes "list_all good rs" and "all_some (map (enc_struct \<circ> fields) rs) = Some bs"
  shows "narrowed envs field (web_JSON 200 (enc_slice (enc_struct \<circ> fields) rs)) =
     web_JSON 200 (Some (json_array (map (the \<circ> (enc_struct \<circ> fields)) (filter (\<lambda>x. env x \<in> envs) rs))))"
proof (cases "rs = []")
  case True
  have "TrimSpace (''null'' @ [CHR 0x0A]) = ''null''" by (rule TrimSpace_body) simp_all
  with True show ?thesis
    by (simp add: narrowed_def web_JSON_def enc_slice_def scopeFilter_def Let_def json_array_def)
next
  case False
  with narrowed_listing [OF assms] show ?thesis by (simp add: comp_assoc)
qed

end

section \<open>The rows of the API\<close>

definition fields_FlagValueRow :: "FlagValueRow \<Rightarrow> (string \<times> bytes option) list" where
  "fields_FlagValueRow x = [(''id'', Some (FormatInt (fvr_ID x))),
     (''environmentId'', Some (FormatInt (fvr_EnvironmentID x))), (''flagId'', Some (FormatInt (fvr_FlagId x))),
     (''flagKey'', Some (json_string (fvr_FlagKey x))), (''value'', Some (json_string (fvr_Value x))),
     (''enabled'', Some (FormatInt (fvr_Enabled x))), (''updatedAt'', enc_time (fvr_UpdatedAt x))]"

text \<open>A document the listing can carry: in compact form, and two levels below the nesting limit.\<close>

definition row_document :: "bytes \<Rightarrow> bool" where
  "row_document doc \<longleftrightarrow> json_Valid doc \<and> row_value doc"

lemma row_document: "row_document doc \<Longrightarrow> enc_raw doc = Some b \<Longrightarrow> row_value b"
  by (auto simp: row_document_def enc_raw_def row_value_def compact_ok_self split: if_splits)

lemmas row_fields = fields_FlagValueRow_def fields_AppSettings_def fields_Localization_def fields_Environment_def
  fields_FlagValue_def enc_ptr_def

interpretation flag_value_rows: scoped_rows fields_FlagValueRow "\<lambda>x. in_int64 (fvr_EnvironmentID x)" fvr_EnvironmentID
  "''environmentId''"
  by unfold_locales (use ascii_field_names in \<open>auto simp: row_fields row_values\<close>)

interpretation flag_value_single: scoped_rows fields_FlagValue "\<lambda>x. in_int64 (fv_EnvironmentID x)" fv_EnvironmentID
  "''environmentId''"
  by unfold_locales (use ascii_field_names in \<open>auto simp: row_fields row_values split: option.splits\<close>)

interpretation environment_rows: scoped_rows fields_Environment "\<lambda>x. in_int64 (env_ID x)" env_ID "''id''"
  by unfold_locales (use ascii_field_names in \<open>auto simp: row_fields row_values\<close>)

interpretation settings_rows: scoped_rows fields_AppSettings
  "\<lambda>x. in_int64 (as_EnvironmentID x) \<and> row_document (as_SettingsJSON x)" as_EnvironmentID "''environmentId''"
  by unfold_locales (use ascii_field_names in \<open>auto simp: row_fields row_values row_document split: option.splits\<close>)

interpretation bundle_rows: scoped_rows fields_Localization
  "\<lambda>x. in_int64 (loc_EnvironmentID x) \<and> row_document (loc_BundleJSON x)" loc_EnvironmentID "''environmentId''"
  by unfold_locales (use ascii_field_names in \<open>auto simp: row_fields row_values row_document split: option.splits\<close>)

section \<open>Properties\<close>

definition scoped_answer :: "('a \<Rightarrow> bytes option) \<Rightarrow> ('a \<Rightarrow> int) \<Rightarrow> int set \<Rightarrow> 'a list \<Rightarrow> response" where
  "scoped_answer enc env envs rs =
     web_JSON 200 (Some (json_array (map (the \<circ> enc) (filter (\<lambda>x. env x \<in> envs) rs))))"

lemma scoped_read:
  assumes "authenticate tokens r = Inr token" and "at_envs token = Some envs" and "class \<noteq> classReadInventory"
  shows "read_guard tokens now class h r sv = (case h (Some envs) r sv of (p, sv) \<Rightarrow>
     (if scopeField class = [] then p else narrowed envs (scopeField class) p, sv))"
  using assms by (simp add: read_guard_def)

lemma enc_FlagValueRow_fields: "enc_FlagValueRow = enc_struct \<circ> fields_FlagValueRow"
  by (rule ext) (simp add: enc_FlagValueRow_def fields_FlagValueRow_def)

lemma enc_struct_fields:
  "enc_FlagValue = enc_struct \<circ> fields_FlagValue" "enc_Environment = enc_struct \<circ> fields_Environment"
  "enc_AppSettings = enc_struct \<circ> fields_AppSettings" "enc_Localization = enc_struct \<circ> fields_Localization"
  by (rule ext, simp add: enc_fields)+


section \<open>Witness\<close>

definition ci_token :: adminToken where
  "ci_token = \<lparr>at_name = ''ci'', at_secret = ''s3'', at_envs = Some {4}\<rparr>"

definition scoped_request :: request where
  "scoped_request = empty_request\<lparr>rq_Authorization := ''Bearer s3''\<rparr>"

definition two_environments :: "Environment list" where
  "two_environments = [\<lparr>env_ID = 1, env_Environment = ''staging'', env_UpdatedAt = 5 * second\<rparr>,
     \<lparr>env_ID = 4, env_Environment = ''prod'', env_UpdatedAt = 5 * second\<rparr>]"

definition no_server :: "unit server" where
  "no_server = \<lparr>sv_app = \<lparr>app_db = \<lparr>tabs = \<lparr>environments = \<lparr>rows = [], seq = 1\<rparr>, microservices = \<lparr>rows = [], seq = 1\<rparr>,
     flags = \<lparr>rows = [], seq = 1\<rparr>, flag_values = \<lparr>rows = [], seq = 1\<rparr>, appsettings = \<lparr>rows = [], seq = 1\<rparr>,
     localizations = \<lparr>rows = [], seq = 1\<rparr>\<rparr>, clock = 0, script = []\<rparr>, app_pub = ()\<rparr>, sv_limiter = None, sv_trail = \<lparr>rows = [], seq = 1\<rparr>\<rparr>"


section \<open>What the scope does not withhold\<close>

lemma enc_contents_ascii: "list_all is_ascii u \<Longrightarrow> enc_contents u = concat (map enc_ascii u)"
  by (induction u) (simp_all add: enc_contents_def runes_ascii_Cons enc_rune_def)

lemma not_found_bodies: "rp_Body (web_Error 404 ''not found'') \<noteq> rp_Body (web_Error 404 ''flag not found'')"
  by (simp add: web_Error_def web_JSON_def ErrorResponse_def json_object_def json_string_def enc_contents_ascii
      is_ascii_def enc_ascii_def quote_def backslash_def)

definition scoped_get :: "tokenSet \<Rightarrow> gotime \<Rightarrow> flags_repository \<Rightarrow> request \<Rightarrow> 'w server \<Rightarrow> response" where
  "scoped_get tokens now repo r sv =
     fst (read_guard tokens now classReadEnvRows (\<lambda>scope. on_app (Flags_GetFlagsValueByID repo)) r sv)"

text \<open>
  What the scope does not withhold: a flag value outside the scope and one that does not exist are both answered
  404, but with different bodies, so a scoped caller can tell them apart by id.
\<close>

theorem scoped_get_reveals_existence:
  assumes "authenticate tokens r = Inr token" and "at_envs token = Some envs"
    and "ParseInt (PathValue r ''id'') = Some i"
    and "FlagService_GetFlagValueByID repo i (sv_app sv) = (Inr v, a)"
    and "fv_EnvironmentID v \<notin> envs" and "in_int64 (fv_EnvironmentID v)" and "enc_FlagValue v \<noteq> None"
    and "FlagService_GetFlagValueByID repo i (sv_app sv') = (Inl flags_error.ErrFlagNotFound, a')"
  shows "rp_Status (scoped_get tokens now repo r sv) = 404 \<and> rp_Status (scoped_get tokens now repo r sv') = 404 \<and>
    rp_Body (scoped_get tokens now repo r sv) \<noteq> rp_Body (scoped_get tokens now repo r sv')"
proof -
  obtain b where b: "enc_FlagValue v = Some b" using assms(7) by auto
  have "narrowed envs ''environmentId'' (web_JSON 200 (Some b)) = web_Error 404 ''not found''"
    using flag_value_single.narrowed_row [of v b envs] assms(5,6) b by (simp add: enc_struct_fields)
  then have there: "scoped_get tokens now repo r sv = web_Error 404 ''not found''"
    using assms(3,4) b
    by (simp add: scoped_get_def scoped_read [OF assms(1,2)] scopeField_def on_app_def Flags_GetFlagsValueByID_def
        with_id_def reply_def answered_def)
  have missing: "scoped_get tokens now repo r sv' = web_Error 404 ''flag not found''"
    using assms(3,8)
    by (simp add: scoped_get_def scoped_read [OF assms(1,2)] scopeField_def on_app_def Flags_GetFlagsValueByID_def
        with_id_def reply_def flags_writeErr_def narrowed_def)
  show ?thesis unfolding there missing using not_found_bodies by (simp add: web_Error_def web_JSON_def)
qed

end
