(* ===== verification/Sqlite_Seed.thy ===== *)
theory Sqlite_Seed
  imports Sqlite_Db System_Invariant "HOL-Library.Sublist"
begin

text \<open>
  The dataset the local test stack starts with: \<^verbatim>\<open>sqliteSeed\<close> of \<^verbatim>\<open>internal/database/sqlite.go\<close>, applied at every
  start after the schema. The seeded database is sound, and seeding again only adds; but it adds back what was
  deleted, and can leave a row whose environment does not exist.
\<close>

section \<open>The dataset\<close>

text \<open>\<^verbatim>\<open>INSERT OR IGNORE\<close>: a row whose id or unique key is taken is passed over.\<close>

fun insert_or_ignore :: "('r \<Rightarrow> int) \<Rightarrow> ('r \<Rightarrow> 'k) \<Rightarrow> 'r list \<Rightarrow> 'r table \<Rightarrow> 'r table" where
  "insert_or_ignore pk uk [] T = T"
| "insert_or_ignore pk uk (r # rs) T = insert_or_ignore pk uk rs
     (if list_ex (\<lambda>x. pk x = pk r \<or> uk x = uk r) (rows T) then T else T\<lparr>rows := rows T @ [r]\<rparr>)"

definition seed_environments :: "gotime \<Rightarrow> Environment list" where
  "seed_environments now = map (\<lambda>(i, n). \<lparr>env_ID = i, env_Environment = n, env_UpdatedAt = sqlite_now now\<rparr>)
     [(1, ''dev''), (2, ''staging''), (3, ''prod'')]"

definition seed_microservices :: "gotime \<Rightarrow> Microservice list" where
  "seed_microservices now = map (\<lambda>(i, n). \<lparr>ms_ID = i, ms_Microservice = n, ms_UpdatedAt = sqlite_now now\<rparr>)
     [(1, ''catalog-api''), (2, ''cart-api''), (3, ''storefront-api'')]"

definition seed_flags :: "gotime \<Rightarrow> Flag list" where
  "seed_flags now = map (\<lambda>(i, k).
       \<lparr>flag_ID = i, flag_FlagKey = k, flag_IsActive = 1, flag_UpdatedAt = sqlite_now now\<rparr>)
     [(7, ''search_v2''), (8, ''dark_mode''), (9, ''new_pricing'')]"

definition seed_flag_values :: "gotime \<Rightarrow> FlagValue list" where
  "seed_flag_values now = map (\<lambda>(i, e, f, b, v).
       \<lparr>fv_ID = i, fv_EnvironmentID = e, fv_FlagId = f, fv_Value = v, fv_Enabled = b,
        fv_UpdatedAt = sqlite_now now, fv_ExpectedUpdatedAt = None\<rparr>)
     [(100, 1, 7, 1, ''on''), (101, 1, 8, 0, ''off''), (102, 1, 9, 1, ''0.25''), (103, 3, 7, 0, ''off'')]"

fun join_lines :: "string list \<Rightarrow> string" where
  "join_lines [] = []"
| "join_lines [l] = l"
| "join_lines (l # ls) = l @ CHR 0x0A # join_lines ls"

definition catalog_settings :: bytes where
  "catalog_settings = join_lines [
     ''{'',
     ''      \"service\": { \"displayName\": \"Catalog\", \"region\": \"eu-west\", \"shutdownGraceSeconds\": 20 },'',
     ''      \"http\": { \"baseUrl\": \"https://api.example.com/v1\", \"timeoutMs\": 2000, \"maxRetries\": 3, \"verifyTls\": true },'',
     ''      \"cache\": { \"enabled\": true, \"ttlSeconds\": 300, \"maxEntries\": 10000 },'',
     ''      \"search\": { \"indexName\": \"catalog\", \"pageSize\": 25, \"facets\": [\"brand\", \"price\", \"rating\"] },'',
     ''      \"storage\": {'',
     ''        \"endpoint\": \"https://objects.example.com\",'',
     ''        \"bucket\": \"catalog-media\",'',
     ''        \"accessKeyId\": \"env:STORAGE_ACCESS_KEY_ID\",'',
     ''        \"secretAccessKey\": \"env:STORAGE_SECRET_ACCESS_KEY\"'',
     ''      },'',
     ''      \"log\": { \"level\": \"debug\", \"sampleRate\": 0.1 }'',
     ''    }'']"

definition cart_settings :: bytes where
  "cart_settings = ''{\"service\":{\"displayName\":\"Cart\"},\"http\":{\"timeoutMs\":1500,\"maxRetries\":5},\"cache\":{\"enabled\":false}}''"

definition storefront_settings :: bytes where
  "storefront_settings = ''{\"service\":{\"displayName\":\"Storefront\"},\"http\":{\"timeoutMs\":3000,\"maxRetries\":2},\"log\":{\"level\":\"info\"}}''"

definition english_bundle :: bytes where
  "english_bundle = ''{\"catalog.title\":\"Catalog\",\"catalog.search\":\"Search\"}''"

definition portuguese_bundle :: bytes where
  "portuguese_bundle = ''{\"catalog.title\":\"Cat'' @ [CHR 0xC3, CHR 0xA1] @ ''logo\",\"catalog.search\":\"Buscar\"}''"

definition seed_appsettings :: "gotime \<Rightarrow> MicroserviceAppSettings list" where
  "seed_appsettings now = map (\<lambda>(i, m, e, doc).
       \<lparr>as_ID = i, as_MicroserviceID = m, as_EnvironmentID = e, as_SettingsJSON = doc,
        as_UpdatedAt = sqlite_now now, as_ExpectedUpdatedAt = None\<rparr>)
     [(200, 1, 1, catalog_settings),
      (201, 2, 1, cart_settings),
      (202, 3, 1, storefront_settings)]"

definition seed_localizations :: "gotime \<Rightarrow> Localization list" where
  "seed_localizations now = map (\<lambda>(i, m, e, l, doc).
       \<lparr>loc_ID = i, loc_MicroserviceID = m, loc_EnvironmentID = e, loc_Locale = l, loc_BundleJSON = doc,
        loc_UpdatedAt = sqlite_now now, loc_ExpectedUpdatedAt = None\<rparr>)
     [(300, 1, 1, ''en-US'', english_bundle),
      (301, 1, 1, ''pt-BR'', portuguese_bundle)]"

definition sqliteSeed :: "gotime \<Rightarrow> tables \<Rightarrow> tables" where
  "sqliteSeed now t = \<lparr>
     environments = insert_or_ignore env_ID env_Environment (seed_environments now) (environments t),
     microservices = insert_or_ignore ms_ID ms_Microservice (seed_microservices now) (microservices t),
     flags = insert_or_ignore flag_ID flag_FlagKey (seed_flags now) (flags t),
     flag_values = insert_or_ignore fv_ID fv_key (seed_flag_values now) (flag_values t),
     appsettings = insert_or_ignore as_ID as_key (seed_appsettings now) (appsettings t),
     localizations = insert_or_ignore loc_ID loc_key (seed_localizations now) (localizations t)\<rparr>"

definition empty_tables :: tables where
  "empty_tables = \<lparr>environments = \<lparr>rows = [], seq = 1\<rparr>, microservices = \<lparr>rows = [], seq = 1\<rparr>,
     flags = \<lparr>rows = [], seq = 1\<rparr>, flag_values = \<lparr>rows = [], seq = 1\<rparr>,
     appsettings = \<lparr>rows = [], seq = 1\<rparr>, localizations = \<lparr>rows = [], seq = 1\<rparr>\<rparr>"

section \<open>Seeding adds\<close>

lemma insert_or_ignore_rows: "\<exists>new. rows (insert_or_ignore pk uk rs T) = rows T @ new \<and> set new \<subseteq> set rs"
proof (induction rs arbitrary: T)
  case (Cons r rs)
  show ?case
    using Cons.IH [of T] Cons.IH [of "T\<lparr>rows := rows T @ [r]\<rparr>"] by (auto 0 3)
qed simp

lemma insert_or_ignore_seq: "seq (insert_or_ignore pk uk rs T) = seq T"
  by (induction rs arbitrary: T) auto

lemma insert_or_ignore_ok: "table_ok pk uk T \<Longrightarrow> table_ok pk uk (insert_or_ignore pk uk rs T)"
proof (induction rs arbitrary: T)
  case (Cons r rs)
  have "table_ok pk uk (T\<lparr>rows := rows T @ [r]\<rparr>)" if "\<not> list_ex (\<lambda>x. pk x = pk r \<or> uk x = uk r) (rows T)"
    using Cons.prems that by (auto simp: table_ok_def list_ex_iff)
  then show ?case using Cons by simp
qed simp

lemma insert_or_ignore_taken:
  "\<forall>r \<in> set rs. \<exists>x \<in> set (rows T). pk x = pk r \<or> uk x = uk r \<Longrightarrow> insert_or_ignore pk uk rs T = T"
  by (induction rs) (auto simp: list_ex_iff)

lemma insert_or_ignore_takes:
  "r \<in> set rs \<Longrightarrow> \<exists>x \<in> set (rows (insert_or_ignore pk uk rs T)). pk x = pk r \<or> uk x = uk r"
proof (induction rs arbitrary: T)
  case (Cons s rs)
  define T' where "T' = (if list_ex (\<lambda>x. pk x = pk s \<or> uk x = uk s) (rows T) then T else T\<lparr>rows := rows T @ [s]\<rparr>)"
  have "\<exists>x \<in> set (rows T'). pk x = pk s \<or> uk x = uk s" by (auto simp: T'_def list_ex_iff)
  moreover have "set (rows T') \<subseteq> set (rows (insert_or_ignore pk uk rs T'))"
    using insert_or_ignore_rows [of pk uk rs T'] by auto
  ultimately show ?case using Cons by (auto simp: T'_def [symmetric])
qed simp

lemma insert_or_ignore_again:
  assumes "list_all2 (\<lambda>r s. pk r = pk s \<and> uk r = uk s) rs ss"
  shows "insert_or_ignore pk uk ss (insert_or_ignore pk uk rs T) = insert_or_ignore pk uk rs T"
proof (rule insert_or_ignore_taken, rule ballI)
  fix s assume "s \<in> set ss"
  with assms have "\<exists>r \<in> set rs. pk r = pk s \<and> uk r = uk s" by (induction rule: list_all2_induct) auto
  then obtain r where "r \<in> set rs" "pk r = pk s" "uk r = uk s" by blast
  with insert_or_ignore_takes [of r rs pk uk T]
  show "\<exists>x \<in> set (rows (insert_or_ignore pk uk rs T)). pk x = pk s \<or> uk x = uk s" by metis
qed

lemmas seed_rows = seed_environments_def seed_microservices_def seed_flags_def seed_flag_values_def
  seed_appsettings_def seed_localizations_def

lemma sqliteSeed_again: "sqliteSeed now' (sqliteSeed now t) = sqliteSeed now t"
proof -
  have "insert_or_ignore env_ID env_Environment (seed_environments now') (environments (sqliteSeed now t))
      = environments (sqliteSeed now t)"
    by (simp add: sqliteSeed_def) (rule insert_or_ignore_again, simp add: seed_rows)
  moreover have "insert_or_ignore ms_ID ms_Microservice (seed_microservices now') (microservices (sqliteSeed now t))
      = microservices (sqliteSeed now t)"
    by (simp add: sqliteSeed_def) (rule insert_or_ignore_again, simp add: seed_rows)
  moreover have "insert_or_ignore flag_ID flag_FlagKey (seed_flags now') (flags (sqliteSeed now t))
      = flags (sqliteSeed now t)"
    by (simp add: sqliteSeed_def) (rule insert_or_ignore_again, simp add: seed_rows)
  moreover have "insert_or_ignore fv_ID fv_key (seed_flag_values now') (flag_values (sqliteSeed now t))
      = flag_values (sqliteSeed now t)"
    by (simp add: sqliteSeed_def) (rule insert_or_ignore_again, simp add: seed_rows fv_key_def)
  moreover have "insert_or_ignore as_ID as_key (seed_appsettings now') (appsettings (sqliteSeed now t))
      = appsettings (sqliteSeed now t)"
    by (simp add: sqliteSeed_def) (rule insert_or_ignore_again, simp add: seed_rows as_key_def)
  moreover have "insert_or_ignore loc_ID loc_key (seed_localizations now') (localizations (sqliteSeed now t))
      = localizations (sqliteSeed now t)"
    by (simp add: sqliteSeed_def) (rule insert_or_ignore_again, simp add: seed_rows loc_key_def)
  ultimately show ?thesis unfolding sqliteSeed_def [of now' "sqliteSeed now t"] by simp
qed

section \<open>The seeded database\<close>

lemma scan_value_deep: "scan_value n d s = Some t \<Longrightarrow> d \<le> e \<Longrightarrow> scan_value n e s = Some t"
  by (induction e) (auto simp: le_Suc_eq scan_deeper(1))

lemma shallow_valid:
  assumes "scan_value n d s = Some []" and "skip_ws s = s" and "d \<le> max_nesting"
  shows "json_Valid s"
proof -
  have "scan_value (scan_fuel s) max_nesting s = Some []"
    by (rule scan_value_enough [OF scan_value_deep [OF assms(1,3)]])
  then show ?thesis by (simp add: json_Valid_def assms(2) Let_def)
qed

lemma seed_documents_scanned:
  "scan_value 30 5 catalog_settings = Some []" "scan_value 30 5 cart_settings = Some []"
  "scan_value 30 5 storefront_settings = Some []" "scan_value 30 5 english_bundle = Some []"
  "scan_value 30 5 portuguese_bundle = Some []"
  by code_simp+

lemma seed_documents_valid:
  "json_Valid catalog_settings" "json_Valid cart_settings" "json_Valid storefront_settings"
  "json_Valid english_bundle" "json_Valid portuguese_bundle"
  by (rule shallow_valid [OF seed_documents_scanned(1)] shallow_valid [OF seed_documents_scanned(2)]
      shallow_valid [OF seed_documents_scanned(3)] shallow_valid [OF seed_documents_scanned(4)]
      shallow_valid [OF seed_documents_scanned(5)]; simp add: max_nesting_def catalog_settings_def cart_settings_def
      storefront_settings_def english_bundle_def portuguese_bundle_def skip_ws_def is_ws_def)+

lemmas seed_texts = catalog_settings_def cart_settings_def storefront_settings_def english_bundle_def
  portuguese_bundle_def

lemma seed_documents_checked:
  "checkSettings catalog_settings = Inr ()" "checkSettings cart_settings = Inr ()"
  "checkSettings storefront_settings = Inr ()" "checkBundle english_bundle = Inr ()"
  "checkBundle portuguese_bundle = Inr ()"
  using seed_documents_valid
  by (simp_all add: checkSettings_def checkBundle_def check_document_def MaxValueSize_def seed_texts)

lemma seeded_rows:
  "rows (environments (sqliteSeed now empty_tables)) = seed_environments now"
  "rows (microservices (sqliteSeed now empty_tables)) = seed_microservices now"
  "rows (flags (sqliteSeed now empty_tables)) = seed_flags now"
  "rows (flag_values (sqliteSeed now empty_tables)) = seed_flag_values now"
  "rows (appsettings (sqliteSeed now empty_tables)) = seed_appsettings now"
  "rows (localizations (sqliteSeed now empty_tables)) = seed_localizations now"
  by (simp_all add: sqliteSeed_def empty_tables_def seed_rows fv_key_def as_key_def loc_key_def)

lemma seed_flags_valid:
  "\<forall>f \<in> set (seed_flags now). valid_flag f" "\<forall>r \<in> set (seed_flag_values now). valid_value r"
proof -
  have "list_all plain_char (''search_v2'' @ ''dark_mode'' @ ''new_pricing'')" by code_simp
  then show "\<forall>f \<in> set (seed_flags now). valid_flag f"
    by (simp add: seed_rows valid_flag_def validFlagState_def validFlagKey_iff)
  have "RuneCount v \<le> 4000" if "length v \<le> 4000" for v using RuneCount_le_length [of v] that by simp
  then show "\<forall>r \<in> set (seed_flag_values now). valid_value r"
    by (simp add: seed_rows valid_value_def validFlagState_def)
qed

lemma seed_locales_valid: "validLocale ''en-US''" "validLocale ''pt-BR''"
proof -
  have "list_all plain_char (''en-US'' @ ''pt-BR'')" by code_simp
  then show "validLocale ''en-US''" "validLocale ''pt-BR''" by (simp_all add: validLocale_iff)
qed

lemma seed_keys: "keys_ok t \<Longrightarrow> keys_ok (sqliteSeed now t)"
  by (simp add: keys_ok_def sqliteSeed_def insert_or_ignore_ok)

lemma seeded_sound: "sound_tables (sqliteSeed now empty_tables)"
proof -
  have "keys_ok (sqliteSeed now empty_tables)"
    by (rule seed_keys) (simp add: keys_ok_def empty_tables_def table_ok_def)
  moreover have "fk_ok (sqliteSeed now empty_tables)"
    by (simp add: fk_ok_def seeded_rows) (simp add: seed_rows)
  moreover have "valid_flag_data (sqliteSeed now empty_tables)"
    using seed_flags_valid by (simp add: valid_flag_data_def seeded_rows)
  moreover have "valid_documents (sqliteSeed now empty_tables)"
    by (simp add: valid_documents_def seeded_rows)
      (simp add: seed_rows valid_settings_def valid_loc_def seed_documents_checked seed_locales_valid)
  ultimately show ?thesis by (simp add: sound_tables_def wf_tables_def)
qed

section \<open>Properties\<close>

text \<open>
  Property C32. The seed of the local stack: a database seeded empty is sound, keys, references and every value and
  document valid, so the invariants of the services start there; and on any database seeding again changes
  nothing, and seeding at all only appends, so no row an operator edited is touched.
\<close>

theorem seed_sound_and_additive:
  "sound_tables (sqliteSeed now empty_tables)
   \<and> sqliteSeed now' (sqliteSeed now t) = sqliteSeed now t
   \<and> prefix (rows (environments t)) (rows (environments (sqliteSeed now t)))
   \<and> prefix (rows (microservices t)) (rows (microservices (sqliteSeed now t)))
   \<and> prefix (rows (flags t)) (rows (flags (sqliteSeed now t)))
   \<and> prefix (rows (flag_values t)) (rows (flag_values (sqliteSeed now t)))
   \<and> prefix (rows (appsettings t)) (rows (appsettings (sqliteSeed now t)))
   \<and> prefix (rows (localizations t)) (rows (localizations (sqliteSeed now t)))"
proof -
  have "prefix (rows T) (rows (insert_or_ignore pk uk rs T))" for pk and uk :: "'r \<Rightarrow> 'k" and rs T
    using insert_or_ignore_rows [of pk uk rs T] by (auto simp: prefix_def)
  then have "prefix (rows (environments t)) (rows (environments (sqliteSeed now t)))"
    "prefix (rows (microservices t)) (rows (microservices (sqliteSeed now t)))"
    "prefix (rows (flags t)) (rows (flags (sqliteSeed now t)))"
    "prefix (rows (flag_values t)) (rows (flag_values (sqliteSeed now t)))"
    "prefix (rows (appsettings t)) (rows (appsettings (sqliteSeed now t)))"
    "prefix (rows (localizations t)) (rows (localizations (sqliteSeed now t)))"
    by (simp_all add: sqliteSeed_def)
  then show ?thesis using seeded_sound sqliteSeed_again by blast
qed

text \<open>
  What seeding adds can be wrong. An operator empties the environment \<^verbatim>\<open>dev\<close>, deletes it and creates it anew, under the
  next id; the database is sound. The next start passes over the environment, whose name is taken, and brings
  back its flag values, which name an environment that does not exist.
\<close>

definition renewed_dev :: "gotime \<Rightarrow> tables" where
  "renewed_dev now = (let t = sqliteSeed now empty_tables in t\<lparr>
     flag_values := snd (table_delete (\<lambda>r. fv_EnvironmentID r = 1) (flag_values t)),
     appsettings := snd (table_delete (\<lambda>r. as_EnvironmentID r = 1) (appsettings t)),
     localizations := snd (table_delete (\<lambda>r. loc_EnvironmentID r = 1) (localizations t)),
     environments := snd (sqlite_insert env_ID env_Environment
        (\<lambda>n. \<lparr>env_ID = n, env_Environment = ''dev'', env_UpdatedAt = sqlite_now now\<rparr>)
        (snd (table_delete (\<lambda>r. env_ID r = 1) (environments t))))\<rparr>)"

lemma renewed_rows:
  "rows (environments (renewed_dev now)) = tl (seed_environments now)
     @ [\<lparr>env_ID = 4, env_Environment = ''dev'', env_UpdatedAt = sqlite_now now\<rparr>]"
  "rows (microservices (renewed_dev now)) = seed_microservices now"
  "rows (flags (renewed_dev now)) = seed_flags now"
  "rows (flag_values (renewed_dev now)) = [seed_flag_values now ! 3]"
  "rows (appsettings (renewed_dev now)) = []"
  "rows (localizations (renewed_dev now)) = []"
  by (simp_all add: renewed_dev_def Let_def seeded_rows table_delete_def sqlite_insert_def next_rowid_def seed_rows)

theorem reseed_dangles:
  "sound_tables (renewed_dev now) \<and> \<not> fk_ok (sqliteSeed now' (renewed_dev now))"
proof
  have "valid_flag_data (renewed_dev now)"
    using seed_flags_valid by (simp add: valid_flag_data_def renewed_rows) (simp add: seed_rows)
  moreover have "wf_tables (renewed_dev now)"
    by (simp add: wf_tables_def keys_ok_def table_ok_def fk_ok_def renewed_rows) (simp add: seed_rows)
  ultimately show "sound_tables (renewed_dev now)"
    by (simp add: sound_tables_def valid_documents_def renewed_rows)
  have "rows (environments (sqliteSeed now' (renewed_dev now))) = rows (environments (renewed_dev now))"
    by (simp add: sqliteSeed_def renewed_rows seed_rows)
  moreover have "seed_flag_values now' ! 0 \<in> set (rows (flag_values (sqliteSeed now' (renewed_dev now))))"
    by (simp add: sqliteSeed_def renewed_rows seed_rows fv_key_def)
  ultimately have "fk_ok (sqliteSeed now' (renewed_dev now)) \<Longrightarrow>
      fv_EnvironmentID (seed_flag_values now' ! 0) \<in> env_ID ` set (rows (environments (renewed_dev now)))"
    by (auto simp: fk_ok_def)
  moreover have "fv_EnvironmentID (seed_flag_values now' ! 0) \<notin> env_ID ` set (rows (environments (renewed_dev now)))"
    by (simp add: renewed_rows) (simp add: seed_rows)
  ultimately show "\<not> fk_ok (sqliteSeed now' (renewed_dev now))" by blast
qed

end
