(* ===== verification/Obs_Exposition.thy ===== *)
theory Obs_Exposition
  imports Obs_Metrics Config_Keys "HOL-Library.List_Lexorder" "HOL-Library.Char_ord"
begin

text \<open>
  What a scrape reads: the registry of \<^verbatim>\<open>internal/obs/instruments.go\<close> rendered by \<^verbatim>\<open>internal/obs/metrics.go\<close> in the text
  format of Prometheus. A page is a header per instrument and a line per sample, the series of an instrument in the
  order of their label sets (as \<^verbatim>\<open>expvar.Map.Do\<close> and \<^verbatim>\<open>sortedKeys\<close> visit them). The text of a
  \<^verbatim>\<open>float64\<close> is the parameter \<open>num\<close>, since the model counts in rationals.
\<close>

section \<open>Rendering\<close>

datatype instrument = CounterOf string string | GaugeOf string string | HistogramOf string string

text \<open>In the order of their declarations, which is the order they register in.\<close>

definition registry :: "instrument list" where
  "registry = [
     GaugeOf NATSUp ''1 when the KV buckets are provisioned and NATS is connected, 0 otherwise.'',
     CounterOf KVPublishAttempts ''KV publish attempts, by bucket.'',
     CounterOf KVPublishSuccess ''KV publishes that reached JetStream, by bucket.'',
     CounterOf KVPublishFailures ''KV publishes that failed and were left to the reconciler, by bucket.'',
     CounterOf KVPublishSkipped ''KV publishes skipped because the stored value was already identical, by bucket.'',
     CounterOf KVDeleteFailures ''KV key deletions that failed, by bucket.'',
     CounterOf ReconcileCycles ''Reconcile cycles completed, by sweep (full/incremental) and result.'',
     HistogramOf ReconcileDuration ''Wall time of a reconcile cycle, by sweep.'',
     CounterOf ReconcileKeysRepublished ''Keys republished from the database to KV, by source.'',
     CounterOf ReconcileKeysPruned ''KV keys deleted because their database row is gone, by bucket.'',
     CounterOf ReconcilePruneRefused ''Prune passes refused because they would have deleted too much of a bucket, by bucket.'',
     CounterOf ReconcileSourceFailures ''Reconcile sources that failed to resync, by source.'',
     GaugeOf ReconcileLastSuccess ''Unix time of the last reconcile cycle in which every source succeeded.'',
     CounterOf HTTPRequests ''HTTP requests, by method, matched route and status code.'',
     HistogramOf HTTPDuration ''HTTP request duration, by method and matched route.'',
     CounterOf HTTPPanics ''Requests whose handler panicked.'',
     GaugeOf DBUp ''1 when the last health-check ping succeeded, 0 otherwise.'',
     CounterOf DBPingFailures ''Health-check database pings that failed.'']"

definition writeHeader :: "string \<Rightarrow> string \<Rightarrow> string \<Rightarrow> string" where
  "writeHeader n help typ =
     ''# HELP '' @ n @ '' '' @ help @ [CHR 0x0A] @ ''# TYPE '' @ n @ '' '' @ typ @ [CHR 0x0A]"

definition sortedKeys :: "(string \<rightharpoonup> 'a) \<Rightarrow> string list" where
  "sortedKeys m = sorted_list_of_set (dom m)"

type_synonym sample = "string \<times> string"

definition counter_samples :: "metrics \<Rightarrow> string \<Rightarrow> sample list" where
  "counter_samples m n = map (\<lambda>k. (n @ k, FormatInt (the (counters m n k)))) (sortedKeys (counters m n))"

definition series_samples :: "(rat \<Rightarrow> string) \<Rightarrow> string \<Rightarrow> string \<Rightarrow> histSeries \<Rightarrow> sample list" where
  "series_samples num n key s =
     map (\<lambda>(upper, count). (n @ ''_bucket'' @ withLabel key ''le'' (num upper), nat_dec count)) (zip defaultBuckets (hcounts s))
     @ [(n @ ''_bucket'' @ withLabel key ''le'' ''+Inf'', nat_dec (hcount s)), (n @ ''_sum'' @ key, num (hsum s)),
        (n @ ''_count'' @ key, nat_dec (hcount s))]"

definition histogram_samples :: "(rat \<Rightarrow> string) \<Rightarrow> metrics \<Rightarrow> string \<Rightarrow> sample list" where
  "histogram_samples num m n =
     concat (map (\<lambda>k. series_samples num n k (the (histograms m n k))) (sortedKeys (histograms m n)))"

fun samples :: "(rat \<Rightarrow> string) \<Rightarrow> metrics \<Rightarrow> instrument \<Rightarrow> sample list" where
  "samples num m (CounterOf n help) = counter_samples m n"
| "samples num m (GaugeOf n help) = [(n, num (gauges m n))]"
| "samples num m (HistogramOf n help) = histogram_samples num m n"

fun instrument_header :: "instrument \<Rightarrow> string" where
  "instrument_header (CounterOf n help) = writeHeader n help ''counter''"
| "instrument_header (GaugeOf n help) = writeHeader n help ''gauge''"
| "instrument_header (HistogramOf n help) = writeHeader n help ''histogram''"

definition writeTo :: "(rat \<Rightarrow> string) \<Rightarrow> metrics \<Rightarrow> instrument \<Rightarrow> string" where
  "writeTo num m i = instrument_header i @ concat (map (\<lambda>(series, v). series @ '' '' @ v @ [CHR 0x0A]) (samples num m i))"

definition metrics_page :: "(rat \<Rightarrow> string) \<Rightarrow> metrics \<Rightarrow> string" where
  "metrics_page num m = concat (map (writeTo num m) registry)"

section \<open>What the registry holds\<close>

datatype metric_op = Counted string int "string list" | Gauged string rat | Observed string rat "string list"

fun metric_step :: "metric_op \<Rightarrow> metrics \<Rightarrow> metrics" where
  "metric_step (Counted c n labels) m = counter_Add c n labels m"
| "metric_step (Gauged g v) m = gauge_Set g v m"
| "metric_step (Observed h x labels) m = histogram_Observe h x labels m"

definition key_form :: "string \<Rightarrow> bool" where
  "key_form k \<longleftrightarrow> k = [] \<or> hd k = CHR ''{'' \<and> last k = CHR ''}''"

definition printable_metrics :: "metrics \<Rightarrow> bool" where
  "printable_metrics m \<longleftrightarrow> (\<forall>n. finite (dom (counters m n)) \<and> finite (dom (histograms m n))
     \<and> (\<forall>k \<in> dom (counters m n) \<union> dom (histograms m n). key_form k))"

lemma labelKey_form: "key_form (labelKey ls)"
  by (simp add: key_form_def labelKey_def)

lemma printable_step: "printable_metrics m \<Longrightarrow> printable_metrics (metric_step x m)"
  by (cases x) (auto simp: printable_metrics_def counter_Add_def gauge_Set_def histogram_Observe_def Observe_def Let_def
      labelKey_form)

lemma printable_run: "printable_metrics (fold metric_step xs new_metrics)"
proof (induction xs rule: rev_induct)
  case Nil
  then show ?case by (simp add: printable_metrics_def new_metrics_def)
qed (simp add: printable_step)

section \<open>Series are apart\<close>

lemma withLabel_inj:
  assumes "key_form k" "key_form k'" and "CHR 0x22 \<notin> set v" "CHR 0x22 \<notin> set v'"
    and "withLabel k n v = withLabel k' n v'"
  shows "k = k' \<and> v = v'"
proof -
  define pre where "pre k = (if k = [] then ''{'' else butlast k @ '','') @ n @ [CHR ''='']" for k :: string
  have form: "withLabel k n v = pre k @ CHR 0x22 # v @ [CHR 0x22, CHR ''}'']" for k v
    by (simp add: withLabel_def pre_def butlast_conv_take)
  have "rev v @ CHR 0x22 # rev (pre k) = rev v' @ CHR 0x22 # rev (pre k')"
    using arg_cong [OF assms(5), of rev] by (simp add: form)
  from first_sep_unique [OF _ _ this] assms(3,4) have v: "v = v'" and "pre k = pre k'" by simp_all
  then have "(if k = [] then ''{'' else butlast k @ '','') = (if k' = [] then ''{'' else butlast k' @ '','')"
    by (simp add: pre_def)
  then have "k = k'"
    using assms(1,2) by (auto simp: key_form_def split: if_splits) (metis append_butlast_last_id)
  with v show ?thesis by simp
qed


lemma distinct_concat_classes:
  assumes "distinct is" and "\<And>i. i \<in> set is \<Longrightarrow> distinct (g i)"
    and "\<And>i j x. i \<in> set is \<Longrightarrow> j \<in> set is \<Longrightarrow> x \<in> set (g i) \<Longrightarrow> x \<in> set (g j) \<Longrightarrow> i = j"
  shows "distinct (concat (map g is))"
  using assms
proof (induction "is")
  case (Cons i "is")
  have "set (g i) \<inter> set (concat (map g is)) = {}"
    using Cons.prems(1) Cons.prems(3) [of i] by (auto simp: disjoint_iff)
  moreover have "distinct (concat (map g is))" by (rule Cons.IH) (use Cons.prems in auto)
  ultimately show ?case using Cons.prems(2) [of i] by simp
qed simp

text \<open>The bounds print to texts that are apart, without a quote and none of them infinity.\<close>

definition bounds_print :: "(rat \<Rightarrow> string) \<Rightarrow> bool" where
  "bounds_print num \<longleftrightarrow> distinct (''+Inf'' # map num defaultBuckets)
     \<and> (\<forall>upper \<in> set defaultBuckets. CHR 0x22 \<notin> set (num upper))"

fun bases :: "instrument \<Rightarrow> string list" where
  "bases (CounterOf n doc) = [n]"
| "bases (GaugeOf n doc) = [n]"
| "bases (HistogramOf n doc) = [n @ ''_bucket'', n @ ''_sum'', n @ ''_count'']"

definition base_of :: "string \<Rightarrow> string" where
  "base_of series = takeWhile (\<lambda>c. c \<noteq> CHR ''{'') series"

lemma base_of_key: "CHR ''{'' \<notin> set n \<Longrightarrow> key_form k \<Longrightarrow> base_of (n @ k) = n"
  by (cases k) (auto simp: base_of_def key_form_def takeWhile_append2 takeWhile_tail)

lemma withLabel_form: "key_form (withLabel k n v) \<and> withLabel k n v \<noteq> [] \<or> \<not> key_form k"
  by (cases "tl k") (auto simp: key_form_def withLabel_def take_Cons' hd_append neq_Nil_conv split: list.splits)

lemma registry_bases:
  "distinct (concat (map bases registry))" "distinct registry" "\<forall>b \<in> set (concat (map bases registry)). CHR ''{'' \<notin> set b"
  by code_simp+


lemma concat_common:
  "distinct (concat (map g is)) \<Longrightarrow> i \<in> set is \<Longrightarrow> j \<in> set is \<Longrightarrow> b \<in> set (g i) \<Longrightarrow> b \<in> set (g j) \<Longrightarrow> i = j"
  by (induction "is") (auto simp: disjoint_iff)

definition bucket_texts :: "(rat \<Rightarrow> string) \<Rightarrow> string list" where
  "bucket_texts num = map num defaultBuckets @ [''+Inf'']"

lemma bucket_texts:
  "bounds_print num \<Longrightarrow> distinct (bucket_texts num) \<and> (\<forall>v \<in> set (bucket_texts num). CHR 0x22 \<notin> set v)"
  by (auto simp: bounds_print_def bucket_texts_def)

text \<open>The series of one key: its buckets, its sum and its count.\<close>

lemma series_ids:
  "map fst (series_samples num n key s) =
     map (\<lambda>v. n @ ''_bucket'' @ withLabel key ''le'' v) (take (length (hcounts s)) (map num defaultBuckets) @ [''+Inf''])
     @ [n @ ''_sum'' @ key, n @ ''_count'' @ key]"
proof -
  have "map fst (map (\<lambda>(u, c). (f u, g c)) (zip us cs)) = map f (take (length cs) us)"
    for f :: "rat \<Rightarrow> string" and g :: "nat \<Rightarrow> string" and us cs
    by (induction us cs rule: list_induct2') auto
  then show ?thesis by (simp add: series_samples_def take_map comp_def)
qed

lemma taken_bounds: "v \<in> set (take m (map num defaultBuckets)) \<Longrightarrow> v \<in> num ` set defaultBuckets"
  using set_take_subset [of m "map num defaultBuckets"] by auto

lemma series_id_cases:
  assumes "x \<in> set (map fst (series_samples num n key s))"
  shows "(\<exists>v \<in> set (bucket_texts num). x = n @ ''_bucket'' @ withLabel key ''le'' v) \<or> x = n @ ''_sum'' @ key
    \<or> x = n @ ''_count'' @ key"
proof -
  define f where "f v = n @ ''_bucket'' @ withLabel key ''le'' v" for v
  have "set (take (length (hcounts s)) (map num defaultBuckets) @ [''+Inf'']) \<subseteq> set (bucket_texts num)"
  proof
    fix v assume "v \<in> set (take (length (hcounts s)) (map num defaultBuckets) @ [''+Inf''])"
    then have "v \<in> set (take (length (hcounts s)) (map num defaultBuckets)) \<or> v = ''+Inf''" by auto
    then show "v \<in> set (bucket_texts num)" using taken_bounds [of v _ num] by (auto simp: bucket_texts_def)
  qed
  moreover have "x \<in> f ` set (take (length (hcounts s)) (map num defaultBuckets) @ [''+Inf'']) \<or> x = n @ ''_sum'' @ key
      \<or> x = n @ ''_count'' @ key"
    using assms unfolding series_ids f_def [symmetric] by (simp only: set_append set_map list.set image_Un) blast
  ultimately show ?thesis unfolding f_def by blast
qed

lemma sample_bases:
  assumes "key_form key" and "CHR ''{'' \<notin> set n"
  shows "base_of (n @ ''_bucket'' @ withLabel key ''le'' v) = n @ ''_bucket''"
    and "base_of (n @ ''_sum'' @ key) = n @ ''_sum''" and "base_of (n @ ''_count'' @ key) = n @ ''_count''"
  using base_of_key [of "n @ ''_bucket''" "withLabel key ''le'' v"] base_of_key [of "n @ ''_sum''" key]
    base_of_key [of "n @ ''_count''" key] withLabel_form [of key "''le''" v] assms by simp_all

lemma series_bases:
  assumes "key_form key" and "CHR ''{'' \<notin> set n" and "x \<in> set (map fst (series_samples num n key s))"
  shows "base_of x \<in> {n @ ''_bucket'', n @ ''_sum'', n @ ''_count''}"
  using series_id_cases [OF assms(3)] sample_bases [OF assms(1,2)] by blast

lemma series_distinct:
  assumes "bounds_print num" and "key_form key" and "CHR ''{'' \<notin> set n"
  shows "distinct (map fst (series_samples num n key s))"
proof -
  define vs where "vs = take (length (hcounts s)) (map num defaultBuckets) @ [''+Inf'']"
  define f where "f v = n @ ''_bucket'' @ withLabel key ''le'' v" for v
  have vs: "distinct vs" "\<forall>v \<in> set vs. CHR 0x22 \<notin> set v"
    using bucket_texts [OF assms(1)] by (auto simp: vs_def bucket_texts_def dest!: taken_bounds)
  have "inj_on f (set vs)" using withLabel_inj [OF assms(2,2)] vs(2) by (auto simp: inj_on_def f_def)
  then have "distinct (map f vs)" using vs(1) by (simp add: distinct_map)
  moreover have base: "base_of (f v) = n @ ''_bucket''" for v unfolding f_def by (rule sample_bases [OF assms(2,3)])
  have "f v \<noteq> n @ ''_sum'' @ key \<and> f v \<noteq> n @ ''_count'' @ key" for v
  proof -
    have "base_of (n @ ''_sum'' @ key) \<noteq> n @ ''_bucket''" "base_of (n @ ''_count'' @ key) \<noteq> n @ ''_bucket''"
      using sample_bases(2,3) [OF assms(2,3)] by simp_all
    with base [of v] show ?thesis by metis
  qed
  moreover have "n @ ''_sum'' @ key \<noteq> n @ ''_count'' @ key" by simp
  ultimately show ?thesis unfolding series_ids f_def [symmetric] vs_def [symmetric]
    by (simp only: distinct_append) (auto simp del: append.simps dest: sym)
qed


lemma sortedKeys: "finite (dom m) \<Longrightarrow> set (sortedKeys m) = dom m \<and> distinct (sortedKeys m)"
  by (simp add: sortedKeys_def)

lemma instrument_bases:
  assumes "printable_metrics m" and "\<forall>b \<in> set (bases i). CHR ''{'' \<notin> set b" and "x \<in> set (map fst (samples num m i))"
  shows "base_of x \<in> set (bases i)"
proof (cases i)
  case (CounterOf n doc)
  then obtain k where "x = n @ k" "k \<in> dom (counters m n)"
    using assms(1,3) sortedKeys [of "counters m n"] by (auto simp: counter_samples_def printable_metrics_def)
  then show ?thesis using CounterOf assms(1,2) base_of_key [of n k] by (auto simp: printable_metrics_def)
next
  case (GaugeOf n doc)
  then show ?thesis using assms(2,3) base_of_key [of n "[]"] by (simp add: key_form_def)
next
  case (HistogramOf n doc)
  then obtain k where "x \<in> set (map fst (series_samples num n k (the (histograms m n k))))" "k \<in> dom (histograms m n)"
    using assms(1,3) sortedKeys [of "histograms m n"] by (auto simp: histogram_samples_def printable_metrics_def)
  moreover from this(2) have "key_form k" using assms(1) by (auto simp: printable_metrics_def)
  moreover have "CHR ''{'' \<notin> set n" using HistogramOf assms(2) by simp
  ultimately show ?thesis using HistogramOf series_bases [of k n x num "the (histograms m n k)"] by simp
qed

lemma histogram_distinct:
  assumes "bounds_print num" and "printable_metrics m" and "CHR ''{'' \<notin> set n"
  shows "distinct (map fst (histogram_samples num m n))"
proof -
  have keys: "set (sortedKeys (histograms m n)) = dom (histograms m n)" "distinct (sortedKeys (histograms m n))"
    and form: "\<And>k. k \<in> dom (histograms m n) \<Longrightarrow> key_form k"
    using assms(2) sortedKeys [of "histograms m n"] by (auto simp: printable_metrics_def)
  have "k = k'" if k: "key_form k" "key_form k'" and x: "x \<in> set (map fst (series_samples num n k s))"
      "x \<in> set (map fst (series_samples num n k' s'))" for k k' x s s'
  proof -
    note b = sample_bases [OF k(1) assms(3)] sample_bases [OF k(2) assms(3)]
    have apart: "n @ ''_bucket'' \<noteq> n @ ''_sum''" "n @ ''_bucket'' \<noteq> n @ ''_count''" "n @ ''_sum'' \<noteq> n @ ''_count''"
      by simp_all
    from series_id_cases [OF x(1)] show ?thesis
    proof (elim disjE bexE)
      fix v assume v: "v \<in> set (bucket_texts num)" "x = n @ ''_bucket'' @ withLabel k ''le'' v"
      with series_id_cases [OF x(2)] b apart obtain v' where
        v': "v' \<in> set (bucket_texts num)" "x = n @ ''_bucket'' @ withLabel k' ''le'' v'" by metis
      with v have "withLabel k ''le'' v = withLabel k' ''le'' v'" by simp
      with withLabel_inj [OF k] bucket_texts [OF assms(1)] v(1) v'(1) show ?thesis by blast
    next
      assume "x = n @ ''_sum'' @ k"
      with series_id_cases [OF x(2)] b apart have "n @ ''_sum'' @ k = n @ ''_sum'' @ k'" by metis
      then show ?thesis by simp
    next
      assume "x = n @ ''_count'' @ k"
      with series_id_cases [OF x(2)] b apart have "n @ ''_count'' @ k = n @ ''_count'' @ k'" by metis
      then show ?thesis by simp
    qed
  qed
  note apart = this
  show ?thesis unfolding histogram_samples_def map_concat map_map
    by (rule distinct_concat_classes [OF keys(2)])
      (use keys(1) form series_distinct [OF assms(1) _ assms(3)] apart in \<open>auto simp: comp_def\<close>)
qed

lemma instrument_distinct:
  assumes "bounds_print num" and "printable_metrics m" and "\<forall>b \<in> set (bases i). CHR ''{'' \<notin> set b"
  shows "distinct (map fst (samples num m i))"
proof (cases i)
  case (CounterOf n doc)
  have "distinct (sortedKeys (counters m n))"
    using assms(2) sortedKeys [of "counters m n"] by (simp add: printable_metrics_def)
  then show ?thesis using CounterOf by (simp add: counter_samples_def comp_def distinct_map inj_on_def)
next
  case (HistogramOf n doc)
  then show ?thesis using histogram_distinct [OF assms(1,2), of n] assms(3) by simp
qed simp

lemma counter_sample:
  assumes "printable_metrics m" and "counters m n k = Some v"
  shows "(n @ k, FormatInt v) \<in> set (samples num m (CounterOf n doc))"
  using assms sortedKeys [of "counters m n"]
  by (force simp: counter_samples_def printable_metrics_def intro: rev_image_eqI)

lemma histogram_sample:
  assumes "printable_metrics m" and "histograms m n k = Some s"
  shows "(n @ ''_count'' @ k, nat_dec (hcount s)) \<in> set (samples num m (HistogramOf n doc))"
proof -
  have "k \<in> set (sortedKeys (histograms m n))"
    using assms sortedKeys [of "histograms m n"] by (auto simp: printable_metrics_def)
  moreover have "(n @ ''_count'' @ k, nat_dec (hcount s)) \<in> set (series_samples num n k s)"
    by (simp add: series_samples_def)
  moreover have "set (samples num m (HistogramOf n doc)) =
      (\<Union>k \<in> set (sortedKeys (histograms m n)). set (series_samples num n k (the (histograms m n k))))"
    by (simp add: histogram_samples_def)
  ultimately show ?thesis using assms(2) by fastforce
qed

section \<open>Properties\<close>


definition demo_num :: "rat \<Rightarrow> string" where
  "demo_num r = (case map_of (zip defaultBuckets [''0.005'', ''0.025'', ''0.1'', ''0.5'', ''1'', ''2.5'', ''5'', ''10'', ''30'',
     ''60'']) r of None \<Rightarrow> ''0'' | Some s \<Rightarrow> s)"


end
