(* ===== verification/Obs_Log.thy ===== *)
theory Obs_Log
  imports App_Observe App_Startup
begin

text \<open>
  Structured logging, \<^verbatim>\<open>internal/obs/log.go\<close>: the configured handler, the loggers that follow it whenever they were
  made, and what a line carries. A handler of \<^verbatim>\<open>log/slog\<close> is the record of what the program configures on it, and
  a line is the list of its fields in order, each with the groups it is under; where lines go and how a field
  is quoted is left out. The zero \<^verbatim>\<open>slog.Attr\<close>, which handlers drop, is \<open>None\<close>.
\<close>

section \<open>Handlers\<close>

type_synonym log_attr = "string \<times> string"
type_synonym log_line = "(string list \<times> log_attr) list"

record log_handler =
  lh_Level :: log_level
  lh_ReplaceAttr :: "string list \<Rightarrow> log_attr \<Rightarrow> log_attr"
  lh_Attrs :: log_line
  lh_Groups :: "string list"

record log_record =
  lr_Time :: string
  lr_Level :: log_level
  lr_Message :: string
  lr_Attrs :: "log_attr option list"

definition level_num :: "log_level \<Rightarrow> int" where
  "level_num l = (case l of LevelDebug \<Rightarrow> - 4 | LevelInfo \<Rightarrow> 0 | LevelWarn \<Rightarrow> 4 | LevelError \<Rightarrow> 8)"

definition level_String :: "log_level \<Rightarrow> string" where
  "level_String l = (case l of LevelDebug \<Rightarrow> ''DEBUG'' | LevelInfo \<Rightarrow> ''INFO'' | LevelWarn \<Rightarrow> ''WARN''
     | LevelError \<Rightarrow> ''ERROR'')"

definition under :: "string list \<Rightarrow> log_attr option list \<Rightarrow> log_line" where
  "under groups attrs = map (\<lambda>a. (groups, a)) (List.map_filter id attrs)"

definition slog_WithAttrs :: "log_attr option list \<Rightarrow> log_handler \<Rightarrow> log_handler" where
  "slog_WithAttrs attrs h = h\<lparr>lh_Attrs := lh_Attrs h @ under (lh_Groups h) attrs\<rparr>"

definition slog_WithGroup :: "string \<Rightarrow> log_handler \<Rightarrow> log_handler" where
  "slog_WithGroup name h = (if name = [] then h else h\<lparr>lh_Groups := lh_Groups h @ [name]\<rparr>)"

definition slog_Handle :: "log_handler \<Rightarrow> log_record \<Rightarrow> log_line" where
  "slog_Handle h rec = map (\<lambda>(groups, a). (groups, lh_ReplaceAttr h groups a))
     ([([], (''time'', lr_Time rec)), ([], (''level'', level_String (lr_Level rec))),
       ([], (''msg'', lr_Message rec))] @ lh_Attrs h @ under (lh_Groups h) (lr_Attrs rec))"

section \<open>Setup\<close>

record LogOptions =
  lo_Level :: string
  lo_Format :: string
  lo_Service :: string
  lo_Version :: string

definition LogOptions_of :: "Config \<Rightarrow> LogOptions" where
  "LogOptions_of c = \<lparr>lo_Level = cf_LogLevel c, lo_Format = cf_LogFormat c, lo_Service = cf_ServiceName c,
     lo_Version = cf_ServiceVersion c\<rparr>"

definition ecsKeys :: "string list \<Rightarrow> log_attr \<Rightarrow> log_attr" where
  "ecsKeys groups a =
     (if groups \<noteq> [] then a
      else case a of (k, v) \<Rightarrow>
        if k = ''time'' then (''@timestamp'', v)
        else if k = ''level'' then (''log.level'', ToLower v)
        else if k = ''msg'' then (''message'', v)
        else (k, v))"

definition parseLevel :: "string \<Rightarrow> log_level" where
  "parseLevel s = (let l = ToLower (TrimSpace s) in
     if l = ''debug'' then LevelDebug
     else if l = ''warn'' \<or> l = ''warning'' then LevelWarn
     else if l = ''error'' then LevelError
     else LevelInfo)"

definition initial_handler :: log_handler where
  "initial_handler = \<lparr>lh_Level = LevelInfo, lh_ReplaceAttr = (\<lambda>_ a. a), lh_Attrs = [], lh_Groups = []\<rparr>"

definition text_format :: "LogOptions \<Rightarrow> bool" where
  "text_format o0 \<longleftrightarrow> fold_name (lo_Format o0) = fold_name ''text''"

definition log_Setup :: "LogOptions \<Rightarrow> log_handler" where
  "log_Setup o0 =
     (if text_format o0
      then \<lparr>lh_Level = parseLevel (lo_Level o0), lh_ReplaceAttr = (\<lambda>_ a. a), lh_Attrs = [], lh_Groups = []\<rparr>
      else slog_WithAttrs [Some (''service.name'', lo_Service o0), Some (''service.version'', lo_Version o0)]
        \<lparr>lh_Level = parseLevel (lo_Level o0), lh_ReplaceAttr = ecsKeys, lh_Attrs = [], lh_Groups = []\<rparr>)"

section \<open>Loggers\<close>

text \<open>
  A logger is a \<^verbatim>\<open>routing\<close>: the modifications to replay on whatever handler is current when a line is logged.
\<close>

type_synonym routing = "(log_handler \<Rightarrow> log_handler) list"

definition routing_resolve :: "log_handler \<Rightarrow> routing \<Rightarrow> log_handler" where
  "routing_resolve installed r = fold (\<lambda>change h. change h) r installed"

definition routing_Enabled :: "log_handler \<Rightarrow> log_level \<Rightarrow> bool" where
  "routing_Enabled installed l \<longleftrightarrow> level_num (lh_Level installed) \<le> level_num l"

definition routing_Handle :: "log_handler \<Rightarrow> routing \<Rightarrow> log_record \<Rightarrow> log_line" where
  "routing_Handle installed r rec = slog_Handle (routing_resolve installed r) rec"

definition routing_WithAttrs :: "log_attr option list \<Rightarrow> routing \<Rightarrow> routing" where
  "routing_WithAttrs attrs r = r @ [slog_WithAttrs attrs]"

definition routing_WithGroup :: "string \<Rightarrow> routing \<Rightarrow> routing" where
  "routing_WithGroup name r = r @ [slog_WithGroup name]"

definition datasetPrefix :: string where
  "datasetPrefix = ''central-config.''"

definition dataset_attr :: "string \<Rightarrow> log_attr option" where
  "dataset_attr component = Some (''event.dataset'', datasetPrefix @ component)"

definition Logger :: "string \<Rightarrow> (string \<rightharpoonup> routing) \<Rightarrow> routing \<times> (string \<rightharpoonup> routing)" where
  "Logger component loggers = (case loggers component of
     Some l \<Rightarrow> (l, loggers)
   | None \<Rightarrow> (let l = routing_WithAttrs [dataset_attr component] [] in (l, loggers(component \<mapsto> l))))"

definition RequestLogger :: "string \<Rightarrow> routing" where
  "RequestLogger rid = routing_WithAttrs [Some (''http.request.id'', rid)] []"

definition FromContext ::
  "routing option \<Rightarrow> string \<Rightarrow> (string \<rightharpoonup> routing) \<Rightarrow> routing \<times> (string \<rightharpoonup> routing)" where
  "FromContext ctx component loggers = (case ctx of
     Some l \<Rightarrow> (routing_WithAttrs [dataset_attr component] l, loggers)
   | None \<Rightarrow> Logger component loggers)"

definition log_Err :: "string option \<Rightarrow> log_attr option" where
  "log_Err err = map_option (\<lambda>text. (''error.message'', text)) err"

definition log_Stack :: "bytes \<Rightarrow> log_attr option" where
  "log_Stack buf = Some (''error.stack_trace'', buf)"

text \<open>\<^verbatim>\<open>Logger.Log\<close> of the library: nothing below the level.\<close>

definition logged :: "log_handler \<Rightarrow> routing \<Rightarrow> log_record \<Rightarrow> log_line option" where
  "logged installed l rec =
     (if routing_Enabled installed (lr_Level rec) then Some (routing_Handle installed l rec) else None)"

section \<open>Lemmas\<close>

lemma lower_level:
  "ToLower (level_String l) = (case l of LevelDebug \<Rightarrow> ''debug'' | LevelInfo \<Rightarrow> ''info'' | LevelWarn \<Rightarrow> ''warn''
     | LevelError \<Rightarrow> ''error'')"
proof -
  have "list_all is_ascii (level_String l)" by (cases l) (simp_all add: level_String_def is_ascii_def)
  from ToLower_fold [OF this] show ?thesis
    by (cases l) (simp_all add: level_String_def fold_name_def runes_ascii is_ascii_def fold_rune_def byte_string_def
        lower_char_def char_of_eq_iff take_bit_eq_mod)
qed

text \<open>The registry after any components asked for their loggers holds the logger each would be given anew.\<close>

definition asked :: "string list \<Rightarrow> string \<rightharpoonup> routing" where
  "asked cs = fold (\<lambda>c loggers. snd (Logger c loggers)) cs (\<lambda>_. None)"

lemma asked_loggers: "asked cs c = Some l \<Longrightarrow> l = routing_WithAttrs [dataset_attr c] []"
proof (induction cs arbitrary: l rule: rev_induct)
  case Nil
  then show ?case by (simp add: asked_def)
next
  case (snoc d cs)
  have "asked (cs @ [d]) = snd (Logger d (asked cs))" by (simp add: asked_def)
  with snoc show ?case by (auto simp: Logger_def Let_def split: option.splits if_splits)
qed

lemma FromContext_asked:
  "fst (FromContext ctx c (asked cs)) = (case ctx of None \<Rightarrow> [] | Some l \<Rightarrow> l) @ [slog_WithAttrs [dataset_attr c]]"
  using asked_loggers [of cs c]
  by (auto simp: FromContext_def Logger_def routing_WithAttrs_def Let_def split: option.splits)

section \<open>Properties\<close>

text \<open>
  Every line of a component carries what it should, once, in order: whichever loggers were made before, and whether
  before or after \<^verbatim>\<open>Setup\<close>, a line at or above the configured level has the three built-in fields (under
  their ECS names in the JSON format), the service's name and version there, the request's id exactly when it
  is logged for a request, the component's dataset, and its own attributes; and a line below the level is
  not written.
\<close>

theorem log_line_fields:
  "logged (log_Setup o0) (fst (FromContext (map_option RequestLogger rid) component (asked cs)))
     \<lparr>lr_Time = now, lr_Level = level, lr_Message = msg, lr_Attrs = attrs\<rparr>
   = (if level_num level < level_num (parseLevel (lo_Level o0)) then None
      else Some (map (\<lambda>a. ([], a))
        ((if text_format o0 then [(''time'', now), (''level'', level_String level), (''msg'', msg)]
          else [(''@timestamp'', now), (''log.level'', ToLower (level_String level)), (''message'', msg),
            (''service.name'', lo_Service o0), (''service.version'', lo_Version o0)])
         @ (case rid of None \<Rightarrow> [] | Some i \<Rightarrow> [(''http.request.id'', i)])
         @ [(''event.dataset'', ''central-config.'' @ component)]
         @ map (if text_format o0 then id else ecsKeys []) (List.map_filter id attrs))))"
  by (simp add: FromContext_asked logged_def routing_Enabled_def routing_Handle_def routing_resolve_def log_Setup_def
      slog_Handle_def slog_WithAttrs_def under_def map_filter_simps RequestLogger_def routing_WithAttrs_def dataset_attr_def
      datasetPrefix_def ecsKeys_def comp_def split: option.splits)

end
