(* ===== verification/Central_Main.thy ===== *)
theory Central_Main
  imports Obs_Log
begin

text \<open>
  The service's entry point, \<^verbatim>\<open>cmd/central-config/main.go\<close>, with \<^verbatim>\<open>internal/buildinfo\<close>: from the arguments and the
  environment to what is printed, to the lines \<^verbatim>\<open>main\<close> itself logs, to what is done to the database and to
  NATS, and the exit code. Loading \<^verbatim>\<open>.env\<close> is the parameter \<open>dotenv\<close>, and how the server's life ends is \<open>run_end\<close>.
\<close>

section \<open>Build identity\<close>

record build =
  bi_Version :: string
  bi_Commit :: string
  bi_Date :: string

definition unstamped :: build where
  "unstamped = \<lparr>bi_Version = ''dev'', bi_Commit = ''none'', bi_Date = ''unknown''\<rparr>"

definition buildinfo_String :: "build \<Rightarrow> string" where
  "buildinfo_String b = bi_Version b @ '' (commit '' @ bi_Commit b @ '', built '' @ bi_Date b @ '')''"

section \<open>How the server's life ends\<close>

text \<open>
  \<^verbatim>\<open>Run\<close> serves until a signal, then shuts down: all goes well, the server does not stop in time, or the database
  does not close. A server that fails while serving ends the process from its own goroutine.
\<close>

datatype run_end = Stopped | ShutdownFailed string | CloseFailed string | ServeFailed

definition app_Run :: "App \<Rightarrow> run_end \<Rightarrow> string option \<times> action list" where
  "app_Run a e = (case e of
     Stopped \<Rightarrow> (None, snd (run_shutdown a True True))
   | ShutdownFailed err \<Rightarrow> (Some err, snd (run_shutdown a False True))
   | CloseFailed err \<Rightarrow> (Some err, snd (run_shutdown a True False))
   | ServeFailed \<Rightarrow> (None, []))"

section \<open>The entry point\<close>

definition central_versionRequested :: "string list \<Rightarrow> bool" where
  "central_versionRequested args = (case args of [] \<Rightarrow> False
     | a # _ \<Rightarrow> a = ''version'' \<or> a = ''-version'' \<or> a = ''--version'')"

record main_result =
  mr_Stdout :: string
  mr_Lines :: "log_line option list"
  mr_Actions :: "action list"
  mr_Exit :: nat

definition startup_line :: "log_handler \<Rightarrow> string \<Rightarrow> log_level \<Rightarrow> string \<Rightarrow> log_attr option list \<Rightarrow> log_line option" where
  "startup_line handler now level msg attrs = logged handler (fst (Logger ''startup'' (\<lambda>_. None)))
     \<lparr>lr_Time = now, lr_Level = level, lr_Message = msg, lr_Attrs = attrs\<rparr>"

definition central_main ::
  "build \<Rightarrow> (os_env \<Rightarrow> bool \<times> os_env) \<Rightarrow> answers \<Rightarrow> (startup_err \<Rightarrow> string) \<Rightarrow> run_end \<Rightarrow> string \<Rightarrow> os_env \<Rightarrow> string list
     \<Rightarrow> main_result" where
  "central_main b dotenv an err_text e now env0 args =
     (if central_versionRequested args
      then \<lparr>mr_Stdout = ''central-config '' @ buildinfo_String b @ [CHR 0x0A], mr_Lines = [], mr_Actions = [], mr_Exit = 0\<rparr>
      else case dotenv env0 of (loaded, env) \<Rightarrow>
        (let cfg = LoadConfig env;
             line = startup_line (log_Setup (LogOptions_of cfg)) now;
             notes = (if loaded then []
               else [line LevelInfo ''no .env file found, using system environment variables'' []])
         in case NewApp an env cfg of
              (Inl err, acts) \<Rightarrow> \<lparr>mr_Stdout = [],
                mr_Lines = notes @ [line LevelError ''failed to initialize app'' [log_Err (Some (err_text err))]],
                mr_Actions = acts, mr_Exit = 1\<rparr>
            | (Inr app, acts) \<Rightarrow>
                (case app_Run app e of (failure, ending) \<Rightarrow>
                   \<lparr>mr_Stdout = [],
                    mr_Lines = notes @ (if failure = None then [] else [line LevelError ''failed to run app'' [log_Err failure]]),
                    mr_Actions = acts @ ending,
                    mr_Exit = (if failure \<noteq> None \<or> e = ServeFailed then 1 else 0)\<rparr>)))"

section \<open>What an exit means\<close>

lemma run_balance:
  "balance (snd (app_Run a e)) = (case e of Stopped \<Rightarrow> - 1 | CloseFailed _ \<Rightarrow> - 1 | _ \<Rightarrow> 0)"
  by (auto simp: app_Run_def run_shutdown_def Let_def balance_def split: run_end.splits)

lemma run_failure: "fst (app_Run a e) \<noteq> None \<or> e = ServeFailed \<longleftrightarrow> e \<noteq> Stopped"
  by (cases e) (simp_all add: app_Run_def)

text \<open>
  Asking for the version reads no configuration and dials nothing.
\<close>

lemma central_main_version:
  "central_versionRequested args \<Longrightarrow> central_main b dotenv an err_text e now env0 args
     = \<lparr>mr_Stdout = ''central-config '' @ buildinfo_String b @ [CHR 0x0A], mr_Lines = [], mr_Actions = [], mr_Exit = 0\<rparr>"
  by (simp add: central_main_def)

text \<open>
  Otherwise the exit code is 0 exactly when the application was built and stopped without a failure. Every database
  that was opened is then closed, as it is when the application could not be built; only a server that does not stop
  in time, or that fails while serving, leaves it open to the end of the process.
\<close>

theorem central_main_exit:
  assumes "\<not> central_versionRequested args" "dotenv env0 = (loaded, env)" "NewApp an env (LoadConfig env) = (r, acts)"
  shows "case central_main b dotenv an err_text e now env0 args of m \<Rightarrow>
     (mr_Exit m = 0 \<longleftrightarrow> (\<exists>app. r = Inr app) \<and> e = Stopped)
     \<and> balance (mr_Actions m)
        = (if (\<exists>app. r = Inr app) \<and> (e = ServeFailed \<or> (\<exists>err. e = ShutdownFailed err)) then 1 else 0)"
proof (cases r)
  case (Inl err)
  with assms NewApp_balance [OF assms(3)] show ?thesis
    by (simp add: central_main_def Let_def)
next
  case (Inr app)
  obtain failure ending where run: "app_Run app e = (failure, ending)"
    by (cases "app_Run app e")
  with assms Inr NewApp_balance [OF assms(3)] run_failure [of app e] run_balance [of app e] show ?thesis
    by (cases e) (simp_all add: central_main_def Let_def balance_simps)
qed

end
