(* ===== verification/Spec2Isabelle.thy ===== *)
theory Spec2Isabelle
  imports Client_Hydrate System_Bounds Settings_Mirror Loc_Mirror Admin_Tokens Rate_Limit_Laws Scope_Confinement Flags_Sqlite_Spec Documents_Sqlite App_Observe Console_Consumer Console_App Wire_Codecs App_Startup Scope_Writer Scoped_Rows Sqlite_Seed Obs_Exposition Central_Main
begin

text \<open>
  Verification development of Central-Config-Stream: a service that keeps feature flags, service settings and
  translation bundles in a relational database, serves them over an HTTP API, and distributes every change through
  NATS JetStream key-value buckets to consumers that watch them.

  \<^bold>\<open>How the program is put together.\<close> An administrator's request passes the middleware of \<^verbatim>\<open>internal/app\<close>
  (observation, address limiter, audit trail, router, write or read guard) and reaches a handler, which calls the
  service of its domain. The service validates, writes the database through its repository, and then publishes
  the row to its bucket, best effort. The reconciler sweeps the database into the buckets again, and prunes keys
  whose row is gone, so that a publish that failed is made good. A consumer runs \<^verbatim>\<open>pkg/configclient\<close>: it watches
  its environment's keys and answers from its cache, which it may first fill over HTTP. \<^verbatim>\<open>cmd/testconsole\<close> is a
  browser page over one such client, with a proxy to the API.

  \<^bold>\<open>What is modelled where.\<close> A string or a byte slice is a \<open>string\<close> with one character per byte, an instant the
  nanoseconds since the zero time, a pointer that may be nil an option, an error a value of a sum. State is passed
  explicitly: \<open>dbconn\<close> is the connection, \<open>'w\<close> the world of the JetStream client, \<open>'w app\<close> the two together,
  \<open>'w server\<close> those with the limiter and the audit trail.

  \<^item> Go's library, as far as it is used: \<open>Go_Strings\<close> (decimal text, splitting, trimming, runes), \<open>Go_Time\<close>,
    \<open>Go_Calendar\<close>, \<open>Go_Rfc3339\<close> (dates and the two layouts), \<open>Go_Json\<close> with \<open>Go_Json_Laws\<close>, \<open>Go_Json_Strings\<close>,
    \<open>Go_Json_Rows\<close>, \<open>Go_Json_Local\<close>, \<open>Go_Json_Utf8\<close> (scanner, compaction, encoder, member lookup and their laws).
  \<^item> Data and keys: \<open>Config_Model\<close> (the \<^verbatim>\<open>model.go\<close> files), \<open>Config_Keys\<close> (\<^verbatim>\<open>internal/messaging/keys.go\<close>).
  \<^item> The database: \<open>Config_Db\<close> (tables with their constraints, statements, transactions, and a script of what the
    environment does at each statement), \<open>Flags_Repo\<close>, \<open>Settings_Repo\<close>, \<open>Loc_Repo\<close> (the \<^verbatim>\<open>repository.go\<close> files);
    \<open>Sqlite_Time\<close>, \<open>Sqlite_Db\<close>, \<open>Flags_Sqlite\<close>, \<open>Settings_Sqlite\<close>, \<open>Loc_Sqlite\<close> (the \<^verbatim>\<open>repository_sqlite.go\<close>
    files and \<^verbatim>\<open>internal/database/sqlite.go\<close>).
  \<^item> The distribution plane: \<open>Kv_Publisher\<close> (\<^verbatim>\<open>kv.go\<close>, \<^verbatim>\<open>publisher.go\<close>, \<^verbatim>\<open>noop.go\<close>), \<open>Kv_Reconciler\<close>
    (\<^verbatim>\<open>reconciler.go\<close> and the sources of \<^verbatim>\<open>app.go\<close>).
  \<^item> Instrumentation: \<open>Obs_Metrics\<close>, \<open>Obs_Exposition\<close> (\<^verbatim>\<open>metrics.go\<close>, \<^verbatim>\<open>instruments.go\<close>), \<open>Obs_Log\<close> (\<^verbatim>\<open>log.go\<close>).
  \<^item> The services: \<open>Flags_Service\<close>, \<open>Settings_Service\<close> (settings and localization).
  \<^item> The API: \<open>Web_Request\<close> (\<^verbatim>\<open>internal/web\<close> and the JSON of the models), \<open>Web_Handlers\<close> (the \<^verbatim>\<open>handler.go\<close> files),
    \<open>Admin_Tokens\<close>, \<open>Write_Guard\<close>, \<open>Scope_Writer\<close> (\<^verbatim>\<open>middleware.go\<close>), \<open>Rate_Limit\<close>, \<open>Audit_Redact\<close>, \<open>Audit_Trail\<close>
    (\<^verbatim>\<open>internal/audit\<close>, \<^verbatim>\<open>audit_middleware.go\<close>), \<open>App_Inventory\<close>, \<open>App_Observe\<close>, \<open>App_Routes\<close> (\<^verbatim>\<open>NewRouter\<close> and the
    chain around it), \<open>App_Startup\<close> (\<^verbatim>\<open>config.go\<close>, \<^verbatim>\<open>NewApp\<close>, \<^verbatim>\<open>db.go\<close>, \<^verbatim>\<open>client.go\<close>, probes and shutdown),
    \<open>Central_Main\<close> (\<^verbatim>\<open>cmd/central-config\<close>, \<^verbatim>\<open>internal/buildinfo\<close>).
  \<^item> The consumers: \<open>Config_Client\<close>, \<open>Client_Fallback\<close> (\<^verbatim>\<open>pkg/configclient\<close>); \<open>Console_Consumer\<close>,
    \<open>Console_Proxy\<close>, \<open>Console_App\<close> (\<^verbatim>\<open>cmd/testconsole\<close>).

  \<^bold>\<open>What the lemmas show.\<close>

  \<^item> Invariants. Every statement keeps the tables well-formed under any failures and concurrent commits
    (\<open>Flags_Repo_Laws\<close>, \<open>Settings_Repo_Laws\<close>, \<open>Loc_Repo\<close>), the services keep all stored data valid
    (\<open>Flags_Service_Laws\<close>, \<open>System_Invariant\<close>), and a sound row always fits its key and bucket (\<open>System_Bounds\<close>).
  \<^item> Refinement. The flag repository implements a map from environment and key to state (\<open>Flags_Repo_Spec\<close>);
    the service with its publisher keeps the bucket equal to that map (\<open>Flags_Pipeline\<close>), and likewise settings
    and bundles, moves included (\<open>Document_Mirror\<close>, \<open>Settings_Mirror\<close>, \<open>Loc_Mirror\<close>). A publish is one atomic
    step under concurrent writers (\<open>Kv_Laws\<close>, \<open>Publish_Spec\<close>).
  \<^item> Convergence. A clean full sweep makes the bucket equal to the database, prunes only what it may, and its
    windows miss no row (\<open>Kv_Reconciler_Laws\<close>, \<open>Sweep_Convergence\<close>, \<open>Reconcile_Spec\<close>); a client that has caught up
    answers from the database's state (\<open>Client_Laws\<close>, \<open>Client_Spec\<close>), and the fallback only adds
    (\<open>Client_Hydrate\<close>).
  \<^item> Access. A scoped token writes inside its scope only (\<open>Scope_Writes\<close>, \<open>Scope_Confinement\<close>) and a scoped listing
    shows exactly the rows of the scope (\<open>Scoped_Rows\<close>), also call by call of its handler (\<open>Scope_Writer\<close>); a token configuration means what it spells
    (\<open>Admin_Tokens\<close>); the limiter bounds what a caller spends and isolates callers (\<open>Rate_Limit_Laws\<close>); redaction
    hides secrets (\<open>Audit_Redact\<close>); the console's proxy forwards only what passed its gates (\<open>Console_Proxy\<close>).
  \<^item> Codecs. What the API writes it reads back, and what it reads is typed (\<open>Wire_Codecs\<close>).
  \<^item> Equivalence. The SQLite repositories answer as the Postgres ones on calm connections and whole seconds
    (\<open>Flags_Sqlite_Laws\<close>, \<open>Flags_Sqlite_Spec\<close>, \<open>Documents_Sqlite\<close>), with the exceptions shown there; the seed of the
    local stack is sound and only adds (\<open>Sqlite_Seed\<close>).
  \<^item> Operation. Start-up is all or nothing (\<open>App_Startup\<close>), the exit code says how the process fared (\<open>Central_Main\<close>), a panic is answered and counted and the metrics stay
    bounded (\<open>App_Observe\<close>), a scrape prints every series once (\<open>Obs_Exposition\<close>), every log line carries its fields once (\<open>Obs_Log\<close>), the console's hub keeps the order and
    its connection loop ends (\<open>Console_Consumer\<close>), and a console that is told nothing stays on its machine
    (\<open>Console_App\<close>).

  \<^bold>\<open>Interfaces.\<close> Where one component relies on another the contract is a locale: \<open>flags_invariant\<close>,
  \<open>reference_invariant\<close>, \<open>settings_invariant\<close> and \<open>loc_invariant\<close> (an invariant that a domain's statements keep),
  \<open>flags_store\<close>, \<open>settings_store\<close> and \<open>loc_store\<close> (a repository as its service sees it), \<open>flags_refinement\<close> (a
  repository that implements the map of flags), \<open>agreeing_repositories\<close> (two repositories with the same answers),
  \<open>replica\<close> (a cache that follows the keys it watches), \<open>struct_codec\<close> (a record and its JSON), \<open>scoped_rows\<close> (rows
  that name their environment), \<open>response_writer\<close> (a writer that passes on what a handler sends). Each is interpreted with the model's own definitions, most of them several times.

  \<^bold>\<open>Parameters.\<close> Code outside the repository is an argument. The JetStream client is \<open>js_ops\<close>, with the documented
  laws \<open>kv_laws\<close>; \<open>Kv_Memory\<close> is a server that satisfies them, and every property that assumes them has an
  instance there. The HTTP client of the fallback is \<open>http_ops\<close>, the NATS side of a consumer \<open>client_env\<close>,
  URL and address parsing of the console \<open>netlib\<close>, the answers of the drivers at start-up \<open>answers\<close>, the text of a
  \<^verbatim>\<open>float64\<close> in a redacted body or on the metrics page \<open>num\<close>, the answer of \<^verbatim>\<open>ServeMux\<close> to a request no pattern matches \<open>unmatched\<close>. The
  driver's failures and other clients' commits are the \<open>script\<close> of a connection.

  \<^bold>\<open>Bounds and fuel.\<close> The JSON scanner takes \<open>scan_fuel\<close>, twice the length of the text plus two;
  \<open>scan_value_fuel\<close> shows that more fuel never changes the answer, so a refusal is the scanner's own. The nesting
  limit is Go's ten thousand. \<^verbatim>\<open>TrimSpace\<close> takes the length of the text, since every step removes a character, and
  so does \<^verbatim>\<open>ParseDuration\<close> (\<open>duration_fuel\<close>). The publish loop runs its three attempts, as the code does. The
  console's connection loop is a partial function whose termination is a property. Integers of 64 bits are \<open>int\<close>
  with the range written out at every parse; the program only compares them and prints them, and the paging
  counts at most the rows there are.

  \<^bold>\<open>Not modelled.\<close> The text of individual log messages, those of the entry point apart, is output that nothing
  reads back. Response headers other than
  \<^verbatim>\<open>Retry-After\<close>, the server's timeouts, the listening goroutine and the signal channel are left out. Of the
  console, the static page, the flushing of its event stream and the inside of the embedded NATS server are I/O. Counts and times
  in \<^verbatim>\<open>float64\<close> are exact rationals, so rounding is out of reach. Goroutines appear as sequences of steps: the
  mutexes of the code make each call of the limiter, the hub and the cache one step, a history of sweeps is a list of
  cycles, and concurrent clients of the database and of JetStream act between statements.
\<close>

end
